(* ===== verification/Prelude.thy ===== *)
theory Prelude
  imports Main "HOL-Library.Word" "HOL-Library.AList" "HOL-Library.Multiset"
    "HOL-Library.Sublist" "HOL-Library.Char_ord" "HOL-Library.List_Lexorder"
begin

text \<open>
  Shared vocabulary of the development: machine integers, errors, the fixed-capacity
  containers, C strings and time, with the lemmas the component theories use on them.

  The error type and the containers come from the Aos core library, which the repository
  only calls. What is fixed here is the part of their contract the calls rely on: an error
  is none or not none, and which of the codes named in the sources it carries; a static
  array or map is a list that refuses an insertion beyond its capacity and is otherwise
  unchanged by the refusal. Which code the library reports for a full container is not
  fixed: it is \<open>ELib\<close> with the operation's name.
\<close>

section \<open>Machine integers\<close>

type_synonym byte = "8 word"
type_synonym u32 = "32 word"
type_synonym u64 = "64 word"

text \<open>The errno values the sources name.\<close>

definition ENOENT :: int where "ENOENT = 2"
definition EIO :: int where "EIO = 5"
definition EINVAL :: int where "EINVAL = 22"
definition ECONNRESET :: int where "ECONNRESET = 104"

lemmas errno_defs = ENOENT_def EIO_def EINVAL_def ECONNRESET_def

lemma unat_of_nat_u32: "n < 2 ^ 32 \<Longrightarrow> unat (of_nat n :: u32) = n"
  by (simp add: unat_of_nat)

section \<open>Errors\<close>

text \<open>
  The codes of \<open>aos::ErrorEnum\<close> that the sources name. Messages and source locations,
  which \<open>AOS_ERROR_WRAP\<close> adds, are written to the log only and are left out.
\<close>

datatype ErrorEnum = eFailed | eRuntime | eNotFound | eInvalidArgument | eTimeout
  | eAlreadyExist | eWrongState | eNotSupported

datatype Error = ENone | EEnum ErrorEnum | EErrno int | ELib string

abbreviation IsNone :: "Error \<Rightarrow> bool" where
  "IsNone e \<equiv> e = ENone"

definition AOS_ERROR_WRAP :: "Error \<Rightarrow> Error" where
  [simp]: "AOS_ERROR_WRAP e = e"

text \<open>An integer result converted to an error: zero is none.\<close>

definition error_of_int :: "int \<Rightarrow> Error" where
  "error_of_int r = (if r = 0 then ENone else EErrno r)"

lemma error_of_int_none [simp]: "error_of_int r = ENone \<longleftrightarrow> r = 0"
  by (simp add: error_of_int_def)

lemma error_of_int_0 [simp]: "error_of_int 0 = ENone"
  by (simp add: error_of_int_def)

section \<open>Fixed-capacity containers\<close>

definition PushBack :: "nat \<Rightarrow> 'a list \<Rightarrow> 'a \<Rightarrow> 'a list \<times> Error" where
  "PushBack cap xs x =
     (if length xs < cap then (xs @ [x], ENone) else (xs, ELib ''PushBack''))"

lemma PushBack_room [simp]: "length xs < cap \<Longrightarrow> PushBack cap xs x = (xs @ [x], ENone)"
  by (simp add: PushBack_def)

lemma PushBack_full [simp]: "cap \<le> length xs \<Longrightarrow> PushBack cap xs x = (xs, ELib ''PushBack'')"
  by (simp add: PushBack_def)

lemma PushBack_none_iff: "PushBack cap xs x = (ys, ENone) \<longleftrightarrow> length xs < cap \<and> ys = xs @ [x]"
  by (auto simp: PushBack_def)

lemma PushBack_bound: "length xs \<le> cap \<Longrightarrow> length (fst (PushBack cap xs x)) \<le> cap"
  by (simp add: PushBack_def)

text \<open>A static map is an association list in insertion order.\<close>

definition map_Set :: "nat \<Rightarrow> 'k \<Rightarrow> 'v \<Rightarrow> ('k \<times> 'v) list \<Rightarrow> ('k \<times> 'v) list \<times> Error" where
  "map_Set cap k v m =
     (if map_of m k \<noteq> None \<or> length m < cap then (AList.update k v m, ENone)
      else (m, ELib ''Set''))"

definition map_Remove :: "'k \<Rightarrow> ('k \<times> 'v) list \<Rightarrow> ('k \<times> 'v) list \<times> Error" where
  "map_Remove k m =
     (if map_of m k \<noteq> None then (AList.delete k m, ENone) else (m, EEnum eNotFound))"

lemma length_update: "length (AList.update k v m) = (if map_of m k = None then Suc (length m) else length m)"
  by (induction m) auto

lemma length_delete_less: "length (AList.delete k m) \<le> length m"
  by (simp add: AList.delete_eq)

lemma map_Set_bound: "length m \<le> cap \<Longrightarrow> length (fst (map_Set cap k v m)) \<le> cap"
  by (auto simp: map_Set_def length_update)

lemma map_Set_lookup:
  "snd (map_Set cap k v m) = ENone \<Longrightarrow> map_of (fst (map_Set cap k v m)) = (map_of m)(k \<mapsto> v)"
  by (auto simp: map_Set_def update_conv' split: if_splits)

lemma map_Remove_lookup:
  "snd (map_Remove k m) = ENone \<Longrightarrow> map_of (fst (map_Remove k m)) = (map_of m)(k := None)"
  by (auto simp: map_Remove_def delete_conv' split: if_splits)

lemma map_Remove_bound: "length m \<le> cap \<Longrightarrow> length (fst (map_Remove k m)) \<le> cap"
  using length_delete_less [of k m] by (auto simp: map_Remove_def)

section \<open>Lists\<close>

lemma take_length_append [simp]: "take (length xs) (xs @ ys) = xs"
  by simp

lemma list_update_window:
  "off + length bs \<le> length xs \<Longrightarrow> length (take off xs @ bs @ drop (off + length bs) xs) = length xs"
  by simp

section \<open>C strings\<close>

text \<open>
  \<open>CStr()\<close> followed by \<open>strcpy\<close> keeps the characters before the first NUL.
\<close>

definition cstr :: "string \<Rightarrow> string" where
  "cstr s = takeWhile (\<lambda>c. c \<noteq> CHR 0x00) s"

definition no_nul :: "string \<Rightarrow> bool" where
  "no_nul s \<longleftrightarrow> CHR 0x00 \<notin> set s"

lemma cstr_no_nul [simp]: "no_nul s \<Longrightarrow> cstr s = s"
  by (auto simp: cstr_def no_nul_def takeWhile_eq_all_conv)

lemma no_nul_cstr [simp]: "no_nul (cstr s)"
  by (auto simp: cstr_def no_nul_def dest: set_takeWhileD)

section \<open>Time\<close>

text \<open>\<open>aos::Time\<close> carries a \<open>timespec\<close>; it is ordered by seconds, then nanoseconds.\<close>

datatype Time = Time (tv_sec: int) (tv_nsec: int)

instantiation Time :: linorder
begin

definition less_eq_Time :: "Time \<Rightarrow> Time \<Rightarrow> bool" where
  "less_eq_Time a b \<longleftrightarrow> tv_sec a < tv_sec b \<or> tv_sec a = tv_sec b \<and> tv_nsec a \<le> tv_nsec b"

definition less_Time :: "Time \<Rightarrow> Time \<Rightarrow> bool" where
  "less_Time a b \<longleftrightarrow> tv_sec a < tv_sec b \<or> tv_sec a = tv_sec b \<and> tv_nsec a < tv_nsec b"

instance
  by standard (auto simp: less_eq_Time_def less_Time_def intro: Time.expand)

end

definition nanoseconds :: "Time \<Rightarrow> int" where
  "nanoseconds t = tv_sec t * 1000000000 + tv_nsec t"

end
