(* ===== verification/Checksum.thy ===== *)
theory Checksum
  imports Prelude
begin

text \<open>
  \<open>src/utils/checksum.cpp\<close>: the SHA-256 digest that frames and stored records carry.
\<close>

section \<open>checksum.cpp\<close>

text \<open>
  The mbedTLS digest calls: the codes of starts, update and finish with the digest. An empty
  input gets the resized, otherwise untouched digest array.
\<close>

record sha_env =
  sh_blank :: "byte list"
  sh_starts :: int
  sh_update :: "byte list \<Rightarrow> int"
  sh_finish :: "byte list \<Rightarrow> int \<times> byte list"

definition CalculateSha256 :: "sha_env \<Rightarrow> byte list \<Rightarrow> byte list \<times> Error" where
  "CalculateSha256 env data =
     (if length data = 0 then (sh_blank env, ENone)
      else if sh_starts env \<noteq> 0 then (sh_blank env, AOS_ERROR_WRAP (error_of_int (sh_starts env)))
      else if sh_update env data \<noteq> 0 then (sh_blank env, AOS_ERROR_WRAP (error_of_int (sh_update env data)))
      else (case sh_finish env data of
        (ret, digest) \<Rightarrow>
          if ret \<noteq> 0 then (digest, AOS_ERROR_WRAP (error_of_int ret)) else (digest, ENone)))"

definition sha_ok :: "sha_env \<Rightarrow> bool" where
  "sha_ok env \<longleftrightarrow> length (sh_blank env) = 32 \<and> (\<forall>data. length (snd (sh_finish env data)) = 32)"

lemma CalculateSha256_size: "sha_ok env \<Longrightarrow> length (fst (CalculateSha256 env data)) = 32"
  by (auto simp: CalculateSha256_def sha_ok_def split: prod.splits) (metis snd_conv)+

section \<open>A digest for examples\<close>

definition zero_sha :: sha_env where
  "zero_sha = \<lparr>sh_blank = replicate 32 0, sh_starts = 0, sh_update = (\<lambda>_. 0), sh_finish = (\<lambda>_. (0, replicate 32 0))\<rparr>"

lemma zero_sha_ok: "sha_ok zero_sha"
  by (simp add: sha_ok_def zero_sha_def)

end
