(* ===== verification/Transport.thy ===== *)
theory Transport
  imports Prelude
begin

text \<open>
  The transports of \<open>src/communication\<close>: the interface \<open>TransportItf\<close> as a locale with
  the progress laws the channel manager relies on, and the TCP socket of
  \<open>socket.cpp\<close>, with the receive and send loops that turn the partial transfers of
  \<open>recv\<close> and \<open>send\<close> into exact ones.

  The kernel side of a connected stream socket is a schedule: what each \<open>recv\<close> will
  deliver (a segment, the end of the stream, an error), how much each \<open>send\<close> will
  accept, and the bytes sent so far. An exhausted schedule is a closed connection.
\<close>

section \<open>The POSIX stream socket\<close>

datatype recv_event = RSeg "byte list" | RClosed | RError int

datatype send_event = SAccept nat | SError int

record kernel =
  k_recv :: "recv_event list"
  k_send :: "send_event list"
  k_sent :: "byte list"

text \<open>
  One \<open>recv\<close> with a buffer of \<open>n\<close> bytes: the errno of a failure, or the bytes delivered
  (none at the end of the stream). A segment longer than the buffer is split.
\<close>

fun posix_recv :: "nat \<Rightarrow> kernel \<Rightarrow> (int + byte list) \<times> kernel" where
  "posix_recv n k =
     (case k_recv k of
        [] \<Rightarrow> (Inr [], k)
      | RClosed # es \<Rightarrow> (Inr [], k)
      | RError e # es \<Rightarrow> (Inl e, k\<lparr>k_recv := es\<rparr>)
      | RSeg bs # es \<Rightarrow>
          (if length bs \<le> n then (Inr bs, k\<lparr>k_recv := es\<rparr>)
           else (Inr (take n bs), k\<lparr>k_recv := RSeg (drop n bs) # es\<rparr>)))"

text \<open>One \<open>send\<close>: the errno of a failure, or how many bytes of \<open>bs\<close> were accepted.\<close>

fun posix_send :: "byte list \<Rightarrow> kernel \<Rightarrow> (int + nat) \<times> kernel" where
  "posix_send bs k =
     (case k_send k of
        [] \<Rightarrow> (Inr 0, k)
      | SError e # es \<Rightarrow> (Inl e, k\<lparr>k_send := es\<rparr>)
      | SAccept n # es \<Rightarrow>
          (Inr (min n (length bs)),
           k\<lparr>k_send := es, k_sent := k_sent k @ take n bs\<rparr>))"

declare posix_recv.simps [simp del] posix_send.simps [simp del]

section \<open>The transfer loops of socket.cpp\<close>

text \<open>
  \<open>Socket::ReadFromSocket\<close>: the result code, the bytes stored in the caller's buffer so
  far and the kernel state. Every round that does not return adds at least one byte.
\<close>

function ReadFromSocket :: "kernel \<Rightarrow> nat \<Rightarrow> byte list \<Rightarrow> int \<times> byte list \<times> kernel" where
  "ReadFromSocket k n data =
     (if length data < n then
        (case posix_recv (n - length data) k of
           (Inl errno, k') \<Rightarrow> (- errno, data, k')
         | (Inr bs, k') \<Rightarrow>
             (if length bs = 0 then (- ECONNRESET, data, k')
              else ReadFromSocket k' n (data @ bs)))
      else (int (length data), data, k))"
  by pat_completeness auto
termination
  by (relation "measure (\<lambda>(k, n, data). n - length data)") (auto simp: diff_less_mono2)

text \<open>\<open>Socket::WriteToSocket\<close>, with \<open>written\<close> bytes of \<open>data\<close> already sent.\<close>

function WriteToSocket :: "kernel \<Rightarrow> byte list \<Rightarrow> nat \<Rightarrow> int \<times> kernel" where
  "WriteToSocket k data written =
     (if written < length data then
        (case posix_send (drop written data) k of
           (Inl errno, k') \<Rightarrow> (- errno, k')
         | (Inr len, k') \<Rightarrow>
             (if len = 0 then (- ECONNRESET, k')
              else WriteToSocket k' data (written + len)))
      else (int written, k))"
  by pat_completeness auto
termination
  by (relation "measure (\<lambda>(k, data, written). length data - written)") auto

declare ReadFromSocket.simps [simp del] WriteToSocket.simps [simp del]

section \<open>The socket object\<close>

record Socket =
  sk_mServerAddress :: string
  sk_mServerPort :: int
  sk_mSocketFd :: int
  sk_mOpened :: bool
  sk_kernel :: kernel

text \<open>
  The results of the calls \<open>Open\<close> makes: the descriptor of \<open>socket\<close> (\<open>-1\<close> on failure),
  the result of \<open>inet_pton\<close> (positive on success), the result of \<open>connect\<close> (negative on
  failure) and the state of the new connection.
\<close>

record connect_env =
  ce_socket :: int
  ce_inet_pton :: int
  ce_connect :: int
  ce_kernel :: kernel

definition Socket_Init :: "Socket \<Rightarrow> string \<Rightarrow> int \<Rightarrow> Socket \<times> Error" where
  "Socket_Init s serverAddress serverPort =
     (s\<lparr>sk_mServerAddress := serverAddress, sk_mServerPort := serverPort, sk_mSocketFd := -1\<rparr>, ENone)"

definition Socket_Open :: "connect_env \<Rightarrow> Socket \<Rightarrow> Socket \<times> Error" where
  "Socket_Open env s0 =
     (let s = s0\<lparr>sk_mSocketFd := ce_socket env\<rparr> in
      if sk_mSocketFd s = -1 then (s, EEnum eRuntime)
      else if ce_inet_pton env \<le> 0 then (s\<lparr>sk_mSocketFd := -1\<rparr>, EEnum eRuntime)
      else if ce_connect env < 0 then (s\<lparr>sk_mSocketFd := -1\<rparr>, EEnum eRuntime)
      else (s\<lparr>sk_mOpened := True, sk_kernel := ce_kernel env\<rparr>, ENone))"

definition Socket_Close :: "Socket \<Rightarrow> Socket \<times> Error" where
  "Socket_Close s =
     (let s' = (if sk_mSocketFd s \<noteq> -1 then s\<lparr>sk_mSocketFd := -1\<rparr> else s)
      in (s'\<lparr>sk_mOpened := False\<rparr>, ENone))"

definition Socket_IsOpened :: "Socket \<Rightarrow> bool" where
  "Socket_IsOpened s = sk_mOpened s"

definition Socket_Read :: "Socket \<Rightarrow> nat \<Rightarrow> int \<times> byte list \<times> Socket" where
  "Socket_Read s n =
     (case ReadFromSocket (sk_kernel s) n [] of
        (ret, data, k) \<Rightarrow> (ret, data, s\<lparr>sk_kernel := k\<rparr>))"

definition Socket_Write :: "Socket \<Rightarrow> byte list \<Rightarrow> int \<times> Socket" where
  "Socket_Write s data =
     (case WriteToSocket (sk_kernel s) data 0 of (ret, k) \<Rightarrow> (ret, s\<lparr>sk_kernel := k\<rparr>))"

section \<open>What the kernel still holds\<close>

text \<open>The bytes that will arrive before the stream ends or fails.\<close>

fun pending :: "recv_event list \<Rightarrow> byte list" where
  "pending [] = []"
| "pending (RClosed # es) = []"
| "pending (RError e # es) = []"
| "pending (RSeg bs # es) = (if bs = [] then [] else bs @ pending es)"

text \<open>Errors are reported with a positive errno.\<close>

definition errnos_positive :: "kernel \<Rightarrow> bool" where
  "errnos_positive k \<longleftrightarrow>
     list_all (\<lambda>e. case e of RError n \<Rightarrow> 0 < n | _ \<Rightarrow> True) (k_recv k) \<and>
     list_all (\<lambda>e. case e of SError n \<Rightarrow> 0 < n | _ \<Rightarrow> True) (k_send k)"

lemma posix_recv_data:
  assumes "posix_recv n k = (Inr bs, k')" "bs \<noteq> []"
  shows "length bs \<le> n" "pending (k_recv k) = bs @ pending (k_recv k')"
    "k_sent k' = k_sent k" "k_send k' = k_send k"
  using assms by (auto simp: posix_recv.simps split: list.splits recv_event.splits if_splits)

lemma posix_recv_frame:
  "posix_recv n k = (r, k') \<Longrightarrow> k_sent k' = k_sent k \<and> k_send k' = k_send k"
  by (auto simp: posix_recv.simps split: list.splits recv_event.splits if_splits)

lemma posix_recv_positive:
  "posix_recv n k = (r, k') \<Longrightarrow> errnos_positive k \<Longrightarrow> errnos_positive k' \<and> (\<forall>e. r = Inl e \<longrightarrow> 0 < e)"
  by (auto simp: posix_recv.simps errnos_positive_def split: list.splits recv_event.splits if_splits)

lemma posix_send_accept:
  "posix_send bs k = (Inr len, k') \<Longrightarrow>
     len \<le> length bs \<and> k_sent k' = k_sent k @ take len bs \<and> k_recv k' = k_recv k"
  by (auto simp: posix_send.simps min_def split: list.splits send_event.splits)

lemma posix_send_error:
  "posix_send bs k = (Inl e, k') \<Longrightarrow> k_sent k' = k_sent k \<and> k_recv k' = k_recv k"
  by (auto simp: posix_send.simps split: list.splits send_event.splits)

lemma posix_send_positive:
  "posix_send bs k = (r, k') \<Longrightarrow> errnos_positive k \<Longrightarrow> errnos_positive k' \<and> (\<forall>e. r = Inl e \<longrightarrow> 0 < e)"
  by (auto simp: posix_send.simps errnos_positive_def split: list.splits send_event.splits)

section \<open>Correctness of the transfer loops\<close>

lemma ReadFromSocket_exact:
  assumes "ReadFromSocket k n data = (r, out, k')" "length data \<le> n" "errnos_positive k"
  shows "(r < 0 \<or> r = int n \<and> length out = n) \<and> k_sent k' = k_sent k \<and> errnos_positive k' \<and>
    (\<exists>bs. out = data @ bs \<and> (0 \<le> r \<longrightarrow> pending (k_recv k) = bs @ pending (k_recv k')))"
  using assms
proof (induction k n data arbitrary: r out k' rule: ReadFromSocket.induct)
  case (1 k n data)
  show ?case
  proof (cases "length data < n")
    case False
    then show ?thesis using 1(2-) by (auto simp: ReadFromSocket.simps [of k n data])
  next
    case True
    obtain res k1 where rc: "posix_recv (n - length data) k = (res, k1)" by fastforce
    note pos = posix_recv_positive [OF rc \<open>errnos_positive k\<close>] and frame = posix_recv_frame [OF rc]
    show ?thesis
    proof (cases res)
      case (Inl e)
      with True rc 1(2) pos frame show ?thesis
        by (auto simp: ReadFromSocket.simps [of k n data])
    next
      case (Inr bs)
      show ?thesis
      proof (cases "bs = []")
        case True
        with \<open>length data < n\<close> Inr rc 1(2) pos frame show ?thesis
          by (auto simp: ReadFromSocket.simps [of k n data] ECONNRESET_def)
      next
        case False
        note got = posix_recv_data [OF rc [unfolded Inr] False]
        from True False Inr rc 1(2) have step: "ReadFromSocket k1 n (data @ bs) = (r, out, k')"
          by (simp add: ReadFromSocket.simps [of k n data])
        have "length (data @ bs) \<le> n" using got(1) True by simp
        from 1(1) [OF True rc [symmetric] Inr _ step this] False pos got frame show ?thesis
          by auto
      qed
    qed
  qed
qed

text \<open>A receive of bytes that are pending succeeds; the errors come behind them.\<close>

lemma posix_recv_pending:
  assumes "posix_recv n k = (r, k')" "pending (k_recv k) \<noteq> []"
  shows "\<exists>bs. r = Inr bs \<and> (0 < n \<longrightarrow> bs \<noteq> [])"
proof -
  obtain e es where es: "k_recv k = e # es" using assms(2) by (cases "k_recv k") simp_all
  obtain bs where bs: "e = RSeg bs" "bs \<noteq> []" using assms(2) es by (cases e) (simp_all split: if_splits)
  have "fst (posix_recv n k) = Inr (take n bs)" by (simp add: posix_recv.simps [of n k] es bs(1))
  then show ?thesis using assms(1) bs(2) by simp
qed

lemma ReadFromSocket_available:
  assumes "ReadFromSocket k n data = (r, out, k')" "n \<le> length data + length (pending (k_recv k))"
  shows "0 \<le> r"
  using assms
proof (induction k n data arbitrary: r out k' rule: ReadFromSocket.induct)
  case (1 k n data)
  show ?case
  proof (cases "length data < n")
    case False
    then show ?thesis using 1(2) by (auto simp: ReadFromSocket.simps [of k n data])
  next
    case True
    obtain res k1 where rc: "posix_recv (n - length data) k = (res, k1)" by fastforce
    from True 1(3) have "pending (k_recv k) \<noteq> []" by auto
    with posix_recv_pending [OF rc] True obtain bs where bs: "res = Inr bs" "bs \<noteq> []" by fastforce
    note got = posix_recv_data [OF rc [unfolded bs(1)] bs(2)]
    have "ReadFromSocket k1 n (data @ bs) = (r, out, k')"
      using True rc bs 1(2) by (simp add: ReadFromSocket.simps [of k n data])
    moreover have "n \<le> length (data @ bs) + length (pending (k_recv k1))" using 1(3) got(2) by simp
    ultimately show ?thesis using 1(1) [OF True rc [symmetric] bs(1)] bs(2) by simp
  qed
qed

lemma WriteToSocket_exact:
  assumes "WriteToSocket k data written = (r, k')" "written \<le> length data" "errnos_positive k"
  shows "(r < 0 \<or> r = int (length data)) \<and> k_recv k' = k_recv k \<and> errnos_positive k' \<and>
    (0 \<le> r \<longrightarrow> k_sent k' = k_sent k @ drop written data)"
  using assms
proof (induction k data written arbitrary: r k' rule: WriteToSocket.induct)
  case (1 k data written)
  show ?case
  proof (cases "written < length data")
    case False
    then have "WriteToSocket k data written = (int written, k)"
      by (simp add: WriteToSocket.simps [of k data written])
    with False 1(2-) show ?thesis by auto
  next
    case True
    obtain res k1 where sn: "posix_send (drop written data) k = (res, k1)" by fastforce
    note pos = posix_send_positive [OF sn \<open>errnos_positive k\<close>]
    show ?thesis
    proof (cases res)
      case (Inl e)
      with True sn 1(2) pos posix_send_error [OF sn [unfolded Inl]] show ?thesis
        by (auto simp: WriteToSocket.simps [of k data written])
    next
      case (Inr len)
      note acc = posix_send_accept [OF sn [unfolded Inr]]
      show ?thesis
      proof (cases "len = 0")
        case True
        with \<open>written < length data\<close> Inr sn 1(2) pos acc show ?thesis
          by (auto simp: WriteToSocket.simps [of k data written] ECONNRESET_def)
      next
        case False
        from True False Inr sn 1(2) have step: "WriteToSocket k1 data (written + len) = (r, k')"
          by (simp add: WriteToSocket.simps [of k data written])
        have "written + len \<le> length data" using acc \<open>written < length data\<close> by auto
        from 1(1) [OF \<open>written < length data\<close> sn [symmetric] Inr False step this] pos acc
        have ih: "(r < 0 \<or> r = int (length data)) \<and> k_recv k' = k_recv k1 \<and> errnos_positive k' \<and>
          (0 \<le> r \<longrightarrow> k_sent k' = k_sent k1 @ drop (written + len) data)" by blast
        have "take len (drop written data) @ drop (written + len) data = drop written data"
          by (metis add.commute append_take_drop_id drop_drop)
        with ih acc show ?thesis by auto
      qed
    qed
  qed
qed

section \<open>The transport interface\<close>

text \<open>
  What a client of \<open>TransportItf\<close> relies on. \<open>incoming\<close> is the byte stream that is still
  to arrive, \<open>outgoing\<close> the one already sent. A transfer of at least one byte that does not
  fail makes progress and moves exactly the bytes it reports, and a read of bytes that are all still
  to arrive does not fail.
\<close>

locale transport =
  fixes read :: "'t \<Rightarrow> nat \<Rightarrow> int \<times> byte list \<times> 't"
    and "write" :: "'t \<Rightarrow> byte list \<Rightarrow> int \<times> 't"
    and incoming :: "'t \<Rightarrow> byte list"
    and outgoing :: "'t \<Rightarrow> byte list"
    and ok :: "'t \<Rightarrow> bool"
  assumes read_frame: "ok t \<Longrightarrow> read t n = (r, bs, t') \<Longrightarrow> ok t' \<and> outgoing t' = outgoing t"
    and read_progress: "ok t \<Longrightarrow> read t n = (r, bs, t') \<Longrightarrow> 0 \<le> r \<Longrightarrow> 0 < n \<Longrightarrow>
      0 < r \<and> r \<le> int n \<and> int (length bs) = r \<and> incoming t = bs @ incoming t'"
    and read_available: "ok t \<Longrightarrow> read t n = (r, bs, t') \<Longrightarrow> 0 < n \<Longrightarrow> n \<le> length (incoming t) \<Longrightarrow> 0 \<le> r"
    and write_frame: "ok t \<Longrightarrow> write t bs = (r, t') \<Longrightarrow> ok t' \<and> incoming t' = incoming t"
    and write_progress: "ok t \<Longrightarrow> write t bs = (r, t') \<Longrightarrow> 0 \<le> r \<Longrightarrow> bs \<noteq> [] \<Longrightarrow>
      0 < r \<and> r \<le> int (length bs) \<and> outgoing t' = outgoing t @ take (nat r) bs"

definition sk_incoming :: "Socket \<Rightarrow> byte list" where
  "sk_incoming s = pending (k_recv (sk_kernel s))"

definition sk_outgoing :: "Socket \<Rightarrow> byte list" where
  "sk_outgoing s = k_sent (sk_kernel s)"

definition sk_ok :: "Socket \<Rightarrow> bool" where
  "sk_ok s \<longleftrightarrow> errnos_positive (sk_kernel s)"

lemmas sk_view_defs = sk_incoming_def sk_outgoing_def sk_ok_def

lemma Socket_Read_exact:
  assumes "Socket_Read s n = (r, bs, s')" "sk_ok s"
  shows "sk_ok s' \<and> sk_outgoing s' = sk_outgoing s \<and> (r < 0 \<or> r = int n \<and> length bs = n) \<and>
    (0 \<le> r \<longrightarrow> sk_incoming s = bs @ sk_incoming s')"
proof -
  obtain k where "ReadFromSocket (sk_kernel s) n [] = (r, bs, k)" and s': "s' = s\<lparr>sk_kernel := k\<rparr>"
    using assms(1) by (auto simp: Socket_Read_def split: prod.splits)
  from ReadFromSocket_exact [OF this(1)] assms(2) s' show ?thesis
    by (auto simp: sk_view_defs)
qed

lemma Socket_Write_exact:
  assumes "Socket_Write s bs = (r, s')" "sk_ok s"
  shows "sk_ok s' \<and> sk_incoming s' = sk_incoming s \<and> (r < 0 \<or> r = int (length bs)) \<and>
    (0 \<le> r \<longrightarrow> sk_outgoing s' = sk_outgoing s @ bs)"
proof -
  obtain k where "WriteToSocket (sk_kernel s) bs 0 = (r, k)" and s': "s' = s\<lparr>sk_kernel := k\<rparr>"
    using assms(1) by (auto simp: Socket_Write_def split: prod.splits)
  from WriteToSocket_exact [OF this(1)] assms(2) s' show ?thesis
    by (auto simp: sk_view_defs)
qed

interpretation sock: transport Socket_Read Socket_Write sk_incoming sk_outgoing sk_ok
proof unfold_locales
  fix t t' :: Socket and n r bs
  show "sk_ok t \<Longrightarrow> Socket_Read t n = (r, bs, t') \<Longrightarrow> sk_ok t' \<and> sk_outgoing t' = sk_outgoing t"
    using Socket_Read_exact by blast
  show "sk_ok t \<Longrightarrow> Socket_Read t n = (r, bs, t') \<Longrightarrow> 0 \<le> r \<Longrightarrow> 0 < n \<Longrightarrow>
      0 < r \<and> r \<le> int n \<and> int (length bs) = r \<and> sk_incoming t = bs @ sk_incoming t'"
    using Socket_Read_exact [of t n r bs t'] by auto
  show "sk_ok t \<Longrightarrow> Socket_Read t n = (r, bs, t') \<Longrightarrow> 0 < n \<Longrightarrow> n \<le> length (sk_incoming t) \<Longrightarrow> 0 \<le> r"
    using ReadFromSocket_available [of "sk_kernel t" n "[]"] by (auto simp: Socket_Read_def sk_incoming_def split: prod.splits)
  show "sk_ok t \<Longrightarrow> Socket_Write t bs = (r, t') \<Longrightarrow> sk_ok t' \<and> sk_incoming t' = sk_incoming t"
    using Socket_Write_exact by blast
  show "sk_ok t \<Longrightarrow> Socket_Write t bs = (r, t') \<Longrightarrow> 0 \<le> r \<Longrightarrow> bs \<noteq> [] \<Longrightarrow>
      0 < r \<and> r \<le> int (length bs) \<and> sk_outgoing t' = sk_outgoing t @ take (nat r) bs"
    using Socket_Write_exact [of t bs r t'] by auto
qed

section \<open>The Xen virtual channel\<close>

text \<open>
  \<open>xenvchan.cpp\<close> over the vchan library, whose calls are parameters: \<open>vch_connect\<close> returns a
  code and a handle, \<open>vch_close\<close> releases a handle. \<open>'w\<close> is the state of the library.
\<close>

record 'h XenVChan =
  vc_mXSReadPath :: string
  vc_mXSWritePath :: string
  vc_mReadHandle :: 'h
  vc_mWriteHandle :: 'h
  vc_mOpened :: bool

definition XenVChan_Init :: "'h XenVChan \<Rightarrow> string \<Rightarrow> string \<Rightarrow> 'h XenVChan \<times> Error" where
  "XenVChan_Init v xsReadPath xsWritePath =
     (v\<lparr>vc_mXSReadPath := xsReadPath, vc_mXSWritePath := xsWritePath\<rparr>, ENone)"

definition XenVChan_Open ::
  "('w \<Rightarrow> string \<Rightarrow> int \<times> 'h \<times> 'w) \<Rightarrow> ('w \<Rightarrow> 'h \<Rightarrow> 'w) \<Rightarrow> ('h \<Rightarrow> 'h) \<Rightarrow>
   'h XenVChan \<Rightarrow> 'w \<Rightarrow> 'h XenVChan \<times> 'w \<times> Error" where
  "XenVChan_Open vch_connect vch_close set_blocking v w =
     (case vch_connect w (vc_mXSReadPath v) of
        (ret, rh, w1) \<Rightarrow>
          if ret \<noteq> 0 then (v\<lparr>vc_mReadHandle := rh\<rparr>, w1, AOS_ERROR_WRAP (error_of_int ret))
          else (case vch_connect w1 (vc_mXSWritePath v) of
            (ret, wh, w2) \<Rightarrow>
              if ret \<noteq> 0 then
                (v\<lparr>vc_mReadHandle := rh, vc_mWriteHandle := wh\<rparr>, vch_close w2 rh,
                 AOS_ERROR_WRAP (error_of_int ret))
              else
                (v\<lparr>vc_mReadHandle := set_blocking rh, vc_mWriteHandle := set_blocking wh,
                   vc_mOpened := True\<rparr>, w2, ENone)))"

definition XenVChan_Close ::
  "('w \<Rightarrow> 'h \<Rightarrow> 'w) \<Rightarrow> 'h XenVChan \<Rightarrow> 'w \<Rightarrow> 'h XenVChan \<times> 'w \<times> Error" where
  "XenVChan_Close vch_close v w =
     (v\<lparr>vc_mOpened := False\<rparr>, vch_close (vch_close w (vc_mReadHandle v)) (vc_mWriteHandle v), ENone)"

lemma XenVChan_Open_opened:
  "XenVChan_Open c cl sb v w = (v', w', e) \<Longrightarrow> e = ENone \<Longrightarrow> vc_mOpened v'"
  by (auto simp: XenVChan_Open_def split: prod.splits if_splits)

lemma XenVChan_Open_failed:
  "XenVChan_Open c cl sb v w = (v', w', e) \<Longrightarrow> e \<noteq> ENone \<Longrightarrow> vc_mOpened v' = vc_mOpened v"
  by (auto simp: XenVChan_Open_def split: prod.splits if_splits)

lemma XenVChan_Open_no_leak:
  assumes "c w (vc_mXSReadPath v) = (0, rh, w1)" "c w1 (vc_mXSWritePath v) = (r, wh, w2)" "r \<noteq> 0"
  shows "XenVChan_Open c cl sb v w =
    (v\<lparr>vc_mReadHandle := rh, vc_mWriteHandle := wh\<rparr>, cl w2 rh, EErrno r)"
  using assms by (simp add: XenVChan_Open_def error_of_int_def)

end
