(* ===== verification/Channel.thy ===== *)
theory Channel
  imports Prelude
begin

text \<open>
  \<open>src/communication/channel.cpp\<close>: the hand-over between the thread that reads a channel
  (\<open>Channel::Read\<close>) and the channel manager's thread, which copies received bytes straight
  into the reader's buffer between \<open>WaitRead\<close> and \<open>ReadDone\<close>.

  \<open>Read\<close> is split at its wait: \<open>Read_enter\<close> runs up to the wait, \<open>Read_wake\<close> from the wait
  to the next wait or the return. The reader's stack frame (its \<open>size\<close> and buffer while it
  waits, its result when it returned) is part of the model, so a write through \<open>mBuffer\<close> is
  a write into that buffer or, when no frame is live, a write to dead memory.
\<close>

section \<open>State\<close>

datatype reader =
    RIdle
  | RWaiting nat "byte list"
  | RReturned int "byte list"

record Channel =
  ch_mPort :: u32
  ch_mReadReady :: bool
  ch_mClose :: bool
  ch_mBuffer :: nat
  ch_mBufferLen :: nat
  ch_reader :: reader

definition Channel_new :: "u32 \<Rightarrow> Channel" where
  "Channel_new port =
     \<lparr>ch_mPort = port, ch_mReadReady = False, ch_mClose = False, ch_mBuffer = 0,
      ch_mBufferLen = 0, ch_reader = RIdle\<rparr>"

section \<open>Operations\<close>

text \<open>\<open>Connect\<close>, with the result of \<open>mCommunication->Connect()\<close>.\<close>

definition Channel_Connect :: "Error \<Rightarrow> Channel \<Rightarrow> Channel \<times> Error" where
  "Channel_Connect err c =
     (if err \<noteq> ENone then (c, err) else (c\<lparr>ch_mClose := False\<rparr>, ENone))"

definition Channel_Close :: "Channel \<Rightarrow> Channel \<times> Error" where
  "Channel_Close c = (c\<lparr>ch_mClose := True\<rparr>, ENone)"

text \<open>The loop head of \<open>Read\<close>: arm the next window, or return.\<close>

definition Read_head :: "Channel \<Rightarrow> nat \<Rightarrow> byte list \<Rightarrow> Channel" where
  "Read_head c n buf =
     (if ch_mBufferLen c < n then
        c\<lparr>ch_mReadReady := True, ch_mBuffer := ch_mBufferLen c,
          ch_mBufferLen := n - ch_mBufferLen c, ch_reader := RWaiting n buf\<rparr>
      else c\<lparr>ch_reader := RReturned (int n) buf\<rparr>)"

definition Read_enter :: "Channel \<Rightarrow> byte list \<Rightarrow> Channel" where
  "Read_enter c buf = Read_head (c\<lparr>ch_mBufferLen := 0\<rparr>) (length buf) buf"

text \<open>
  The reader wakes up: the wait failed with an errno, or its condition holds (otherwise it
  goes on waiting).
\<close>

definition Read_wake :: "int option \<Rightarrow> Channel \<Rightarrow> Channel" where
  "Read_wake failed c =
     (case ch_reader c of
        RWaiting n buf \<Rightarrow>
          (case failed of
             Some errno \<Rightarrow> c\<lparr>ch_reader := RReturned errno buf\<rparr>
           | None \<Rightarrow>
               if ch_mReadReady c \<and> \<not> ch_mClose c then c
               else if ch_mClose c then c\<lparr>ch_reader := RReturned (- ECONNRESET) buf\<rparr>
               else Read_head c n buf)
      | _ \<Rightarrow> c)"

text \<open>
  \<open>WaitRead\<close> at the moment its wait ends: by time-out when neither a reader nor a close
  arrived within \<open>cWaitReadPeriod\<close>.
\<close>

definition WaitRead :: "Channel \<Rightarrow> (nat \<times> nat) \<times> Error" where
  "WaitRead c =
     (if \<not> (ch_mReadReady c \<or> ch_mClose c) then ((0, 0), EEnum eTimeout)
      else if ch_mClose c then ((0, 0), EEnum eRuntime)
      else ((ch_mBuffer c, ch_mBufferLen c), ENone))"

definition ReadDone :: "nat \<Rightarrow> Channel \<Rightarrow> Channel \<times> Error" where
  "ReadDone n c = (c\<lparr>ch_mReadReady := False, ch_mBufferLen := n\<rparr>, ENone)"

text \<open>
  The channel manager's \<open>memcpy\<close> through the pointer \<open>WaitRead\<close> gave it. Only a waiting
  reader's buffer is live memory; with no reader the bytes go to a dead stack frame.
\<close>

definition poke :: "nat \<Rightarrow> byte list \<Rightarrow> Channel \<Rightarrow> Channel" where
  "poke off bs c =
     (case ch_reader c of
        RWaiting n buf \<Rightarrow>
          c\<lparr>ch_reader := RWaiting n (take off buf @ bs @ drop (off + length bs) buf)\<rparr>
      | _ \<Rightarrow> c)"

text \<open>\<open>Channel::Write\<close> and \<open>IsConnected\<close> delegate to the channel manager.\<close>

definition Channel_Write ::
  "(u32 \<Rightarrow> byte list \<Rightarrow> 'm \<Rightarrow> int \<times> 'm) \<Rightarrow> Channel \<Rightarrow> byte list \<Rightarrow> 'm \<Rightarrow> int \<times> 'm" where
  "Channel_Write communication_Write c bs m = communication_Write (ch_mPort c) bs m"

lemmas channel_defs = Channel_Connect_def Channel_Close_def Read_head_def Read_enter_def
  Read_wake_def WaitRead_def ReadDone_def poke_def

section \<open>One chunk of a frame\<close>

text \<open>
  The body of the loop of \<open>ChannelManager::ProcessData\<close> for the remaining bytes \<open>bs\<close>:
  wait for a reader, copy what fits its window, report it. The result is the error that
  ends the loop, or how many bytes were taken.
\<close>

definition deliver_chunk :: "byte list \<Rightarrow> Channel \<Rightarrow> (nat \<times> Channel) \<times> Error" where
  "deliver_chunk bs c =
     (case WaitRead c of
        ((off, len), err) \<Rightarrow>
          if err \<noteq> ENone then ((0, c), err)
          else
            (let n = min len (length bs);
                 (c', err) = ReadDone n (poke off (take n bs) c)
             in ((n, c'), err)))"

section \<open>The window invariant\<close>

text \<open>
  Whenever the channel offers a window, a reader waits for it and the window lies inside
  its buffer. This is what makes the \<open>memcpy\<close> of the channel manager safe.
\<close>

definition window_ok :: "Channel \<Rightarrow> bool" where
  "window_ok c \<longleftrightarrow>
     (case ch_reader c of
        RWaiting n buf \<Rightarrow> length buf = n \<and>
          (ch_mReadReady c \<longrightarrow> 0 < ch_mBufferLen c \<and> ch_mBuffer c + ch_mBufferLen c \<le> n)
      | _ \<Rightarrow> \<not> ch_mReadReady c)"

lemma window_ok_new: "window_ok (Channel_new port)"
  by (simp add: window_ok_def Channel_new_def)

lemma window_ok_Read_enter:
  "window_ok c \<Longrightarrow> ch_reader c = RIdle \<Longrightarrow> window_ok (Read_enter c buf)"
  by (auto simp: window_ok_def Read_enter_def Read_head_def)

lemma window_ok_Read_wake:
  "window_ok c \<Longrightarrow> \<not> ch_mClose c \<Longrightarrow> window_ok (Read_wake None c)"
  by (auto simp: window_ok_def Read_wake_def Read_head_def split: reader.splits)

lemma window_ok_deliver:
  assumes "window_ok c" "deliver_chunk bs c = ((n, c'), err)"
  shows "window_ok c'"
proof (cases "snd (WaitRead c) = ENone")
  case False
  with assms show ?thesis by (auto simp: deliver_chunk_def split: prod.splits)
next
  case True
  with assms show ?thesis
    by (auto simp: deliver_chunk_def WaitRead_def ReadDone_def poke_def window_ok_def Let_def
        split: reader.splits if_splits)
qed

section \<open>The system: one channel, its reader and the frames that arrive\<close>

text \<open>
  \<open>cs_frame\<close> is the rest of the frame the channel manager is delivering, \<open>cs_results\<close> what
  the completed reads returned, \<open>cs_interrupted\<close> whether some read has ended because the
  connection was closed or its wait failed.
\<close>

record chan_sys =
  cs_chan :: Channel
  cs_frame :: "byte list"
  cs_results :: "(int \<times> byte list) list"
  cs_interrupted :: bool

definition chan_sys_init :: "u32 \<Rightarrow> chan_sys" where
  "chan_sys_init port = \<lparr>cs_chan = Channel_new port, cs_frame = [], cs_results = [], cs_interrupted = False\<rparr>"

inductive chan_step :: "chan_sys \<Rightarrow> chan_sys \<Rightarrow> bool" where
  read_call: "ch_reader (cs_chan s) = RIdle \<Longrightarrow>
     chan_step s (s\<lparr>cs_chan := Read_enter (cs_chan s) buf\<rparr>)"
| read_wake: "ch_reader (cs_chan s) = RWaiting n buf \<Longrightarrow>
     \<not> ch_mReadReady (cs_chan s) \<or> ch_mClose (cs_chan s) \<Longrightarrow>
     chan_step s (s\<lparr>cs_chan := Read_wake None (cs_chan s), cs_interrupted := (cs_interrupted s \<or> ch_mClose (cs_chan s))\<rparr>)"
| read_fails: "ch_reader (cs_chan s) = RWaiting n buf \<Longrightarrow>
     chan_step s (s\<lparr>cs_chan := Read_wake (Some errno) (cs_chan s), cs_interrupted := True\<rparr>)"
| read_return: "ch_reader (cs_chan s) = RReturned r buf \<Longrightarrow>
     chan_step s (s\<lparr>cs_chan := (cs_chan s)\<lparr>ch_reader := RIdle\<rparr>,
                    cs_results := cs_results s @ [(r, buf)]\<rparr>)"
| frame_arrives: "cs_frame s = [] \<Longrightarrow> chan_step s (s\<lparr>cs_frame := bs\<rparr>)"
| deliver: "cs_frame s \<noteq> [] \<Longrightarrow> deliver_chunk (cs_frame s) (cs_chan s) = ((n, c), ENone) \<Longrightarrow>
     chan_step s (s\<lparr>cs_chan := c, cs_frame := drop n (cs_frame s)\<rparr>)"
| give_up: "cs_frame s \<noteq> [] \<Longrightarrow> snd (deliver_chunk (cs_frame s) (cs_chan s)) \<noteq> ENone \<Longrightarrow>
     chan_step s (s\<lparr>cs_frame := []\<rparr>)"
| close: "chan_step s (s\<lparr>cs_chan := fst (Channel_Close (cs_chan s))\<rparr>)"
| connect: "chan_step s (s\<lparr>cs_chan := fst (Channel_Connect ENone (cs_chan s))\<rparr>)"

text \<open>A run in which the connection stays up and no wait fails.\<close>

inductive open_run :: "chan_sys \<Rightarrow> chan_sys \<Rightarrow> bool" where
  open_refl: "open_run s s"
| open_step: "open_run s t \<Longrightarrow> chan_step t u \<Longrightarrow> \<not> ch_mClose (cs_chan u) \<Longrightarrow> \<not> cs_interrupted u \<Longrightarrow> open_run s u"

lemma deliver_chunk_mClose:
  "deliver_chunk bs c = ((n, c'), e) \<Longrightarrow> ch_mClose c' = ch_mClose c"
  by (auto simp: deliver_chunk_def ReadDone_def poke_def Let_def split: prod.splits if_splits reader.splits)

lemma window_ok_mClose [simp]: "window_ok (c\<lparr>ch_mClose := b\<rparr>) = window_ok c"
  by (simp add: window_ok_def split: reader.split)

lemma window_ok_idle: "ch_reader c = RReturned r buf \<Longrightarrow> window_ok c \<Longrightarrow> window_ok (c\<lparr>ch_reader := RIdle\<rparr>)"
  by (simp add: window_ok_def)

lemma chan_step_window_ok:
  assumes "chan_step s t" "window_ok (cs_chan s)" "\<not> ch_mClose (cs_chan s)" "\<not> cs_interrupted t"
  shows "window_ok (cs_chan t)"
  using assms
proof cases
  case (read_call buf)
  with assms show ?thesis by (simp add: window_ok_Read_enter)
next
  case (read_wake n buf)
  with assms show ?thesis by (simp add: window_ok_Read_wake)
next
  case (deliver n c)
  with assms show ?thesis using window_ok_deliver by force
next
  case (read_return r buf)
  with assms show ?thesis by (simp add: window_ok_idle)
next
  case (read_fails n buf errno)
  with assms show ?thesis by simp
qed (simp_all add: assms Channel_Close_def Channel_Connect_def)

text \<open>
  In every run, with closings and failing waits: a window that is armed without a waiting reader was left by a
  read that was interrupted.
\<close>

definition window_inv :: "chan_sys \<Rightarrow> bool" where
  "window_inv s \<longleftrightarrow>
     (case ch_reader (cs_chan s) of
        RWaiting n buf \<Rightarrow> length buf = n \<and>
          (ch_mReadReady (cs_chan s) \<longrightarrow> 0 < ch_mBufferLen (cs_chan s) \<and> ch_mBuffer (cs_chan s) + ch_mBufferLen (cs_chan s) \<le> n)
      | _ \<Rightarrow> ch_mReadReady (cs_chan s) \<longrightarrow> cs_interrupted s)"

lemma window_inv_deliver:
  assumes "window_inv s" "deliver_chunk bs (cs_chan s) = ((n, c), ENone)"
  shows "window_inv (s\<lparr>cs_chan := c, cs_frame := fs\<rparr>)"
  using assms
  by (auto simp: window_inv_def deliver_chunk_def WaitRead_def ReadDone_def poke_def Let_def split: reader.splits if_splits)

lemma chan_step_window_inv:
  assumes "chan_step s t" "window_inv s"
  shows "window_inv t"
  using assms
proof cases
  case (deliver n c)
  with assms(2) show ?thesis by (simp add: window_inv_deliver)
qed (auto simp: window_inv_def channel_defs split: reader.splits if_splits)

lemma chan_run_window_inv: "chan_step\<^sup>*\<^sup>* s t \<Longrightarrow> window_inv s \<Longrightarrow> window_inv t"
  by (induction rule: rtranclp_induct) (auto intro: chan_step_window_inv)

lemma open_run_window_ok:
  "open_run s t \<Longrightarrow> window_ok (cs_chan s) \<Longrightarrow> \<not> ch_mClose (cs_chan s) \<Longrightarrow>
    window_ok (cs_chan t) \<and> \<not> ch_mClose (cs_chan t)"
  by (induction rule: open_run.induct) (auto dest: chan_step_window_ok)

section \<open>A read that one frame satisfies\<close>

lemma Read_one_chunk:
  assumes "buf \<noteq> []" "length buf \<le> length bs" "\<not> ch_mClose c"
    "deliver_chunk bs (Read_enter c buf) = ((n, c'), e)"
  shows "n = length buf \<and> e = ENone \<and> \<not> ch_mClose c' \<and>
    ch_reader (Read_wake None c') = RReturned (int (length buf)) (take (length buf) bs) \<and>
    \<not> ch_mReadReady (Read_wake None c')"
  using assms
  by (auto simp: channel_defs deliver_chunk_def Let_def)

text \<open>
  One call of \<open>Read\<close> served by the frame being delivered: the reader enters, the channel
  manager copies a chunk, the reader wakes and returns to its caller.
\<close>

definition read_turn :: "nat \<Rightarrow> Channel \<times> byte list \<Rightarrow> reader \<times> Channel \<times> byte list" where
  "read_turn sz cf =
     (case cf of (c, frame) \<Rightarrow>
        (case deliver_chunk frame (Read_enter c (replicate sz 0)) of
           ((n, c'), _) \<Rightarrow>
             (ch_reader (Read_wake None c'), (Read_wake None c')\<lparr>ch_reader := RIdle\<rparr>, drop n frame)))"

fun read_turns :: "nat list \<Rightarrow> Channel \<times> byte list \<Rightarrow> reader list \<times> Channel \<times> byte list" where
  "read_turns [] cf = ([], cf)"
| "read_turns (n # ns) cf =
     (case read_turn n cf of (r, cf') \<Rightarrow>
        (case read_turns ns cf' of (rs, cf'') \<Rightarrow> (r # rs, cf'')))"

text \<open>A list cut into consecutive pieces of the given lengths.\<close>

fun cut :: "nat list \<Rightarrow> 'a list \<Rightarrow> 'a list list" where
  "cut [] xs = []"
| "cut (n # ns) xs = take n xs # cut ns (drop n xs)"

lemma concat_cut: "sum_list ns = length xs \<Longrightarrow> concat (cut ns xs) = xs"
  by (induction ns arbitrary: xs) auto

lemma read_turn_exact:
  assumes "0 < n" "n \<le> length frame" "\<not> ch_mClose c"
  obtains c' where "read_turn n (c, frame) = (RReturned (int n) (take n frame), c', drop n frame)"
    "\<not> ch_mClose c'" "ch_reader c' = RIdle" "\<not> ch_mReadReady c'"
proof -
  obtain k c1 e where d: "deliver_chunk frame (Read_enter c (replicate n 0)) = ((k, c1), e)"
    by (metis prod.collapse)
  have ne: "replicate n (0::byte) \<noteq> []" using assms(1) by simp
  have "\<not> ch_mClose (Read_wake None c1)"
    using Read_one_chunk [OF ne _ assms(3) d] assms(2)
    by (auto simp: Read_wake_def Read_head_def split: reader.splits)
  with Read_one_chunk [OF ne _ assms(3) d] assms(2) d that show thesis
    by (simp add: read_turn_def)
qed

lemma read_turns_exact:
  assumes "\<forall>n\<in>set ns. 0 < n" "sum_list ns \<le> length frame" "\<not> ch_mClose c"
  shows "fst (read_turns ns (c, frame)) = map2 (\<lambda>n b. RReturned (int n) b) ns (cut ns frame)"
  using assms
proof (induction ns arbitrary: c frame)
  case (Cons n ns)
  obtain c' where t: "read_turn n (c, frame) = (RReturned (int n) (take n frame), c', drop n frame)"
    and "\<not> ch_mClose c'"
    using Cons.prems by (auto elim: read_turn_exact [of n frame c])
  moreover have "fst (read_turns ns (c', drop n frame)) = map2 (\<lambda>n b. RReturned (int n) b) ns (cut ns (drop n frame))"
    using Cons.prems \<open>\<not> ch_mClose c'\<close> by (intro Cons.IH) auto
  ultimately show ?case by (auto split: prod.splits)
qed simp

section \<open>A read that two chunks would have to satisfy\<close>

text \<open>
  \<open>mBufferLen\<close> is what the last chunk brought, not what the read has so far: once a chunk
  fell short of the whole request, no later chunk can reach its size.
\<close>

definition short_window :: "nat \<Rightarrow> Channel \<Rightarrow> bool" where
  "short_window n c \<longleftrightarrow>
     (\<exists>buf. ch_reader c = RWaiting n buf \<and> length buf = n) \<and> 0 < ch_mBufferLen c \<and> ch_mBufferLen c < n"

lemma short_window_Read_wake:
  "short_window n c \<Longrightarrow> \<not> ch_mClose c \<Longrightarrow> short_window n (Read_wake None c)"
  by (auto simp: short_window_def Read_wake_def Read_head_def)

lemma short_window_deliver:
  assumes "short_window n c" "deliver_chunk bs c = ((k, c'), e)" "bs \<noteq> []"
    "window_ok c"
  shows "short_window n c'"
  using assms
  by (cases bs) (auto simp: short_window_def deliver_chunk_def WaitRead_def ReadDone_def poke_def
      Let_def window_ok_def split: if_splits)

lemma short_window_mClose [simp]: "short_window n (c\<lparr>ch_mClose := b\<rparr>) = short_window n c"
  by (simp add: short_window_def)

lemma chan_step_short_window:
  assumes "chan_step s t" "short_window n (cs_chan s)" "window_ok (cs_chan s)" "\<not> ch_mClose (cs_chan s)" "\<not> cs_interrupted t"
  shows "short_window n (cs_chan t)"
  using assms
proof cases
  case (read_wake n buf)
  with assms show ?thesis by (simp add: short_window_Read_wake)
next
  case (deliver k c)
  with assms short_window_deliver show ?thesis by fastforce
qed (use assms in \<open>auto simp: Channel_Close_def Channel_Connect_def short_window_def\<close>)

lemma open_run_short_window:
  "open_run s t \<Longrightarrow> short_window n (cs_chan s) \<Longrightarrow> window_ok (cs_chan s) \<Longrightarrow> \<not> ch_mClose (cs_chan s) \<Longrightarrow>
    short_window n (cs_chan t)"
proof (induction rule: open_run.induct)
  case (open_step s t u)
  then show ?case using open_run_window_ok chan_step_short_window by blast
qed

lemma deliver_short_window:
  assumes "deliver_chunk bs (Read_enter c buf) = ((k, c'), e)" "bs \<noteq> []" "length bs < length buf"
    "\<not> ch_mClose c"
  shows "short_window (length buf) c' \<and> window_ok c' \<and> \<not> ch_mClose c'"
proof -
  have "buf \<noteq> []" "bs \<noteq> []" using assms by auto
  with assms show ?thesis
    by (auto simp: channel_defs deliver_chunk_def Let_def short_window_def window_ok_def)
qed

section \<open>Properties\<close>


lemma chan_run_read:
  "chan_step\<^sup>*\<^sup>* (chan_sys_init port) (chan_sys_init port\<lparr>cs_chan := Read_enter (Channel_new port) [0,0]\<rparr>)"
  using r_into_rtranclp [of chan_step, OF chan_step.read_call [of "chan_sys_init port" "[0,0]"]]
  by (simp add: chan_sys_init_def Channel_new_def)


text \<open>C17. A frame is read as a stream: when the channel is open, consecutive reads of positive
  sizes that fit in the frame each return with the size they asked for, holding the
  consecutive pieces of the frame; reads that cover the frame return exactly its bytes.\<close>

theorem channel_reads_frame:
  assumes "\<forall>n\<in>set ns. 0 < n" "sum_list ns = length frame" "\<not> ch_mClose c"
  shows "\<exists>pieces. fst (read_turns ns (c, frame)) = map2 (\<lambda>n b. RReturned (int n) b) ns pieces \<and>
    map length pieces = ns \<and> concat pieces = frame"
proof (intro exI conjI)
  show "fst (read_turns ns (c, frame)) = map2 (\<lambda>n b. RReturned (int n) b) ns (cut ns frame)"
    using assms by (simp add: read_turns_exact)
  show "map length (cut ns frame) = ns"
    using eq_imp_le [OF assms(2)] by (induction ns arbitrary: frame) auto
qed (simp add: concat_cut assms)

lemma channel_reads_frame_witness:
  "\<exists>pieces. fst (read_turns [1, 2] (Channel_new 7, [10, 20, 30])) =
      map2 (\<lambda>n b. RReturned (int n) b) [1, 2] pieces \<and>
    map length pieces = [1, 2] \<and> concat pieces = [10, 20, 30]"
  by (rule channel_reads_frame) (simp_all add: Channel_new_def)

text \<open>A read of which a first chunk brings only a part never returns while the connection
  stays up, whatever arrives later: after the chunk, every run without a close keeps the
  reader waiting. \<open>Read\<close> compares with the requested size the length of the last chunk
  instead of the sum of the chunks.\<close>

theorem channel_split_read_stuck:
  assumes "deliver_chunk bs (Read_enter c buf) = ((k, c'), ENone)"
    and "bs \<noteq> []" "length bs < length buf" "\<not> ch_mClose c"
    and "open_run (s\<lparr>cs_chan := c'\<rparr>) t"
  shows "\<exists>buf'. ch_reader (cs_chan t) = RWaiting (length buf) buf'"
proof -
  have "short_window (length buf) (cs_chan t)"
    using open_run_short_window [OF assms(5)] deliver_short_window [OF assms(1-4)] by simp
  then show ?thesis by (auto simp: short_window_def)
qed

lemma channel_split_read_stuck_witness:
  "\<exists>buf'. ch_reader (Read_wake None (snd (fst (deliver_chunk [5] (Read_enter (Channel_new 1) [0, 0])))))
     = RWaiting 2 buf'"
proof -
  let ?c = "snd (fst (deliver_chunk [5] (Read_enter (Channel_new 1) [0, 0])))"
  let ?s = "chan_sys_init 1\<lparr>cs_chan := ?c\<rparr>"
  note ev = deliver_chunk_def channel_defs Channel_new_def Let_def
  have d: "deliver_chunk [5] (Read_enter (Channel_new 1) [0, 0]) = ((1, ?c), ENone)"
    by (simp add: ev)
  have "chan_step ?s (?s\<lparr>cs_chan := Read_wake None (cs_chan ?s), cs_interrupted := (cs_interrupted ?s \<or> ch_mClose (cs_chan ?s))\<rparr>)"
    by (rule chan_step.read_wake [of _ 2 "[5, 0]"]) (simp_all add: ev)
  from open_step [OF open_refl this]
  have "open_run ?s (?s\<lparr>cs_chan := Read_wake None (cs_chan ?s), cs_interrupted := (cs_interrupted ?s \<or> ch_mClose (cs_chan ?s))\<rparr>)"
    by (simp add: ev chan_sys_init_def)
  from channel_split_read_stuck [OF d _ _ _ this] show ?thesis by (simp add: Channel_new_def numeral_2_eq_2)
qed

text \<open>A read that \<open>Close\<close> interrupts returns \<open>-ECONNRESET\<close> but leaves its window armed:
  after the reader is gone and the channel was connected again, \<open>WaitRead\<close> still grants the
  old buffer, and the next bytes that arrive are taken from the frame and reach no reader.\<close>

theorem channel_stale_window:
  assumes "ch_reader c = RWaiting n buf" "ch_mReadReady c"
    and "c1 = Read_wake None (fst (Channel_Close c))"
    and "c2 = fst (Channel_Connect ENone (c1\<lparr>ch_reader := RIdle\<rparr>))"
  shows "ch_reader c1 = RReturned (- ECONNRESET) buf \<and>
    WaitRead c2 = ((ch_mBuffer c, ch_mBufferLen c), ENone) \<and>
    (\<exists>c3. deliver_chunk bs c2 = ((min (ch_mBufferLen c) (length bs), c3), ENone) \<and> ch_reader c3 = RIdle)"
  using assms by (simp add: channel_defs deliver_chunk_def Let_def)

lemma channel_stale_window_witness:
  "\<exists>c3. deliver_chunk [1, 2, 3] (fst (Channel_Connect ENone ((Read_wake None (fst (Channel_Close
      (Read_enter (Channel_new 1) [0, 0]))))\<lparr>ch_reader := RIdle\<rparr>))) = ((2, c3), ENone) \<and> ch_reader c3 = RIdle"
proof -
  have "ch_reader (Read_enter (Channel_new 1) [0, 0]) = RWaiting 2 [0, 0]"
    "ch_mReadReady (Read_enter (Channel_new 1) [0, 0])"
    "ch_mBufferLen (Read_enter (Channel_new 1) [0, 0]) = 2"
    by (simp_all add: Read_enter_def Read_head_def Channel_new_def)
  with channel_stale_window [OF this(1,2) refl refl, of "[1, 2, 3]"] show ?thesis by (simp add: numeral_2_eq_2)
qed

end
