(* ===== verification/ChannelManager.thy ===== *)
theory ChannelManager
  imports Transport Channel Checksum
begin

text \<open>
  \<open>src/communication/channelmanager.cpp\<close>: the
  multiplexing of up to four channels over one transport. The transport is a record of its
  virtual operations; the byte layout of the protocol header comes from the Aos common API
  and is a pair of parameters with its size.
\<close>

section \<open>Interfaces\<close>

text \<open>\<open>TransportItf\<close> of \<open>transport.hpp\<close>.\<close>

record 't TransportItf =
  ti_Open :: "'t \<Rightarrow> 't \<times> Error"
  ti_Close :: "'t \<Rightarrow> 't \<times> Error"
  ti_IsOpened :: "'t \<Rightarrow> bool"
  ti_Read :: "'t \<Rightarrow> nat \<Rightarrow> int \<times> byte list \<times> 't"
  ti_Write :: "'t \<Rightarrow> byte list \<Rightarrow> int \<times> 't"

definition socket_transport :: "connect_env \<Rightarrow> Socket TransportItf" where
  "socket_transport env =
     \<lparr>ti_Open = Socket_Open env, ti_Close = Socket_Close, ti_IsOpened = Socket_IsOpened,
      ti_Read = Socket_Read, ti_Write = Socket_Write\<rparr>"

lemma socket_transport_sel [simp]:
  "ti_Open (socket_transport env) = Socket_Open env" "ti_Close (socket_transport env) = Socket_Close"
  "ti_IsOpened (socket_transport env) = Socket_IsOpened"
  "ti_Read (socket_transport env) = Socket_Read" "ti_Write (socket_transport env) = Socket_Write"
  by (simp_all add: socket_transport_def)

record AosProtocolHeader =
  mPort :: u32
  mDataSize :: u32
  mCheckSum :: "byte list"

text \<open>The header's layout: its bytes, the header of some bytes, and \<open>sizeof\<close>.\<close>

record header_layout =
  hl_enc :: "AosProtocolHeader \<Rightarrow> byte list"
  hl_dec :: "byte list \<Rightarrow> AosProtocolHeader"
  hl_size :: nat

text \<open>The header is a packed structure whose checksum field is the digest's 32 bytes.\<close>

definition layout_ok :: "header_layout \<Rightarrow> bool" where
  "layout_ok hl \<longleftrightarrow> 0 < hl_size hl \<and>
     (\<forall>h. length (mCheckSum h) = 32 \<longrightarrow> length (hl_enc hl h) = hl_size hl \<and> hl_dec hl (hl_enc hl h) = h)"

section \<open>State\<close>

definition cMaxChannels :: nat where "cMaxChannels = 4"
definition cReadBufferSize :: nat where "cReadBufferSize = 65 * 1024"

record 't ChannelManager =
  cm_mTransport :: 't
  cm_mChannels :: "(u32 \<times> Channel) list"
  cm_mClose :: bool
  cm_mTmpReadBuffer :: "byte list"

definition ChannelManager_Init :: "'t \<Rightarrow> 't ChannelManager \<Rightarrow> 't ChannelManager \<times> Error" where
  "ChannelManager_Init tr cm = (cm\<lparr>cm_mTransport := tr\<rparr>, ENone)"

text \<open>\<open>Stop\<close> up to the join of the reading thread, which \<open>Run\<close> below ends on \<open>mClose\<close>.\<close>

definition ChannelManager_Stop :: "'t TransportItf \<Rightarrow> 't ChannelManager \<Rightarrow> 't ChannelManager \<times> Error" where
  "ChannelManager_Stop tr cm =
     (let cm' = (if ti_IsOpened tr (cm_mTransport cm)
                 then cm\<lparr>cm_mTransport := fst (ti_Close tr (cm_mTransport cm))\<rparr> else cm)
      in (cm'\<lparr>cm_mClose := True\<rparr>, ENone))"

definition CreateChannel :: "u32 \<Rightarrow> 't ChannelManager \<Rightarrow> 't ChannelManager \<times> Error" where
  "CreateChannel port cm =
     (case map_of (cm_mChannels cm) port of
        Some ch \<Rightarrow> (cm, ENone)
      | None \<Rightarrow>
          (case map_Set cMaxChannels port (Channel_new port) (cm_mChannels cm) of
             (m, err) \<Rightarrow> if err \<noteq> ENone then (cm, err) else (cm\<lparr>cm_mChannels := m\<rparr>, ENone)))"

definition DeleteChannel :: "u32 \<Rightarrow> 't ChannelManager \<Rightarrow> 't ChannelManager \<times> Error" where
  "DeleteChannel port cm =
     (case map_Remove port (cm_mChannels cm) of (m, err) \<Rightarrow> (cm\<lparr>cm_mChannels := m\<rparr>, err))"

text \<open>\<open>Connect\<close> when its wait ends; \<open>None\<close> while neither condition holds.\<close>

definition ChannelManager_Connect :: "'t TransportItf \<Rightarrow> 't ChannelManager \<Rightarrow> Error option" where
  "ChannelManager_Connect tr cm =
     (if \<not> (ti_IsOpened tr (cm_mTransport cm) \<or> cm_mClose cm) then None
      else if cm_mClose cm then Some (EEnum eRuntime) else Some ENone)"

definition ChannelManager_IsConnected :: "'t TransportItf \<Rightarrow> 't ChannelManager \<Rightarrow> bool" where
  "ChannelManager_IsConnected tr cm = ti_IsOpened tr (cm_mTransport cm)"

definition TryConnect :: "'t TransportItf \<Rightarrow> 't ChannelManager \<Rightarrow> 't ChannelManager \<times> Error" where
  "TryConnect tr cm =
     (if ti_IsOpened tr (cm_mTransport cm) then (cm, ENone)
      else (case ti_Open tr (cm_mTransport cm) of
        (t, err) \<Rightarrow> (cm\<lparr>cm_mTransport := t\<rparr>, err)))"

text \<open>The closing of every channel, in the order of the map.\<close>

definition CloseChannels :: "'t ChannelManager \<Rightarrow> 't ChannelManager" where
  "CloseChannels cm =
     cm\<lparr>cm_mChannels := map (\<lambda>(p, ch). (p, fst (Channel_Close ch))) (cm_mChannels cm)\<rparr>"

section \<open>Exact transfers over a transport\<close>

text \<open>
  The loops go on as long as the transport reports no error; a transport that keeps
  reporting zero bytes would hold them forever, hence the \<open>option\<close>.
\<close>

partial_function (option) ReadTransport ::
  "('t \<Rightarrow> nat \<Rightarrow> int \<times> byte list \<times> 't) \<Rightarrow> 't \<Rightarrow> nat \<Rightarrow> nat \<Rightarrow> byte list \<Rightarrow>
   (Error \<times> byte list \<times> 't) option" where
  [code]: "ReadTransport rd t n read data =
     (if read < n then
        (case rd t (n - read) of
           (ret, bs, t') \<Rightarrow>
             if ret < 0 then Some (AOS_ERROR_WRAP (error_of_int ret), data, t')
             else ReadTransport rd t' n (read + nat ret) (data @ bs))
      else if read \<noteq> n then Some (EEnum eFailed, data, t)
      else Some (ENone, data, t))"

partial_function (option) WriteTransport ::
  "('t \<Rightarrow> byte list \<Rightarrow> int \<times> 't) \<Rightarrow> 't \<Rightarrow> byte list \<Rightarrow> nat \<Rightarrow> (Error \<times> 't) option" where
  [code]: "WriteTransport wr t data written =
     (if written < length data then
        (case wr t (drop written data) of
           (ret, t') \<Rightarrow>
             if ret < 0 then Some (AOS_ERROR_WRAP (error_of_int ret), t')
             else WriteTransport wr t' data (written + nat ret))
      else if written \<noteq> length data then Some (EEnum eFailed, t)
      else Some (ENone, t))"

context transport
begin

text \<open>Over a transport that makes progress both loops end, with the exact transfer or an error.\<close>

lemma ReadTransport_total:
  "ok t \<Longrightarrow> rd \<le> n \<Longrightarrow> \<exists>e bs t'. ReadTransport read t n rd data = Some (e, data @ bs, t') \<and> ok t' \<and>
     outgoing t' = outgoing t \<and> (e = ENone \<longrightarrow> rd + length bs = n \<and> incoming t = bs @ incoming t')"
proof (induction "n - rd" arbitrary: t rd data rule: less_induct)
  case less
  show ?case
  proof (cases "rd < n")
    case False
    with less.prems show ?thesis by (simp add: ReadTransport.simps)
  next
    case True
    obtain ret bs t1 where r: "read t (n - rd) = (ret, bs, t1)" by (metis prod.exhaust)
    note frame = read_frame [OF less.prems(1) r]
    show ?thesis
    proof (cases "ret < 0")
      case neg: True
      with True r frame have "ReadTransport read t n rd data = Some (error_of_int ret, data @ [], t1)"
        by (simp add: ReadTransport.simps [of read t])
      with neg frame show ?thesis
        by (intro exI [of _ "error_of_int ret"] exI [of _ "[]"] exI [of _ t1]) auto
    next
      case False
      with True have p: "0 < ret" "ret \<le> int (n - rd)" "int (length bs) = ret" "incoming t = bs @ incoming t1"
        using read_progress [OF less.prems(1) r] by auto
      from True False r have st: "ReadTransport read t n rd data = ReadTransport read t1 n (rd + nat ret) (data @ bs)"
        by (simp add: ReadTransport.simps [of read t])
      have "n - (rd + nat ret) < n - rd" "rd + nat ret \<le> n" using p True by auto
      from less.hyps [OF this(1) conjunct1 [OF frame] this(2), of "data @ bs"]
      obtain e bs' t' where "ReadTransport read t1 n (rd + nat ret) (data @ bs) = Some (e, data @ (bs @ bs'), t')"
        "ok t'" "outgoing t' = outgoing t1"
        "e = ENone \<longrightarrow> rd + nat ret + length bs' = n \<and> incoming t1 = bs' @ incoming t'"
        by auto
      with st p frame show ?thesis by (intro exI [of _ e] exI [of _ "bs @ bs'"] exI [of _ t']) auto
    qed
  qed
qed

text \<open>Of bytes that are to arrive the loop takes just as many as it asks for, and does not fail.\<close>

lemma ReadTransport_available:
  "ok t \<Longrightarrow> rd + length bs = n \<Longrightarrow> incoming t = bs @ rest \<Longrightarrow>
     \<exists>t'. ReadTransport read t n rd data = Some (ENone, data @ bs, t') \<and> ok t' \<and> incoming t' = rest"
proof (induction "length bs" arbitrary: t rd bs data rule: less_induct)
  case less
  show ?case
  proof (cases "bs = []")
    case True
    with less.prems show ?thesis by (simp add: ReadTransport.simps)
  next
    case False
    with less.prems have lt: "rd < n" by auto
    obtain ret cs t1 where r: "read t (n - rd) = (ret, cs, t1)" by (metis prod.exhaust)
    have "0 \<le> ret" using read_available [OF less.prems(1) r] less.prems(2,3) lt by simp
    with read_progress [OF less.prems(1) r] lt have p: "0 < ret" "ret \<le> int (n - rd)" "int (length cs) = ret" "incoming t = cs @ incoming t1"
      by auto
    define bs' where "bs' = drop (length cs) bs"
    have le: "length cs \<le> length bs" using p(2,3) less.prems(2) by linarith
    have eq: "cs @ incoming t1 = bs @ rest" using p(4) less.prems(3) by simp
    have "take (length cs) bs = cs" using arg_cong [OF eq, of "take (length cs)"] le by simp
    then have "bs = cs @ bs'" unfolding bs'_def by (metis append_take_drop_id)
    with eq p(1,3) have bs: "bs = cs @ bs'" "incoming t1 = bs' @ rest" "length bs' < length bs" by auto
    have st: "ReadTransport read t n rd data = ReadTransport read t1 n (rd + nat ret) (data @ cs)"
      using lt r p(1) by (simp add: ReadTransport.simps [of read t])
    have "rd + nat ret + length bs' = n" using less.prems(2) p(3) bs(1) by auto
    from less.hyps [OF bs(3) conjunct1 [OF read_frame [OF less.prems(1) r]] this bs(2), of "data @ cs"] show ?thesis
      by (simp add: st bs(1))
  qed
qed

lemma WriteTransport_total:
  "ok t \<Longrightarrow> wn \<le> length data \<Longrightarrow> \<exists>e t'. WriteTransport write t data wn = Some (e, t') \<and> ok t' \<and>
     incoming t' = incoming t \<and> (e = ENone \<longrightarrow> outgoing t' = outgoing t @ drop wn data)"
proof (induction "length data - wn" arbitrary: t wn rule: less_induct)
  case less
  show ?case
  proof (cases "wn < length data")
    case False
    with less.prems show ?thesis by (simp add: WriteTransport.simps)
  next
    case True
    obtain ret t1 where w: "write t (drop wn data) = (ret, t1)" by (metis prod.exhaust)
    note frame = write_frame [OF less.prems(1) w]
    show ?thesis
    proof (cases "ret < 0")
      case neg: True
      with True w frame show ?thesis by (simp add: WriteTransport.simps [of "write" t])
    next
      case False
      with True have p: "0 < ret" "ret \<le> int (length data - wn)"
        "outgoing t1 = outgoing t @ take (nat ret) (drop wn data)"
        using write_progress [OF less.prems(1) w] by auto
      from True False w have st: "WriteTransport write t data wn = WriteTransport write t1 data (wn + nat ret)"
        by (simp add: WriteTransport.simps [of "write" t])
      have "length data - (wn + nat ret) < length data - wn" "wn + nat ret \<le> length data" using p True by auto
      from less.hyps [OF this(1) conjunct1 [OF frame] this(2)]
      obtain e t' where "WriteTransport write t1 data (wn + nat ret) = Some (e, t')" "ok t'"
        "incoming t' = incoming t1" "e = ENone \<longrightarrow> outgoing t' = outgoing t1 @ drop (wn + nat ret) data"
        by auto
      moreover have "take (nat ret) (drop wn data) @ drop (wn + nat ret) data = drop wn data"
        by (metis add.commute append_take_drop_id drop_drop)
      ultimately show ?thesis using st p frame by auto
    qed
  qed
qed

end

section \<open>Writing a frame\<close>

definition PrepareHeader :: "sha_env \<Rightarrow> u32 \<Rightarrow> byte list \<Rightarrow> AosProtocolHeader \<times> Error" where
  "PrepareHeader env port data =
     (case CalculateSha256 env data of
        (digest, err) \<Rightarrow>
          (\<lparr>mPort = port, mDataSize = of_nat (length data), mCheckSum = digest\<rparr>, AOS_ERROR_WRAP err))"

definition ChannelManager_Write ::
  "header_layout \<Rightarrow> sha_env \<Rightarrow> 't TransportItf \<Rightarrow> u32 \<Rightarrow> byte list \<Rightarrow> 't ChannelManager \<Rightarrow>
   (int \<times> 't ChannelManager) option" where
  "ChannelManager_Write hl env tr port data cm =
     (case PrepareHeader env port data of
        (header, err) \<Rightarrow>
          if err \<noteq> ENone then Some (- EINVAL, cm)
          else (case WriteTransport (ti_Write tr) (cm_mTransport cm) (hl_enc hl header) 0 of
            None \<Rightarrow> None
          | Some (err, t1) \<Rightarrow>
              if err \<noteq> ENone then Some (- EIO, cm\<lparr>cm_mTransport := t1\<rparr>)
              else (case WriteTransport (ti_Write tr) t1 data 0 of
                None \<Rightarrow> None
              | Some (err, t2) \<Rightarrow>
                  if err \<noteq> ENone then Some (- EIO, cm\<lparr>cm_mTransport := t2\<rparr>)
                  else Some (int (length data), cm\<lparr>cm_mTransport := t2\<rparr>))))"

section \<open>Receiving\<close>

text \<open>
  The copy loop of \<open>ProcessData\<close>. Before each wait the other threads act on the channel: the
  schedule lists these actions. When it is exhausted nobody acts any more, so that the next
  wait times out or finds the channel closed.
\<close>

fun deliver_frame :: "(Channel \<Rightarrow> Channel) list \<Rightarrow> byte list \<Rightarrow> Channel \<Rightarrow> Channel \<times> Error" where
  "deliver_frame [] bs c =
     (if bs = [] then (c, ENone)
      else (c, if ch_mClose c then EEnum eRuntime else EEnum eTimeout))"
| "deliver_frame (act # acts) bs c =
     (if bs = [] then (c, ENone)
      else (case deliver_chunk bs (act c) of
        ((n, c'), err) \<Rightarrow>
          if err \<noteq> ENone then (c', err) else deliver_frame acts (drop n bs) c'))"

definition ProcessData ::
  "(Channel \<Rightarrow> Channel) list \<Rightarrow> AosProtocolHeader \<Rightarrow> 't ChannelManager \<Rightarrow> 't ChannelManager \<times> Error" where
  "ProcessData acts header cm =
     (case map_of (cm_mChannels cm) (mPort header) of
        None \<Rightarrow> (cm, EEnum eNotFound)
      | Some ch \<Rightarrow>
          (case deliver_frame acts (take (unat (mDataSize header)) (cm_mTmpReadBuffer cm)) ch of
             (ch', err) \<Rightarrow>
               (cm\<lparr>cm_mChannels := AList.update (mPort header) ch' (cm_mChannels cm)\<rparr>, err)))"

text \<open>
  One round of \<open>HandleRead\<close>: \<open>None\<close> for a transfer that never ends; otherwise the error the
  function returns with, or no error value when it goes round again.
\<close>

definition HandleRead_step ::
  "header_layout \<Rightarrow> 't TransportItf \<Rightarrow> (Channel \<Rightarrow> Channel) list \<Rightarrow> 't ChannelManager \<Rightarrow>
   (Error option \<times> 't ChannelManager) option" where
  "HandleRead_step hl tr acts cm =
     (if cm_mClose cm then Some (Some ENone, cm)
      else if cm_mChannels cm = [] then Some (None, cm)
      else (case ReadTransport (ti_Read tr) (cm_mTransport cm) (hl_size hl) 0 [] of
        None \<Rightarrow> None
      | Some (err, hbytes, t1) \<Rightarrow>
          if err \<noteq> ENone then Some (Some err, cm\<lparr>cm_mTransport := t1\<rparr>)
          else
            (let header = hl_dec hl hbytes in
             if cReadBufferSize < unat (mDataSize header)
             then Some (Some (EEnum eRuntime), cm\<lparr>cm_mTransport := t1\<rparr>)
             else (case ReadTransport (ti_Read tr) t1 (unat (mDataSize header)) 0 [] of
               None \<Rightarrow> None
             | Some (err, payload, t2) \<Rightarrow>
                 (let cm' = cm\<lparr>cm_mTransport := t2,
                    cm_mTmpReadBuffer := payload @ drop (length payload) (cm_mTmpReadBuffer cm)\<rparr>
                  in if err \<noteq> ENone then Some (Some err, cm')
                     else Some (None, fst (ProcessData acts header cm')))))))"

text \<open>
  The thread of \<open>Run\<close>: at the top of its loop, in \<open>HandleRead\<close>, or ended. The pause of
  \<open>WaitTimeout\<close> changes nothing.
\<close>

datatype cm_phase = CmTop | CmReading | CmStopped

definition Run_step ::
  "header_layout \<Rightarrow> 't TransportItf \<Rightarrow> (Channel \<Rightarrow> Channel) list \<Rightarrow> cm_phase \<times> 't ChannelManager \<Rightarrow>
   (cm_phase \<times> 't ChannelManager) option" where
  "Run_step hl tr acts st =
     (case st of
        (CmStopped, cm) \<Rightarrow> Some (CmStopped, cm)
      | (CmTop, cm) \<Rightarrow>
          if cm_mClose cm then Some (CmStopped, cm)
          else (case TryConnect tr cm of
            (cm', err) \<Rightarrow> if err \<noteq> ENone then Some (CmTop, cm') else Some (CmReading, cm'))
      | (CmReading, cm) \<Rightarrow>
          (case HandleRead_step hl tr acts cm of
             None \<Rightarrow> None
           | Some (None, cm') \<Rightarrow> Some (CmReading, cm')
           | Some (Some err, cm') \<Rightarrow>
               Some (CmTop, CloseChannels
                 (cm'\<lparr>cm_mTransport := fst (ti_Close tr (cm_mTransport cm'))\<rparr>))))"

section \<open>Lemmas\<close>

lemma CloseChannels_closed:
  "map_of (cm_mChannels (CloseChannels cm)) port = Some ch \<Longrightarrow> ch_mClose ch"
  by (auto simp: CloseChannels_def Channel_Close_def dest!: map_of_SomeD)

lemma CloseChannels_port:
  "map_of (cm_mChannels (CloseChannels cm)) port =
     map_option (\<lambda>ch. fst (Channel_Close ch)) (map_of (cm_mChannels cm) port)"
  by (simp add: CloseChannels_def map_of_map)

lemma CloseChannels_mTransport [simp]: "cm_mTransport (CloseChannels cm) = cm_mTransport cm"
  by (simp add: CloseChannels_def)

text \<open>The action of a reader that comes back from its last read and asks for \<open>n\<close> more bytes.\<close>

definition next_read :: "nat \<Rightarrow> Channel \<Rightarrow> Channel" where
  "next_read n c = Read_enter ((Read_wake None c)\<lparr>ch_reader := RIdle\<rparr>) (replicate n 0)"

lemma Read_wake_mClose [simp]: "ch_mClose (Read_wake r c) = ch_mClose c"
  by (auto simp: Read_wake_def Read_head_def split: reader.split option.split)

lemma deliver_frame_reads:
  "\<forall>n\<in>set ns. 0 < n \<Longrightarrow> sum_list ns = length bs \<Longrightarrow> \<not> ch_mClose c \<Longrightarrow>
    snd (deliver_frame (map next_read ns) bs c) = ENone \<and> \<not> ch_mClose (fst (deliver_frame (map next_read ns) bs c))"
proof (induction ns arbitrary: bs c)
  case (Cons n ns)
  obtain k c' e where d: "deliver_chunk bs (next_read n c) = ((k, c'), e)" by (metis prod.collapse)
  have n: "replicate n (0::byte) \<noteq> []" "length (replicate n (0::byte)) \<le> length bs"
    "\<not> ch_mClose ((Read_wake None c)\<lparr>ch_reader := RIdle\<rparr>)"
    using Cons.prems by auto
  have "k = n \<and> e = ENone \<and> \<not> ch_mClose c'"
    using Read_one_chunk [OF n d [unfolded next_read_def]] by simp
  with Cons.IH [of "drop n bs" c'] Cons.prems d show ?case by auto
qed simp

section \<open>Frames over a transport\<close>

locale channel_transport =
  transport "ti_Read tr" "ti_Write tr" incoming outgoing ok
  for tr :: "'t TransportItf" and incoming outgoing :: "'t \<Rightarrow> byte list" and ok :: "'t \<Rightarrow> bool"
begin

lemma PrepareHeader_length:
  assumes "layout_ok hl" "sha_ok env"
  shows "length (hl_enc hl (fst (PrepareHeader env port data))) = hl_size hl"
  using assms(1) CalculateSha256_size [OF assms(2), of data]
  by (auto simp: layout_ok_def PrepareHeader_def split: prod.splits)

lemma PrepareHeader_dec:
  assumes "layout_ok hl" "sha_ok env"
  shows "hl_dec hl (hl_enc hl (fst (PrepareHeader env port data))) = fst (PrepareHeader env port data)"
  using assms(1) CalculateSha256_size [OF assms(2), of data]
  by (auto simp: layout_ok_def PrepareHeader_def split: prod.splits)

lemma Write_frame:
  assumes "ok (cm_mTransport cm)"
  shows "\<exists>r cm'. ChannelManager_Write hl env tr port data cm = Some (r, cm') \<and> ok (cm_mTransport cm') \<and>
    incoming (cm_mTransport cm') = incoming (cm_mTransport cm) \<and>
    (r < 0 \<or> r = int (length data) \<and> outgoing (cm_mTransport cm') =
       outgoing (cm_mTransport cm) @ hl_enc hl (fst (PrepareHeader env port data)) @ data)"
proof (cases "snd (PrepareHeader env port data) = ENone")
  case False
  with assms show ?thesis
    by (auto simp: ChannelManager_Write_def EINVAL_def split: prod.splits)
next
  case True
  then obtain h where h: "PrepareHeader env port data = (h, ENone)" by (metis prod.collapse)
  obtain e1 t1 where w1: "WriteTransport (ti_Write tr) (cm_mTransport cm) (hl_enc hl h) 0 = Some (e1, t1)"
    "ok t1" "incoming t1 = incoming (cm_mTransport cm)"
    "e1 = ENone \<longrightarrow> outgoing t1 = outgoing (cm_mTransport cm) @ hl_enc hl h"
    using WriteTransport_total [OF assms, of 0 "hl_enc hl h"] by auto
  obtain e2 t2 where w2: "WriteTransport (ti_Write tr) t1 data 0 = Some (e2, t2)"
    "ok t2" "incoming t2 = incoming t1" "e2 = ENone \<longrightarrow> outgoing t2 = outgoing t1 @ data"
    using WriteTransport_total [OF w1(2), of 0 data] by auto
  show ?thesis
    by (cases "e1 = ENone"; cases "e2 = ENone")
      (use h w1 w2 in \<open>simp_all add: ChannelManager_Write_def EIO_def\<close>)
qed

lemma HandleRead_step_total:
  assumes "ok (cm_mTransport cm)"
  shows "\<exists>r cm'. HandleRead_step hl tr acts cm = Some (r, cm')"
proof -
  obtain e1 b1 t1 where r1: "ReadTransport (ti_Read tr) (cm_mTransport cm) (hl_size hl) 0 [] = Some (e1, b1, t1)"
    "ok t1" using ReadTransport_total [OF assms, of 0 "hl_size hl" "[]"] by auto
  obtain e2 b2 t2 where r2: "ReadTransport (ti_Read tr) t1 (unat (mDataSize (hl_dec hl b1))) 0 [] = Some (e2, b2, t2)"
    using ReadTransport_total [OF r1(2), of 0 _ "[]"] by (metis bot_nat_0.extremum)
  show ?thesis using r1 r2 by (auto simp: HandleRead_step_def Let_def)
qed

lemma HandleRead_step_frame:
  assumes "ok (cm_mTransport cm)" "\<not> cm_mClose cm"
    and "map_of (cm_mChannels cm) port = Some ch" "length data \<le> cReadBufferSize"
    and "incoming (cm_mTransport cm) = hl_enc hl (fst (PrepareHeader env port data)) @ data @ rest"
    and "layout_ok hl" "sha_ok env"
  shows "\<exists>cm'. HandleRead_step hl tr acts cm = Some (None, cm') \<and> incoming (cm_mTransport cm') = rest \<and>
    map_of (cm_mChannels cm') = (map_of (cm_mChannels cm))(port \<mapsto> fst (deliver_frame acts data ch))"
proof -
  define h where "h = fst (PrepareHeader env port data)"
  have hp: "mPort h = port" and hs: "unat (mDataSize h) = length data"
    using assms(4) unfolding h_def
    by (auto simp: PrepareHeader_def unat_of_nat cReadBufferSize_def split: prod.splits)
  have len: "length (hl_enc hl h) = hl_size hl" using PrepareHeader_length [OF assms(6,7), of port data] by (simp add: h_def)
  obtain t1 where r1: "ReadTransport (ti_Read tr) (cm_mTransport cm) (hl_size hl) 0 [] = Some (ENone, hl_enc hl h, t1)"
    "ok t1" "incoming t1 = data @ rest"
    using ReadTransport_available [OF assms(1), of 0 "hl_enc hl h" "hl_size hl" "data @ rest" "[]"] assms(5) len
    by (auto simp: h_def)
  have dec: "hl_dec hl (hl_enc hl h) = h" using PrepareHeader_dec [OF assms(6,7)] by (simp add: h_def)
  obtain t2 where r2: "ReadTransport (ti_Read tr) t1 (length data) 0 [] = Some (ENone, data, t2)" "incoming t2 = rest"
    using ReadTransport_available [OF r1(2) _ r1(3), of 0 "length data" "[]"] by auto
  have "cm_mChannels cm \<noteq> []" using assms(3) by auto
  with r1 r2 assms(2-4) dec hs hp show ?thesis
    by (auto simp: HandleRead_step_def Let_def ProcessData_def update_conv' split: prod.splits)
qed

lemma HandleRead_step_oversized:
  assumes "ok (cm_mTransport cm)" "\<not> cm_mClose cm" "cm_mChannels cm \<noteq> []"
    and "incoming (cm_mTransport cm) = hl_enc hl h @ rest" "length (mCheckSum h) = 32"
    and "cReadBufferSize < unat (mDataSize h)" "layout_ok hl"
  shows "\<exists>err cm'. HandleRead_step hl tr acts cm = Some (Some err, cm') \<and> err \<noteq> ENone"
proof -
  obtain e1 b1 t1 where r1: "ReadTransport (ti_Read tr) (cm_mTransport cm) (hl_size hl) 0 [] = Some (e1, b1, t1)"
    "ok t1" "e1 = ENone \<longrightarrow> length b1 = hl_size hl \<and> incoming (cm_mTransport cm) = b1 @ incoming t1"
    using ReadTransport_total [OF assms(1), of 0 "hl_size hl" "[]"] by auto
  show ?thesis
  proof (cases "e1 = ENone")
    case False
    with r1 assms show ?thesis by (simp add: HandleRead_step_def)
  next
    case True
    with r1(3) assms(4,5,7) have "b1 = hl_enc hl h" "hl_dec hl b1 = h"
      by (auto simp: layout_ok_def append_eq_append_conv)
    with True r1 assms show ?thesis by (simp add: HandleRead_step_def Let_def)
  qed
qed

end

section \<open>A concrete layout\<close>

text \<open>For examples: port and size as four bytes each, most significant first, then the checksum.\<close>

definition u32_bytes :: "u32 \<Rightarrow> byte list" where
  "u32_bytes w = [ucast (drop_bit 24 w), ucast (drop_bit 16 w), ucast (drop_bit 8 w), ucast w]"

definition bytes_u32 :: "byte list \<Rightarrow> u32" where
  "bytes_u32 bs = word_cat (word_cat (bs ! 0) (bs ! 1) :: 16 word) (word_cat (bs ! 2) (bs ! 3) :: 16 word)"

lemma bytes_u32_bytes: "bytes_u32 (u32_bytes w @ bs) = w"
  unfolding bytes_u32_def u32_bytes_def
  by (rule bit_word_eqI) (auto simp: bit_simps nth_Cons' not_less)

lemma length_u32_bytes [simp]: "length (u32_bytes w) = 4"
  by (simp add: u32_bytes_def)

definition be_layout :: header_layout where
  "be_layout =
     \<lparr>hl_enc = (\<lambda>h. u32_bytes (mPort h) @ u32_bytes (mDataSize h) @ mCheckSum h),
      hl_dec = (\<lambda>bs. \<lparr>mPort = bytes_u32 bs, mDataSize = bytes_u32 (drop 4 bs), mCheckSum = drop 8 bs\<rparr>),
      hl_size = 40\<rparr>"

lemma be_layout_ok: "layout_ok be_layout"
  by (simp add: layout_ok_def be_layout_def bytes_u32_bytes)

section \<open>The socket as the channel manager's transport\<close>

interpretation sock_chan: channel_transport "socket_transport ce" sk_incoming sk_outgoing sk_ok for ce
  by unfold_locales (auto dest: sock.read_frame sock.write_frame sock.read_progress sock.read_available sock.write_progress)

section \<open>The channel map\<close>

text \<open>At most four channels, one per port, each knowing its port.\<close>

definition channels_ok :: "'t ChannelManager \<Rightarrow> bool" where
  "channels_ok cm \<longleftrightarrow> length (cm_mChannels cm) \<le> cMaxChannels \<and> distinct (map fst (cm_mChannels cm)) \<and>
     (\<forall>(p, ch) \<in> set (cm_mChannels cm). ch_mPort ch = p)"

lemma set_update_subset: "set (AList.update k v m) \<subseteq> insert (k, v) (set m)"
  by (induction m) auto

lemma set_delete_subset: "set (AList.delete k m) \<subseteq> set m"
  by (induction m) auto

lemma channels_ok_update:
  "channels_ok cm \<Longrightarrow> map_of (cm_mChannels cm) p \<noteq> None \<or> length (cm_mChannels cm) < cMaxChannels \<Longrightarrow>
    ch_mPort ch = p \<Longrightarrow> channels_ok (cm\<lparr>cm_mChannels := AList.update p ch (cm_mChannels cm)\<rparr>)"
  using set_update_subset [of p ch "cm_mChannels cm"]
  by (auto simp: channels_ok_def length_update distinct_update split: if_splits)

lemma channels_ok_CreateChannel: "channels_ok cm \<Longrightarrow> channels_ok (fst (CreateChannel port cm))"
  by (auto simp: CreateChannel_def map_Set_def Channel_new_def intro!: channels_ok_update split: option.splits prod.splits)

lemma channels_ok_DeleteChannel: "channels_ok cm \<Longrightarrow> channels_ok (fst (DeleteChannel port cm))"
  using length_delete_less [of port "cm_mChannels cm"] set_delete_subset [of port "cm_mChannels cm"]
  by (auto simp: DeleteChannel_def map_Remove_def channels_ok_def distinct_delete split: prod.splits)

lemma channels_ok_mTransport [simp]: "channels_ok (cm\<lparr>cm_mTransport := t\<rparr>) = channels_ok cm"
  "channels_ok (cm\<lparr>cm_mClose := b\<rparr>) = channels_ok cm"
  "channels_ok (cm\<lparr>cm_mTmpReadBuffer := bs\<rparr>) = channels_ok cm"
  by (simp_all add: channels_ok_def)

lemma ReadDone_mPort: "ch_mPort (fst (ReadDone n c)) = ch_mPort c"
  by (simp add: ReadDone_def)

lemma poke_mPort: "ch_mPort (poke off bs c) = ch_mPort c"
  by (simp add: poke_def split: reader.split)

lemma deliver_chunk_mPort: "deliver_chunk bs c = ((n, c'), e) \<Longrightarrow> ch_mPort c' = ch_mPort c"
  using ReadDone_mPort poke_mPort
  by (auto simp: deliver_chunk_def Let_def split: prod.splits if_splits) (metis fst_conv)

lemma deliver_frame_mPort:
  "\<forall>a\<in>set acts. \<forall>c. ch_mPort (a c) = ch_mPort c \<Longrightarrow> ch_mPort (fst (deliver_frame acts bs c)) = ch_mPort c"
  by (induction acts bs c rule: deliver_frame.induct) (auto dest: deliver_chunk_mPort split: prod.splits)

lemma channels_ok_ProcessData:
  assumes "\<forall>a\<in>set acts. \<forall>c. ch_mPort (a c) = ch_mPort c" "channels_ok cm"
  shows "channels_ok (fst (ProcessData acts h cm))"
proof (cases "map_of (cm_mChannels cm) (mPort h)")
  case (Some ch)
  then have "ch_mPort ch = mPort h" using assms(2) by (auto simp: channels_ok_def dest: map_of_SomeD)
  with Some assms deliver_frame_mPort [OF assms(1), of _ ch] show ?thesis
    by (auto simp: ProcessData_def intro!: channels_ok_update split: prod.splits) (metis fst_conv)
qed (simp add: ProcessData_def assms)

lemma channels_ok_HandleRead:
  assumes "HandleRead_step hl tr acts cm = Some (r, cm')" "channels_ok cm"
    "\<forall>a\<in>set acts. \<forall>c. ch_mPort (a c) = ch_mPort c"
  shows "channels_ok cm'"
  using assms(1,2)
  by (auto simp: HandleRead_step_def Let_def intro!: channels_ok_ProcessData [OF assms(3)]
      split: if_splits option.splits)

lemma channels_ok_CloseChannels: "channels_ok cm \<Longrightarrow> channels_ok (CloseChannels cm)"
  by (auto simp: channels_ok_def CloseChannels_def Channel_Close_def comp_def case_prod_beta)

lemma channels_ok_Run:
  assumes "Run_step hl tr acts (ph, cm) = Some (ph', cm')" "channels_ok cm"
    "\<forall>a\<in>set acts. \<forall>c. ch_mPort (a c) = ch_mPort c"
  shows "channels_ok cm'"
  using assms(1,2) channels_ok_HandleRead [OF _ _ assms(3)]
  by (auto simp: Run_step_def TryConnect_def split: cm_phase.splits if_splits option.splits prod.splits
      intro!: channels_ok_CloseChannels)

text \<open>The system: API calls of the clients and rounds of the manager's thread.\<close>

definition ChannelManager_new :: "'t \<Rightarrow> 't ChannelManager" where
  "ChannelManager_new t =
     \<lparr>cm_mTransport = t, cm_mChannels = [], cm_mClose = False, cm_mTmpReadBuffer = replicate cReadBufferSize 0\<rparr>"

inductive cm_reach :: "header_layout \<Rightarrow> sha_env \<Rightarrow> 't TransportItf \<Rightarrow> cm_phase \<times> 't ChannelManager \<Rightarrow> bool"
  for hl env tr where
  init: "cm_reach hl env tr (CmTop, ChannelManager_new t)"
| create: "cm_reach hl env tr (ph, cm) \<Longrightarrow> cm_reach hl env tr (ph, fst (CreateChannel port cm))"
| delete: "cm_reach hl env tr (ph, cm) \<Longrightarrow> cm_reach hl env tr (ph, fst (DeleteChannel port cm))"
| stop: "cm_reach hl env tr (ph, cm) \<Longrightarrow> cm_reach hl env tr (ph, fst (ChannelManager_Stop tr cm))"
| sent: "cm_reach hl env tr (ph, cm) \<Longrightarrow> ChannelManager_Write hl env tr port data cm = Some (r, cm') \<Longrightarrow>
    cm_reach hl env tr (ph, cm')"
| round: "cm_reach hl env tr (ph, cm) \<Longrightarrow> \<forall>a\<in>set acts. \<forall>c. ch_mPort (a c) = ch_mPort c \<Longrightarrow>
    Run_step hl tr acts (ph, cm) = Some (ph', cm') \<Longrightarrow> cm_reach hl env tr (ph', cm')"

lemma channels_ok_Write:
  "ChannelManager_Write hl env tr port data cm = Some (r, cm') \<Longrightarrow> channels_ok cm \<Longrightarrow> channels_ok cm'"
  by (auto simp: ChannelManager_Write_def split: prod.splits if_splits option.splits)

lemma cm_reach_channels_ok: "cm_reach hl env tr st \<Longrightarrow> channels_ok (snd st)"
proof (induction rule: cm_reach.induct)
  case (init t)
  show ?case by (simp add: channels_ok_def ChannelManager_new_def)
next
  case (stop ph cm)
  then show ?case by (simp add: ChannelManager_Stop_def Let_def)
next
  case (round ph cm acts ph' cm')
  then show ?case using channels_ok_Run by fastforce
qed (simp_all add: channels_ok_CreateChannel channels_ok_DeleteChannel channels_ok_Write)

section \<open>Properties\<close>

text \<open>The channel map stays well-formed: whatever the clients create, delete, send and
  stop, and however many rounds the reading thread makes, there are at most
  \<open>cMaxChannels\<close> channels, one per port, and each channel is bound to the port it is
  filed under.\<close>

theorem channel_map_invariant:
  assumes "cm_reach hl env tr (ph, cm)"
  shows "length (cm_mChannels cm) \<le> 4 \<and> distinct (map fst (cm_mChannels cm)) \<and>
    (\<forall>p ch. map_of (cm_mChannels cm) p = Some ch \<longrightarrow> ch_mPort ch = p)"
  using cm_reach_channels_ok [OF assms] by (auto simp: channels_ok_def cMaxChannels_def dest: map_of_SomeD)

lemma channel_map_invariant_witness:
  "length (cm_mChannels (fst (CreateChannel 5 (ChannelManager_new ())))) \<le> 4 \<and>
   map_of (cm_mChannels (fst (CreateChannel 5 (ChannelManager_new ())))) 5 = Some (Channel_new 5)"
  using channel_map_invariant [OF cm_reach.create [OF cm_reach.init]]
  by (simp add: CreateChannel_def map_Set_def ChannelManager_new_def cMaxChannels_def)

text \<open>C30. Sending on a channel over a socket always returns, and when it succeeds it has put on
  the stream exactly one frame: the header with the port, the size and the digest of the
  data, followed by the data.\<close>

theorem channel_write_frame:
  assumes "sk_ok (cm_mTransport cm)"
  shows "\<exists>r cm'. ChannelManager_Write hl env (socket_transport ce) port data cm = Some (r, cm') \<and>
    (r < 0 \<or> r = int (length data) \<and> sk_outgoing (cm_mTransport cm') =
       sk_outgoing (cm_mTransport cm) @
       hl_enc hl \<lparr>mPort = port, mDataSize = of_nat (length data), mCheckSum = fst (CalculateSha256 env data)\<rparr> @ data)"
  using sock_chan.Write_frame [OF assms, of hl env ce port data]
  by (auto simp: PrepareHeader_def split: prod.splits)

definition demo_kernel :: "recv_event list \<Rightarrow> kernel" where
  "demo_kernel es = \<lparr>k_recv = es, k_send = [SAccept 15, SAccept 100, SAccept 1, SAccept 100], k_sent = []\<rparr>"

definition demo_socket :: "recv_event list \<Rightarrow> Socket" where
  "demo_socket es = \<lparr>sk_mServerAddress = [], sk_mServerPort = 0, sk_mSocketFd = 3, sk_mOpened = True,
     sk_kernel = demo_kernel es\<rparr>"

lemma demo_socket_ok: "sk_ok (demo_socket [RSeg a, RSeg b])"
  by (simp add: sk_ok_def errnos_positive_def demo_socket_def demo_kernel_def)

definition demo_ce :: connect_env where
  "demo_ce = \<lparr>ce_socket = 3, ce_inet_pton = 1, ce_connect = 0, ce_kernel = demo_kernel []\<rparr>"

lemma channel_write_frame_witness:
  "\<exists>r cm'. ChannelManager_Write be_layout zero_sha (socket_transport demo_ce) 9 [1, 2, 3]
      (ChannelManager_new (demo_socket [RSeg [], RSeg []])) = Some (r, cm') \<and>
    (r < 0 \<or> r = 3 \<and> sk_outgoing (cm_mTransport cm') =
       u32_bytes 9 @ u32_bytes 3 @ replicate 32 0 @ [1, 2, 3])"
  using channel_write_frame [of "ChannelManager_new (demo_socket [RSeg [], RSeg []])" be_layout zero_sha demo_ce 9 "[1, 2, 3]"]
  by (simp add: ChannelManager_new_def demo_socket_ok be_layout_def CalculateSha256_def zero_sha_def)
    (simp add: demo_socket_def demo_kernel_def sk_outgoing_def)

text \<open>C1. What one manager sends the other dispatches to the same port: when the bytes a
  successful \<open>Write\<close> added to the stream are what arrives next, the next round of \<open>HandleRead\<close>
  of the receiving manager goes on without an error, has taken exactly this frame off the stream and delivered its
  data to the channel of that port, leaving the other channels alone.\<close>

theorem frame_end_to_end:
  assumes "layout_ok hl" "sha_ok env" "length data \<le> cReadBufferSize"
    and "sk_ok (cm_mTransport tx)" "ChannelManager_Write hl env (socket_transport ce) port data tx = Some (r, tx')" "0 \<le> r"
    and "sk_outgoing (cm_mTransport tx') = sk_outgoing (cm_mTransport tx) @ wire"
    and "sk_ok (cm_mTransport rx)" "sk_incoming (cm_mTransport rx) = wire @ rest"
    and "\<not> cm_mClose rx" "map_of (cm_mChannels rx) port = Some ch"
  shows "\<exists>rx'. HandleRead_step hl (socket_transport ce') acts rx = Some (None, rx') \<and> sk_incoming (cm_mTransport rx') = rest \<and>
    map_of (cm_mChannels rx') = (map_of (cm_mChannels rx))(port \<mapsto> fst (deliver_frame acts data ch))"
proof -
  have "wire = hl_enc hl (fst (PrepareHeader env port data)) @ data"
    using sock_chan.Write_frame [OF assms(4), of hl env ce port data] assms(5-7) by auto
  with assms(9) have "sk_incoming (cm_mTransport rx) = hl_enc hl (fst (PrepareHeader env port data)) @ data @ rest"
    by simp
  from sock_chan.HandleRead_step_frame [OF assms(8,10,11,3) this assms(1,2)] show ?thesis .
qed

definition demo_wire :: "byte list" where
  "demo_wire = u32_bytes 9 @ u32_bytes 3 @ replicate 32 0 @ [1, 2, 3]"

definition demo_tx :: "Socket ChannelManager" where
  "demo_tx = \<lparr>cm_mTransport = demo_socket [], cm_mChannels = [], cm_mClose = False, cm_mTmpReadBuffer = []\<rparr>"

definition demo_rx :: "Socket ChannelManager" where
  "demo_rx = \<lparr>cm_mTransport = demo_socket [RSeg (take 5 demo_wire), RSeg (drop 5 demo_wire @ [7])],
     cm_mChannels = [(9, Read_enter (Channel_new 9) [0, 0, 0])], cm_mClose = False, cm_mTmpReadBuffer = replicate 4 0\<rparr>"

lemmas transfer_simps = ReadTransport.simps WriteTransport.simps ReadFromSocket.simps WriteToSocket.simps
  posix_recv.simps posix_send.simps Socket_Read_def Socket_Write_def

lemma demo_write:
  "ChannelManager_Write be_layout zero_sha (socket_transport demo_ce) 9 [1, 2, 3] demo_tx =
     Some (3, demo_tx\<lparr>cm_mTransport := (demo_socket [])\<lparr>sk_kernel := \<lparr>k_recv = [], k_send = [], k_sent = demo_wire\<rparr>\<rparr>\<rparr>)"
  by (simp add: ChannelManager_Write_def PrepareHeader_def CalculateSha256_def zero_sha_def be_layout_def
      demo_tx_def demo_socket_def demo_kernel_def demo_wire_def u32_bytes_def transfer_simps
      numeral_eq_Suc)

lemma frame_end_to_end_witness:
  "\<exists>rx'. HandleRead_step be_layout (socket_transport demo_ce) [id] demo_rx = Some (None, rx') \<and> sk_incoming (cm_mTransport rx') = [7] \<and>
    map_of (cm_mChannels rx') = (map_of (cm_mChannels demo_rx))(9 \<mapsto>
       fst (deliver_frame [id] [1, 2, 3] (Read_enter (Channel_new 9) [0, 0, 0])))"
  by (rule frame_end_to_end [OF be_layout_ok zero_sha_ok _ _ demo_write, where wire = demo_wire])
    (simp_all add: cReadBufferSize_def demo_tx_def demo_rx_def demo_socket_def demo_kernel_def
      demo_wire_def sk_view_defs errnos_positive_def u32_bytes_def)

text \<open>When the reading thread leaves \<open>HandleRead\<close> the connection is torn down completely:
  the transport is closed, every channel is marked closed, and each reader that was waiting
  wakes up with \<open>-ECONNRESET\<close>.\<close>

theorem disconnect_wakes_readers:
  assumes "Run_step hl (socket_transport ce) acts (CmReading, cm) = Some (CmTop, cm')"
  shows "\<not> Socket_IsOpened (cm_mTransport cm') \<and>
    (\<forall>p ch. map_of (cm_mChannels cm') p = Some ch \<longrightarrow> ch_mClose ch \<and>
      (\<forall>n buf. ch_reader ch = RWaiting n buf \<longrightarrow>
        ch_reader (Read_wake None ch) = RReturned (- ECONNRESET) buf))"
proof -
  obtain cm1 where cm': "cm' = CloseChannels (cm1\<lparr>cm_mTransport := fst (Socket_Close (cm_mTransport cm1))\<rparr>)"
    using assms by (auto simp: Run_step_def split: option.splits prod.splits)
  have "\<not> Socket_IsOpened (cm_mTransport cm')"
    by (simp add: cm' Socket_Close_def Socket_IsOpened_def Let_def)
  moreover have "map_of (cm_mChannels cm') p = Some ch \<Longrightarrow> ch_mClose ch" for p ch
    unfolding cm' by (rule CloseChannels_closed)
  ultimately show ?thesis by (auto simp: Read_wake_def)
qed

lemma disconnect_wakes_readers_witness:
  "ch_reader (Read_wake None (fst (Channel_Close (Read_enter (Channel_new 9) [0, 0, 0]))))
     = RReturned (- ECONNRESET) [0, 0, 0]"
proof -
  let ?cm = "demo_rx\<lparr>cm_mTransport := demo_socket []\<rparr>"
  let ?cm' = "CloseChannels (?cm\<lparr>cm_mTransport := fst (Socket_Close (demo_socket []))\<rparr>)"
  have "Run_step be_layout (socket_transport demo_ce) [] (CmReading, ?cm) = Some (CmTop, ?cm')"
    by (simp add: Run_step_def HandleRead_step_def be_layout_def demo_rx_def transfer_simps demo_socket_def
        demo_kernel_def ECONNRESET_def Let_def)
  from disconnect_wakes_readers [OF this]
  have "\<forall>ch. map_of (cm_mChannels ?cm') 9 = Some ch \<longrightarrow> (\<forall>n buf. ch_reader ch = RWaiting n buf \<longrightarrow>
      ch_reader (Read_wake None ch) = RReturned (- ECONNRESET) buf)" by blast
  then show ?thesis
    by (simp add: CloseChannels_def demo_rx_def Channel_Close_def Read_enter_def Read_head_def)
qed

text \<open>A header that announces more data than the read buffer holds never reaches the copy
  into that buffer: \<open>HandleRead\<close> returns an error, which drops the connection.\<close>

theorem oversized_frame_refused:
  assumes "layout_ok hl" "sk_ok (cm_mTransport cm)" "\<not> cm_mClose cm" "cm_mChannels cm \<noteq> []"
    and "sk_incoming (cm_mTransport cm) = hl_enc hl h @ rest" "length (mCheckSum h) = 32"
    and "65 * 1024 < unat (mDataSize h)"
  shows "\<exists>err cm'. HandleRead_step hl (socket_transport ce) acts cm = Some (Some err, cm') \<and> err \<noteq> ENone"
  using sock_chan.HandleRead_step_oversized [OF assms(2-6) _ assms(1)] assms(7)
  by (simp add: cReadBufferSize_def)

lemma oversized_frame_refused_witness:
  "\<exists>err cm'. HandleRead_step be_layout (socket_transport demo_ce) []
     (demo_rx\<lparr>cm_mTransport := demo_socket [RSeg (u32_bytes 9 @ u32_bytes 70000 @ replicate 32 0)]\<rparr>)
     = Some (Some err, cm') \<and> err \<noteq> ENone"
  by (rule oversized_frame_refused [OF be_layout_ok, where h = "\<lparr>mPort = 9, mDataSize = 70000, mCheckSum = replicate 32 0\<rparr>"
        and rest = "[]"])
    (simp_all add: demo_rx_def demo_socket_def demo_kernel_def sk_view_defs errnos_positive_def be_layout_def u32_bytes_def)

end
