(* ===== verification/VChan.thy ===== *)
theory VChan
  imports ChannelManager
begin

text \<open>
  \<open>src/communication/xenvchan.cpp\<close> as the transport of the channel manager: reading and writing over the vchan
  library, whose calls are parameters on its state \<open>'w\<close>, and what the library promises of blocking
  handles. \<open>vl_blocking\<close>, \<open>vl_in\<close> and \<open>vl_out\<close> say whether a handle blocks, what is
  still to be read from it and what has been written to it; the code cannot see them.
\<close>

record ('h, 'w) vch_lib =
  vl_connect :: "'w \<Rightarrow> string \<Rightarrow> int \<times> 'h \<times> 'w"
  vl_close :: "'w \<Rightarrow> 'h \<Rightarrow> 'w"
  vl_set_blocking :: "'h \<Rightarrow> 'h"
  vl_read :: "'w \<Rightarrow> 'h \<Rightarrow> nat \<Rightarrow> int \<times> byte list \<times> 'h \<times> 'w"
  vl_write :: "'w \<Rightarrow> 'h \<Rightarrow> byte list \<Rightarrow> int \<times> 'h \<times> 'w"
  vl_blocking :: "'h \<Rightarrow> bool"
  vl_in :: "'w \<Rightarrow> 'h \<Rightarrow> byte list"
  vl_out :: "'w \<Rightarrow> 'h \<Rightarrow> byte list"

section \<open>Operations\<close>

definition XenVChan_Read :: "('h, 'w) vch_lib \<Rightarrow> 'h XenVChan \<times> 'w \<Rightarrow> nat \<Rightarrow> int \<times> byte list \<times> 'h XenVChan \<times> 'w" where
  "XenVChan_Read lib t n =
     (case vl_read lib (snd t) (vc_mReadHandle (fst t)) n of
        (r, bs, h, w) \<Rightarrow> (r, bs, (fst t)\<lparr>vc_mReadHandle := h\<rparr>, w))"

definition XenVChan_Write :: "('h, 'w) vch_lib \<Rightarrow> 'h XenVChan \<times> 'w \<Rightarrow> byte list \<Rightarrow> int \<times> 'h XenVChan \<times> 'w" where
  "XenVChan_Write lib t bs =
     (case vl_write lib (snd t) (vc_mWriteHandle (fst t)) bs of
        (r, h, w) \<Rightarrow> (r, (fst t)\<lparr>vc_mWriteHandle := h\<rparr>, w))"

definition vchan_transport :: "('h, 'w) vch_lib \<Rightarrow> ('h XenVChan \<times> 'w) TransportItf" where
  "vchan_transport lib =
     \<lparr>ti_Open = (\<lambda>(v, w). case XenVChan_Open (vl_connect lib) (vl_close lib) (vl_set_blocking lib) v w of (v, w, err) \<Rightarrow> ((v, w), err)),
      ti_Close = (\<lambda>(v, w). case XenVChan_Close (vl_close lib) v w of (v, w, err) \<Rightarrow> ((v, w), err)),
      ti_IsOpened = (\<lambda>(v, w). vc_mOpened v), ti_Read = XenVChan_Read lib, ti_Write = XenVChan_Write lib\<rparr>"

lemma vchan_transport_sel [simp]:
  "ti_Read (vchan_transport lib) = XenVChan_Read lib" "ti_Write (vchan_transport lib) = XenVChan_Write lib"
  by (simp_all add: vchan_transport_def)

section \<open>The library's contract\<close>

text \<open>
  A blocking call that does not fail transfers at least one byte and at most the buffer, and a read of bytes that are
  all there does not fail; reading does not change what
  has been written, nor writing what is to be read, and handles stay blocking.
\<close>

definition vch_ok :: "('h, 'w) vch_lib \<Rightarrow> bool" where
  "vch_ok lib \<longleftrightarrow>
     (\<forall>h. vl_blocking lib (vl_set_blocking lib h)) \<and>
     (\<forall>w h n r bs h' w'. vl_read lib w h n = (r, bs, h', w') \<longrightarrow> vl_blocking lib h \<longrightarrow>
        vl_blocking lib h' \<and> (\<forall>g. vl_out lib w' g = vl_out lib w g) \<and>
        (0 \<le> r \<longrightarrow> 0 < n \<longrightarrow> 0 < r \<and> r \<le> int n \<and> int (length bs) = r \<and> vl_in lib w h = bs @ vl_in lib w' h') \<and>
        (0 < n \<longrightarrow> n \<le> length (vl_in lib w h) \<longrightarrow> 0 \<le> r)) \<and>
     (\<forall>w h bs r h' w'. vl_write lib w h bs = (r, h', w') \<longrightarrow> vl_blocking lib h \<longrightarrow>
        vl_blocking lib h' \<and> (\<forall>g. vl_in lib w' g = vl_in lib w g) \<and>
        (0 \<le> r \<longrightarrow> bs \<noteq> [] \<longrightarrow> 0 < r \<and> r \<le> int (length bs) \<and> vl_out lib w' h' = vl_out lib w h @ take (nat r) bs))"

definition vc_incoming :: "('h, 'w) vch_lib \<Rightarrow> 'h XenVChan \<times> 'w \<Rightarrow> byte list" where
  "vc_incoming lib t = vl_in lib (snd t) (vc_mReadHandle (fst t))"

definition vc_outgoing :: "('h, 'w) vch_lib \<Rightarrow> 'h XenVChan \<times> 'w \<Rightarrow> byte list" where
  "vc_outgoing lib t = vl_out lib (snd t) (vc_mWriteHandle (fst t))"

definition vc_ok :: "('h, 'w) vch_lib \<Rightarrow> 'h XenVChan \<times> 'w \<Rightarrow> bool" where
  "vc_ok lib t \<longleftrightarrow> vch_ok lib \<and> vl_blocking lib (vc_mReadHandle (fst t)) \<and> vl_blocking lib (vc_mWriteHandle (fst t))"

lemmas vc_view_defs = vc_incoming_def vc_outgoing_def vc_ok_def

lemma vch_set_blocking: "vch_ok lib \<Longrightarrow> vl_blocking lib (vl_set_blocking lib h)"
  unfolding vch_ok_def by blast

lemma vch_read_ok:
  assumes "vch_ok lib" "vl_read lib w h n = (r, bs, h', w')" "vl_blocking lib h"
  shows "vl_blocking lib h'" "vl_out lib w' g = vl_out lib w g"
    "0 \<le> r \<Longrightarrow> 0 < n \<Longrightarrow> 0 < r \<and> r \<le> int n \<and> int (length bs) = r \<and> vl_in lib w h = bs @ vl_in lib w' h'"
    "0 < n \<Longrightarrow> n \<le> length (vl_in lib w h) \<Longrightarrow> 0 \<le> r"
  using assms unfolding vch_ok_def by blast+

lemma vch_write_ok:
  assumes "vch_ok lib" "vl_write lib w h bs = (r, h', w')" "vl_blocking lib h"
  shows "vl_blocking lib h'" "vl_in lib w' g = vl_in lib w g"
    "0 \<le> r \<Longrightarrow> bs \<noteq> [] \<Longrightarrow> 0 < r \<and> r \<le> int (length bs) \<and> vl_out lib w' h' = vl_out lib w h @ take (nat r) bs"
  using assms unfolding vch_ok_def by blast+

text \<open>The virtual channel keeps the contract of a transport.\<close>

interpretation vchan: transport "XenVChan_Read lib" "XenVChan_Write lib" "vc_incoming lib" "vc_outgoing lib" "vc_ok lib"
  for lib :: "('a, 'b) vch_lib"
proof unfold_locales
  fix t t' :: "'a XenVChan \<times> 'b" and n r bs
  {
    assume ok: "vc_ok lib t" and r: "XenVChan_Read lib t n = (r, bs, t')"
    then obtain h w where l: "vl_read lib (snd t) (vc_mReadHandle (fst t)) n = (r, bs, h, w)" "t' = ((fst t)\<lparr>vc_mReadHandle := h\<rparr>, w)"
      by (auto simp: XenVChan_Read_def split: prod.splits)
    note c = vch_read_ok [OF _ l(1)]
    show "vc_ok lib t' \<and> vc_outgoing lib t' = vc_outgoing lib t" using ok c(1,2) l(2) by (simp add: vc_view_defs)
    show "0 \<le> r \<Longrightarrow> 0 < n \<Longrightarrow> 0 < r \<and> r \<le> int n \<and> int (length bs) = r \<and> vc_incoming lib t = bs @ vc_incoming lib t'"
      using ok c(3) l(2) by (simp add: vc_view_defs)
    show "0 < n \<Longrightarrow> n \<le> length (vc_incoming lib t) \<Longrightarrow> 0 \<le> r" using ok c(4) by (simp add: vc_view_defs)
  }
  {
    assume ok: "vc_ok lib t" and r: "XenVChan_Write lib t bs = (r, t')"
    then obtain h w where l: "vl_write lib (snd t) (vc_mWriteHandle (fst t)) bs = (r, h, w)" "t' = ((fst t)\<lparr>vc_mWriteHandle := h\<rparr>, w)"
      by (auto simp: XenVChan_Write_def split: prod.splits)
    note c = vch_write_ok [OF _ l(1)]
    show "vc_ok lib t' \<and> vc_incoming lib t' = vc_incoming lib t" using ok c(1,2) l(2) by (simp add: vc_view_defs)
    show "0 \<le> r \<Longrightarrow> bs \<noteq> [] \<Longrightarrow> 0 < r \<and> r \<le> int (length bs) \<and> vc_outgoing lib t' = vc_outgoing lib t @ take (nat r) bs"
      using ok c(3) l(2) by (simp add: vc_view_defs)
  }
qed

interpretation vchan_chan: channel_transport "vchan_transport lib" "vc_incoming lib" "vc_outgoing lib" "vc_ok lib" for lib
  by unfold_locales (auto dest: vchan.read_frame vchan.write_frame vchan.read_progress vchan.read_available vchan.write_progress)

section \<open>Frames over a virtual channel\<close>

text \<open>C29. Over Xen's virtual channels frames arrive as over sockets: opening leaves a channel that is ready, and when the bytes that a successful write added
  on a ready channel are what arrives next on another, the next round of reading goes on without an error, has
  taken exactly this frame off the channel and delivered it to its port alone.\<close>

theorem vchan_frame_end_to_end:
  assumes "layout_ok hl" "sha_ok env" "length data \<le> cReadBufferSize" "vch_ok lib"
    and "vc_ok lib (cm_mTransport tx)" "ChannelManager_Write hl env (vchan_transport lib) port data tx = Some (r, tx')" "0 \<le> r"
    and "vc_outgoing lib (cm_mTransport tx') = vc_outgoing lib (cm_mTransport tx) @ wire"
    and "vc_ok lib (cm_mTransport rx)" "vc_incoming lib (cm_mTransport rx) = wire @ rest"
    and "\<not> cm_mClose rx" "map_of (cm_mChannels rx) port = Some ch"
  shows "(\<forall>v w v' w'. XenVChan_Open (vl_connect lib) (vl_close lib) (vl_set_blocking lib) v w = (v', w', ENone) \<longrightarrow> vc_ok lib (v', w') \<and> vc_mOpened v') \<and>
    vc_ok lib (cm_mTransport tx') \<and>
    (\<exists>rx'. HandleRead_step hl (vchan_transport lib) acts rx = Some (None, rx') \<and> vc_incoming lib (cm_mTransport rx') = rest \<and>
       map_of (cm_mChannels rx') = (map_of (cm_mChannels rx))(port \<mapsto> fst (deliver_frame acts data ch)))"
proof -
  have "wire = hl_enc hl (fst (PrepareHeader env port data)) @ data" and ok: "vc_ok lib (cm_mTransport tx')"
    using vchan_chan.Write_frame [OF assms(5), of hl env port data] assms(6-8) by auto
  with assms(10) have "vc_incoming lib (cm_mTransport rx) = hl_enc hl (fst (PrepareHeader env port data)) @ data @ rest" by simp
  note vchan_chan.HandleRead_step_frame [OF assms(9,11,12,3) this assms(1,2)]
  moreover have "vc_ok lib (v', w') \<and> vc_mOpened v'"
    if "XenVChan_Open (vl_connect lib) (vl_close lib) (vl_set_blocking lib) v w = (v', w', ENone)" for v w v' w'
    using that assms(4) by (auto simp: XenVChan_Open_def vc_ok_def vch_set_blocking split: prod.splits if_splits)
  ultimately show ?thesis using ok by blast
qed

text \<open>A library whose state is what can be read and what was written.\<close>

definition demo_vch :: "(bool, byte list \<times> byte list) vch_lib" where
  "demo_vch = \<lparr>vl_connect = (\<lambda>w p. (0, False, w)), vl_close = (\<lambda>w h. w), vl_set_blocking = (\<lambda>h. True),
     vl_read = (\<lambda>w h n. if fst w = [] then (- 5, [], h, w) else (int (min n (length (fst w))), take n (fst w), h, (drop n (fst w), snd w))),
     vl_write = (\<lambda>w h bs. (int (length bs), h, (fst w, snd w @ bs))),
     vl_blocking = (\<lambda>h. h), vl_in = (\<lambda>w h. fst w), vl_out = (\<lambda>w h. snd w)\<rparr>"

lemma demo_vch_ok: "vch_ok demo_vch"
  by (auto simp: vch_ok_def demo_vch_def split: if_splits)

definition demo_vchan :: "bool XenVChan" where
  "demo_vchan = \<lparr>vc_mXSReadPath = ''r'', vc_mXSWritePath = ''w'', vc_mReadHandle = True, vc_mWriteHandle = True, vc_mOpened = True\<rparr>"

lemma vchan_frame_end_to_end_witness:
  "\<exists>rx'. HandleRead_step be_layout (vchan_transport demo_vch) [id] \<lparr>cm_mTransport = (demo_vchan, (demo_wire @ [7], [])),
       cm_mChannels = [(9, Read_enter (Channel_new 9) [0, 0, 0])], cm_mClose = False, cm_mTmpReadBuffer = replicate 4 0\<rparr> = Some (None, rx') \<and>
     vc_incoming demo_vch (cm_mTransport rx') = [7] \<and>
     map_of (cm_mChannels rx') = [9 \<mapsto> fst (deliver_frame [id] [1, 2, 3] (Read_enter (Channel_new 9) [0, 0, 0]))]"
proof -
  let ?tx = "\<lparr>cm_mTransport = (demo_vchan, ([], [])), cm_mChannels = [], cm_mClose = False, cm_mTmpReadBuffer = []\<rparr>"
  have w: "ChannelManager_Write be_layout zero_sha (vchan_transport demo_vch) 9 [1, 2, 3] ?tx =
      Some (3, ?tx\<lparr>cm_mTransport := (demo_vchan, ([], demo_wire))\<rparr>)"
    by (simp add: ChannelManager_Write_def PrepareHeader_def CalculateSha256_def zero_sha_def be_layout_def WriteTransport.simps
        XenVChan_Write_def demo_vch_def demo_vchan_def demo_wire_def u32_bytes_def)
  let ?rx = "\<lparr>cm_mTransport = (demo_vchan, (demo_wire @ [7], [])), cm_mChannels = [(9, Read_enter (Channel_new 9) [0, 0, 0])],
    cm_mClose = False, cm_mTmpReadBuffer = replicate 4 0\<rparr>"
  have "vc_ok demo_vch (cm_mTransport ?tx)" "vc_ok demo_vch (cm_mTransport ?rx)"
    by (simp_all add: vc_ok_def demo_vch_ok) (simp_all add: demo_vch_def demo_vchan_def)
  note ok = this
  have "vc_outgoing demo_vch (cm_mTransport (?tx\<lparr>cm_mTransport := (demo_vchan, ([], demo_wire))\<rparr>)) = vc_outgoing demo_vch (cm_mTransport ?tx) @ demo_wire"
    "vc_incoming demo_vch (cm_mTransport ?rx) = demo_wire @ [7]" "\<not> cm_mClose ?rx"
    "map_of (cm_mChannels ?rx) 9 = Some (Read_enter (Channel_new 9) [0, 0, 0])" "length [1, 2, 3 :: byte] \<le> cReadBufferSize"
    by (simp_all add: vc_view_defs demo_vch_def cReadBufferSize_def)
  note rest = this
  from vchan_frame_end_to_end [OF be_layout_ok zero_sha_ok rest(5) demo_vch_ok ok(1) w _ rest(1) ok(2) rest(2-4), of "[id]"]
  show ?thesis by auto
qed

end
