(* ===== verification/PBHandler.thy ===== *)
theory PBHandler
  imports Channel
begin

text \<open>
  \<open>src/communication/pbhandler.cpp\<close>: length-prefixed protobuf messages over a channel. The
  channel is a record of its virtual operations, the protobuf encoder and the layout of the
  length header (both from libraries) are parameters. The virtual notifications of the
  derived clients are events of the trace.
\<close>

section \<open>Interfaces\<close>

text \<open>\<open>ChannelItf\<close> of \<open>channel.hpp\<close>; \<open>'c\<close> is the state behind the object.\<close>

record 'c ChannelItf =
  ci_Connect :: "'c \<Rightarrow> 'c \<times> Error"
  ci_Close :: "'c \<Rightarrow> 'c \<times> Error"
  ci_Read :: "'c \<Rightarrow> nat \<Rightarrow> int \<times> byte list \<times> 'c"
  ci_Write :: "'c \<Rightarrow> byte list \<Rightarrow> int \<times> 'c"

text \<open>The length header \<open>AosProtobufHeader\<close>: encoding, decoding and size.\<close>

record pb_layout =
  pl_enc :: "u32 \<Rightarrow> byte list"
  pl_dec :: "byte list \<Rightarrow> u32"
  pl_size :: nat

definition pb_layout_ok :: "pb_layout \<Rightarrow> bool" where
  "pb_layout_ok pl \<longleftrightarrow> (\<forall>n. length (pl_enc pl n) = pl_size pl \<and> pl_dec pl (pl_enc pl n) = n)"

section \<open>State and operations\<close>

record 'c PBHandler =
  pb_mName :: string
  pb_mChannel :: 'c
  pb_mStarted :: bool
  pb_cReceiveBufferSize :: nat
  pb_cSendBufferSize :: nat

definition PBHandler_Init :: "string \<Rightarrow> 'c \<Rightarrow> 'c PBHandler \<Rightarrow> 'c PBHandler \<times> Error" where
  "PBHandler_Init name channel pb =
     (if pb_mStarted pb then (pb, EEnum eWrongState)
      else (pb\<lparr>pb_mName := name, pb_mChannel := channel\<rparr>, ENone))"

text \<open>\<open>run\<close> is the result of starting the thread.\<close>

definition PBHandler_Start :: "Error \<Rightarrow> 'c PBHandler \<Rightarrow> 'c PBHandler \<times> Error" where
  "PBHandler_Start run pb =
     (if pb_mStarted pb then (pb, EEnum eWrongState)
      else if run \<noteq> ENone then (pb, AOS_ERROR_WRAP run)
      else (pb\<lparr>pb_mStarted := True\<rparr>, ENone))"

text \<open>\<open>Stop\<close>, with the result of the join.\<close>

definition PBHandler_Stop :: "'c ChannelItf \<Rightarrow> Error \<Rightarrow> 'c PBHandler \<Rightarrow> 'c PBHandler \<times> Error" where
  "PBHandler_Stop ci join pb =
     (if \<not> pb_mStarted pb then (pb, ENone)
      else (pb\<lparr>pb_mStarted := False, pb_mChannel := fst (ci_Close ci (pb_mChannel pb))\<rparr>, join))"

definition PBHandler_IsStarted :: "'c PBHandler \<Rightarrow> bool" where
  "PBHandler_IsStarted pb = pb_mStarted pb"

text \<open>
  \<open>pb_encode cap m\<close> is the encoding of \<open>m\<close> into a stream of \<open>cap\<close> bytes, if it fits; no
  message encodes to no bytes.
\<close>

definition SendMessage ::
  "pb_layout \<Rightarrow> (nat \<Rightarrow> 'm \<Rightarrow> byte list option) \<Rightarrow> 'c ChannelItf \<Rightarrow> 'm option \<Rightarrow> 'c PBHandler \<Rightarrow>
   'c PBHandler \<times> Error" where
  "SendMessage pl pb_encode ci message pb =
     (case (case message of None \<Rightarrow> Some [] | Some m \<Rightarrow> pb_encode (pb_cSendBufferSize pb) m) of
        None \<Rightarrow> (pb, EEnum eRuntime)
      | Some body \<Rightarrow>
          (case ci_Write ci (pb_mChannel pb) (pl_enc pl (of_nat (length body)) @ body) of
             (ret, c) \<Rightarrow>
               (pb\<lparr>pb_mChannel := c\<rparr>,
                if ret < 0 then AOS_ERROR_WRAP (error_of_int ret) else ENone)))"

section \<open>The receiving thread\<close>

datatype pb_event = EvConnect | EvMessage "byte list" | EvDisconnect

datatype pb_outcome = PbBreak | PbContinue | PbMessage "byte list"

text \<open>One round of the inner loop of \<open>Run\<close>.\<close>

definition PB_read_step ::
  "pb_layout \<Rightarrow> ('c \<Rightarrow> nat \<Rightarrow> int \<times> byte list \<times> 'c) \<Rightarrow> nat \<Rightarrow> 'c \<Rightarrow> pb_outcome \<times> 'c" where
  "PB_read_step pl read receiveSize c =
     (case read c (pl_size pl) of
        (ret, hdr, c1) \<Rightarrow>
          if ret < 0 then (PbBreak, c1)
          else if ret \<noteq> int (pl_size pl) then (PbBreak, c1)
          else if receiveSize < unat (pl_dec pl hdr) then (PbContinue, c1)
          else (case read c1 (unat (pl_dec pl hdr)) of
            (ret, body, c2) \<Rightarrow>
              if ret < 0 then (PbBreak, c2)
              else if ret \<noteq> int (unat (pl_dec pl hdr)) then (PbBreak, c2)
              else (PbMessage body, c2)))"

datatype pb_phase = PbTop | PbReading | PbStopped

text \<open>
  One step of \<open>Run\<close>: its phase, the handler and the events so far. After a failed connect
  the thread pauses, which changes nothing. \<open>ReceiveMessage\<close>'s result only goes to the log.
\<close>

definition PB_Run_step ::
  "pb_layout \<Rightarrow> 'c ChannelItf \<Rightarrow> pb_phase \<times> 'c PBHandler \<times> pb_event list \<Rightarrow>
   pb_phase \<times> 'c PBHandler \<times> pb_event list" where
  "PB_Run_step pl ci st =
     (case st of
        (PbStopped, pb, tr) \<Rightarrow> (PbStopped, pb, tr)
      | (PbTop, pb, tr) \<Rightarrow>
          if \<not> pb_mStarted pb then (PbStopped, pb, tr)
          else (case ci_Connect ci (pb_mChannel pb) of
            (c, err) \<Rightarrow>
              if err \<noteq> ENone then (PbTop, pb\<lparr>pb_mChannel := c\<rparr>, tr)
              else (PbReading, pb\<lparr>pb_mChannel := c\<rparr>, tr @ [EvConnect]))
      | (PbReading, pb, tr) \<Rightarrow>
          (case PB_read_step pl (ci_Read ci) (pb_cReceiveBufferSize pb) (pb_mChannel pb) of
             (PbBreak, c) \<Rightarrow> (PbTop, pb\<lparr>pb_mChannel := c\<rparr>, tr @ [EvDisconnect])
           | (PbContinue, c) \<Rightarrow> (PbReading, pb\<lparr>pb_mChannel := c\<rparr>, tr)
           | (PbMessage m, c) \<Rightarrow> (PbReading, pb\<lparr>pb_mChannel := c\<rparr>, tr @ [EvMessage m])))"

section \<open>Reading from a channel that delivers exactly\<close>

text \<open>
  What the handler relies on: a read fails or brings exactly the requested bytes of what is
  still to come, and while the channel is \<open>ok\<close> it does not fail for bytes that are all to come.
\<close>

locale exact_reader =
  fixes read :: "'c \<Rightarrow> nat \<Rightarrow> int \<times> byte list \<times> 'c"
    and incoming :: "'c \<Rightarrow> byte list"
    and ok :: "'c \<Rightarrow> bool"
  assumes read_exact: "read c n = (r, bs, c') \<Longrightarrow> 0 \<le> r \<Longrightarrow>
      r = int n \<and> length bs = n \<and> incoming c = bs @ incoming c'"
    and read_available: "read c n = (r, bs, c') \<Longrightarrow> ok c \<Longrightarrow> n \<le> length (incoming c) \<Longrightarrow> 0 \<le> r \<and> ok c'"
begin

lemma read_ok:
  assumes "ok c" "incoming c = bs @ rest"
  shows "\<exists>c'. read c (length bs) = (int (length bs), bs, c') \<and> incoming c' = rest \<and> ok c'"
proof -
  obtain r bs' c' where rd: "read c (length bs) = (r, bs', c')" by (metis prod.exhaust)
  have "0 \<le> r" "ok c'" using read_available [OF rd assms(1)] assms(2) by auto
  moreover have ex: "r = int (length bs)" "length bs' = length bs" "bs @ rest = bs' @ incoming c'"
    using read_exact [OF rd \<open>0 \<le> r\<close>] assms(2) by simp_all
  moreover have "bs' = bs" "incoming c' = rest" using ex(2,3) by (metis append_eq_append_conv)+
  ultimately show ?thesis using rd by simp
qed

lemma read_header:
  assumes "pb_layout_ok pl" "ok c" "incoming c = pl_enc pl n @ rest"
  shows "\<exists>c1. read c (pl_size pl) = (int (pl_size pl), pl_enc pl n, c1) \<and> pl_dec pl (pl_enc pl n) = n \<and>
    incoming c1 = rest \<and> ok c1"
  using read_ok [OF assms(2,3)] assms(1) by (simp add: pb_layout_ok_def)

lemma read_step_message:
  assumes "pb_layout_ok pl" "ok c" "incoming c = pl_enc pl (of_nat (length m)) @ m @ rest"
    and "length m \<le> cap" "cap < 2 ^ 32"
  shows "\<exists>c'. PB_read_step pl read cap c = (PbMessage m, c') \<and> incoming c' = rest \<and> ok c'"
proof -
  have sz: "unat (of_nat (length m) :: u32) = length m"
    by (rule unat_of_nat_u32) (use assms(4,5) in linarith)
  obtain c1 where h: "read c (pl_size pl) = (int (pl_size pl), pl_enc pl (of_nat (length m)), c1)"
    "pl_dec pl (pl_enc pl (of_nat (length m))) = of_nat (length m)" "incoming c1 = m @ rest" "ok c1"
    using read_header [OF assms(1-3)] by blast
  obtain c2 where "read c1 (length m) = (int (length m), m, c2)" "incoming c2 = rest" "ok c2"
    using read_ok [OF h(4,3)] by blast
  then show ?thesis by (simp add: PB_read_step_def h(1,2) sz leD [OF assms(4)])
qed

lemma read_step_oversized:
  assumes "pb_layout_ok pl" "ok c" "incoming c = pl_enc pl n @ rest" "cap < unat n"
  shows "\<exists>c'. PB_read_step pl read cap c = (PbContinue, c') \<and> incoming c' = rest \<and> ok c'"
  using read_header [OF assms(1-3)] assms(4) by (auto simp: PB_read_step_def)

lemma run_steps_messages:
  assumes "pb_layout_ok pl" "ci_Read ci = read"
    and "\<forall>m\<in>set ms. length m \<le> pb_cReceiveBufferSize pb" "pb_cReceiveBufferSize pb < 2 ^ 32" "ok (pb_mChannel pb)"
    and "incoming (pb_mChannel pb) = concat (map (\<lambda>m. pl_enc pl (of_nat (length m)) @ m) ms) @ rest"
    and "k \<le> length ms"
  shows "\<exists>pb'. (PB_Run_step pl ci ^^ k) (PbReading, pb, tr) = (PbReading, pb', tr @ map EvMessage (take k ms)) \<and>
    incoming (pb_mChannel pb') = concat (map (\<lambda>m. pl_enc pl (of_nat (length m)) @ m) (drop k ms)) @ rest \<and> ok (pb_mChannel pb')"
  using assms(3-)
proof (induction k arbitrary: pb tr ms)
  case (Suc k)
  then obtain m ms' where ms: "ms = m # ms'" by (cases ms) auto
  obtain c' where st: "PB_read_step pl read (pb_cReceiveBufferSize pb) (pb_mChannel pb) = (PbMessage m, c')"
    "incoming c' = concat (map (\<lambda>m. pl_enc pl (of_nat (length m)) @ m) ms') @ rest" "ok c'"
    using read_step_message [OF assms(1) Suc.prems(3), of m _ "pb_cReceiveBufferSize pb"] Suc.prems(1,2,4) ms by force
  let ?pb = "pb\<lparr>pb_mChannel := c'\<rparr>"
  have step: "PB_Run_step pl ci (PbReading, pb, tr) = (PbReading, ?pb, tr @ [EvMessage m])"
    using st(1) assms(2) by (simp add: PB_Run_step_def)
  from Suc.IH [of ms' ?pb "tr @ [EvMessage m]"] Suc.prems ms st(2,3) show ?case
    by (simp add: funpow_swap1 step)
qed simp

end

section \<open>The channel as a message source\<close>

text \<open>
  \<open>Channel::Read\<close> run to its end when the channel manager is delivering \<open>frame\<close> and drops
  the connection after it: the read returns from the frame, or is woken by the close.
\<close>

definition Channel_Read_frame :: "Channel \<times> byte list \<Rightarrow> nat \<Rightarrow> int \<times> byte list \<times> (Channel \<times> byte list)" where
  "Channel_Read_frame cf n =
     (case cf of (c, frame) \<Rightarrow>
       (case deliver_chunk frame (Read_enter c (replicate n 0)) of
          ((k, c1), err) \<Rightarrow>
            (let c2 = (if frame = [] \<or> n = 0 then Read_enter c (replicate n 0) else Read_wake None c1);
                 frame' = (if frame = [] \<or> n = 0 \<or> err \<noteq> ENone then frame else drop k frame)
             in (case ch_reader c2 of
                   RReturned r buf \<Rightarrow> (r, buf, (c2\<lparr>ch_reader := RIdle\<rparr>, frame'))
                 | _ \<Rightarrow>
                   (let c3 = Read_wake None (fst (Channel_Close c2))
                    in (case ch_reader c3 of
                          RReturned r buf \<Rightarrow> (r, buf, (c3\<lparr>ch_reader := RIdle\<rparr>, frame'))
                        | _ \<Rightarrow> (- ECONNRESET, [], (c3, frame'))))))))"

lemma Read_wake_closed:
  "ch_mClose c \<Longrightarrow> ch_reader (Read_wake None c) = (case ch_reader c of RWaiting n buf \<Rightarrow> RReturned (- ECONNRESET) buf | r \<Rightarrow> r)"
  by (simp add: Read_wake_def split: reader.split)

lemma Read_enter_waiting:
  "0 < n \<Longrightarrow> ch_reader (Read_enter c (replicate n 0)) = RWaiting n (replicate n 0)"
  by (simp add: Read_enter_def Read_head_def)

lemma Channel_Read_frame_exact:
  assumes "Channel_Read_frame cf n = (r, bs, cf')" "0 \<le> r"
  shows "r = int n \<and> length bs = n \<and> snd cf = bs @ snd cf'"
proof -
  obtain c frame where cf: "cf = (c, frame)" by fastforce
  obtain k c1 err where d: "deliver_chunk frame (Read_enter c (replicate n 0)) = ((k, c1), err)"
    by (metis prod.collapse)
  have reset: "ch_reader (Read_wake None (fst (Channel_Close c2))) = RReturned (- ECONNRESET) buf"
    if "ch_reader c2 = RWaiting n' buf" for c2 n' buf
    using that by (simp add: Read_wake_closed Channel_Close_def)
  consider "n = 0" | "0 < n" "frame = []" | "0 < n" "frame \<noteq> []" "ch_mClose c"
    | "0 < n" "frame \<noteq> []" "\<not> ch_mClose c" "n \<le> length frame"
    | "0 < n" "frame \<noteq> []" "\<not> ch_mClose c" "length frame < n" by linarith
  then show ?thesis
  proof cases
    case 1
    with assms cf d show ?thesis
      by (auto simp: Channel_Read_frame_def Read_enter_def Read_head_def)
  next
    case 2
    with assms cf d reset [OF Read_enter_waiting] show ?thesis
      by (auto simp: Channel_Read_frame_def Read_enter_waiting Let_def ECONNRESET_def)
  next
    case 3
    then have "c1 = Read_enter c (replicate n 0)" "ch_mClose c1"
      using d by (auto simp: deliver_chunk_def WaitRead_def Read_enter_def Read_head_def split: if_splits)
    then have "ch_reader (Read_wake None c1) = RReturned (- ECONNRESET) (replicate n 0)"
      using 3 by (simp add: Read_wake_closed Read_enter_waiting)
    with 3 assms cf d show ?thesis
      by (auto simp: Channel_Read_frame_def ECONNRESET_def)
  next
    case 4
    then have ne: "replicate n (0::byte) \<noteq> []" "length (replicate n (0::byte)) \<le> length frame" by auto
    from Read_one_chunk [OF ne 4(3) d] 4 assms cf d show ?thesis
      by (auto simp: Channel_Read_frame_def)
  next
    case 5
    have err: "err = ENone"
      using d 5 by (auto simp: deliver_chunk_def channel_defs Let_def split: if_splits)
    have "short_window n c1" "\<not> ch_mClose c1"
      using deliver_short_window [OF d 5(2) _ 5(3)] 5 by auto
    from short_window_Read_wake [OF this] obtain buf where "ch_reader (Read_wake None c1) = RWaiting n buf"
      by (auto simp: short_window_def)
    with reset [OF this] 5 assms cf d err show ?thesis
      by (auto simp: Channel_Read_frame_def Let_def ECONNRESET_def)
  qed
qed

definition channel_itf ::
  "Error \<Rightarrow> (u32 \<Rightarrow> byte list \<Rightarrow> int) \<Rightarrow> (Channel \<times> byte list) ChannelItf" where
  "channel_itf connect written =
     \<lparr>ci_Connect = (\<lambda>(c, f). case Channel_Connect connect c of (c', err) \<Rightarrow> ((c', f), err)),
      ci_Close = (\<lambda>(c, f). case Channel_Close c of (c', err) \<Rightarrow> ((c', f), err)),
      ci_Read = Channel_Read_frame,
      ci_Write = (\<lambda>(c, f) bs. case Channel_Write (\<lambda>p b u. (written p b, u)) c bs () of (r, _) \<Rightarrow> (r, (c, f)))\<rparr>"

text \<open>While the channel is open a read that the frame can satisfy succeeds.\<close>

definition frame_open :: "Channel \<times> byte list \<Rightarrow> bool" where
  "frame_open cf \<longleftrightarrow> \<not> ch_mClose (fst cf)"

lemma Channel_Read_frame_open:
  assumes "Channel_Read_frame cf n = (r, bs, cf')" "frame_open cf" "n \<le> length (snd cf)"
  shows "0 \<le> r \<and> frame_open cf'"
proof -
  obtain c frame where cf: "cf = (c, frame)" by fastforce
  obtain k c1 err where d: "deliver_chunk frame (Read_enter c (replicate n 0)) = ((k, c1), err)"
    by (metis prod.collapse)
  show ?thesis
  proof (cases "n = 0")
    case True
    with assms cf d show ?thesis
      by (auto simp: Channel_Read_frame_def Read_enter_def Read_head_def frame_open_def)
  next
    case False
    then have ne: "replicate n (0::byte) \<noteq> []" "length (replicate n (0::byte)) \<le> length frame" "\<not> ch_mClose c" "frame \<noteq> []"
      using assms(2,3) cf by (auto simp: frame_open_def)
    have "ch_reader (Read_wake None c1) = RReturned (int n) (take n frame)" "\<not> ch_mClose c1"
      using Read_one_chunk [OF ne(1-3) d] by simp_all
    moreover from this(2) have "\<not> ch_mClose (Read_wake None c1)"
      by (auto simp: Read_wake_def Read_head_def split: reader.splits)
    ultimately show ?thesis using False ne(4) assms(1) cf d
      by (auto simp: Channel_Read_frame_def frame_open_def)
  qed
qed

interpretation chan_src: exact_reader Channel_Read_frame snd frame_open
  by unfold_locales (use Channel_Read_frame_exact Channel_Read_frame_open in blast)+

section \<open>Traces\<close>

text \<open>
  A trace is well-formed when connects and disconnects alternate and messages come only
  while connected; the result tells whether it ends connected.
\<close>

fun scan_trace :: "bool \<Rightarrow> pb_event list \<Rightarrow> bool option" where
  "scan_trace b [] = Some b"
| "scan_trace b (EvConnect # tr) = (if b then None else scan_trace True tr)"
| "scan_trace b (EvMessage m # tr) = (if b then scan_trace True tr else None)"
| "scan_trace b (EvDisconnect # tr) = (if b then scan_trace False tr else None)"

lemma scan_trace_append:
  "scan_trace b (tr @ tr') = (case scan_trace b tr of None \<Rightarrow> None | Some b' \<Rightarrow> scan_trace b' tr')"
  by (induction b tr rule: scan_trace.induct) auto

lemma PB_Run_step_scan:
  "scan_trace False tr = Some (ph = PbReading) \<Longrightarrow> PB_Run_step pl ci (ph, pb, tr) = (ph', pb', tr') \<Longrightarrow>
    scan_trace False tr' = Some (ph' = PbReading)"
  by (cases ph)
    (auto simp: PB_Run_step_def scan_trace_append split: prod.splits if_splits pb_outcome.splits)

lemma PB_Run_scan:
  "scan_trace False (snd (snd ((PB_Run_step pl ci ^^ k) (PbTop, pb, [])))) =
     Some (fst ((PB_Run_step pl ci ^^ k) (PbTop, pb, [])) = PbReading)"
proof (induction k)
  case (Suc k)
  obtain ph pb' tr where s: "(PB_Run_step pl ci ^^ k) (PbTop, pb, []) = (ph, pb', tr)" by (metis prod.exhaust)
  obtain ph2 pb2 tr2 where s2: "PB_Run_step pl ci (ph, pb', tr) = (ph2, pb2, tr2)" by (metis prod.exhaust)
  from Suc s have "scan_trace False tr = Some (ph = PbReading)" by simp
  from PB_Run_step_scan [OF this s2] s s2 show ?case by simp
qed simp

section \<open>Sending\<close>

text \<open>A channel that takes everything: its state is what was written.\<close>

definition recorder_itf :: "byte list ChannelItf" where
  "recorder_itf = \<lparr>ci_Connect = (\<lambda>w. (w, ENone)), ci_Close = (\<lambda>w. (w, ENone)),
     ci_Read = (\<lambda>w n. (- ECONNRESET, [], w)), ci_Write = (\<lambda>w bs. (int (length bs), w @ bs))\<rparr>"

definition SendAll ::
  "pb_layout \<Rightarrow> (nat \<Rightarrow> 'm \<Rightarrow> byte list option) \<Rightarrow> 'c ChannelItf \<Rightarrow> 'm list \<Rightarrow> 'c PBHandler \<Rightarrow> 'c PBHandler" where
  "SendAll pl pb_encode ci ms pb = foldl (\<lambda>pb m. fst (SendMessage pl pb_encode ci (Some m) pb)) pb ms"

lemma SendAll_recorder:
  "\<forall>m\<in>set ms. pb_encode (pb_cSendBufferSize pb) m = Some (body m) \<Longrightarrow>
    pb_mChannel (SendAll pl pb_encode recorder_itf ms pb) =
      pb_mChannel pb @ concat (map (\<lambda>m. pl_enc pl (of_nat (length (body m))) @ body m) ms)"
proof (induction ms arbitrary: pb)
  case (Cons m ms)
  let ?pb = "pb\<lparr>pb_mChannel := pb_mChannel pb @ pl_enc pl (of_nat (length (body m))) @ body m\<rparr>"
  have "fst (SendMessage pl pb_encode recorder_itf (Some m) pb) = ?pb"
    using Cons.prems by (simp add: SendMessage_def recorder_itf_def)
  with Cons.IH [of ?pb] Cons.prems show ?case by (simp add: SendAll_def)
qed (simp add: SendAll_def)

section \<open>Properties\<close>

text \<open>C15. Messages survive the channel in order: when a frame holds what \<open>SendMessage\<close> wrote
  for a list of messages that fit both buffers, and the channel is open, each of the receiving thread's rounds hands
  the next message, byte for byte, to \<open>ReceiveMessage\<close>, stays connected, and leaves in the frame exactly the
  messages that follow.\<close>

theorem pb_messages_roundtrip:
  assumes "pb_layout_ok pl"
    and "\<forall>m\<in>set ms. pb_encode (pb_cSendBufferSize tx) m = Some (body m)" "pb_mChannel tx = []"
    and "pb_mChannel rx = (c, pb_mChannel (SendAll pl pb_encode recorder_itf ms tx) @ rest)" "\<not> ch_mClose c"
    and "\<forall>m\<in>set ms. length (body m) \<le> pb_cReceiveBufferSize rx" "pb_cReceiveBufferSize rx < 2 ^ 32"
    and "k \<le> length ms"
  shows "\<exists>rx'. (PB_Run_step pl (channel_itf ce cw) ^^ k) (PbReading, rx, tr) =
      (PbReading, rx', tr @ map (EvMessage \<circ> body) (take k ms)) \<and>
    snd (pb_mChannel rx') = pb_mChannel (SendAll pl pb_encode recorder_itf (drop k ms) tx) @ rest"
proof -
  have rd: "ci_Read (channel_itf ce cw) = Channel_Read_frame" by (simp add: channel_itf_def)
  have sent: "pb_mChannel (SendAll pl pb_encode recorder_itf ns tx) = concat (map (\<lambda>m. pl_enc pl (of_nat (length m)) @ m) (map body ns))"
    if "set ns \<subseteq> set ms" for ns
    using SendAll_recorder [where ms = ns and pb_encode = pb_encode and pb = tx and body = body and pl = pl] assms(2,3) that
    by (auto simp: comp_def)
  have inc: "snd (pb_mChannel rx) = concat (map (\<lambda>m. pl_enc pl (of_nat (length m)) @ m) (map body ms)) @ rest"
    using sent [of ms] assms(4) by simp
  have op: "frame_open (pb_mChannel rx)" using assms(4,5) by (simp add: frame_open_def)
  from chan_src.run_steps_messages [OF assms(1) rd _ assms(7) op inc, of k tr] assms(6,8) sent [of "drop k ms"] set_drop_subset [of k ms]
  show ?thesis by (auto simp: take_map drop_map)
qed

definition byte_layout :: pb_layout where
  "byte_layout = \<lparr>pl_enc = (\<lambda>n. [ucast (drop_bit 24 n), ucast (drop_bit 16 n), ucast (drop_bit 8 n), ucast n]),
     pl_dec = (\<lambda>bs. word_cat (word_cat (bs ! 0) (bs ! 1) :: 16 word) (word_cat (bs ! 2) (bs ! 3) :: 16 word)),
     pl_size = 4\<rparr>"

lemma byte_layout_ok: "pb_layout_ok byte_layout"
proof -
  have "(word_cat (word_cat (ucast (drop_bit 24 n) :: byte) (ucast (drop_bit 16 n) :: byte) :: 16 word)
      (word_cat (ucast (drop_bit 8 n) :: byte) (ucast n :: byte) :: 16 word)) = (n :: u32)" for n
    by (rule bit_word_eqI) (auto simp: bit_simps not_less)
  then show ?thesis by (simp add: pb_layout_ok_def byte_layout_def)
qed

definition demo_pb :: "'c \<Rightarrow> 'c PBHandler" where
  "demo_pb c = \<lparr>pb_mName = ''demo'', pb_mChannel = c, pb_mStarted = True,
     pb_cReceiveBufferSize = 8, pb_cSendBufferSize = 8\<rparr>"

lemma pb_messages_roundtrip_witness:
  "\<exists>rx'. (PB_Run_step byte_layout (channel_itf ENone (\<lambda>_ _. 0)) ^^ 2)
      (PbReading, demo_pb (Channel_new 1, pb_mChannel (SendAll byte_layout (\<lambda>_. Some) recorder_itf [[1, 2], [3]] (demo_pb [])) @ [9]), []) =
      (PbReading, rx', [EvMessage [1, 2], EvMessage [3]]) \<and> snd (pb_mChannel rx') = [9]"
  using pb_messages_roundtrip [OF byte_layout_ok, of "[[1, 2], [3]]" "\<lambda>_. Some" "demo_pb []" id
      "demo_pb (Channel_new 1, pb_mChannel (SendAll byte_layout (\<lambda>_. Some) recorder_itf [[1, 2], [3]] (demo_pb [])) @ [9])"
      "Channel_new 1" "[9]" 2 ENone "\<lambda>_ _. 0" "[]"]
  by (simp add: demo_pb_def comp_def Channel_new_def SendAll_def [of _ _ _ "[]"])

text \<open>The clients see a well-formed life cycle on any channel: in the notifications of the
  receiving thread, connects and disconnects alternate, starting with a connect, messages
  arrive only in between, and the thread is connected exactly while it is in its inner loop;
  in particular it has notified the disconnect when it stops.\<close>

theorem pb_trace_wellformed:
  "case (PB_Run_step pl ci ^^ k) (PbTop, pb, []) of
     (ph, pb', tr) \<Rightarrow> scan_trace False tr = Some (ph = PbReading)"
  using PB_Run_scan [where pl = pl and ci = ci and k = k and pb = pb] by (auto split: prod.splits)

text \<open>A message that does not fit the receive buffer is refused without taking its bytes off
  the stream: the next round reads the refused message's first bytes as a length header, so
  that a message embedded in it is handed to \<open>ReceiveMessage\<close> as if it had been sent.\<close>

theorem pb_oversized_desync:
  assumes "pb_layout_ok pl" "pb_cReceiveBufferSize rx < unat n" "pb_cReceiveBufferSize rx < 2 ^ 32"
    and "length m \<le> pb_cReceiveBufferSize rx" "\<not> ch_mClose c"
    and "pb_mChannel rx = (c, pl_enc pl n @ (pl_enc pl (of_nat (length m)) @ m) @ rest)"
  shows "\<exists>rx'. (PB_Run_step pl (channel_itf ce cw) ^^ 2) (PbReading, rx, tr) = (PbReading, rx', tr @ [EvMessage m]) \<and>
    snd (pb_mChannel rx') = rest"
proof -
  let ?cap = "pb_cReceiveBufferSize rx" and ?ci = "channel_itf ce cw"
  have rd: "ci_Read ?ci = Channel_Read_frame" by (simp add: channel_itf_def)
  obtain c1 where s1: "PB_read_step pl Channel_Read_frame ?cap (pb_mChannel rx) = (PbContinue, c1)"
    "snd c1 = pl_enc pl (of_nat (length m)) @ m @ rest" "frame_open c1"
    using chan_src.read_step_oversized [OF assms(1) _ _ assms(2), of "pb_mChannel rx"] assms(5,6)
    by (fastforce simp: frame_open_def)
  obtain c2 where "PB_read_step pl Channel_Read_frame ?cap c1 = (PbMessage m, c2)" "snd c2 = rest"
    using chan_src.read_step_message [OF assms(1) s1(3,2) assms(4,3)] by blast
  then show ?thesis using s1(1) rd by (simp add: PB_Run_step_def numeral_2_eq_2)
qed

lemma pb_oversized_desync_witness:
  "\<exists>rx'. (PB_Run_step byte_layout (channel_itf ENone (\<lambda>_ _. 0)) ^^ 2)
      (PbReading, demo_pb (Channel_new 1, pl_enc byte_layout 100 @ (pl_enc byte_layout (of_nat (length [7::byte])) @ [7]) @ []), []) =
      (PbReading, rx', [EvMessage [7]]) \<and> snd (pb_mChannel rx') = []"
  using pb_oversized_desync [OF byte_layout_ok, of "demo_pb (Channel_new 1, pl_enc byte_layout 100 @ (pl_enc byte_layout (of_nat (length [7::byte])) @ [7]) @ [])"
      100 "[7]" "Channel_new 1" "[]" ENone "\<lambda>_ _. 0" "[]"]
  by (simp add: demo_pb_def Channel_new_def del: append_Nil2)

end
