(* ===== verification/TLSChannel.thy ===== *)
theory TLSChannel
  imports PBHandler
begin

text \<open>
  \<open>src/communication/tlschannel.cpp\<close>: a channel that is plain until \<open>SetTLSConfig\<close> gives it
  a certificate type. Of mbedTLS, the certificate handler and the key store only the results
  of the calls matter here; the key identifiers the PSA key store holds are part of the
  state, because setting up a configuration adds one and cleaning up removes one.
\<close>

section \<open>State\<close>

text \<open>
  \<open>tl_psa\<close> is the set of key identifiers that are registered in the PSA key store, by this
  channel and by others.
\<close>

record 'c TLSChannel =
  tl_mName :: string
  tl_mCertType :: string
  tl_mKeyID :: nat
  tl_mPrivKey :: bool
  tl_mChannel :: 'c
  tl_psa :: "nat set"

text \<open>The results of the calls of one \<open>SetupSSLConfig\<close>.\<close>

record tls_env =
  te_GetCertificate :: Error
  te_LoadCertsChain :: Error
  te_crt_parse_chain :: "int list"
  te_crt_parse_ca :: int
  te_LoadPrivKey :: Error
  te_PsaAddKey :: "nat \<times> Error"
  te_pk_setup_opaque :: int
  te_ctr_drbg_seed :: int
  te_config_defaults :: int
  te_conf_own_cert :: int
  te_ssl_setup :: int

section \<open>Operations\<close>

definition TLSChannel_Init :: "string \<Rightarrow> 'c \<Rightarrow> 'c TLSChannel \<Rightarrow> 'c TLSChannel \<times> Error" where
  "TLSChannel_Init name channel t = (t\<lparr>tl_mName := name, tl_mChannel := channel\<rparr>, ENone)"

definition AosPsaRemoveKey :: "nat \<Rightarrow> 'c TLSChannel \<Rightarrow> 'c TLSChannel" where
  "AosPsaRemoveKey k t = t\<lparr>tl_psa := tl_psa t - {k}\<rparr>"

definition Cleanup :: "'c TLSChannel \<Rightarrow> 'c TLSChannel" where
  "Cleanup t =
     (let t1 = t\<lparr>tl_mPrivKey := False\<rparr>;
          t2 = (if tl_mKeyID t1 \<noteq> 0 then AosPsaRemoveKey (tl_mKeyID t1) t1 else t1)
      in t2\<lparr>tl_mCertType := []\<rparr>)"

definition SetupOpaqueKey :: "tls_env \<Rightarrow> 'c TLSChannel \<Rightarrow> (nat \<times> Error) \<times> 'c TLSChannel" where
  "SetupOpaqueKey env t =
     (case te_PsaAddKey env of
        (keyID, err) \<Rightarrow>
          if err \<noteq> ENone then ((0, err), t)
          else (let t1 = t\<lparr>tl_psa := insert keyID (tl_psa t)\<rparr> in
            if te_pk_setup_opaque env \<noteq> 0
            then ((keyID, AOS_ERROR_WRAP (error_of_int (te_pk_setup_opaque env))), AosPsaRemoveKey keyID t1)
            else ((keyID, ENone), t1)))"

text \<open>The first certificate of the chain that does not parse ends the loop.\<close>

definition first_failure :: "int list \<Rightarrow> int" where
  "first_failure rets = (case filter (\<lambda>r. r \<noteq> 0) rets of [] \<Rightarrow> 0 | r # _ \<Rightarrow> r)"

definition SetupSSLConfig :: "tls_env \<Rightarrow> 'c TLSChannel \<Rightarrow> 'c TLSChannel \<times> Error" where
  "SetupSSLConfig env t =
     (if te_GetCertificate env \<noteq> ENone then (t, AOS_ERROR_WRAP (te_GetCertificate env))
      else if te_LoadCertsChain env \<noteq> ENone then (t, AOS_ERROR_WRAP (te_LoadCertsChain env))
      else if first_failure (te_crt_parse_chain env) \<noteq> 0
        then (t, AOS_ERROR_WRAP (error_of_int (first_failure (te_crt_parse_chain env))))
      else if te_crt_parse_ca env \<noteq> 0 then (t, AOS_ERROR_WRAP (error_of_int (te_crt_parse_ca env)))
      else if te_LoadPrivKey env \<noteq> ENone then (t, AOS_ERROR_WRAP (te_LoadPrivKey env))
      else
        (case SetupOpaqueKey env (t\<lparr>tl_mPrivKey := True\<rparr>) of
           ((keyID, err), t1) \<Rightarrow>
             if err \<noteq> ENone then (t1, AOS_ERROR_WRAP err)
             else
               (let t2 = t1\<lparr>tl_mKeyID := keyID\<rparr> in
                if te_ctr_drbg_seed env \<noteq> 0 then (t2, AOS_ERROR_WRAP (error_of_int (te_ctr_drbg_seed env)))
                else if te_config_defaults env \<noteq> 0 then (t2, AOS_ERROR_WRAP (error_of_int (te_config_defaults env)))
                else if te_conf_own_cert env \<noteq> 0 then (t2, AOS_ERROR_WRAP (error_of_int (te_conf_own_cert env)))
                else if te_ssl_setup env \<noteq> 0 then (t2, AOS_ERROR_WRAP (error_of_int (te_ssl_setup env)))
                else (t2, ENone))))"

text \<open>\<open>StaticString\<close> assignment of a certificate type that fits.\<close>

definition SetTLSConfig :: "tls_env \<Rightarrow> string \<Rightarrow> 'c TLSChannel \<Rightarrow> 'c TLSChannel \<times> Error" where
  "SetTLSConfig env certType t0 =
     (let t = (if tl_mCertType t0 \<noteq> [] then Cleanup t0 else t0) in
      case SetupSSLConfig env t of
        (t', err) \<Rightarrow>
          if err \<noteq> ENone then (Cleanup t', err) else (t'\<lparr>tl_mCertType := certType\<rparr>, ENone))"

text \<open>
  The TLS layer over a plain channel: the handshake, the read and the write of mbedTLS, each
  working on the channel below, and the verify result.
\<close>

record 'c tls_ops =
  to_handshake :: "'c \<Rightarrow> 'c \<times> int"
  to_read :: "'c \<Rightarrow> nat \<Rightarrow> int \<times> byte list \<times> 'c"
  to_write :: "'c \<Rightarrow> byte list \<Rightarrow> int \<times> 'c"
  to_verify :: int

definition TLSConnect :: "'c ChannelItf \<Rightarrow> 'c tls_ops \<Rightarrow> 'c TLSChannel \<Rightarrow> 'c TLSChannel \<times> Error" where
  "TLSConnect ci ops t =
     (case ci_Connect ci (tl_mChannel t) of
        (c, err) \<Rightarrow>
          if err \<noteq> ENone then (t\<lparr>tl_mChannel := c\<rparr>, AOS_ERROR_WRAP err)
          else (case to_handshake ops c of
            (c', ret) \<Rightarrow> (t\<lparr>tl_mChannel := c'\<rparr>, error_of_int ret)))"

definition TLSChannel_Connect :: "'c ChannelItf \<Rightarrow> 'c tls_ops \<Rightarrow> 'c TLSChannel \<Rightarrow> 'c TLSChannel \<times> Error" where
  "TLSChannel_Connect ci ops t =
     (if tl_mCertType t = []
      then (case ci_Connect ci (tl_mChannel t) of (c, err) \<Rightarrow> (t\<lparr>tl_mChannel := c\<rparr>, err))
      else (case TLSConnect ci ops t of
        (t', err) \<Rightarrow> if err \<noteq> ENone then (t', AOS_ERROR_WRAP err) else (t', error_of_int (to_verify ops))))"

definition TLSChannel_Close :: "'c ChannelItf \<Rightarrow> 'c TLSChannel \<Rightarrow> 'c TLSChannel \<times> Error" where
  "TLSChannel_Close ci t = (case ci_Close ci (tl_mChannel t) of (c, err) \<Rightarrow> (t\<lparr>tl_mChannel := c\<rparr>, err))"

definition TLSChannel_Read :: "'c ChannelItf \<Rightarrow> 'c tls_ops \<Rightarrow> 'c TLSChannel \<Rightarrow> nat \<Rightarrow> int \<times> byte list \<times> 'c TLSChannel" where
  "TLSChannel_Read ci ops t n =
     (case (if tl_mCertType t = [] then ci_Read ci (tl_mChannel t) n else to_read ops (tl_mChannel t) n) of
        (r, bs, c) \<Rightarrow> (r, bs, t\<lparr>tl_mChannel := c\<rparr>))"

definition TLSChannel_Write :: "'c ChannelItf \<Rightarrow> 'c tls_ops \<Rightarrow> 'c TLSChannel \<Rightarrow> byte list \<Rightarrow> int \<times> 'c TLSChannel" where
  "TLSChannel_Write ci ops t bs =
     (case (if tl_mCertType t = [] then ci_Write ci (tl_mChannel t) bs else to_write ops (tl_mChannel t) bs) of
        (r, c) \<Rightarrow> (r, t\<lparr>tl_mChannel := c\<rparr>))"

text \<open>The callbacks through which mbedTLS sends and receives its records, and the destructor.\<close>

definition TLSWrite :: "'c ChannelItf \<Rightarrow> 'c TLSChannel \<Rightarrow> byte list \<Rightarrow> int \<times> 'c TLSChannel" where
  "TLSWrite ci t buf = (case ci_Write ci (tl_mChannel t) buf of (r, c) \<Rightarrow> (r, t\<lparr>tl_mChannel := c\<rparr>))"

definition TLSRead :: "'c ChannelItf \<Rightarrow> 'c TLSChannel \<Rightarrow> nat \<Rightarrow> int \<times> byte list \<times> 'c TLSChannel" where
  "TLSRead ci t len = (case ci_Read ci (tl_mChannel t) len of (r, bs, c) \<Rightarrow> (r, bs, t\<lparr>tl_mChannel := c\<rparr>))"

definition TLSChannel_destroy :: "'c TLSChannel \<Rightarrow> 'c TLSChannel" where
  "TLSChannel_destroy t = Cleanup t"

text \<open>A TLS channel is itself a \<open>ChannelItf\<close>.\<close>

definition tls_itf :: "'c ChannelItf \<Rightarrow> 'c tls_ops \<Rightarrow> 'c TLSChannel ChannelItf" where
  "tls_itf ci ops = \<lparr>ci_Connect = TLSChannel_Connect ci ops, ci_Close = TLSChannel_Close ci,
     ci_Read = TLSChannel_Read ci ops, ci_Write = TLSChannel_Write ci ops\<rparr>"

section \<open>Lemmas\<close>

lemmas tls_defs = SetTLSConfig_def SetupSSLConfig_def SetupOpaqueKey_def Cleanup_def AosPsaRemoveKey_def

text \<open>The key store hands out fresh non-zero identifiers.\<close>

definition env_fresh :: "tls_env \<Rightarrow> 'c TLSChannel \<Rightarrow> bool" where
  "env_fresh env t \<longleftrightarrow>
     (snd (te_PsaAddKey env) = ENone \<longrightarrow> fst (te_PsaAddKey env) \<notin> tl_psa t \<and> fst (te_PsaAddKey env) \<noteq> 0)"

text \<open>What the channel has registered beside the keys of the others.\<close>

definition keys_ok :: "nat set \<Rightarrow> 'c TLSChannel \<Rightarrow> bool" where
  "keys_ok others t \<longleftrightarrow>
     (if tl_mCertType t = [] then tl_psa t = others
      else tl_mKeyID t \<noteq> 0 \<and> tl_mKeyID t \<notin> others \<and> tl_psa t = insert (tl_mKeyID t) others)"

lemma Cleanup_keys_ok:
  "keys_ok others t \<Longrightarrow> tl_mCertType t \<noteq> [] \<Longrightarrow> keys_ok others (Cleanup t)"
  by (auto simp: keys_ok_def Cleanup_def AosPsaRemoveKey_def Let_def)

lemma SetupSSLConfig_result:
  assumes "SetupSSLConfig env t = (t', err)" "tl_psa t = others" "env_fresh env t"
  shows "tl_mCertType t' = tl_mCertType t \<and>
    (tl_mKeyID t' = tl_mKeyID t \<and> tl_psa t' = others \<and> err \<noteq> ENone \<or>
     tl_mKeyID t' \<noteq> 0 \<and> tl_mKeyID t' \<notin> others \<and> tl_psa t' = insert (tl_mKeyID t') others)"
  using assms
  by (auto simp: SetupSSLConfig_def SetupOpaqueKey_def AosPsaRemoveKey_def env_fresh_def Let_def
      split: prod.splits if_splits)

lemma SetTLSConfig_keys:
  assumes "keys_ok others t" "env_fresh env (if tl_mCertType t \<noteq> [] then Cleanup t else t)"
    and "tl_mKeyID t \<notin> others" "SetTLSConfig env certType t = (t', err)" "certType \<noteq> []"
  shows "keys_ok others t' \<and> (tl_mCertType t' = (if err = ENone then certType else []))"
proof -
  let ?t0 = "if tl_mCertType t \<noteq> [] then Cleanup t else t"
  have t0: "tl_psa ?t0 = others" "tl_mCertType ?t0 = []" "tl_mKeyID ?t0 = tl_mKeyID t"
    using assms(1) by (auto simp: keys_ok_def Cleanup_def AosPsaRemoveKey_def Let_def)
  obtain t1 e where s: "SetupSSLConfig env ?t0 = (t1, e)" by fastforce
  note r = SetupSSLConfig_result [OF s t0(1) assms(2)]
  have res: "t' = (if e \<noteq> ENone then Cleanup t1 else t1\<lparr>tl_mCertType := certType\<rparr>)" "err = e"
    using assms(4) s by (auto simp: SetTLSConfig_def Let_def split: if_splits)
  show ?thesis
  proof (cases "e = ENone")
    case True
    with r res assms(5) show ?thesis by (auto simp: keys_ok_def)
  next
    case False
    with r res t0 assms(3) show ?thesis
      by (auto simp: keys_ok_def Cleanup_def AosPsaRemoveKey_def Let_def)
  qed
qed

text \<open>The end of a channel takes its key out of the store.\<close>

lemma TLSChannel_destroy_keys:
  assumes "keys_ok others t" "tl_mCertType t \<noteq> []"
  shows "tl_psa (TLSChannel_destroy t) = others"
  using Cleanup_keys_ok [OF assms] by (simp add: TLSChannel_destroy_def keys_ok_def) (simp add: Cleanup_def Let_def)

text \<open>A channel without certificate type is the plain channel that also carries the records of TLS.\<close>

lemma plain_channel:
  assumes "tl_mCertType t = []"
  shows "TLSChannel_Write ci ops t buf = TLSWrite ci t buf" "TLSChannel_Read ci ops t n = TLSRead ci t n"
  using assms by (simp_all add: TLSChannel_Write_def TLSWrite_def TLSChannel_Read_def TLSRead_def)

section \<open>Properties\<close>


definition demo_tls :: "nat set \<Rightarrow> unit TLSChannel" where
  "demo_tls keys = \<lparr>tl_mName = ''iam'', tl_mCertType = [], tl_mKeyID = 0, tl_mPrivKey = False, tl_mChannel = (), tl_psa = keys\<rparr>"

definition demo_tls_env :: "nat \<Rightarrow> int \<Rightarrow> tls_env" where
  "demo_tls_env k r = \<lparr>te_GetCertificate = ENone, te_LoadCertsChain = ENone, te_crt_parse_chain = [0, 0],
     te_crt_parse_ca = 0, te_LoadPrivKey = ENone, te_PsaAddKey = (k, ENone), te_pk_setup_opaque = 0,
     te_ctr_drbg_seed = 0, te_config_defaults = r, te_conf_own_cert = 0, te_ssl_setup = 0\<rparr>"


text \<open>A forgotten reset: \<open>Cleanup\<close> removes the channel's key but keeps its identifier. When
  a configured channel fails to be reconfigured, its identifier is free; once the key store
  has given it to somebody else, the next failing \<open>SetTLSConfig\<close> removes that foreign key.\<close>

theorem tls_stale_key_removed:
  assumes "tl_mCertType t \<noteq> []" "tl_mKeyID t \<noteq> 0"
    and "te_GetCertificate env \<noteq> ENone" "te_GetCertificate env' \<noteq> ENone"
    and "t1 = fst (SetTLSConfig env certType t)"
    and "t2 = t1\<lparr>tl_psa := insert (tl_mKeyID t) (tl_psa t1)\<rparr>"
    and "t3 = fst (SetTLSConfig env' certType t2)"
  shows "tl_mCertType t1 = [] \<and> tl_mKeyID t \<notin> tl_psa t1 \<and> tl_mKeyID t \<in> tl_psa t2 \<and> tl_mKeyID t \<notin> tl_psa t3"
  using assms by (simp add: tls_defs Let_def)

lemma tls_stale_key_removed_witness:
  "5 \<notin> tl_psa (fst (SetTLSConfig ((demo_tls_env 9 0)\<lparr>te_GetCertificate := EEnum eNotFound\<rparr>) ''iam''
     (fst (SetTLSConfig ((demo_tls_env 9 0)\<lparr>te_GetCertificate := EEnum eNotFound\<rparr>) ''iam''
        (fst (SetTLSConfig (demo_tls_env 5 0) ''iam'' (demo_tls {3}))))\<lparr>tl_psa := {3, 5}\<rparr>)))"
proof -
  let ?bad = "(demo_tls_env 9 0)\<lparr>te_GetCertificate := EEnum eNotFound\<rparr>"
  let ?t = "fst (SetTLSConfig (demo_tls_env 5 0) ''iam'' (demo_tls {3}))"
  note ev = tls_defs demo_tls_env_def demo_tls_def first_failure_def Let_def
  have t: "tl_mCertType ?t \<noteq> []" "tl_mKeyID ?t = 5" by (simp_all add: ev)
  have psa: "insert (tl_mKeyID ?t) (tl_psa (fst (SetTLSConfig ?bad ''iam'' ?t))) = {3, 5}"
    by (auto simp: ev)
  have bad: "te_GetCertificate ?bad \<noteq> ENone" by simp
  have "tl_mKeyID ?t \<noteq> 0" using t(2) by simp
  from tls_stale_key_removed [where certType = "''iam''", OF t(1) this bad bad refl refl refl]
  show ?thesis unfolding psa unfolding t(2) by blast
qed

text \<open>The channel's mode follows the configuration: after a successful \<open>SetTLSConfig\<close> with a
  certificate type every read and write goes through TLS and a connect succeeds only after
  a handshake without error and a clean verify result; after a failed one it is the plain
  channel again.\<close>

theorem tls_mode:
  assumes "SetTLSConfig env certType t = (t', err)" "certType \<noteq> []"
  shows "(err = ENone \<longrightarrow>
      (\<forall>bs. fst (TLSChannel_Write ci ops t' bs) = fst (to_write ops (tl_mChannel t') bs)) \<and>
      (\<forall>n. fst (TLSChannel_Read ci ops t' n) = fst (to_read ops (tl_mChannel t') n)) \<and>
      (snd (TLSChannel_Connect ci ops t') = ENone \<longleftrightarrow>
        (\<exists>c. ci_Connect ci (tl_mChannel t') = (c, ENone) \<and> snd (to_handshake ops c) = 0) \<and> to_verify ops = 0)) \<and>
    (err \<noteq> ENone \<longrightarrow>
      (\<forall>bs. fst (TLSChannel_Write ci ops t' bs) = fst (ci_Write ci (tl_mChannel t') bs)) \<and>
      (\<forall>n. fst (TLSChannel_Read ci ops t' n) = fst (ci_Read ci (tl_mChannel t') n)) \<and>
      snd (TLSChannel_Connect ci ops t') = snd (ci_Connect ci (tl_mChannel t')))"
proof -
  have "tl_mCertType t' = (if err = ENone then certType else [])"
    using assms by (auto simp: SetTLSConfig_def Cleanup_def AosPsaRemoveKey_def Let_def split: prod.splits if_splits)
  then show ?thesis
    using assms(2) by (auto simp: TLSChannel_Write_def TLSChannel_Read_def TLSChannel_Connect_def TLSConnect_def
        split: prod.splits if_splits)
qed

lemma tls_mode_witness:
  "\<forall>ci ops. \<exists>t'. SetTLSConfig (demo_tls_env 5 0) ''iam'' (demo_tls {}) = (t', ENone) \<and>
     fst (TLSChannel_Write ci ops t' [1]) = fst (to_write ops () [1])"
proof (intro allI)
  fix ci :: "unit ChannelItf" and ops :: "unit tls_ops"
  obtain t' where s: "SetTLSConfig (demo_tls_env 5 0) ''iam'' (demo_tls {}) = (t', ENone)"
    by (auto simp: tls_defs demo_tls_env_def demo_tls_def first_failure_def Let_def)
  from tls_mode [OF s] s show "\<exists>t'. SetTLSConfig (demo_tls_env 5 0) ''iam'' (demo_tls {}) = (t', ENone) \<and>
     fst (TLSChannel_Write ci ops t' [1]) = fst (to_write ops () [1])" by simp
qed

end
