(* ===== verification/FileStorage.thy ===== *)
theory FileStorage
  imports Checksum
begin

text \<open>
  \<open>src/storage/filestorage.hpp\<close>: a file of fixed-size records after a header. The file is
  its bytes, the descriptor and the offset; each system call may fail as a schedule of
  faults says. The operations are the system call sequences of the source. They are shown to
  implement a list of live records, whatever calls fail.
\<close>

section \<open>The file\<close>

text \<open>
  \<open>FErr\<close> fails a call, \<open>FShort\<close> makes a write stop after some bytes (it does not affect other
  calls: a regular file reads short at its end only). The exhausted schedule has no faults.
\<close>

datatype fault = FOk | FErr int | FShort nat

record db_file =
  df_bytes :: "byte list"
  df_pos :: nat
  df_open :: bool
  df_faults :: "fault list"

definition next_fault :: "db_file \<Rightarrow> fault \<times> db_file" where
  "next_fault f = (case df_faults f of [] \<Rightarrow> (FOk, f) | x # xs \<Rightarrow> (x, f\<lparr>df_faults := xs\<rparr>))"

definition EBADF :: int where "EBADF = 9"

definition sys_lseek :: "nat \<Rightarrow> db_file \<Rightarrow> (int + nat) \<times> db_file" where
  "sys_lseek off f =
     (if \<not> df_open f then (Inl EBADF, f)
      else (case next_fault f of
        (FErr e, f') \<Rightarrow> (Inl e, f')
      | (_, f') \<Rightarrow> (Inr off, f'\<lparr>df_pos := off\<rparr>)))"

definition sys_read :: "nat \<Rightarrow> db_file \<Rightarrow> (int + byte list) \<times> db_file" where
  "sys_read n f =
     (if \<not> df_open f then (Inl EBADF, f)
      else (case next_fault f of
        (FErr e, f') \<Rightarrow> (Inl e, f')
      | (_, f') \<Rightarrow>
          (let bs = take n (drop (df_pos f') (df_bytes f'))
           in (Inr bs, f'\<lparr>df_pos := df_pos f' + length bs\<rparr>))))"

definition overwrite :: "nat \<Rightarrow> byte list \<Rightarrow> byte list \<Rightarrow> byte list" where
  "overwrite off bs old = take off old @ replicate (off - length old) 0 @ bs @ drop (off + length bs) old"

definition sys_write :: "byte list \<Rightarrow> db_file \<Rightarrow> (int + nat) \<times> db_file" where
  "sys_write bs f =
     (if \<not> df_open f then (Inl EBADF, f)
      else (case next_fault f of
        (FErr e, f') \<Rightarrow> (Inl e, f')
      | (ft, f') \<Rightarrow>
          (let bs' = (case ft of FShort n \<Rightarrow> take n bs | _ \<Rightarrow> bs)
           in (Inr (length bs'),
               f'\<lparr>df_bytes := overwrite (df_pos f') bs' (df_bytes f'), df_pos := df_pos f' + length bs'\<rparr>))))"

definition sys_close :: "db_file \<Rightarrow> int option \<times> db_file" where
  "sys_close f = (case next_fault f of
     (FErr e, f') \<Rightarrow> (Some e, f') | (_, f') \<Rightarrow> (None, f'\<lparr>df_open := False\<rparr>))"

text \<open>\<open>open\<close> with \<open>O_RDWR | O_CREAT\<close>: the content stays, the offset is zero.\<close>

definition sys_open :: "db_file \<Rightarrow> int option \<times> db_file" where
  "sys_open f = (case next_fault f of
     (FErr e, f') \<Rightarrow> (Some e, f'\<lparr>df_open := False\<rparr>)
   | (_, f') \<Rightarrow> (None, f'\<lparr>df_open := True, df_pos := 0\<rparr>))"

section \<open>Records\<close>

definition Header_size :: nat where "Header_size = 8 + 256 + 32"

text \<open>
  The stored type is plain data: its bytes, the value of some bytes, its size, and which
  values it can hold. A record in the file ends with the padding that the compiler adds behind its checksum;
  \<open>rl_tail\<close> is what the buffer of a new record holds behind the deleted mark, where
  the checksum and this padding will be.
\<close>

record 'd rec_layout =
  rl_enc :: "'d \<Rightarrow> byte list"
  rl_dec :: "byte list \<Rightarrow> 'd"
  rl_size :: nat
  rl_tail :: "byte list"
  rl_valid :: "'d \<Rightarrow> bool"

definition layout_valid :: "'d rec_layout \<Rightarrow> bool" where
  "layout_valid rl \<longleftrightarrow> 32 \<le> length (rl_tail rl) \<and> (\<forall>d. length (rl_enc rl d) = rl_size rl \<and> (rl_valid rl d \<longrightarrow> rl_dec rl (rl_enc rl d) = d))"

record 'd Record =
  rc_mData :: 'd
  rc_mDeleted :: byte
  rc_mChecksum :: "byte list"
  rc_padding :: "byte list"

definition Record_padding :: "'d rec_layout \<Rightarrow> nat" where
  "Record_padding rl = length (rl_tail rl) - 32"

definition Record_size :: "'d rec_layout \<Rightarrow> nat" where
  "Record_size rl = rl_size rl + 1 + 32 + Record_padding rl"

definition Record_bytes :: "'d rec_layout \<Rightarrow> 'd Record \<Rightarrow> byte list" where
  "Record_bytes rl r = rl_enc rl (rc_mData r) @ [rc_mDeleted r] @ rc_mChecksum r @ rc_padding r"

definition Record_of :: "'d rec_layout \<Rightarrow> byte list \<Rightarrow> 'd Record" where
  "Record_of rl bs =
     \<lparr>rc_mData = rl_dec rl (take (rl_size rl) bs), rc_mDeleted = bs ! rl_size rl,
      rc_mChecksum = take 32 (drop (rl_size rl + 1) bs), rc_padding = drop (rl_size rl + 33) bs\<rparr>"

text \<open>The checksum is computed over all but the last 32 bytes of the structure, so that with padding it
  covers the first bytes of the old checksum, too.\<close>

definition hashed :: "'d rec_layout \<Rightarrow> 'd \<Rightarrow> byte \<Rightarrow> byte list \<Rightarrow> byte list" where
  "hashed rl data deleted checksum = rl_enc rl data @ [deleted] @ take (Record_padding rl) checksum"

section \<open>The operations\<close>

definition Sync :: "db_file \<Rightarrow> Error \<times> db_file" where
  "Sync f =
     (case (if df_open f then sys_close f else (None, f)) of
        (Some e, f1) \<Rightarrow> (AOS_ERROR_WRAP (EErrno e), f1)
      | (None, f1) \<Rightarrow>
          (case sys_open f1 of
             (Some e, f2) \<Rightarrow> (AOS_ERROR_WRAP (EErrno e), f2)
           | (None, f2) \<Rightarrow> (ENone, f2)))"

text \<open>
  \<open>Init\<close>; \<open>header\<close> is the content of the freshly allocated header structure. Its checksum is
  computed, but never stored in it.
\<close>

definition FileStorage_Init :: "sha_env \<Rightarrow> byte list \<Rightarrow> db_file \<Rightarrow> Error \<times> db_file" where
  "FileStorage_Init env header f =
     (case sys_open f of
        (Some e, f1) \<Rightarrow> (AOS_ERROR_WRAP (EErrno e), f1)
      | (None, f1) \<Rightarrow>
          (case sys_lseek (length (df_bytes f1)) f1 of
             (Inl e, f2) \<Rightarrow> (AOS_ERROR_WRAP (EErrno e), f2)
           | (Inr fileSize, f2) \<Rightarrow>
               if fileSize \<noteq> 0 then Sync f2
               else (case CalculateSha256 env (take (Header_size - 32) header) of
                 (_, err) \<Rightarrow>
                   if err \<noteq> ENone then (AOS_ERROR_WRAP err, f2)
                   else (case sys_write (take Header_size header) f2 of
                     (Inl e, f3) \<Rightarrow> (AOS_ERROR_WRAP (EErrno e), f3)
                   | (Inr n, f3) \<Rightarrow> if n \<noteq> Header_size then (EEnum eRuntime, f3) else Sync f3))))"

text \<open>A full read of a record brings the offset closer to the end of the file.\<close>

lemma sys_read_Inr:
  "sys_read n f = (Inr bs, f') \<Longrightarrow> bs = take n (drop (df_pos f) (df_bytes f)) \<and> df_bytes f' = df_bytes f \<and>
    df_pos f' = df_pos f + length bs \<and> df_open f' \<and> df_open f"
  by (auto simp: sys_read_def next_fault_def Let_def split: if_splits list.splits fault.splits prod.splits)

lemma sys_read_progress:
  "sys_read (Record_size rl) f = (Inr bs, f') \<Longrightarrow> length bs = Record_size rl \<Longrightarrow>
    length (df_bytes f') - df_pos f' < length (df_bytes f) - df_pos f"
  using sys_read_Inr [of "Record_size rl" f bs f'] by (auto simp: Record_size_def)

text \<open>The search of \<open>Update\<close>, \<open>Remove\<close> and \<open>ReadRecordByFilter\<close>: up to the first live match.\<close>

function scan :: "'d rec_layout \<Rightarrow> ('d \<Rightarrow> bool) \<Rightarrow> db_file \<Rightarrow> (int + 'd Record option) \<times> db_file" where
  "scan rl p f =
     (case sys_read (Record_size rl) f of
        (Inl e, f') \<Rightarrow> (Inl e, f')
      | (Inr bs, f') \<Rightarrow>
          if length bs = Record_size rl then
            (if rc_mDeleted (Record_of rl bs) \<noteq> 0 then scan rl p f'
             else if \<not> p (rc_mData (Record_of rl bs)) then scan rl p f'
             else (Inr (Some (Record_of rl bs)), f'))
          else (Inr None, f'))"
  by pat_completeness auto
termination
  by (relation "measure (\<lambda>(rl, p, f). length (df_bytes f) - df_pos f)") (auto dest!: sys_read_progress [OF sym])

text \<open>
  The scan of \<open>Add\<close>: an existing match is an error; otherwise the offset of the first
  deleted record, if any.
\<close>

function Add_scan :: "'d rec_layout \<Rightarrow> ('d \<Rightarrow> bool) \<Rightarrow> nat option \<Rightarrow> db_file \<Rightarrow> (Error + nat option) \<times> db_file" where
  "Add_scan rl p del f =
     (case sys_read (Record_size rl) f of
        (Inl e, f') \<Rightarrow> (Inl (AOS_ERROR_WRAP (EErrno e)), f')
      | (Inr bs, f') \<Rightarrow>
          if length bs = Record_size rl then
            (if rc_mDeleted (Record_of rl bs) = 0 \<and> p (rc_mData (Record_of rl bs))
             then (Inl (EEnum eAlreadyExist), f')
             else if del = None \<and> rc_mDeleted (Record_of rl bs) \<noteq> 0 then
               (case sys_lseek (df_pos f') f' of
                  (Inl e, f'') \<Rightarrow> (Inl (AOS_ERROR_WRAP (EErrno e)), f'')
                | (Inr off, f'') \<Rightarrow> Add_scan rl p (Some (off - Record_size rl)) f'')
             else Add_scan rl p del f')
          else (Inr del, f'))"
  by pat_completeness auto
termination
proof (relation "measure (\<lambda>(rl, p, del, f). length (df_bytes f) - df_pos f)", goal_cases)
  case (2 rl p del f res f' bs x ff y)
  then show ?case
    by (auto dest!: sys_read_progress [OF sym] simp: sys_lseek_def next_fault_def
        split: if_splits list.splits fault.splits)
next
  case (3 rl p del f res f' bs)
  then show ?case by (auto dest!: sys_read_progress [OF sym])
qed simp

declare scan.simps [simp del] Add_scan.simps [simp del]

definition write_record :: "'d rec_layout \<Rightarrow> 'd Record \<Rightarrow> db_file \<Rightarrow> Error \<times> db_file" where
  "write_record rl r f =
     (case sys_write (Record_bytes rl r) f of
        (Inl e, f') \<Rightarrow> (AOS_ERROR_WRAP (EErrno e), f')
      | (Inr n, f') \<Rightarrow> if n \<noteq> Record_size rl then (EEnum eRuntime, f') else (ENone, f'))"

definition FileStorage_Add ::
  "'d rec_layout \<Rightarrow> sha_env \<Rightarrow> ('d \<Rightarrow> 'd \<Rightarrow> bool) \<Rightarrow> 'd \<Rightarrow> db_file \<Rightarrow> Error \<times> db_file" where
  "FileStorage_Add rl env flt data f =
     (case sys_lseek Header_size f of
        (Inl e, f1) \<Rightarrow> (AOS_ERROR_WRAP (EErrno e), f1)
      | (Inr _, f1) \<Rightarrow>
          (case Add_scan rl (\<lambda>d. flt d data) None f1 of
             (Inl err, f2) \<Rightarrow> (err, f2)
           | (Inr del, f2) \<Rightarrow>
               (case CalculateSha256 env (hashed rl data 0 (take 32 (rl_tail rl))) of
                  (digest, err) \<Rightarrow>
                    if err \<noteq> ENone then (err, f2)
                    else (case (case del of Some off \<Rightarrow> sys_lseek off f2 | None \<Rightarrow> (Inr 0, f2)) of
                      (Inl e, f3) \<Rightarrow> (AOS_ERROR_WRAP (EErrno e), f3)
                    | (Inr _, f3) \<Rightarrow>
                        (case write_record rl \<lparr>rc_mData = data, rc_mDeleted = 0, rc_mChecksum = digest, rc_padding = drop 32 (rl_tail rl)\<rparr> f3 of
                           (err, f4) \<Rightarrow> if err \<noteq> ENone then (err, f4) else Sync f4)))))"

definition FileStorage_Update ::
  "'d rec_layout \<Rightarrow> sha_env \<Rightarrow> ('d \<Rightarrow> bool) \<Rightarrow> 'd \<Rightarrow> db_file \<Rightarrow> Error \<times> db_file" where
  "FileStorage_Update rl env flt data f =
     (case sys_lseek Header_size f of
        (Inl e, f1) \<Rightarrow> (AOS_ERROR_WRAP (EErrno e), f1)
      | (Inr _, f1) \<Rightarrow>
          (case scan rl flt f1 of
             (Inl e, f2) \<Rightarrow> (AOS_ERROR_WRAP (EErrno e), f2)
           | (Inr None, f2) \<Rightarrow>
               (case Sync f2 of (err, f3) \<Rightarrow> if err \<noteq> ENone then (err, f3) else (EEnum eNotFound, f3))
           | (Inr (Some r), f2) \<Rightarrow>
               (case sys_lseek (df_pos f2 - Record_size rl) f2 of
                  (Inl e, f3) \<Rightarrow> (AOS_ERROR_WRAP (EErrno e), f3)
                | (Inr _, f3) \<Rightarrow>
                    (case CalculateSha256 env (hashed rl data (rc_mDeleted r) (rc_mChecksum r)) of
                       (digest, err) \<Rightarrow>
                         if err \<noteq> ENone then (err, f3)
                         else write_record rl (r\<lparr>rc_mData := data, rc_mChecksum := digest\<rparr>) f3))))"

definition FileStorage_Remove ::
  "'d rec_layout \<Rightarrow> ('d \<Rightarrow> bool) \<Rightarrow> db_file \<Rightarrow> Error \<times> db_file" where
  "FileStorage_Remove rl flt f =
     (case sys_lseek Header_size f of
        (Inl e, f1) \<Rightarrow> (AOS_ERROR_WRAP (EErrno e), f1)
      | (Inr _, f1) \<Rightarrow>
          (case scan rl flt f1 of
             (Inl e, f2) \<Rightarrow> (AOS_ERROR_WRAP (EErrno e), f2)
           | (Inr None, f2) \<Rightarrow> (EEnum eNotFound, f2)
           | (Inr (Some r), f2) \<Rightarrow>
               (case sys_lseek (df_pos f2 - Record_size rl) f2 of
                  (Inl e, f3) \<Rightarrow> (AOS_ERROR_WRAP (EErrno e), f3)
                | (Inr _, f3) \<Rightarrow>
                    (case write_record rl (r\<lparr>rc_mDeleted := 1\<rparr>) f3 of
                       (err, f4) \<Rightarrow> if err \<noteq> ENone then (err, f4) else Sync f4))))"

text \<open>\<open>appendf\<close> acts on what the caller collects; its error ends the scan.\<close>

function read_all :: "'d rec_layout \<Rightarrow> ('d \<Rightarrow> 'a \<Rightarrow> 'a \<times> Error) \<Rightarrow> 'a \<Rightarrow> db_file \<Rightarrow> Error \<times> 'a \<times> db_file" where
  "read_all rl appendf acc f =
     (case sys_read (Record_size rl) f of
        (Inl e, f') \<Rightarrow> (AOS_ERROR_WRAP (EErrno e), acc, f')
      | (Inr bs, f') \<Rightarrow>
          if length bs = Record_size rl then
            (if rc_mDeleted (Record_of rl bs) \<noteq> 0 then read_all rl appendf acc f'
             else (case appendf (rc_mData (Record_of rl bs)) acc of
               (acc', err) \<Rightarrow> if err \<noteq> ENone then (err, acc', f') else read_all rl appendf acc' f'))
          else (ENone, acc, f'))"
  by pat_completeness auto
termination
  by (relation "measure (\<lambda>(rl, a, acc, f). length (df_bytes f) - df_pos f)") (auto dest!: sys_read_progress [OF sym])

declare read_all.simps [simp del]

definition ReadRecords :: "'d rec_layout \<Rightarrow> ('d \<Rightarrow> 'a \<Rightarrow> 'a \<times> Error) \<Rightarrow> 'a \<Rightarrow> db_file \<Rightarrow> Error \<times> 'a \<times> db_file" where
  "ReadRecords rl appendf acc f =
     (case sys_lseek Header_size f of
        (Inl e, f1) \<Rightarrow> (AOS_ERROR_WRAP (EErrno e), acc, f1)
      | (Inr _, f1) \<Rightarrow> read_all rl appendf acc f1)"

definition ReadRecordByFilter :: "'d rec_layout \<Rightarrow> ('d \<Rightarrow> bool) \<Rightarrow> db_file \<Rightarrow> (Error + 'd) \<times> db_file" where
  "ReadRecordByFilter rl flt f =
     (case sys_lseek Header_size f of
        (Inl e, f1) \<Rightarrow> (Inl (AOS_ERROR_WRAP (EErrno e)), f1)
      | (Inr _, f1) \<Rightarrow>
          (case scan rl flt f1 of
             (Inl e, f2) \<Rightarrow> (Inl (AOS_ERROR_WRAP (EErrno e)), f2)
           | (Inr None, f2) \<Rightarrow> (Inl (EEnum eNotFound), f2)
           | (Inr (Some r), f2) \<Rightarrow> (Inr (rc_mData r), f2)))"

section \<open>System calls on a well-formed file\<close>

text \<open>The file holds the records \<open>rs\<close> after its header.\<close>

definition rec_ok :: "'d rec_layout \<Rightarrow> 'd Record \<Rightarrow> bool" where
  "rec_ok rl r \<longleftrightarrow> length (rc_mChecksum r) = 32 \<and> length (rc_padding r) = Record_padding rl \<and> rl_valid rl (rc_mData r)"

abbreviation recs_bytes :: "'d rec_layout \<Rightarrow> 'd Record list \<Rightarrow> byte list" where
  "recs_bytes rl rs \<equiv> concat (map (Record_bytes rl) rs)"

definition holds_records :: "'d rec_layout \<Rightarrow> 'd Record list \<Rightarrow> db_file \<Rightarrow> bool" where
  "holds_records rl rs f \<longleftrightarrow>
     (\<exists>hdr. df_bytes f = hdr @ recs_bytes rl rs \<and> length hdr = Header_size) \<and> (\<forall>r\<in>set rs. rec_ok rl r)"

definition live :: "'d Record list \<Rightarrow> 'd list" where
  "live rs = map rc_mData (filter (\<lambda>r. rc_mDeleted r = 0) rs)"

definition hit :: "('d \<Rightarrow> bool) \<Rightarrow> 'd Record \<Rightarrow> bool" where
  "hit p r \<longleftrightarrow> rc_mDeleted r = 0 \<and> p (rc_mData r)"

lemma live_simps [simp]:
  "live [] = []" "live (r # rs) = (if rc_mDeleted r = 0 then [rc_mData r] else []) @ live rs"
  "live (rs @ rs') = live rs @ live rs'"
  by (simp_all add: live_def)

text \<open>A call may fail only if the schedule says so, and consumes the schedule from its front.\<close>

definition quiet :: "db_file \<Rightarrow> db_file \<Rightarrow> bool" where
  "quiet f f' \<longleftrightarrow> df_bytes f' = df_bytes f \<and> df_open f' = df_open f \<and> suffix (df_faults f') (df_faults f)"

definition no_short :: "db_file \<Rightarrow> bool" where
  "no_short f \<longleftrightarrow> (\<forall>n. FShort n \<notin> set (df_faults f))"

lemma quiet_refl [simp]: "quiet f f"
  by (simp add: quiet_def)

lemma quiet_trans: "quiet f g \<Longrightarrow> quiet g h \<Longrightarrow> quiet f h"
  by (auto simp: quiet_def intro: suffix_order.trans)

lemma quiet_pos [simp]: "quiet f (f'\<lparr>df_pos := n\<rparr>) = quiet f f'"
  by (simp add: quiet_def)

lemma suffix_no_short: "suffix (df_faults f') (df_faults f) \<Longrightarrow> no_short f \<Longrightarrow> no_short f'"
  by (auto simp: no_short_def suffix_def)

lemma suffix_faults: "suffix (df_faults f') (df_faults f) \<Longrightarrow> df_faults f' \<noteq> [] \<Longrightarrow> df_faults f \<noteq> []"
  by (auto simp: suffix_def)

lemma next_fault_quiet: "next_fault f = (ft, f') \<Longrightarrow>
    quiet f f' \<and> df_pos f' = df_pos f \<and> (ft = FOk \<or> df_faults f \<noteq> [] \<and> ft \<in> set (df_faults f))"
  by (auto simp: next_fault_def quiet_def intro: suffix_ConsI split: list.splits)

lemma Record_bytes_length:
  "layout_valid rl \<Longrightarrow> rec_ok rl r \<Longrightarrow> length (Record_bytes rl r) = Record_size rl"
  by (simp add: layout_valid_def rec_ok_def Record_bytes_def Record_size_def)

lemma Record_of_bytes: "layout_valid rl \<Longrightarrow> rec_ok rl r \<Longrightarrow> Record_of rl (Record_bytes rl r) = r"
  by (auto simp: layout_valid_def rec_ok_def Record_bytes_def Record_of_def nth_append)

lemma sys_lseek_spec:
  "sys_lseek off f = (res, f') \<Longrightarrow> df_open f \<Longrightarrow>
    quiet f f' \<and> ((\<exists>e. res = Inl e) \<and> df_faults f \<noteq> [] \<or> res = Inr off \<and> df_pos f' = off)"
  using next_fault_quiet [of f]
  by (auto simp: sys_lseek_def split: prod.splits fault.splits)

lemma sys_read_record:
  assumes "sys_read (Record_size rl) f = (res, f')" "df_open f" "layout_valid rl" "rec_ok rl r"
    and "df_bytes f = pre @ Record_bytes rl r @ post" "df_pos f = length pre"
  shows "quiet f f' \<and> ((\<exists>e. res = Inl e) \<and> df_faults f \<noteq> [] \<or>
    res = Inr (Record_bytes rl r) \<and> df_pos f' = length (pre @ Record_bytes rl r))"
proof -
  obtain ft f1 where n: "next_fault f = (ft, f1)" by fastforce
  have "take (Record_size rl) (drop (df_pos f) (df_bytes f)) = Record_bytes rl r"
    using assms(5,6) Record_bytes_length [OF assms(3,4)] by simp
  with next_fault_quiet [OF n] n assms(1,2,6) show ?thesis
    by (auto simp: sys_read_def quiet_def Let_def split: fault.splits)
qed

lemma sys_read_tail:
  assumes "sys_read (Record_size rl) f = (res, f')" "df_open f" "df_bytes f = pre @ tail" "df_pos f = length pre"
    and "length tail < Record_size rl"
  shows "quiet f f' \<and> ((\<exists>e. res = Inl e) \<and> df_faults f \<noteq> [] \<or> res = Inr tail \<and> df_pos f' = length (df_bytes f))"
proof -
  obtain ft f1 where n: "next_fault f = (ft, f1)" by fastforce
  with next_fault_quiet [OF n] assms show ?thesis
    by (auto simp: sys_read_def quiet_def Let_def split: fault.splits)
qed

lemma sys_read_end:
  assumes "sys_read (Record_size rl) f = (res, f')" "df_open f" "df_pos f = length (df_bytes f)"
  shows "quiet f f' \<and> ((\<exists>e. res = Inl e) \<and> df_faults f \<noteq> [] \<or> res = Inr [] \<and> df_pos f' = length (df_bytes f))"
  using sys_read_tail [OF assms(1,2) _ assms(3), of "[]"] by (simp add: Record_size_def)

lemma Sync_spec:
  assumes "Sync f = (err, f')"
  shows "df_bytes f' = df_bytes f \<and> suffix (df_faults f') (df_faults f) \<and>
    (err = ENone \<and> df_open f' \<or> err \<noteq> ENone \<and> df_faults f \<noteq> [])"
proof -
  have close: "df_bytes f' = df_bytes f \<and> suffix (df_faults f') (df_faults f) \<and>
      (r = None \<or> df_faults f \<noteq> [])" if "sys_close f = (r, f')" for f f' r
    using that next_fault_quiet [of f] by (auto simp: sys_close_def quiet_def split: prod.splits fault.splits)
  have opn: "df_bytes f' = df_bytes f \<and> suffix (df_faults f') (df_faults f) \<and>
      (r = None \<and> df_open f' \<or> r \<noteq> None \<and> df_faults f \<noteq> [])" if "sys_open f = (r, f')" for f f' r
    using that next_fault_quiet [of f] by (auto simp: sys_open_def quiet_def split: prod.splits fault.splits)
  obtain r1 f1 where c: "(if df_open f then sys_close f else (None, f)) = (r1, f1)" by fastforce
  have c1: "df_bytes f1 = df_bytes f \<and> suffix (df_faults f1) (df_faults f) \<and> (r1 = None \<or> df_faults f \<noteq> [])"
    using c close by (auto split: if_splits)
  show ?thesis
  proof (cases r1)
    case (Some e)
    with c c1 assms show ?thesis by (auto simp: Sync_def)
  next
    case None
    obtain r2 f2 where o: "sys_open f1 = (r2, f2)" by fastforce
    with None c assms have "err = (case r2 of None \<Rightarrow> ENone | Some e \<Rightarrow> EErrno e)" "f' = f2"
      by (auto simp: Sync_def split: option.splits)
    with opn [OF o] c1 show ?thesis
      by (auto intro: suffix_order.trans dest: suffix_faults split: option.splits)
  qed
qed

lemma write_record_spec:
  assumes "write_record rl r f = (err, f')" "df_open f" "layout_valid rl" "rec_ok rl r" "no_short f"
    and "df_bytes f = pre @ old @ post" "df_pos f = length pre"
    and "length old = Record_size rl \<or> old = [] \<and> post = []"
  shows "df_open f' \<and> suffix (df_faults f') (df_faults f) \<and>
    (err = ENone \<and> df_bytes f' = pre @ Record_bytes rl r @ post \<or>
     err \<noteq> ENone \<and> df_bytes f' = df_bytes f \<and> df_faults f \<noteq> [])"
proof -
  obtain ft f1 where n: "next_fault f = (ft, f1)" by fastforce
  have len: "length (Record_bytes rl r) = Record_size rl" by (rule Record_bytes_length) fact+
  have ow: "overwrite (df_pos f) (Record_bytes rl r) (df_bytes f) = pre @ Record_bytes rl r @ post"
    using assms(6-8) len by (auto simp: overwrite_def)
  have "\<forall>k. ft \<noteq> FShort k" using next_fault_quiet [OF n] assms(5) by (auto simp: no_short_def)
  with next_fault_quiet [OF n] n assms(1,2) len ow show ?thesis
    by (auto simp: write_record_def sys_write_def quiet_def Let_def split: fault.splits)
qed

section \<open>The scans\<close>

lemma scan_spec:
  assumes "layout_valid rl"
  shows "\<forall>r\<in>set rs. rec_ok rl r \<Longrightarrow> df_open f \<Longrightarrow> df_bytes f = pre @ recs_bytes rl rs \<Longrightarrow>
    df_pos f = length pre \<Longrightarrow> scan rl p f = (res, f') \<Longrightarrow>
    quiet f f' \<and> ((\<exists>e. res = Inl e) \<and> df_faults f \<noteq> [] \<or>
      res = Inr None \<and> (\<forall>r\<in>set rs. \<not> hit p r) \<or>
      (\<exists>xs r ys. rs = xs @ r # ys \<and> (\<forall>x\<in>set xs. \<not> hit p x) \<and> hit p r \<and> res = Inr (Some r) \<and>
        df_pos f' = length (pre @ recs_bytes rl xs) + Record_size rl))"
proof (induction rs arbitrary: pre f)
  case Nil
  obtain r f1 where s: "sys_read (Record_size rl) f = (r, f1)" by fastforce
  have "df_pos f = length (df_bytes f)" using Nil by simp
  from sys_read_end [OF s Nil(2) this] Nil(5) s show ?case
    by (auto simp: scan.simps [of rl p f] Record_size_def)
next
  case (Cons a rs)
  obtain r f1 where s: "sys_read (Record_size rl) f = (r, f1)" by fastforce
  have a: "rec_ok rl a" "df_bytes f = pre @ Record_bytes rl a @ recs_bytes rl rs" using Cons.prems by auto
  note rd = sys_read_record [OF s Cons.prems(2) assms a Cons.prems(4)]
  note ra = Record_of_bytes [OF assms a(1)] and la = Record_bytes_length [OF assms a(1)]
  show ?case
  proof (cases "\<exists>e. r = Inl e")
    case True
    with rd s Cons.prems(5) show ?thesis by (auto simp: scan.simps [of rl p f])
  next
    case False
    with rd have r: "r = Inr (Record_bytes rl a)" "quiet f f1" "df_pos f1 = length (pre @ Record_bytes rl a)" by auto
    show ?thesis
    proof (cases "hit p a")
      case True
      with r s ra la Cons.prems(5) show ?thesis
        by (intro conjI disjI2 exI [of _ "[]"] exI [of _ a] exI [of _ rs])
          (auto simp: scan.simps [of rl p f] hit_def)
    next
      case False
      with r s ra la Cons.prems(5) have "scan rl p f1 = (res, f')"
        by (auto simp: scan.simps [of rl p f] hit_def split: if_splits)
      moreover have "df_open f1" "df_bytes f1 = (pre @ Record_bytes rl a) @ recs_bytes rl rs"
        using r(2) Cons.prems(2) a(2) by (auto simp: quiet_def)
      ultimately have ih: "quiet f1 f' \<and> ((\<exists>e. res = Inl e) \<and> df_faults f1 \<noteq> [] \<or>
          res = Inr None \<and> (\<forall>r\<in>set rs. \<not> hit p r) \<or>
          (\<exists>xs r ys. rs = xs @ r # ys \<and> (\<forall>x\<in>set xs. \<not> hit p x) \<and> hit p r \<and> res = Inr (Some r) \<and>
            df_pos f' = length ((pre @ Record_bytes rl a) @ recs_bytes rl xs) + Record_size rl))"
        using Cons.IH [of f1 "pre @ Record_bytes rl a"] Cons.prems(1) r(3) by simp
      then consider "\<exists>e. res = Inl e" "df_faults f1 \<noteq> []" | "res = Inr None" "\<forall>r\<in>set rs. \<not> hit p r"
        | xs r ys where "rs = xs @ r # ys" "\<forall>x\<in>set xs. \<not> hit p x" "hit p r" "res = Inr (Some r)"
          "df_pos f' = length ((pre @ Record_bytes rl a) @ recs_bytes rl xs) + Record_size rl" by blast
      moreover have q: "quiet f f'" using ih r(2) quiet_trans by blast
      ultimately show ?thesis
      proof cases
        case 1
        with q r(2) show ?thesis by (auto simp: quiet_def dest: suffix_faults)
      next
        case 2
        with q False show ?thesis by simp
      next
        case 3
        with q False show ?thesis
          by (intro conjI disjI2 exI [of _ "a # xs"] exI [of _ r] exI [of _ ys]) auto
      qed
    qed
  qed
qed

definition deleted_at :: "'d rec_layout \<Rightarrow> nat \<Rightarrow> 'd Record list \<Rightarrow> nat \<Rightarrow> bool" where
  "deleted_at rl off rs k \<longleftrightarrow>
     (\<exists>xs r ys. rs = xs @ r # ys \<and> rc_mDeleted r \<noteq> 0 \<and> k = off + length (recs_bytes rl xs))"

definition slot_choice :: "'d rec_layout \<Rightarrow> nat \<Rightarrow> 'd Record list \<Rightarrow> nat option \<Rightarrow> nat option \<Rightarrow> bool" where
  "slot_choice rl off rs del d \<longleftrightarrow>
     (if del \<noteq> None then d = del
      else (case d of None \<Rightarrow> \<forall>r\<in>set rs. rc_mDeleted r = 0 | Some k \<Rightarrow> deleted_at rl off rs k))"

lemma deleted_at_Cons:
  assumes "deleted_at rl (off + length (Record_bytes rl a)) rs k"
  shows "deleted_at rl off (a # rs) k"
proof -
  from assms obtain xs r ys where "rs = xs @ r # ys" "rc_mDeleted r \<noteq> 0"
    "k = off + length (Record_bytes rl a) + length (recs_bytes rl xs)"
    by (auto simp only: deleted_at_def)
  then show ?thesis unfolding deleted_at_def
    by (intro exI [of _ "a # xs"] exI [of _ r] exI [of _ ys]) simp
qed

lemma deleted_at_here: "rc_mDeleted a \<noteq> 0 \<Longrightarrow> deleted_at rl off (a # rs) off"
  unfolding deleted_at_def by (intro exI [of _ "[]"] exI [of _ a] exI [of _ rs]) simp

lemma slot_choice_Cons:
  assumes "slot_choice rl (off + length (Record_bytes rl a)) rs del d" "del \<noteq> None \<or> rc_mDeleted a = 0"
  shows "slot_choice rl off (a # rs) del d"
  using assms by (auto simp: slot_choice_def intro: deleted_at_Cons split: if_splits option.splits)

lemma slot_choice_here:
  "slot_choice rl off' rs (Some off) d \<Longrightarrow> rc_mDeleted a \<noteq> 0 \<Longrightarrow> slot_choice rl off (a # rs) None d"
  by (simp add: slot_choice_def deleted_at_here)

lemma Add_scan_spec:
  assumes "layout_valid rl" "length tail < Record_size rl"
  shows "\<forall>r\<in>set rs. rec_ok rl r \<Longrightarrow> df_open f \<Longrightarrow> df_bytes f = pre @ recs_bytes rl rs @ tail \<Longrightarrow>
    df_pos f = length pre \<Longrightarrow> Add_scan rl p del f = (res, f') \<Longrightarrow>
    quiet f f' \<and> ((\<exists>e. res = Inl (EErrno e)) \<and> df_faults f \<noteq> [] \<or>
      res = Inl (EEnum eAlreadyExist) \<and> (\<exists>r\<in>set rs. hit p r) \<or>
      (\<exists>d. res = Inr d \<and> (\<forall>r\<in>set rs. \<not> hit p r) \<and> df_pos f' = length (df_bytes f) \<and>
        slot_choice rl (length pre) rs del d))"
proof (induction rs arbitrary: pre f del)
  case Nil
  obtain r f1 where s: "sys_read (Record_size rl) f = (r, f1)" by fastforce
  have "df_bytes f = pre @ tail" using Nil by simp
  from sys_read_tail [OF s Nil(2) this Nil(4) assms(2)] Nil(5) s assms(2) show ?case
    by (cases del) (auto simp: Add_scan.simps [of rl p _ f] slot_choice_def)
next
  case (Cons a rs)
  obtain r f1 where s: "sys_read (Record_size rl) f = (r, f1)" by fastforce
  have a: "rec_ok rl a" "df_bytes f = pre @ Record_bytes rl a @ recs_bytes rl rs @ tail" using Cons.prems by auto
  note rd = sys_read_record [OF s Cons.prems(2) assms(1) a Cons.prems(4)]
  note ra = Record_of_bytes [OF assms(1) a(1)] and la = Record_bytes_length [OF assms(1) a(1)]
  have rest: "\<forall>r\<in>set rs. rec_ok rl r" using Cons.prems(1) by simp
  show ?case
  proof (cases "\<exists>e. r = Inl e")
    case True
    with rd s Cons.prems(5) show ?thesis by (auto simp: Add_scan.simps [of rl p del f])
  next
    case False
    with rd have r: "r = Inr (Record_bytes rl a)" "quiet f f1" "df_pos f1 = length (pre @ Record_bytes rl a)" by auto
    have f1: "df_open f1" "df_bytes f1 = (pre @ Record_bytes rl a) @ recs_bytes rl rs @ tail"
      using r(2) Cons.prems(2) a(2) by (auto simp: quiet_def)
    have lift: ?thesis
      if g: "Add_scan rl p del' g = (res, f')" "quiet f1 g" "df_pos g = length (pre @ Record_bytes rl a)"
        and sc: "\<And>d. slot_choice rl (length (pre @ Record_bytes rl a)) rs del' d \<Longrightarrow> slot_choice rl (length pre) (a # rs) del d"
        and nh: "\<not> hit p a" for g del'
    proof -
      have q: "quiet f g" using r(2) g(2) quiet_trans by blast
      have "df_open g" "df_bytes g = (pre @ Record_bytes rl a) @ recs_bytes rl rs @ tail"
        using g(2) f1 by (auto simp: quiet_def)
      from Cons.IH [OF rest this g(3,1)] show ?thesis
        using q sc nh by (auto dest: quiet_trans simp: quiet_def dest: suffix_faults)
    qed
    show ?thesis
    proof (cases "hit p a")
      case True
      with r s ra la Cons.prems(5) show ?thesis
        by (auto simp: Add_scan.simps [of rl p del f] hit_def)
    next
      case nh: False
      show ?thesis
      proof (cases "del = None \<and> rc_mDeleted a \<noteq> 0")
        case False
        with nh r s ra la Cons.prems(5) have "Add_scan rl p del f1 = (res, f')"
          by (auto simp: Add_scan.simps [of rl p del f] hit_def split: if_splits)
        from lift [OF this quiet_refl r(3) _ nh] show ?thesis
          using False slot_choice_Cons by (metis length_append)
      next
        case True
        obtain l f2 where l: "sys_lseek (df_pos f1) f1 = (l, f2)" by fastforce
        note ls = sys_lseek_spec [OF l f1(1)]
        show ?thesis
        proof (cases "\<exists>e. l = Inl e")
          case lerr: True
          then have "\<exists>e. res = Inl (EErrno e) \<and> f' = f2"
            using True nh r s ra la l Cons.prems(5)
            by (auto simp: Add_scan.simps [of rl p None f] hit_def split: if_splits)
          with ls lerr r(2) show ?thesis by (auto dest: quiet_trans simp: quiet_def dest: suffix_faults)
        next
          case lok: False
          then have l2: "l = Inr (df_pos f1)" "df_pos f2 = df_pos f1" "quiet f1 f2" using ls by auto
          have "Add_scan rl p (Some (length pre)) f2 = (res, f')"
            using True nh r s ra la l l2 Cons.prems(5)
            by (auto simp: Add_scan.simps [of rl p None f] hit_def split: if_splits)
          from lift [OF this l2(3) _ _ nh] l2(2) r(3) slot_choice_here True show ?thesis by metis
        qed
      qed
    qed
  qed
qed

fun collect :: "('d \<Rightarrow> 'a \<Rightarrow> 'a \<times> Error) \<Rightarrow> 'd list \<Rightarrow> 'a \<Rightarrow> 'a \<times> Error" where
  "collect g [] acc = (acc, ENone)"
| "collect g (d # ds) acc = (case g d acc of (acc', err) \<Rightarrow> if err \<noteq> ENone then (acc', err) else collect g ds acc')"

lemma read_all_spec:
  assumes "layout_valid rl"
  shows "\<forall>r\<in>set rs. rec_ok rl r \<Longrightarrow> df_open f \<Longrightarrow> df_bytes f = pre @ recs_bytes rl rs \<Longrightarrow>
    df_pos f = length pre \<Longrightarrow> read_all rl g acc f = (err, acc', f') \<Longrightarrow>
    quiet f f' \<and> ((\<exists>e. err = EErrno e) \<and> df_faults f \<noteq> [] \<or> (acc', err) = collect g (live rs) acc)"
proof (induction rs arbitrary: pre f acc)
  case Nil
  obtain r f1 where s: "sys_read (Record_size rl) f = (r, f1)" by fastforce
  have "df_pos f = length (df_bytes f)" using Nil by simp
  from sys_read_end [OF s Nil(2) this] Nil(5) s show ?case
    by (auto simp: read_all.simps [of rl g acc f] Record_size_def)
next
  case (Cons a rs)
  obtain r f1 where s: "sys_read (Record_size rl) f = (r, f1)" by fastforce
  have a: "rec_ok rl a" "df_bytes f = pre @ Record_bytes rl a @ recs_bytes rl rs" using Cons.prems by auto
  note rd = sys_read_record [OF s Cons.prems(2) assms a Cons.prems(4)]
  note ra = Record_of_bytes [OF assms a(1)] and la = Record_bytes_length [OF assms a(1)]
  have rest: "\<forall>r\<in>set rs. rec_ok rl r" using Cons.prems(1) by simp
  show ?case
  proof (cases "\<exists>e. r = Inl e")
    case True
    with rd s Cons.prems(5) show ?thesis by (auto simp: read_all.simps [of rl g acc f])
  next
    case False
    with rd have r: "r = Inr (Record_bytes rl a)" "quiet f f1" "df_pos f1 = length (pre @ Record_bytes rl a)" by auto
    have f1: "df_open f1" "df_bytes f1 = (pre @ Record_bytes rl a) @ recs_bytes rl rs"
      using r(2) Cons.prems(2) a(2) by (auto simp: quiet_def)
    note IH = Cons.IH [OF rest f1 r(3)]
    have lift: "quiet f1 f' \<Longrightarrow> quiet f f'" "df_faults f1 \<noteq> [] \<Longrightarrow> df_faults f \<noteq> []"
      using r(2) quiet_trans by (auto simp: quiet_def dest: suffix_faults)
    show ?thesis
    proof (cases "rc_mDeleted a = 0")
      case False
      with r s ra la Cons.prems(5) have "read_all rl g acc f1 = (err, acc', f')"
        by (simp add: read_all.simps [of rl g acc f])
      from IH [OF this] False lift show ?thesis by auto
    next
      case True
      obtain acc1 e1 where g: "g (rc_mData a) acc = (acc1, e1)" by fastforce
      show ?thesis
      proof (cases "e1 = ENone")
        case e1: True
        with True g r s ra la Cons.prems(5) have "read_all rl g acc1 f1 = (err, acc', f')"
          by (simp add: read_all.simps [of rl g acc f])
        from IH [OF this] True e1 g lift show ?thesis by auto
      next
        case False
        with True g r s ra la Cons.prems(5) show ?thesis
          by (auto simp: read_all.simps [of rl g acc f])
      qed
    qed
  qed
qed

section \<open>The operations on a well-formed file\<close>

definition sha_works :: "sha_env \<Rightarrow> bool" where
  "sha_works env \<longleftrightarrow> sh_starts env = 0 \<and>
     (\<forall>data. sh_update env data = 0 \<and> fst (sh_finish env data) = 0 \<and> length (snd (sh_finish env data)) = 32)"

lemma sha_works_result:
  "sha_works env \<Longrightarrow> data \<noteq> [] \<Longrightarrow> \<exists>digest. CalculateSha256 env data = (digest, ENone) \<and> length digest = 32"
  by (cases "sh_finish env data") (auto simp: sha_works_def CalculateSha256_def dest: spec [of _ data])

lemma hit_live: "(\<exists>r\<in>set rs. hit p r) \<longleftrightarrow> (\<exists>d\<in>set (live rs). p d)"
  by (auto simp: hit_def live_def)

lemma holds_records_split:
  assumes "holds_records rl rs f"
  obtains hdr where "df_bytes f = hdr @ recs_bytes rl rs" "length hdr = Header_size" "\<forall>r\<in>set rs. rec_ok rl r"
  using assms by (auto simp: holds_records_def)

lemma holds_records_bytes: "holds_records rl rs f \<Longrightarrow> df_bytes f' = df_bytes f \<Longrightarrow> holds_records rl rs f'"
  by (simp add: holds_records_def)

text \<open>The start of every operation: the offset goes to the first record.\<close>

lemma lseek_start:
  assumes "sys_lseek Header_size f = (Inr n, f1)" "df_open f"
  shows "quiet f f1 \<and> df_pos f1 = Header_size"
  using sys_lseek_spec [OF assms] by auto

lemma write_then_sync:
  assumes "write_record rl r f = (err, f4)" "(if err \<noteq> ENone then (err, f4) else Sync f4) = (err', f')"
    and "df_open f" "layout_valid rl" "rec_ok rl r" "no_short f" "df_bytes f = pre @ old @ post"
    and "df_pos f = length pre" "length old = Record_size rl \<or> old = [] \<and> post = []"
  shows "suffix (df_faults f') (df_faults f) \<and>
    (err' = ENone \<and> df_open f' \<and> df_bytes f' = pre @ Record_bytes rl r @ post \<or>
     err' \<noteq> ENone \<and> df_faults f \<noteq> [] \<and> (df_bytes f' = df_bytes f \<or> df_bytes f' = pre @ Record_bytes rl r @ post))"
proof -
  note w = write_record_spec [OF assms(1,3-9)]
  show ?thesis
  proof (cases "err = ENone")
    case True
    with assms(2) have "Sync f4 = (err', f')" by simp
    from Sync_spec [OF this] w True show ?thesis
      by (auto intro: suffix_order.trans dest: suffix_faults)
  next
    case False
    with assms(2) w show ?thesis by auto
  qed
qed

text \<open>The place that \<open>Add\<close> has chosen: behind the last record, or over a deleted one.\<close>

lemma slot_place:
  assumes "layout_valid rl" "slot_choice rl (length hdr) rs None d" "df_bytes f2 = hdr @ recs_bytes rl rs" "\<forall>r\<in>set rs. rec_ok rl r"
    and "df_open f2" "df_pos f2 = length (df_bytes f2)" "(case d of Some off \<Rightarrow> sys_lseek off f2 | None \<Rightarrow> (Inr 0, f2)) = (Inr m, f3)"
    and "rec_ok rl r'" "rc_mDeleted r' = 0"
  shows "\<exists>pre old post rs'. df_bytes f3 = pre @ old @ post \<and> df_pos f3 = length pre \<and>
    (length old = Record_size rl \<or> old = [] \<and> post = []) \<and>
    pre @ Record_bytes rl r' @ post = hdr @ recs_bytes rl rs' \<and> (\<forall>r\<in>set rs'. rec_ok rl r) \<and>
    mset (live rs') = add_mset (rc_mData r') (mset (live rs))"
proof (cases d)
  case None
  with assms(7) have "f3 = f2" by simp
  then show ?thesis
    using assms(3,4,6,8,9) by (intro exI [of _ "df_bytes f2"] exI [of _ "[]"] exI [of _ "rs @ [r']"]) simp
next
  case (Some off)
  then obtain xs r ys where x: "rs = xs @ r # ys" "rc_mDeleted r \<noteq> 0" "off = length hdr + length (recs_bytes rl xs)"
    using assms(2) by (auto simp: slot_choice_def deleted_at_def)
  have "df_pos f3 = off" "df_bytes f3 = df_bytes f2" using assms(7) Some sys_lseek_spec [OF _ assms(5)] by (auto simp: quiet_def)
  then show ?thesis
    using assms(3,4,8,9) x Record_bytes_length [OF assms(1)]
    by (intro exI [of _ "hdr @ recs_bytes rl xs"] exI [of _ "Record_bytes rl r"] exI [of _ "recs_bytes rl ys"] exI [of _ "xs @ r' # ys"]) auto
qed

lemma Add_spec:
  assumes "FileStorage_Add rl env flt data f = (err, f')" "layout_valid rl" "sha_works env"
    and "holds_records rl rs f" "df_open f" "no_short f" "rl_valid rl data"
  shows "suffix (df_faults f') (df_faults f) \<and>
    (err = ENone \<and> df_open f' \<and> \<not> (\<exists>d\<in>set (live rs). flt d data) \<and>
       (\<exists>rs'. holds_records rl rs' f' \<and> mset (live rs') = add_mset data (mset (live rs))) \<or>
     err = EEnum eAlreadyExist \<and> df_open f' \<and> df_bytes f' = df_bytes f \<and> (\<exists>d\<in>set (live rs). flt d data) \<or>
     err \<noteq> ENone \<and> df_faults f \<noteq> [] \<and>
       (\<exists>rs'. holds_records rl rs' f' \<and> (rs' = rs \<or>
          \<not> (\<exists>d\<in>set (live rs). flt d data) \<and> mset (live rs') = add_mset data (mset (live rs)))))"
proof -
  obtain hdr where hdr: "df_bytes f = hdr @ recs_bytes rl rs" "length hdr = Header_size" "\<forall>r\<in>set rs. rec_ok rl r"
    using assms(4) by (rule holds_records_split)
  have bad: ?thesis
    if "err \<noteq> ENone" "df_faults f \<noteq> []" "df_bytes f' = df_bytes f" "suffix (df_faults f') (df_faults f)"
    using that holds_records_bytes [OF assms(4) that(3)] by auto
  obtain l f1 where l: "sys_lseek Header_size f = (l, f1)" by fastforce
  show ?thesis
  proof (cases l)
    case (Inl e)
    with sys_lseek_spec [OF l assms(5)] l assms(1) show ?thesis
      by (intro bad) (auto simp: FileStorage_Add_def quiet_def)
  next
    case (Inr n)
    note q1 = lseek_start [OF l [unfolded Inr] assms(5)]
    have f1: "df_open f1" "df_bytes f1 = hdr @ recs_bytes rl rs" "df_pos f1 = length hdr"
      using q1 assms(5) hdr by (auto simp: quiet_def)
    obtain sc f2 where s: "Add_scan rl (\<lambda>d. flt d data) None f1 = (sc, f2)" by fastforce
    have f1': "df_bytes f1 = hdr @ recs_bytes rl rs @ []" "length ([] :: byte list) < Record_size rl"
      using f1(2) by (simp_all add: Record_size_def)
    note sp = Add_scan_spec [OF assms(2) f1'(2) hdr(3) f1(1) f1'(1) f1(3) s]
    have q2: "quiet f f2" using q1 sp quiet_trans by blast
    then have f2: "df_open f2" "df_bytes f2 = df_bytes f" "no_short f2" "holds_records rl rs f2"
      using assms(4-6) by (auto simp: quiet_def intro: suffix_no_short holds_records_bytes)
    show ?thesis
    proof (cases sc)
      case (Inl e)
      then have "err = e" "f' = f2" using l Inr s assms(1) by (auto simp: FileStorage_Add_def)
      with sp Inl q2 f2 q1 show ?thesis
        by (auto simp: quiet_def hit_live dest: suffix_faults)
    next
      case sc: (Inr d)
      have nohit: "\<not> (\<exists>d\<in>set (live rs). flt d data)" and endpos: "df_pos f2 = length (df_bytes f2)"
        and slot: "slot_choice rl (length hdr) rs None d"
        using sp sc f1(2) f2(2) hdr(1) hit_live [of rs "\<lambda>d. flt d data"] by auto
      obtain dg where dg: "CalculateSha256 env (hashed rl data 0 (take 32 (rl_tail rl))) = (dg, ENone)" "length dg = 32"
        using sha_works_result [OF assms(3), of "hashed rl data 0 (take 32 (rl_tail rl))"] by (auto simp: hashed_def)
      let ?r = "\<lparr>rc_mData = data, rc_mDeleted = 0, rc_mChecksum = dg, rc_padding = drop 32 (rl_tail rl)\<rparr>"
      have rok: "rec_ok rl ?r" using dg(2) assms(7) by (simp add: rec_ok_def Record_padding_def)
      obtain k f3 where k: "(case d of Some off \<Rightarrow> sys_lseek off f2 | None \<Rightarrow> (Inr 0, f2)) = (k, f3)" by fastforce
      show ?thesis
      proof (cases k)
        case (Inl e)
        then obtain off where "d = Some off" "sys_lseek off f2 = (Inl e, f3)" using k by (cases d) auto
        with sys_lseek_spec [OF this(2) f2(1)] l Inr s sc dg assms(1) q2 f2 show ?thesis
          by (intro bad) (auto simp: FileStorage_Add_def quiet_def intro: suffix_order.trans dest: suffix_faults)
      next
        case kr: (Inr m)
        have q3: "quiet f2 f3" using k kr sys_lseek_spec [OF _ f2(1)] by (cases d) auto
        then have f3: "df_open f3" "df_bytes f3 = df_bytes f" "no_short f3" "suffix (df_faults f3) (df_faults f)"
          using f2 q2 by (auto simp: quiet_def intro: suffix_no_short suffix_order.trans)
        obtain e4 f4 where w: "write_record rl ?r f3 = (e4, f4)" by fastforce
        have out: "(if e4 \<noteq> ENone then (e4, f4) else Sync f4) = (err, f')"
          using l Inr s sc dg k kr w assms(1) by (simp add: FileStorage_Add_def)
        have del: "rc_mDeleted ?r = 0" by simp
        from slot_place [OF assms(2) slot f2(2) [unfolded hdr(1)] hdr(3) f2(1) endpos k [unfolded kr] rok del, unfolded Record.select_convs]
        obtain pre old post rs' where p: "df_bytes f3 = pre @ old @ post" "df_pos f3 = length pre"
            "length old = Record_size rl \<or> old = [] \<and> post = []" "pre @ Record_bytes rl ?r @ post = hdr @ recs_bytes rl rs'"
            "\<forall>r\<in>set rs'. rec_ok rl r" "mset (live rs') = add_mset data (mset (live rs))" by blast
        have h': "holds_records rl rs' g" if "df_bytes g = pre @ Record_bytes rl ?r @ post" for g
          using that p(4,5) hdr(2) unfolding holds_records_def by metis
        from write_then_sync [OF w out f3(1) assms(2) rok f3(3) p(1-3)] f3(2,4) nohit p(6) h' [of f']
          holds_records_bytes [OF assms(4), of f']
        show ?thesis by (auto intro: suffix_order.trans dest: suffix_faults)
      qed
    qed
  qed
qed

fun del_first :: "('d \<Rightarrow> bool) \<Rightarrow> 'd list \<Rightarrow> 'd list" where
  "del_first p [] = []"
| "del_first p (x # xs) = (if p x then xs else x # del_first p xs)"

fun upd_first :: "('d \<Rightarrow> bool) \<Rightarrow> 'd \<Rightarrow> 'd list \<Rightarrow> 'd list" where
  "upd_first p d [] = []"
| "upd_first p d (x # xs) = (if p x then d # xs else x # upd_first p d xs)"

lemma live_del_first:
  "\<forall>x\<in>set xs. \<not> hit p x \<Longrightarrow> hit p r \<Longrightarrow>
    live (xs @ r\<lparr>rc_mDeleted := 1\<rparr> # ys) = del_first p (live (xs @ r # ys))"
  by (induction xs) (auto simp: hit_def)

lemma live_upd_first:
  "\<forall>x\<in>set xs. \<not> hit p x \<Longrightarrow> hit p r \<Longrightarrow> rc_mDeleted r' = 0 \<Longrightarrow>
    live (xs @ r' # ys) = upd_first p (rc_mData r') (live (xs @ r # ys))"
  by (induction xs) (auto simp: hit_def)

text \<open>What \<open>Update\<close> and \<open>Remove\<close> do first: find the record and go back to its start.\<close>

lemma find_record:
  assumes "sys_lseek Header_size f = (Inr n, f1)" "layout_valid rl" "holds_records rl rs f" "df_open f"
    and "scan rl p f1 = (res, f2)"
  shows "quiet f f2 \<and> ((\<exists>e. res = Inl e) \<and> df_faults f \<noteq> [] \<or>
    res = Inr None \<and> \<not> (\<exists>d\<in>set (live rs). p d) \<or>
    (\<exists>hdr xs r ys. rs = xs @ r # ys \<and> (\<forall>x\<in>set xs. \<not> hit p x) \<and> hit p r \<and> res = Inr (Some r) \<and>
      length hdr = Header_size \<and> df_bytes f = hdr @ recs_bytes rl rs \<and>
      df_pos f2 - Record_size rl = length (hdr @ recs_bytes rl xs)))"
proof -
  obtain hdr where hdr: "df_bytes f = hdr @ recs_bytes rl rs" "length hdr = Header_size" "\<forall>r\<in>set rs. rec_ok rl r"
    using assms(3) by (rule holds_records_split)
  note q1 = lseek_start [OF assms(1,4)]
  have f1: "df_open f1" "df_bytes f1 = hdr @ recs_bytes rl rs" "df_pos f1 = length hdr"
    using q1 assms(4) hdr by (auto simp: quiet_def)
  note sp = scan_spec [OF assms(2) hdr(3) f1 assms(5)]
  have q: "quiet f f2" using q1 sp quiet_trans by blast
  have fl: "df_faults f1 \<noteq> [] \<Longrightarrow> df_faults f \<noteq> []" using q1 by (auto simp: quiet_def dest: suffix_faults)
  show ?thesis
  proof (intro conjI q)
    from sp consider "\<exists>e. res = Inl e" "df_faults f1 \<noteq> []" | "res = Inr None" "\<forall>r\<in>set rs. \<not> hit p r"
      | xs r ys where "rs = xs @ r # ys" "\<forall>x\<in>set xs. \<not> hit p x" "hit p r" "res = Inr (Some r)"
        "df_pos f2 = length (hdr @ recs_bytes rl xs) + Record_size rl" by blast
    then show "(\<exists>e. res = Inl e) \<and> df_faults f \<noteq> [] \<or>
      res = Inr None \<and> \<not> (\<exists>d\<in>set (live rs). p d) \<or>
      (\<exists>hdr xs r ys. rs = xs @ r # ys \<and> (\<forall>x\<in>set xs. \<not> hit p x) \<and> hit p r \<and> res = Inr (Some r) \<and>
        length hdr = Header_size \<and> df_bytes f = hdr @ recs_bytes rl rs \<and>
        df_pos f2 - Record_size rl = length (hdr @ recs_bytes rl xs))"
    proof cases
      case 2
      with hit_live [of rs p] show ?thesis by blast
    next
      case 3
      with hdr(1,2) show ?thesis
        by (intro disjI2 exI [of _ hdr] exI [of _ xs] exI [of _ r] exI [of _ ys]) simp
    qed (use fl in blast)
  qed
qed

text \<open>Both then write the record with some change; this much is common to them.\<close>

definition locate :: "'d rec_layout \<Rightarrow> ('d \<Rightarrow> bool) \<Rightarrow> db_file \<Rightarrow> (int + 'd Record option) \<times> db_file" where
  "locate rl p f =
     (case sys_lseek Header_size f of
        (Inl e, f1) \<Rightarrow> (Inl e, f1)
      | (Inr _, f1) \<Rightarrow>
          (case scan rl p f1 of
             (Inr (Some r), f2) \<Rightarrow>
               (case sys_lseek (df_pos f2 - Record_size rl) f2 of (Inl e, f3) \<Rightarrow> (Inl e, f3) | (Inr _, f3) \<Rightarrow> (Inr (Some r), f3))
           | (res, f2) \<Rightarrow> (res, f2)))"

lemma Remove_locate:
  "FileStorage_Remove rl p f =
     (case locate rl p f of
        (Inl e, g) \<Rightarrow> (EErrno e, g)
      | (Inr None, g) \<Rightarrow> (EEnum eNotFound, g)
      | (Inr (Some r), g) \<Rightarrow>
          (case write_record rl (r\<lparr>rc_mDeleted := 1\<rparr>) g of (err, f4) \<Rightarrow> if err \<noteq> ENone then (err, f4) else Sync f4))"
  by (simp add: FileStorage_Remove_def locate_def split: prod.splits sum.splits option.splits)

lemma Update_locate:
  "FileStorage_Update rl env p data f =
     (case locate rl p f of
        (Inl e, g) \<Rightarrow> (EErrno e, g)
      | (Inr None, g) \<Rightarrow> (case Sync g of (err, f3) \<Rightarrow> if err \<noteq> ENone then (err, f3) else (EEnum eNotFound, f3))
      | (Inr (Some r), g) \<Rightarrow>
          (case CalculateSha256 env (hashed rl data (rc_mDeleted r) (rc_mChecksum r)) of
             (digest, err) \<Rightarrow>
               if err \<noteq> ENone then (err, g) else write_record rl (r\<lparr>rc_mData := data, rc_mChecksum := digest\<rparr>) g))"
  by (auto simp: FileStorage_Update_def locate_def split: prod.splits sum.splits option.splits)

lemma locate_spec:
  assumes "locate rl p f = (res, g)" "layout_valid rl" "holds_records rl rs f" "df_open f"
  shows "quiet f g \<and> ((\<exists>e. res = Inl e) \<and> df_faults f \<noteq> [] \<or>
    res = Inr None \<and> \<not> (\<exists>d\<in>set (live rs). p d) \<or>
    (\<exists>hdr xs r ys. rs = xs @ r # ys \<and> (\<forall>x\<in>set xs. \<not> hit p x) \<and> hit p r \<and> res = Inr (Some r) \<and>
      length hdr = Header_size \<and> df_bytes f = hdr @ recs_bytes rl rs \<and> df_pos g = length (hdr @ recs_bytes rl xs)))"
proof -
  obtain l f1 where l: "sys_lseek Header_size f = (l, f1)" by fastforce
  show ?thesis
  proof (cases l)
    case (Inl e)
    with sys_lseek_spec [OF l assms(4)] l assms(1) show ?thesis by (auto simp: locate_def)
  next
    case (Inr n)
    obtain sc f2 where s: "scan rl p f1 = (sc, f2)" by fastforce
    note fr = find_record [OF l [unfolded Inr] assms(2-4) s]
    show ?thesis
    proof (cases "\<exists>r. sc = Inr (Some r)")
      case False
      then have "res = sc" "g = f2" using l Inr s assms(1) by (auto simp: locate_def split: sum.splits option.splits)
      with fr False show ?thesis by blast
    next
      case True
      then obtain r where r: "sc = Inr (Some r)" by blast
      obtain k f3 where k: "sys_lseek (df_pos f2 - Record_size rl) f2 = (k, f3)" by fastforce
      have "df_open f2" using fr assms(4) by (auto simp: quiet_def)
      note ks = sys_lseek_spec [OF k this]
      have "res = (case k of Inl e \<Rightarrow> Inl e | Inr _ \<Rightarrow> Inr (Some r))" "g = f3"
        using l Inr s r k assms(1) by (auto simp: locate_def split: sum.splits)
      with fr ks r show ?thesis by (auto dest: quiet_trans simp: quiet_def dest: suffix_faults split: sum.splits)
    qed
  qed
qed

text \<open>A located record can be replaced by another: the file is split there, and holds the new list once it is written.\<close>

lemma located_write:
  assumes "layout_valid rl" "holds_records rl (xs @ r # ys) f" "rec_ok rl r'" "quiet f g"
    and "length hdr = Header_size" "df_bytes f = hdr @ recs_bytes rl (xs @ r # ys)"
  shows "df_bytes g = (hdr @ recs_bytes rl xs) @ Record_bytes rl r @ recs_bytes rl ys" "length (Record_bytes rl r) = Record_size rl"
    "df_bytes h = (hdr @ recs_bytes rl xs) @ Record_bytes rl r' @ recs_bytes rl ys \<Longrightarrow> holds_records rl (xs @ r' # ys) h"
  using assms Record_bytes_length [OF assms(1)] by (auto simp: holds_records_def quiet_def)

lemma located_ok:
  assumes "holds_records rl (xs @ r # ys) f" shows "rec_ok rl r"
  using assms by (auto simp: holds_records_def)

lemma Remove_spec:
  assumes "FileStorage_Remove rl p f = (err, f')" "layout_valid rl"
    and "holds_records rl rs f" "df_open f" "no_short f"
  shows "suffix (df_faults f') (df_faults f) \<and>
    (err = ENone \<and> df_open f' \<and> (\<exists>d\<in>set (live rs). p d) \<and>
       (\<exists>rs'. holds_records rl rs' f' \<and> live rs' = del_first p (live rs)) \<or>
     err = EEnum eNotFound \<and> df_open f' \<and> df_bytes f' = df_bytes f \<and> \<not> (\<exists>d\<in>set (live rs). p d) \<or>
     err \<noteq> ENone \<and> df_faults f \<noteq> [] \<and>
       (\<exists>rs'. holds_records rl rs' f' \<and> (rs' = rs \<or> live rs' = del_first p (live rs))))"
proof -
  obtain res g where l: "locate rl p f = (res, g)" by fastforce
  note sp = locate_spec [OF l assms(2-4)]
  have g: "df_open g" "df_bytes g = df_bytes f" "no_short g" "suffix (df_faults g) (df_faults f)"
    using sp assms(4,5) by (auto simp: quiet_def intro: suffix_no_short)
  from sp consider "\<exists>e. res = Inl e" "df_faults f \<noteq> []" | "res = Inr None" "\<not> (\<exists>d\<in>set (live rs). p d)"
    | hdr xs r ys where "rs = xs @ r # ys" "\<forall>x\<in>set xs. \<not> hit p x" "hit p r" "res = Inr (Some r)"
      "length hdr = Header_size" "df_bytes f = hdr @ recs_bytes rl rs" "df_pos g = length (hdr @ recs_bytes rl xs)" by blast
  then show ?thesis
  proof cases
    case 3
    let ?r = "r\<lparr>rc_mDeleted := 1\<rparr>"
    have r': "rec_ok rl ?r" using located_ok [OF assms(3) [unfolded 3(1)]] by (simp add: rec_ok_def)
    obtain e4 f4 where w: "write_record rl ?r g = (e4, f4)" by fastforce
    have out: "(if e4 \<noteq> ENone then (e4, f4) else Sync f4) = (err, f')" using l 3(4) w assms(1) by (simp add: Remove_locate)
    note lw = located_write [OF assms(2) assms(3) [unfolded 3(1)] r' conjunct1 [OF sp] 3(5) 3(6) [unfolded 3(1)]]
    have hitd: "\<exists>d\<in>set (live rs). p d" using 3(1,3) by (auto simp: hit_def)
    have lv: "live (xs @ ?r # ys) = del_first p (live rs)" using live_del_first [OF 3(2,3)] 3(1) by simp
    from write_then_sync [OF w out g(1) assms(2) r' g(3) lw(1) 3(7)] lw(2) lw(3) [of f'] g(2,4) hitd lv holds_records_bytes [OF assms(3), of f']
    show ?thesis by (auto intro: suffix_order.trans dest: suffix_faults)
  qed (use l assms(1) g holds_records_bytes [OF assms(3), of f'] in \<open>auto simp: Remove_locate\<close>)
qed

lemma Update_spec:
  assumes "FileStorage_Update rl env p data f = (err, f')" "layout_valid rl" "sha_works env"
    and "holds_records rl rs f" "df_open f" "no_short f" "rl_valid rl data"
  shows "suffix (df_faults f') (df_faults f) \<and>
    (err = ENone \<and> df_open f' \<and> (\<exists>d\<in>set (live rs). p d) \<and>
       (\<exists>rs'. holds_records rl rs' f' \<and> live rs' = upd_first p data (live rs)) \<or>
     err = EEnum eNotFound \<and> df_open f' \<and> df_bytes f' = df_bytes f \<and> \<not> (\<exists>d\<in>set (live rs). p d) \<or>
     err \<noteq> ENone \<and> df_faults f \<noteq> [] \<and> df_bytes f' = df_bytes f)"
proof -
  obtain res g where l: "locate rl p f = (res, g)" by fastforce
  note sp = locate_spec [OF l assms(2,4,5)]
  have g: "df_open g" "df_bytes g = df_bytes f" "no_short g" "suffix (df_faults g) (df_faults f)"
    using sp assms(5,6) by (auto simp: quiet_def intro: suffix_no_short)
  from sp consider "\<exists>e. res = Inl e" "df_faults f \<noteq> []" | "res = Inr None" "\<not> (\<exists>d\<in>set (live rs). p d)"
    | hdr xs r ys where "rs = xs @ r # ys" "\<forall>x\<in>set xs. \<not> hit p x" "hit p r" "res = Inr (Some r)"
      "length hdr = Header_size" "df_bytes f = hdr @ recs_bytes rl rs" "df_pos g = length (hdr @ recs_bytes rl xs)" by blast
  then show ?thesis
  proof cases
    case 2
    obtain e3 f3 where y: "Sync g = (e3, f3)" by fastforce
    have "err = (if e3 \<noteq> ENone then e3 else EEnum eNotFound)" "f' = f3"
      using 2 l y assms(1) by (auto simp: Update_locate split: if_splits)
    with Sync_spec [OF y] g 2(2) show ?thesis
      by (cases "e3 = ENone") (auto intro: suffix_order.trans dest: suffix_faults)
  next
    case 3
    obtain dg where dg: "CalculateSha256 env (hashed rl data (rc_mDeleted r) (rc_mChecksum r)) = (dg, ENone)" "length dg = 32"
      using sha_works_result [OF assms(3), of "hashed rl data (rc_mDeleted r) (rc_mChecksum r)"] by (auto simp: hashed_def)
    let ?r = "r\<lparr>rc_mData := data, rc_mChecksum := dg\<rparr>"
    have r': "rec_ok rl ?r" using dg(2) assms(7) located_ok [OF assms(4) [unfolded 3(1)]] by (simp add: rec_ok_def)
    have w: "write_record rl ?r g = (err, f')" using l 3(4) dg assms(1) by (simp add: Update_locate)
    note lw = located_write [OF assms(2) assms(4) [unfolded 3(1)] r' conjunct1 [OF sp] 3(5) 3(6) [unfolded 3(1)]]
    have hitd: "\<exists>d\<in>set (live rs). p d" using 3(1,3) by (auto simp: hit_def)
    have lv: "live (xs @ ?r # ys) = upd_first p data (live rs)"
      using live_upd_first [OF 3(2,3), of ?r ys] 3(1,3) by (simp add: hit_def)
    from write_record_spec [OF w g(1) assms(2) r' g(3) lw(1) 3(7)] lw(2) lw(3) [of f'] g(2,4) hitd lv
    show ?thesis by (auto intro: suffix_order.trans dest: suffix_faults)
  qed (use l assms(1) g in \<open>auto simp: Update_locate\<close>)
qed

lemma ReadRecords_spec:
  assumes "ReadRecords rl g acc f = (err, acc', f')" "layout_valid rl" "holds_records rl rs f" "df_open f"
  shows "quiet f f' \<and> ((acc', err) = collect g (live rs) acc \<or> err \<noteq> ENone \<and> df_faults f \<noteq> [])"
proof -
  obtain hdr where hdr: "df_bytes f = hdr @ recs_bytes rl rs" "length hdr = Header_size" "\<forall>r\<in>set rs. rec_ok rl r"
    using assms(3) by (rule holds_records_split)
  obtain l f1 where l: "sys_lseek Header_size f = (l, f1)" by fastforce
  note ls = sys_lseek_spec [OF l assms(4)]
  show ?thesis
  proof (cases l)
    case (Inl e)
    with ls l assms(1) show ?thesis by (auto simp: ReadRecords_def)
  next
    case (Inr n)
    with ls hdr have "df_open f1" "df_bytes f1 = hdr @ recs_bytes rl rs" "df_pos f1 = length hdr"
      using assms(4) by (auto simp: quiet_def)
    from read_all_spec [OF assms(2) hdr(3) this, of g acc err acc' f'] l Inr ls assms(1)
    show ?thesis by (auto simp: ReadRecords_def quiet_def intro: suffix_order.trans dest: suffix_faults)
  qed
qed

lemma ReadRecordByFilter_spec:
  assumes "ReadRecordByFilter rl p f = (res, f')" "layout_valid rl" "holds_records rl rs f" "df_open f"
  shows "quiet f f' \<and> (res = (case find p (live rs) of None \<Rightarrow> Inl (EEnum eNotFound) | Some d \<Rightarrow> Inr d) \<or>
    (\<exists>e. res = Inl e \<and> e \<noteq> ENone) \<and> df_faults f \<noteq> [])"
proof -
  obtain l f1 where l: "sys_lseek Header_size f = (l, f1)" by fastforce
  show ?thesis
  proof (cases l)
    case (Inl e)
    with sys_lseek_spec [OF l assms(4)] l assms(1) show ?thesis by (auto simp: ReadRecordByFilter_def)
  next
    case (Inr n)
    obtain sc f2 where s: "scan rl p f1 = (sc, f2)" by fastforce
    note fr = find_record [OF l [unfolded Inr] assms(2-4) s]
    have fnd: "find p (live (xs @ r # ys)) = Some (rc_mData r)"
      if "\<forall>x\<in>set xs. \<not> hit p x" "hit p r" for xs r ys
      using that by (induction xs) (auto simp: hit_def)
    from fr consider "\<exists>e. sc = Inl e" "df_faults f \<noteq> []" | "sc = Inr None" "\<not> (\<exists>d\<in>set (live rs). p d)"
      | xs r ys where "rs = xs @ r # ys" "\<forall>x\<in>set xs. \<not> hit p x" "hit p r" "sc = Inr (Some r)" by blast
    then show ?thesis
    proof cases
      case 2
      then have "find p (live rs) = None" by (auto simp: find_None_iff)
      with 2 l Inr s assms(1) fr show ?thesis by (auto simp: ReadRecordByFilter_def)
    next
      case 3
      with fnd [OF 3(2,3), of ys] l Inr s assms(1) fr show ?thesis by (auto simp: ReadRecordByFilter_def)
    qed (use l Inr s assms(1) fr in \<open>auto simp: ReadRecordByFilter_def\<close>)
  qed
qed

lemma Init_spec:
  assumes "FileStorage_Init env header f = (err, f')" "sha_works env" "length header = Header_size" "df_faults f = []"
    and "df_bytes f = [] \<and> rs = [] \<or> holds_records rl rs f"
  shows "err = ENone \<and> df_open f' \<and> df_faults f' = [] \<and> holds_records rl rs f'"
proof -
  let ?f1 = "f\<lparr>df_open := True, df_pos := 0\<rparr>"
  have o1: "sys_open f = (None, ?f1)" using assms(4) by (simp add: sys_open_def next_fault_def)
  let ?f2 = "?f1\<lparr>df_pos := length (df_bytes f)\<rparr>"
  have o2: "sys_lseek (length (df_bytes ?f1)) ?f1 = (Inr (length (df_bytes f)), ?f2)"
    using assms(4) by (simp add: sys_lseek_def next_fault_def)
  have sy: "\<exists>g'. Sync g = (ENone, g') \<and> df_bytes g' = df_bytes g \<and> df_open g' \<and> df_faults g' = []"
    if "df_faults g = []" for g
    using that Sync_spec [of g] by (cases "Sync g") auto
  show ?thesis
  proof (cases "df_bytes f = []")
    case False
    with o1 o2 assms(1,5) sy [of ?f2] assms(4) show ?thesis
      by (auto simp: FileStorage_Init_def intro: holds_records_bytes)
  next
    case True
    then have rs: "rs = []"
      using assms(5) by (auto simp: holds_records_def Header_size_def)
    have ne: "take (Header_size - 32) header \<noteq> []"
      using assms(3) by (auto simp: Header_size_def)
    obtain dg where dg: "CalculateSha256 env (take (Header_size - 32) header) = (dg, ENone)"
      using sha_works_result [OF assms(2), of "take (Header_size - 32) header"] ne by blast
    let ?f3 = "?f2\<lparr>df_bytes := header, df_pos := Header_size\<rparr>"
    have w: "sys_write header ?f2 = (Inr Header_size, ?f3)"
      using True assms(3,4) by (simp add: sys_write_def next_fault_def overwrite_def)
    from o1 o2 dg w True assms(1,3) have "Sync ?f3 = (err, f')"
      by (simp add: FileStorage_Init_def)
    with sy [of ?f3] assms(3,4) rs show ?thesis
      by (auto simp: holds_records_def)
  qed
qed

section \<open>The record store interface\<close>

text \<open>
  What the storage relies on: a store of records with a view of its live records, in which
  adding, updating and removing report what was there and change the view accordingly.
\<close>

locale record_store =
  fixes add :: "('d \<Rightarrow> 'd \<Rightarrow> bool) \<Rightarrow> 'd \<Rightarrow> 's \<Rightarrow> Error \<times> 's"
    and upd :: "('d \<Rightarrow> bool) \<Rightarrow> 'd \<Rightarrow> 's \<Rightarrow> Error \<times> 's"
    and del :: "('d \<Rightarrow> bool) \<Rightarrow> 's \<Rightarrow> Error \<times> 's"
    and "read" :: "('d \<Rightarrow> 'a \<Rightarrow> 'a \<times> Error) \<Rightarrow> 'a \<Rightarrow> 's \<Rightarrow> Error \<times> 'a \<times> 's"
    and get :: "('d \<Rightarrow> bool) \<Rightarrow> 's \<Rightarrow> (Error + 'd) \<times> 's"
    and view :: "'s \<Rightarrow> 'd list" and ok :: "'s \<Rightarrow> bool" and valid :: "'d \<Rightarrow> bool"
  assumes add_law: "ok s \<Longrightarrow> valid d \<Longrightarrow> add flt d s = (err, s') \<Longrightarrow> ok s' \<and>
      (if \<exists>x\<in>set (view s). flt x d then err = EEnum eAlreadyExist \<and> view s' = view s
       else err = ENone \<and> mset (view s') = add_mset d (mset (view s)))"
    and upd_law: "ok s \<Longrightarrow> valid d \<Longrightarrow> upd p d s = (err, s') \<Longrightarrow> ok s' \<and>
      view s' = upd_first p d (view s) \<and>
      err = (if \<exists>x\<in>set (view s). p x then ENone else EEnum eNotFound)"
    and del_law: "ok s \<Longrightarrow> del p s = (err, s') \<Longrightarrow> ok s' \<and> view s' = del_first p (view s) \<and>
      err = (if \<exists>x\<in>set (view s). p x then ENone else EEnum eNotFound)"
    and read_law: "ok s \<Longrightarrow> read g acc s = (err, acc', s') \<Longrightarrow> ok s' \<and> view s' = view s \<and>
      (acc', err) = collect g (view s) acc"
    and get_law: "ok s \<Longrightarrow> get p s = (res, s') \<Longrightarrow> ok s' \<and> view s' = view s \<and>
      res = (case find p (view s) of None \<Rightarrow> Inl (EEnum eNotFound) | Some d \<Rightarrow> Inr d)"

text \<open>The records of a file: what follows the header, in slots.\<close>

function slots :: "'d rec_layout \<Rightarrow> byte list \<Rightarrow> 'd Record list" where
  "slots rl bs =
     (if length bs < Record_size rl then []
      else Record_of rl (take (Record_size rl) bs) # slots rl (drop (Record_size rl) bs))"
  by pat_completeness auto
termination
  by (relation "measure (\<lambda>(rl, bs). length bs)") (auto simp: Record_size_def)

declare slots.simps [simp del]

definition db_view :: "'d rec_layout \<Rightarrow> db_file \<Rightarrow> 'd list" where
  "db_view rl f = live (slots rl (drop Header_size (df_bytes f)))"

definition db_ok :: "'d rec_layout \<Rightarrow> sha_env \<Rightarrow> db_file \<Rightarrow> bool" where
  "db_ok rl env f \<longleftrightarrow> layout_valid rl \<and> sha_works env \<and> df_open f \<and> df_faults f = [] \<and>
     (\<exists>rs. holds_records rl rs f)"

lemma slots_recs:
  assumes "layout_valid rl"
  shows "\<forall>r\<in>set rs. rec_ok rl r \<Longrightarrow> length tail < Record_size rl \<Longrightarrow> slots rl (recs_bytes rl rs @ tail) = rs"
proof (induction rs)
  case (Cons r rs)
  then show ?case
    using Record_bytes_length [OF assms, of r] Record_of_bytes [OF assms, of r]
    by (simp add: slots.simps [of rl "Record_bytes rl r @ _"])
qed (simp add: slots.simps)

lemma db_view_holds: "layout_valid rl \<Longrightarrow> holds_records rl rs f \<Longrightarrow> db_view rl f = live rs"
  using slots_recs [of rl rs "[]"] by (auto simp: db_view_def holds_records_def Record_size_def)

lemma del_first_none: "\<not> (\<exists>d\<in>set ds. p d) \<Longrightarrow> del_first p ds = ds"
  by (induction ds) auto

lemma upd_first_none: "\<not> (\<exists>d\<in>set ds. p d) \<Longrightarrow> upd_first p d ds = ds"
  by (induction ds) auto

interpretation fs: record_store "FileStorage_Add rl env" "FileStorage_Update rl env" "FileStorage_Remove rl"
  "ReadRecords rl" "ReadRecordByFilter rl" "db_view rl" "db_ok rl env" "rl_valid rl" for rl env
proof unfold_locales
  fix s s' :: db_file and d flt p err g acc acc' res
  assume ok: "db_ok rl env s"
  then obtain rs where r: "layout_valid rl" "sha_works env" "df_open s" "df_faults s = []" "holds_records rl rs s"
    by (auto simp: db_ok_def)
  have ns: "no_short s" using r(4) by (simp add: no_short_def)
  note v = db_view_holds [OF r(1,5)]
  have nf: "suffix xs [] \<Longrightarrow> xs = []" for xs :: "fault list" by (simp add: suffix_def)
  have quiet_ok: "quiet s t \<Longrightarrow> db_ok rl env t \<and> db_view rl t = db_view rl s" for t
    using r nf by (auto simp: quiet_def db_ok_def db_view_def dest: holds_records_bytes)
  show "rl_valid rl d \<Longrightarrow> FileStorage_Add rl env flt d s = (err, s') \<Longrightarrow> db_ok rl env s' \<and>
      (if \<exists>x\<in>set (db_view rl s). flt x d then err = EEnum eAlreadyExist \<and> db_view rl s' = db_view rl s
       else err = ENone \<and> mset (db_view rl s') = add_mset d (mset (db_view rl s)))"
  proof -
    assume "rl_valid rl d" "FileStorage_Add rl env flt d s = (err, s')"
    from Add_spec [OF this(2) r(1,2,5,3) ns this(1)] r nf v show ?thesis
      by (auto simp: db_ok_def db_view_holds dest: holds_records_bytes)
  qed
  show "rl_valid rl d \<Longrightarrow> FileStorage_Update rl env p d s = (err, s') \<Longrightarrow> db_ok rl env s' \<and>
      db_view rl s' = upd_first p d (db_view rl s) \<and>
      err = (if \<exists>x\<in>set (db_view rl s). p x then ENone else EEnum eNotFound)"
  proof -
    assume "rl_valid rl d" "FileStorage_Update rl env p d s = (err, s')"
    from Update_spec [OF this(2) r(1,2,5,3) ns this(1)] r nf v show ?thesis
      by (auto simp: db_ok_def db_view_holds upd_first_none dest: holds_records_bytes)
  qed
  show "FileStorage_Remove rl p s = (err, s') \<Longrightarrow> db_ok rl env s' \<and>
      db_view rl s' = del_first p (db_view rl s) \<and>
      err = (if \<exists>x\<in>set (db_view rl s). p x then ENone else EEnum eNotFound)"
  proof -
    assume "FileStorage_Remove rl p s = (err, s')"
    from Remove_spec [OF this(1) r(1,5,3) ns] r nf v show ?thesis
      by (auto simp: db_ok_def db_view_holds del_first_none dest: holds_records_bytes)
  qed
  show "ReadRecords rl g acc s = (err, acc', s') \<Longrightarrow> db_ok rl env s' \<and> db_view rl s' = db_view rl s \<and>
      (acc', err) = collect g (db_view rl s) acc"
    using ReadRecords_spec [OF _ r(1,5,3)] quiet_ok v r(4) by metis
  show "ReadRecordByFilter rl p s = (res, s') \<Longrightarrow> db_ok rl env s' \<and> db_view rl s' = db_view rl s \<and>
      res = (case find p (db_view rl s) of None \<Rightarrow> Inl (EEnum eNotFound) | Some d \<Rightarrow> Inr d)"
    using ReadRecordByFilter_spec [OF _ r(1,5,3)] quiet_ok v r(4) by metis
qed

section \<open>Properties\<close>

datatype 'd db_op = DbAdd "'d \<Rightarrow> 'd \<Rightarrow> bool" 'd | DbUpdate "'d \<Rightarrow> bool" 'd | DbRemove "'d \<Rightarrow> bool"

fun db_exec :: "'d rec_layout \<Rightarrow> sha_env \<Rightarrow> 'd db_op \<Rightarrow> db_file \<Rightarrow> Error \<times> db_file" where
  "db_exec rl env (DbAdd flt d) f = FileStorage_Add rl env flt d f"
| "db_exec rl env (DbUpdate p d) f = FileStorage_Update rl env p d f"
| "db_exec rl env (DbRemove p) f = FileStorage_Remove rl p f"

fun db_data_ok :: "'d rec_layout \<Rightarrow> 'd db_op \<Rightarrow> bool" where
  "db_data_ok rl (DbAdd flt d) = rl_valid rl d"
| "db_data_ok rl (DbUpdate p d) = rl_valid rl d"
| "db_data_ok rl (DbRemove p) = True"

text \<open>The abstract operation: what it reports and how it may change the live records.\<close>

fun db_result :: "'d db_op \<Rightarrow> 'd list \<Rightarrow> Error" where
  "db_result (DbAdd flt d) ds = (if \<exists>x\<in>set ds. flt x d then EEnum eAlreadyExist else ENone)"
| "db_result (DbUpdate p d) ds = (if \<exists>x\<in>set ds. p x then ENone else EEnum eNotFound)"
| "db_result (DbRemove p) ds = (if \<exists>x\<in>set ds. p x then ENone else EEnum eNotFound)"

fun db_effect :: "'d db_op \<Rightarrow> 'd list \<Rightarrow> 'd list \<Rightarrow> bool" where
  "db_effect (DbAdd flt d) ds ds' \<longleftrightarrow>
     (if \<exists>x\<in>set ds. flt x d then mset ds' = mset ds else mset ds' = add_mset d (mset ds))"
| "db_effect (DbUpdate p d) ds ds' \<longleftrightarrow> ds' = upd_first p d ds"
| "db_effect (DbRemove p) ds ds' \<longleftrightarrow> ds' = del_first p ds"

lemma db_op_spec:
  assumes "layout_valid rl" "sha_works env" "holds_records rl rs f" "df_open f" "no_short f"
    and "db_data_ok rl op" "db_exec rl env op f = (err, f')"
  shows "\<exists>rs'. holds_records rl rs' f' \<and> (live rs' = live rs \<or> db_effect op (live rs) (live rs')) \<and>
    (err = ENone \<longrightarrow> db_effect op (live rs) (live rs') \<and> db_result op (live rs) = ENone) \<and>
    (df_faults f = [] \<longrightarrow> err = db_result op (live rs))"
    and "suffix (df_faults f') (df_faults f)"
proof -
  show "\<exists>rs'. holds_records rl rs' f' \<and> (live rs' = live rs \<or> db_effect op (live rs) (live rs')) \<and>
    (err = ENone \<longrightarrow> db_effect op (live rs) (live rs') \<and> db_result op (live rs) = ENone) \<and>
    (df_faults f = [] \<longrightarrow> err = db_result op (live rs))"
  proof (cases op)
    case (DbAdd flt d)
    with Add_spec [of rl env flt d f err f', OF _ assms(1-5)] assms(6,7) show ?thesis
      by (auto 0 3 dest: holds_records_bytes [OF assms(3)])
  next
    case (DbUpdate p d)
    with Update_spec [of rl env p d f err f', OF _ assms(1-5)] assms(6,7) show ?thesis
      by (auto 0 3 dest: holds_records_bytes [OF assms(3)])
  next
    case (DbRemove p)
    with Remove_spec [of rl p f err f', OF _ assms(1,3-5)] assms(7) show ?thesis
      by (auto 0 3 dest: holds_records_bytes [OF assms(3)])
  qed
  show "suffix (df_faults f') (df_faults f)"
    using Add_spec [OF _ assms(1-5), of _ _ err f'] Update_spec [OF _ assms(1-5), of _ _ err f'] Remove_spec [OF _ assms(1,3-5), of _ err f'] assms(6,7)
    by (cases op) (simp; blast)+
qed

text \<open>
  A file that holds records, open or not, whatever its calls will fail to do, as long as no write stops part of
  the way. Operations keep it such a file, and change what it holds only as promised.
\<close>

definition db_safe :: "'d rec_layout \<Rightarrow> sha_env \<Rightarrow> db_file \<Rightarrow> bool" where
  "db_safe rl env f \<longleftrightarrow> layout_valid rl \<and> sha_works env \<and> no_short f \<and> (\<exists>rs. holds_records rl rs f)"

lemma db_ok_safe: "db_ok rl env f \<Longrightarrow> db_safe rl env f"
  by (auto simp: db_ok_def db_safe_def no_short_def)

lemma db_exec_closed: "\<not> df_open f \<Longrightarrow> snd (db_exec rl env op f) = f"
  by (cases op) (simp_all add: FileStorage_Add_def FileStorage_Update_def FileStorage_Remove_def sys_lseek_def)

lemma db_safe_exec:
  assumes "db_safe rl env f" "db_data_ok rl op" "db_exec rl env op f = (err, f')"
  shows "db_safe rl env f' \<and> (db_view rl f' = db_view rl f \<or> db_effect op (db_view rl f) (db_view rl f'))"
proof (cases "df_open f")
  case False
  then show ?thesis using db_exec_closed [of f rl env op] assms by simp
next
  case True
  from assms(1) obtain rs where r: "layout_valid rl" "sha_works env" "holds_records rl rs f" "no_short f" by (auto simp: db_safe_def)
  from db_op_spec [OF r(1-3) True r(4) assms(2,3)] suffix_no_short [OF _ r(4)] show ?thesis
    using r by (auto simp: db_safe_def db_view_holds)
qed


definition byte_rec :: "byte rec_layout" where
  "byte_rec = \<lparr>rl_enc = (\<lambda>d. [d]), rl_dec = hd, rl_size = 1, rl_tail = replicate 32 0, rl_valid = (\<lambda>_. True)\<rparr>"

lemma byte_rec_valid: "layout_valid byte_rec"
  by (simp add: layout_valid_def byte_rec_def)

lemma zero_sha_works: "sha_works zero_sha"
  by (simp add: sha_works_def zero_sha_def)

definition demo_rec :: "byte \<Rightarrow> byte Record" where
  "demo_rec b = \<lparr>rc_mData = b, rc_mDeleted = 0, rc_mChecksum = replicate 32 0, rc_padding = []\<rparr>"

definition demo_db :: "byte list \<Rightarrow> byte list \<Rightarrow> fault list \<Rightarrow> db_file" where
  "demo_db ds tail fs = \<lparr>df_bytes = replicate Header_size 0 @ recs_bytes byte_rec (map demo_rec ds) @ tail,
     df_pos = 0, df_open = True, df_faults = fs\<rparr>"

lemma demo_db_holds: "holds_records byte_rec (map demo_rec ds) (demo_db ds [] fs)"
  by (auto simp: holds_records_def demo_db_def rec_ok_def demo_rec_def byte_rec_def Record_padding_def)

lemma live_demo: "live (map demo_rec ds) = ds"
  by (induction ds) (auto simp: demo_rec_def)


text \<open>A torn write is never repaired: when an earlier write stopped in the middle of a new
  record, the scan of the next \<open>Add\<close> takes the fragment for the end of the file, appends the
  new record right behind it and reports success, but the slot that readers see there is the
  fragment joined to the front of the new record.\<close>

theorem db_torn_write_lost:
  assumes "layout_valid rl" "sha_works env" "df_open f" "df_faults f = []" "rl_valid rl data"
    and "df_bytes f = hdr @ recs_bytes rl rs @ tail" "length hdr = Header_size"
    and "\<forall>r\<in>set rs. rec_ok rl r \<and> rc_mDeleted r = 0" "tail \<noteq> []" "length tail < Record_size rl"
    and "\<forall>d\<in>set (live rs). \<not> flt d data"
  shows "\<exists>f' dg. FileStorage_Add rl env flt data f = (ENone, f') \<and>
    slots rl (drop Header_size (df_bytes f')) =
      rs @ [Record_of rl (take (Record_size rl) (tail @ rl_enc rl data @ [0] @ dg))]"
proof -
  let ?f1 = "f\<lparr>df_pos := Header_size\<rparr>"
  have l: "sys_lseek Header_size f = (Inr Header_size, ?f1)"
    using assms(3,4) by (simp add: sys_lseek_def next_fault_def)
  obtain sc f2 where s: "Add_scan rl (\<lambda>d. flt d data) None ?f1 = (sc, f2)" by fastforce
  have rok: "\<forall>r\<in>set rs. rec_ok rl r" using assms(8) by blast
  have nohit: "\<not> (\<exists>r\<in>set rs. hit (\<lambda>d. flt d data) r)"
    using assms(11) hit_live [of rs "\<lambda>d. flt d data"] by blast
  have "quiet ?f1 f2" and "\<exists>d. sc = Inr d \<and> df_pos f2 = length (df_bytes f) \<and> slot_choice rl (length hdr) rs None d"
    using Add_scan_spec [OF assms(1,10) rok _ _ _ s, of hdr] assms(3,4,6,7) nohit by auto
  then obtain d where d: "sc = Inr d" "df_pos f2 = length (df_bytes f)" "slot_choice rl (length hdr) rs None d"
    and f2: "df_open f2" "df_bytes f2 = df_bytes f" "df_faults f2 = []"
    using assms(3,4) by (auto simp: quiet_def suffix_def)
  have dn: "d = None"
    using d(3) assms(8) by (cases d) (auto simp: slot_choice_def deleted_at_def)
  obtain dg where dg: "CalculateSha256 env (hashed rl data 0 (take 32 (rl_tail rl))) = (dg, ENone)" "length dg = 32"
    using sha_works_result [OF assms(2), of "hashed rl data 0 (take 32 (rl_tail rl))"] by (auto simp: hashed_def)
  let ?r = "\<lparr>rc_mData = data, rc_mDeleted = 0, rc_mChecksum = dg, rc_padding = drop 32 (rl_tail rl)\<rparr>"
  have "rec_ok rl ?r" using dg(2) assms(5) by (simp add: rec_ok_def Record_padding_def)
  note len = Record_bytes_length [OF assms(1) this]
  obtain e4 f4 where w: "write_record rl ?r f2 = (e4, f4)" by fastforce
  have "df_bytes f2 = df_bytes f @ [] @ []" "df_pos f2 = length (df_bytes f)" using d(2) f2(2) by simp_all
  from write_record_spec [OF w f2(1) assms(1) \<open>rec_ok rl ?r\<close> _ this] f2(3)
  have w4: "e4 = ENone" "df_bytes f4 = df_bytes f @ Record_bytes rl ?r" "df_faults f4 = []"
    by (auto simp: no_short_def suffix_def)
  obtain e5 f5 where y: "Sync f4 = (e5, f5)" by fastforce
  from Sync_spec [OF y] w4 have "e5 = ENone" "df_bytes f5 = df_bytes f @ Record_bytes rl ?r" by auto
  moreover have "FileStorage_Add rl env flt data f = (e5, f5)"
    using l s d(1) dn dg(1) w w4(1) y by (simp add: FileStorage_Add_def)
  moreover have "slots rl (recs_bytes rl rs @ (tail @ Record_bytes rl ?r)) =
      rs @ [Record_of rl (take (Record_size rl) (tail @ Record_bytes rl ?r))]"
    using rok
  proof (induction rs)
    case Nil
    have "length (drop (Record_size rl) (tail @ Record_bytes rl ?r)) < Record_size rl"
      using len assms(9,10) by simp
    then have "slots rl (drop (Record_size rl) (tail @ Record_bytes rl ?r)) = []"
      by (subst slots.simps) simp
    then show ?case using len by (subst slots.simps) simp
  next
    case (Cons r rs)
    then show ?case
      using Record_bytes_length [OF assms(1), of r] Record_of_bytes [OF assms(1), of r]
      by (simp add: slots.simps [of rl "Record_bytes rl r @ _"])
  qed
  ultimately show ?thesis using assms(6,7) by (auto simp: Record_bytes_def)
qed

lemma db_torn_write_lost_witness:
  "\<exists>f'. FileStorage_Add byte_rec zero_sha (=) 5 (demo_db [3] [9] []) = (ENone, f') \<and>
     map rc_mData (slots byte_rec (drop Header_size (df_bytes f'))) = [3, 9]"
proof -
  have "df_bytes (demo_db [3] [9] []) = replicate Header_size 0 @ recs_bytes byte_rec (map demo_rec [3]) @ [9]"
    "df_open (demo_db [3] [9] [])" "df_faults (demo_db [3] [9] []) = []"
    by (simp_all add: demo_db_def)
  from db_torn_write_lost [OF byte_rec_valid zero_sha_works this(2,3) _ this(1), of 5 "(=)"]
  obtain f' dg where f': "FileStorage_Add byte_rec zero_sha (=) 5 (demo_db [3] [9] []) = (ENone, f')"
    "slots byte_rec (drop Header_size (df_bytes f')) =
       map demo_rec [3] @ [Record_of byte_rec (take (Record_size byte_rec) ([9] @ rl_enc byte_rec 5 @ [0] @ dg))]"
    by (auto simp: rec_ok_def demo_rec_def byte_rec_def Record_size_def Record_padding_def)
  then show ?thesis
    by (auto simp: demo_rec_def byte_rec_def Record_of_def Record_size_def Record_padding_def)
qed

end
