(* ===== verification/Storage.thy ===== *)
theory Storage
  imports FileStorage
begin

text \<open>
  \<open>src/storage/storage.cpp\<close>: the four databases of the node (instances, services, layers,
  certificates), each a record file, with the conversions between the service manager's types
  and the stored C structures. Only the fields of the library's types that the conversions
  touch are modelled. A stored byte array is the list of its used bytes, so that its size
  field is the list's length.
\<close>

section \<open>Data\<close>

record InstanceIdent =
  ii_mServiceID :: string
  ii_mSubjectID :: string
  ii_mInstance :: u64

record InstanceData =
  in_mInstanceID :: string
  in_mInstanceIdent :: InstanceIdent
  in_mUID :: u32
  in_mPriority :: u64
  in_mStoragePath :: string
  in_mStatePath :: string

text \<open>The states of services and layers are library enums; a state type is a parameter.\<close>

record 'st ServiceData =
  sv_mServiceID :: string
  sv_mProviderID :: string
  sv_mVersion :: string
  sv_mImagePath :: string
  sv_mManifestDigest :: string
  sv_mTimestamp :: Time
  sv_mState :: 'st
  sv_mSize :: u64
  sv_mGID :: u32

record 'st LayerData =
  ly_mLayerDigest :: string
  ly_mUnpackedLayerDigest :: string
  ly_mLayerID :: string
  ly_mVersion :: string
  ly_mPath :: string
  ly_mOSVersion :: string
  ly_mTimestamp :: Time
  ly_mState :: 'st
  ly_mSize :: u64

record CertInfo =
  ce_mIssuer :: "byte list"
  ce_mSerial :: "byte list"
  ce_mCertURL :: string
  ce_mKeyURL :: string
  ce_mNotAfter :: Time

text \<open>What is stored: the same with C strings, the state as its name, and the certificate's type.\<close>

type_synonym db_ServiceData = "string ServiceData"
type_synonym db_LayerData = "string LayerData"

record db_CertInfo = CertInfo +
  cd_mCertType :: string

text \<open>An enum with its names.\<close>

record 'st enum_names =
  en_ToString :: "'st \<Rightarrow> string"
  en_FromString :: "string \<Rightarrow> 'st option"

definition names_ok :: "'st enum_names \<Rightarrow> bool" where
  "names_ok en \<longleftrightarrow> (\<forall>s. no_nul (en_ToString en s) \<and> en_FromString en (en_ToString en s) = Some s)"

section \<open>Conversions\<close>

definition ConvertInstanceData :: "InstanceData \<Rightarrow> InstanceData" where
  "ConvertInstanceData i =
     \<lparr>in_mInstanceID = cstr (in_mInstanceID i),
      in_mInstanceIdent =
        \<lparr>ii_mServiceID = cstr (ii_mServiceID (in_mInstanceIdent i)),
         ii_mSubjectID = cstr (ii_mSubjectID (in_mInstanceIdent i)),
         ii_mInstance = ii_mInstance (in_mInstanceIdent i)\<rparr>,
      in_mUID = in_mUID i, in_mPriority = in_mPriority i,
      in_mStoragePath = cstr (in_mStoragePath i), in_mStatePath = cstr (in_mStatePath i)\<rparr>"

text \<open>The stored identifier fits the target, so the assignment that is checked succeeds.\<close>

definition ConvertInstanceData_out :: "InstanceData \<Rightarrow> InstanceData \<times> Error" where
  "ConvertInstanceData_out d =
     (\<lparr>in_mInstanceID = in_mInstanceID d, in_mInstanceIdent = in_mInstanceIdent d, in_mUID = in_mUID d,
       in_mPriority = in_mPriority d, in_mStoragePath = in_mStoragePath d, in_mStatePath = in_mStatePath d\<rparr>, ENone)"

definition ConvertServiceData :: "'st enum_names \<Rightarrow> 'st ServiceData \<Rightarrow> db_ServiceData" where
  "ConvertServiceData en s =
     \<lparr>sv_mServiceID = cstr (sv_mServiceID s), sv_mProviderID = cstr (sv_mProviderID s),
      sv_mVersion = cstr (sv_mVersion s), sv_mImagePath = cstr (sv_mImagePath s),
      sv_mManifestDigest = cstr (sv_mManifestDigest s), sv_mTimestamp = sv_mTimestamp s,
      sv_mState = cstr (en_ToString en (sv_mState s)), sv_mSize = sv_mSize s, sv_mGID = sv_mGID s\<rparr>"

text \<open>\<open>st0\<close> is the state of the default-constructed result, kept when the name is unknown.\<close>

definition ConvertServiceData_out :: "'st enum_names \<Rightarrow> 'st \<Rightarrow> db_ServiceData \<Rightarrow> 'st ServiceData \<times> Error" where
  "ConvertServiceData_out en st0 d =
     (let out = (\<lambda>st. \<lparr>sv_mServiceID = sv_mServiceID d, sv_mProviderID = sv_mProviderID d,
            sv_mVersion = sv_mVersion d, sv_mImagePath = sv_mImagePath d,
            sv_mManifestDigest = sv_mManifestDigest d, sv_mTimestamp = sv_mTimestamp d,
            sv_mState = st, sv_mSize = sv_mSize d, sv_mGID = sv_mGID d\<rparr>)
      in (case en_FromString en (sv_mState d) of
            None \<Rightarrow> (out st0, AOS_ERROR_WRAP (ELib ''FromString''))
          | Some st \<Rightarrow> (out st, ENone)))"

definition ConvertLayerData :: "'st enum_names \<Rightarrow> 'st LayerData \<Rightarrow> db_LayerData" where
  "ConvertLayerData en l =
     \<lparr>ly_mLayerDigest = cstr (ly_mLayerDigest l), ly_mUnpackedLayerDigest = cstr (ly_mUnpackedLayerDigest l),
      ly_mLayerID = cstr (ly_mLayerID l), ly_mVersion = cstr (ly_mVersion l), ly_mPath = cstr (ly_mPath l),
      ly_mOSVersion = cstr (ly_mOSVersion l), ly_mTimestamp = ly_mTimestamp l,
      ly_mState = cstr (en_ToString en (ly_mState l)), ly_mSize = ly_mSize l\<rparr>"

definition ConvertLayerData_out :: "'st enum_names \<Rightarrow> 'st \<Rightarrow> db_LayerData \<Rightarrow> 'st LayerData \<times> Error" where
  "ConvertLayerData_out en st0 d =
     (let out = (\<lambda>st. \<lparr>ly_mLayerDigest = ly_mLayerDigest d, ly_mUnpackedLayerDigest = ly_mUnpackedLayerDigest d,
            ly_mLayerID = ly_mLayerID d, ly_mVersion = ly_mVersion d, ly_mPath = ly_mPath d,
            ly_mOSVersion = ly_mOSVersion d, ly_mTimestamp = ly_mTimestamp d, ly_mState = st,
            ly_mSize = ly_mSize d\<rparr>)
      in (case en_FromString en (ly_mState d) of
            None \<Rightarrow> (out st0, AOS_ERROR_WRAP (ELib ''FromString''))
          | Some st \<Rightarrow> (out st, ENone)))"

definition ConvertCertInfo :: "string \<Rightarrow> CertInfo \<Rightarrow> db_CertInfo" where
  "ConvertCertInfo certType c =
     \<lparr>ce_mIssuer = ce_mIssuer c, ce_mSerial = ce_mSerial c, ce_mCertURL = cstr (ce_mCertURL c),
      ce_mKeyURL = cstr (ce_mKeyURL c), ce_mNotAfter = ce_mNotAfter c, cd_mCertType = cstr certType\<rparr>"

definition ConvertCertInfo_out :: "db_CertInfo \<Rightarrow> CertInfo" where
  "ConvertCertInfo_out d =
     \<lparr>ce_mIssuer = ce_mIssuer d, ce_mSerial = ce_mSerial d, ce_mCertURL = ce_mCertURL d,
      ce_mKeyURL = ce_mKeyURL d, ce_mNotAfter = ce_mNotAfter d\<rparr>"

section \<open>State\<close>

record Storage =
  sd_mInstanceDatabase :: db_file
  sd_mServiceDatabase :: db_file
  sd_mLayerDatabase :: db_file
  sd_mCertDatabase :: db_file

record layouts =
  lo_instance :: "InstanceData rec_layout"
  lo_service :: "db_ServiceData rec_layout"
  lo_layer :: "db_LayerData rec_layout"
  lo_cert :: "db_CertInfo rec_layout"

definition Storage_Init :: "sha_env \<Rightarrow> Error \<Rightarrow> byte list \<Rightarrow> Storage \<Rightarrow> Error \<times> Storage" where
  "Storage_Init env makeDir header st =
     (if makeDir \<noteq> ENone then (AOS_ERROR_WRAP makeDir, st)
      else (case FileStorage_Init env header (sd_mInstanceDatabase st) of
        (err, f1) \<Rightarrow>
          let st1 = st\<lparr>sd_mInstanceDatabase := f1\<rparr> in
          if err \<noteq> ENone then (err, st1)
          else (case FileStorage_Init env header (sd_mServiceDatabase st1) of
            (err, f2) \<Rightarrow>
              let st2 = st1\<lparr>sd_mServiceDatabase := f2\<rparr> in
              if err \<noteq> ENone then (AOS_ERROR_WRAP err, st2)
              else (case FileStorage_Init env header (sd_mLayerDatabase st2) of
                (err, f3) \<Rightarrow>
                  let st3 = st2\<lparr>sd_mLayerDatabase := f3\<rparr> in
                  if err \<noteq> ENone then (AOS_ERROR_WRAP err, st3)
                  else (case FileStorage_Init env header (sd_mCertDatabase st3) of
                    (err, f4) \<Rightarrow>
                      let st4 = st3\<lparr>sd_mCertDatabase := f4\<rparr> in
                      if err \<noteq> ENone then (AOS_ERROR_WRAP err, st4) else (ENone, st4))))))"

section \<open>Instances\<close>

definition AddInstance :: "layouts \<Rightarrow> sha_env \<Rightarrow> InstanceData \<Rightarrow> Storage \<Rightarrow> Error \<times> Storage" where
  "AddInstance lo env i st =
     (case FileStorage_Add (lo_instance lo) env
         (\<lambda>stored added. in_mInstanceID stored = in_mInstanceID added)
         (ConvertInstanceData i) (sd_mInstanceDatabase st) of
        (err, f) \<Rightarrow> (err, st\<lparr>sd_mInstanceDatabase := f\<rparr>))"

definition UpdateInstance :: "layouts \<Rightarrow> sha_env \<Rightarrow> InstanceData \<Rightarrow> Storage \<Rightarrow> Error \<times> Storage" where
  "UpdateInstance lo env i st =
     (case FileStorage_Update (lo_instance lo) env (\<lambda>d. in_mInstanceID d = in_mInstanceID i)
         (ConvertInstanceData i) (sd_mInstanceDatabase st) of
        (err, f) \<Rightarrow> (err, st\<lparr>sd_mInstanceDatabase := f\<rparr>))"

definition RemoveInstance :: "layouts \<Rightarrow> string \<Rightarrow> Storage \<Rightarrow> Error \<times> Storage" where
  "RemoveInstance lo instanceID st =
     (case FileStorage_Remove (lo_instance lo) (\<lambda>d. in_mInstanceID d = instanceID) (sd_mInstanceDatabase st) of
        (err, f) \<Rightarrow> (err, st\<lparr>sd_mInstanceDatabase := f\<rparr>))"

text \<open>
  The callbacks of the reading operations: make room in the caller's array (which holds at
  most \<open>cap\<close> elements), then convert into it.
\<close>

definition emplace :: "nat \<Rightarrow> ('d \<Rightarrow> 'o \<times> Error) \<Rightarrow> 'd \<Rightarrow> 'o list \<Rightarrow> 'o list \<times> Error" where
  "emplace cap conv d acc =
     (if cap \<le> length acc then (acc, AOS_ERROR_WRAP (ELib ''EmplaceBack''))
      else (case conv d of (out, err) \<Rightarrow> (acc @ [out], AOS_ERROR_WRAP err)))"

definition GetAllInstances :: "layouts \<Rightarrow> nat \<Rightarrow> InstanceData list \<Rightarrow> Storage \<Rightarrow> Error \<times> InstanceData list \<times> Storage" where
  "GetAllInstances lo cap instances st =
     (case ReadRecords (lo_instance lo) (emplace cap ConvertInstanceData_out) instances (sd_mInstanceDatabase st) of
        (err, out, f) \<Rightarrow> (err, out, st\<lparr>sd_mInstanceDatabase := f\<rparr>))"

section \<open>Services\<close>

definition AddService :: "layouts \<Rightarrow> sha_env \<Rightarrow> 'st enum_names \<Rightarrow> 'st ServiceData \<Rightarrow> Storage \<Rightarrow> Error \<times> Storage" where
  "AddService lo env en s st =
     (case FileStorage_Add (lo_service lo) env
         (\<lambda>stored added. sv_mServiceID stored = sv_mServiceID added \<and> sv_mVersion stored = sv_mVersion added)
         (ConvertServiceData en s) (sd_mServiceDatabase st) of
        (err, f) \<Rightarrow> (err, st\<lparr>sd_mServiceDatabase := f\<rparr>))"

definition GetServiceVersions ::
  "layouts \<Rightarrow> 'st enum_names \<Rightarrow> 'st \<Rightarrow> nat \<Rightarrow> string \<Rightarrow> 'st ServiceData list \<Rightarrow> Storage \<Rightarrow>
   Error \<times> 'st ServiceData list \<times> Storage" where
  "GetServiceVersions lo en st0 cap serviceID services st =
     (case ReadRecords (lo_service lo)
         (\<lambda>d acc. if sv_mServiceID d \<noteq> serviceID then (acc, ENone)
            else emplace cap (ConvertServiceData_out en st0) d acc)
         services (sd_mServiceDatabase st) of
        (err, out, f) \<Rightarrow> (err, out, st\<lparr>sd_mServiceDatabase := f\<rparr>))"

definition UpdateService :: "layouts \<Rightarrow> sha_env \<Rightarrow> 'st enum_names \<Rightarrow> 'st ServiceData \<Rightarrow> Storage \<Rightarrow> Error \<times> Storage" where
  "UpdateService lo env en s st =
     (case FileStorage_Update (lo_service lo) env
         (\<lambda>d. sv_mServiceID d = sv_mServiceID s \<and> sv_mVersion d = sv_mVersion s)
         (ConvertServiceData en s) (sd_mServiceDatabase st) of
        (err, f) \<Rightarrow> (err, st\<lparr>sd_mServiceDatabase := f\<rparr>))"

definition RemoveService :: "layouts \<Rightarrow> string \<Rightarrow> string \<Rightarrow> Storage \<Rightarrow> Error \<times> Storage" where
  "RemoveService lo serviceID version st =
     (case FileStorage_Remove (lo_service lo)
         (\<lambda>d. sv_mServiceID d = serviceID \<and> sv_mVersion d = version) (sd_mServiceDatabase st) of
        (err, f) \<Rightarrow> (err, st\<lparr>sd_mServiceDatabase := f\<rparr>))"

definition GetAllServices ::
  "layouts \<Rightarrow> 'st enum_names \<Rightarrow> 'st \<Rightarrow> nat \<Rightarrow> 'st ServiceData list \<Rightarrow> Storage \<Rightarrow>
   Error \<times> 'st ServiceData list \<times> Storage" where
  "GetAllServices lo en st0 cap services st =
     (case ReadRecords (lo_service lo) (emplace cap (ConvertServiceData_out en st0)) services (sd_mServiceDatabase st) of
        (err, out, f) \<Rightarrow> (err, out, st\<lparr>sd_mServiceDatabase := f\<rparr>))"

section \<open>Layers\<close>

definition AddLayer :: "layouts \<Rightarrow> sha_env \<Rightarrow> 'st enum_names \<Rightarrow> 'st LayerData \<Rightarrow> Storage \<Rightarrow> Error \<times> Storage" where
  "AddLayer lo env en l st =
     (case FileStorage_Add (lo_layer lo) env
         (\<lambda>stored added. ly_mLayerDigest stored = ly_mLayerDigest added)
         (ConvertLayerData en l) (sd_mLayerDatabase st) of
        (err, f) \<Rightarrow> (err, st\<lparr>sd_mLayerDatabase := f\<rparr>))"

definition RemoveLayer :: "layouts \<Rightarrow> string \<Rightarrow> Storage \<Rightarrow> Error \<times> Storage" where
  "RemoveLayer lo digest st =
     (case FileStorage_Remove (lo_layer lo) (\<lambda>d. ly_mLayerDigest d = digest) (sd_mLayerDatabase st) of
        (err, f) \<Rightarrow> (err, st\<lparr>sd_mLayerDatabase := f\<rparr>))"

definition GetAllLayers ::
  "layouts \<Rightarrow> 'st enum_names \<Rightarrow> 'st \<Rightarrow> nat \<Rightarrow> 'st LayerData list \<Rightarrow> Storage \<Rightarrow>
   Error \<times> 'st LayerData list \<times> Storage" where
  "GetAllLayers lo en st0 cap layers st =
     (case ReadRecords (lo_layer lo) (emplace cap (ConvertLayerData_out en st0)) layers (sd_mLayerDatabase st) of
        (err, out, f) \<Rightarrow> (err, out, st\<lparr>sd_mLayerDatabase := f\<rparr>))"

definition GetLayer ::
  "layouts \<Rightarrow> 'st enum_names \<Rightarrow> 'st \<Rightarrow> string \<Rightarrow> Storage \<Rightarrow> (Error + 'st LayerData) \<times> Storage" where
  "GetLayer lo en st0 digest st =
     (case ReadRecordByFilter (lo_layer lo) (\<lambda>d. ly_mLayerDigest d = digest) (sd_mLayerDatabase st) of
        (Inl err, f) \<Rightarrow> (Inl (AOS_ERROR_WRAP err), st\<lparr>sd_mLayerDatabase := f\<rparr>)
      | (Inr d, f) \<Rightarrow>
          (case ConvertLayerData_out en st0 d of
             (out, err) \<Rightarrow>
               (if err \<noteq> ENone then Inl (AOS_ERROR_WRAP err) else Inr out, st\<lparr>sd_mLayerDatabase := f\<rparr>)))"

definition UpdateLayer :: "layouts \<Rightarrow> sha_env \<Rightarrow> 'st enum_names \<Rightarrow> 'st LayerData \<Rightarrow> Storage \<Rightarrow> Error \<times> Storage" where
  "UpdateLayer lo env en l st =
     (case FileStorage_Update (lo_layer lo) env (\<lambda>d. ly_mLayerDigest d = ly_mLayerDigest l)
         (ConvertLayerData en l) (sd_mLayerDatabase st) of
        (err, f) \<Rightarrow> (err, st\<lparr>sd_mLayerDatabase := f\<rparr>))"

section \<open>Certificates\<close>

definition AddCertInfo :: "layouts \<Rightarrow> sha_env \<Rightarrow> string \<Rightarrow> CertInfo \<Rightarrow> Storage \<Rightarrow> Error \<times> Storage" where
  "AddCertInfo lo env certType c st =
     (case FileStorage_Add (lo_cert lo) env
         (\<lambda>stored added. cd_mCertType stored = cd_mCertType added \<and>
            length (ce_mIssuer stored) = length (ce_mIssuer added) \<and>
            length (ce_mSerial stored) = length (ce_mSerial added) \<and>
            ce_mIssuer stored = ce_mIssuer added \<and> ce_mSerial stored = ce_mSerial added)
         (ConvertCertInfo certType c) (sd_mCertDatabase st) of
        (err, f) \<Rightarrow> (err, st\<lparr>sd_mCertDatabase := f\<rparr>))"

definition RemoveCertInfo :: "layouts \<Rightarrow> string \<Rightarrow> string \<Rightarrow> Storage \<Rightarrow> Error \<times> Storage" where
  "RemoveCertInfo lo certType certURL st =
     (case FileStorage_Remove (lo_cert lo) (\<lambda>d. cd_mCertType d = certType \<and> ce_mCertURL d = certURL)
         (sd_mCertDatabase st) of
        (err, f) \<Rightarrow> (err, st\<lparr>sd_mCertDatabase := f\<rparr>))"

definition RemoveAllCertsInfo :: "layouts \<Rightarrow> string \<Rightarrow> Storage \<Rightarrow> Error \<times> Storage" where
  "RemoveAllCertsInfo lo certType st =
     (case FileStorage_Remove (lo_cert lo) (\<lambda>d. cd_mCertType d = certType) (sd_mCertDatabase st) of
        (err, f) \<Rightarrow>
          (if err \<noteq> ENone \<and> err \<noteq> EEnum eNotFound then err else ENone, st\<lparr>sd_mCertDatabase := f\<rparr>))"

definition GetCertsInfo :: "layouts \<Rightarrow> nat \<Rightarrow> string \<Rightarrow> CertInfo list \<Rightarrow> Storage \<Rightarrow> Error \<times> CertInfo list \<times> Storage" where
  "GetCertsInfo lo cap certType certsInfo st =
     (case ReadRecords (lo_cert lo)
         (\<lambda>d acc. if cd_mCertType d = certType then PushBack cap acc (ConvertCertInfo_out d) else (acc, ENone))
         certsInfo (sd_mCertDatabase st) of
        (err, out, f) \<Rightarrow> (err, out, st\<lparr>sd_mCertDatabase := f\<rparr>))"

definition GetCertInfo :: "layouts \<Rightarrow> byte list \<Rightarrow> byte list \<Rightarrow> Storage \<Rightarrow> (Error + CertInfo) \<times> Storage" where
  "GetCertInfo lo issuer serial st =
     (case ReadRecordByFilter (lo_cert lo) (\<lambda>d. ce_mIssuer d = issuer \<and> ce_mSerial d = serial) (sd_mCertDatabase st) of
        (Inl err, f) \<Rightarrow> (Inl err, st\<lparr>sd_mCertDatabase := f\<rparr>)
      | (Inr d, f) \<Rightarrow> (Inr (ConvertCertInfo_out d), st\<lparr>sd_mCertDatabase := f\<rparr>))"

section \<open>What is not stored\<close>

definition GetOperationVersion :: "Storage \<Rightarrow> u64 \<times> Error" where
  "GetOperationVersion st = (0, ENone)"

definition SetOperationVersion :: "u64 \<Rightarrow> Storage \<Rightarrow> Error \<times> Storage" where
  "SetOperationVersion version st = (ENone, st)"

definition GetOverrideEnvVars :: "'e list \<Rightarrow> Storage \<Rightarrow> Error \<times> 'e list" where
  "GetOverrideEnvVars envVarsInstanceInfos st = (ENone, envVarsInstanceInfos)"

definition SetOverrideEnvVars :: "'e list \<Rightarrow> Storage \<Rightarrow> Error \<times> Storage" where
  "SetOverrideEnvVars envVarsInstanceInfos st = (ENone, st)"

definition GetOnlineTime :: "Time \<Rightarrow> Storage \<Rightarrow> Time \<times> Error" where
  "GetOnlineTime now st = (now, ENone)"

definition SetOnlineTime :: "Time \<Rightarrow> Storage \<Rightarrow> Error \<times> Storage" where
  "SetOnlineTime time st = (ENone, st)"

section \<open>Round trips of the conversions\<close>

definition instance_clean :: "InstanceData \<Rightarrow> bool" where
  "instance_clean i \<longleftrightarrow> no_nul (in_mInstanceID i) \<and> no_nul (ii_mServiceID (in_mInstanceIdent i)) \<and>
     no_nul (ii_mSubjectID (in_mInstanceIdent i)) \<and> no_nul (in_mStoragePath i) \<and> no_nul (in_mStatePath i)"

definition service_clean :: "'st ServiceData \<Rightarrow> bool" where
  "service_clean s \<longleftrightarrow> no_nul (sv_mServiceID s) \<and> no_nul (sv_mProviderID s) \<and> no_nul (sv_mVersion s) \<and>
     no_nul (sv_mImagePath s) \<and> no_nul (sv_mManifestDigest s)"

definition layer_clean :: "'st LayerData \<Rightarrow> bool" where
  "layer_clean l \<longleftrightarrow> no_nul (ly_mLayerDigest l) \<and> no_nul (ly_mUnpackedLayerDigest l) \<and> no_nul (ly_mLayerID l) \<and>
     no_nul (ly_mVersion l) \<and> no_nul (ly_mPath l) \<and> no_nul (ly_mOSVersion l)"

definition cert_clean :: "CertInfo \<Rightarrow> bool" where
  "cert_clean c \<longleftrightarrow> no_nul (ce_mCertURL c) \<and> no_nul (ce_mKeyURL c)"

lemma instance_roundtrip: "instance_clean i \<Longrightarrow> ConvertInstanceData_out (ConvertInstanceData i) = (i, ENone)"
  by (simp add: ConvertInstanceData_out_def ConvertInstanceData_def instance_clean_def)

lemma service_roundtrip:
  "service_clean s \<Longrightarrow> names_ok en \<Longrightarrow> ConvertServiceData_out en st0 (ConvertServiceData en s) = (s, ENone)"
  by (simp add: ConvertServiceData_out_def ConvertServiceData_def service_clean_def names_ok_def)

lemma layer_roundtrip:
  "layer_clean l \<Longrightarrow> names_ok en \<Longrightarrow> ConvertLayerData_out en st0 (ConvertLayerData en l) = (l, ENone)"
  by (simp add: ConvertLayerData_out_def ConvertLayerData_def layer_clean_def names_ok_def)

lemma cert_roundtrip: "cert_clean c \<Longrightarrow> ConvertCertInfo_out (ConvertCertInfo ty c) = c"
  by (simp add: ConvertCertInfo_out_def ConvertCertInfo_def cert_clean_def)

lemma ConvertInstanceData_id [simp]: "instance_clean i \<Longrightarrow> ConvertInstanceData i = i"
  by (simp add: ConvertInstanceData_def instance_clean_def)

lemma ConvertInstanceData_out_id [simp]: "ConvertInstanceData_out d = (d, ENone)"
  by (simp add: ConvertInstanceData_out_def)

section \<open>Keyed stores\<close>

lemma collect_emplace:
  "\<forall>d\<in>set ds. snd (conv d) = ENone \<Longrightarrow> length acc + length ds \<le> cap \<Longrightarrow>
    collect (emplace cap conv) ds acc = (acc @ map (fst \<circ> conv) ds, ENone)"
  by (induction ds arbitrary: acc) (auto simp: emplace_def split: prod.splits)

lemma collect_filter:
  "collect (\<lambda>d acc. if \<not> p d then (acc, ENone) else g d acc) ds acc = collect g (filter p ds) acc"
  by (induction ds arbitrary: acc) (auto split: prod.splits)

lemma mset_upd_first:
  "key d = k \<Longrightarrow> map key (upd_first (\<lambda>x. key x = k) d ds) = map key ds"
  by (induction ds) auto

lemma set_del_first: "set (del_first p ds) \<subseteq> set ds"
  by (induction ds) auto

lemma distinct_del_first: "distinct (map key ds) \<Longrightarrow> distinct (map key (del_first p ds))"
proof (induction ds)
  case (Cons d ds)
  then show ?case using set_del_first [of p ds] by auto
qed simp

context record_store
begin

lemma add_keeps_distinct:
  assumes "ok s" "valid d" "add flt d s = (err, s')" "distinct (map key (view s))"
    and "\<And>a. flt a d \<longleftrightarrow> key a = key d"
  shows "distinct (map key (view s'))"
proof (cases "\<exists>x\<in>set (view s). flt x d")
  case True
  with add_law [OF assms(1-3)] assms(4) show ?thesis by simp
next
  case False
  with add_law [OF assms(1-3)] have "mset (map key (view s')) = mset (map key (d # view s))"
    by simp
  moreover have "distinct (map key (d # view s))"
    using False assms(4,5) by auto
  ultimately show ?thesis by (metis mset_eq_imp_distinct_iff)
qed

lemma upd_keeps_distinct:
  assumes "ok s" "valid d" "upd p d s = (err, s')" "distinct (map key (view s))"
    and "\<And>a. p a \<longleftrightarrow> key a = key d"
  shows "distinct (map key (view s'))"
proof -
  have "p = (\<lambda>x. key x = key d)" using assms(5) by auto
  then show ?thesis using upd_law [OF assms(1-3)] assms(4) mset_upd_first [of key d "key d"] by simp
qed

lemma del_keeps_distinct:
  "ok s \<Longrightarrow> del p s = (err, s') \<Longrightarrow> distinct (map key (view s)) \<Longrightarrow> distinct (map key (view s'))"
  using del_law distinct_del_first by metis

text \<open>Reading everything through a callback that has room and cannot fail.\<close>

lemma read_emplace:
  fixes conv :: "'d \<Rightarrow> 'o \<times> Error"
  assumes "ok s" "collect g (view s) acc = (out, ENone)" "read g acc s = (err, acc', s')"
  shows "err = ENone \<and> acc' = out \<and> ok s' \<and> view s' = view s"
  using read_law [OF assms(1,3)] assms(2) by simp

end

section \<open>The invariant of the four databases\<close>

definition storage_ok :: "layouts \<Rightarrow> sha_env \<Rightarrow> Storage \<Rightarrow> bool" where
  "storage_ok lo env st \<longleftrightarrow>
     db_ok (lo_instance lo) env (sd_mInstanceDatabase st) \<and> db_ok (lo_service lo) env (sd_mServiceDatabase st) \<and>
     db_ok (lo_layer lo) env (sd_mLayerDatabase st) \<and> db_ok (lo_cert lo) env (sd_mCertDatabase st)"

definition instances_of :: "layouts \<Rightarrow> Storage \<Rightarrow> InstanceData list" where
  "instances_of lo st = db_view (lo_instance lo) (sd_mInstanceDatabase st)"

definition services_of :: "layouts \<Rightarrow> Storage \<Rightarrow> db_ServiceData list" where
  "services_of lo st = db_view (lo_service lo) (sd_mServiceDatabase st)"

definition layers_of :: "layouts \<Rightarrow> Storage \<Rightarrow> db_LayerData list" where
  "layers_of lo st = db_view (lo_layer lo) (sd_mLayerDatabase st)"

definition certs_of :: "layouts \<Rightarrow> Storage \<Rightarrow> db_CertInfo list" where
  "certs_of lo st = db_view (lo_cert lo) (sd_mCertDatabase st)"

lemmas storage_view_defs = storage_ok_def instances_of_def services_of_def layers_of_def certs_of_def

definition cert_key :: "db_CertInfo \<Rightarrow> string \<times> byte list \<times> byte list" where
  "cert_key d = (cd_mCertType d, ce_mIssuer d, ce_mSerial d)"

definition keys_unique :: "layouts \<Rightarrow> Storage \<Rightarrow> bool" where
  "keys_unique lo st \<longleftrightarrow> distinct (map in_mInstanceID (instances_of lo st)) \<and>
     distinct (map (\<lambda>s. (sv_mServiceID s, sv_mVersion s)) (services_of lo st)) \<and>
     distinct (map ly_mLayerDigest (layers_of lo st)) \<and> distinct (map cert_key (certs_of lo st))"

text \<open>The changing operations on data that is clean and fits its structure.\<close>

inductive storage_step :: "layouts \<Rightarrow> sha_env \<Rightarrow> 'st enum_names \<Rightarrow> Storage \<Rightarrow> Storage \<Rightarrow> bool"
  for lo env en where
  add_instance: "instance_clean i \<Longrightarrow> rl_valid (lo_instance lo) (ConvertInstanceData i) \<Longrightarrow>
    storage_step lo env en st (snd (AddInstance lo env i st))"
| update_instance: "instance_clean i \<Longrightarrow> rl_valid (lo_instance lo) (ConvertInstanceData i) \<Longrightarrow>
    storage_step lo env en st (snd (UpdateInstance lo env i st))"
| remove_instance: "storage_step lo env en st (snd (RemoveInstance lo ident st))"
| add_service: "service_clean s \<Longrightarrow> rl_valid (lo_service lo) (ConvertServiceData en s) \<Longrightarrow>
    storage_step lo env en st (snd (AddService lo env en s st))"
| update_service: "service_clean s \<Longrightarrow> rl_valid (lo_service lo) (ConvertServiceData en s) \<Longrightarrow>
    storage_step lo env en st (snd (UpdateService lo env en s st))"
| remove_service: "storage_step lo env en st (snd (RemoveService lo ident version st))"
| add_layer: "layer_clean l \<Longrightarrow> rl_valid (lo_layer lo) (ConvertLayerData en l) \<Longrightarrow>
    storage_step lo env en st (snd (AddLayer lo env en l st))"
| update_layer: "layer_clean l \<Longrightarrow> rl_valid (lo_layer lo) (ConvertLayerData en l) \<Longrightarrow>
    storage_step lo env en st (snd (UpdateLayer lo env en l st))"
| remove_layer: "storage_step lo env en st (snd (RemoveLayer lo digest st))"
| add_cert: "rl_valid (lo_cert lo) (ConvertCertInfo ty c) \<Longrightarrow>
    storage_step lo env en st (snd (AddCertInfo lo env ty c st))"
| remove_cert: "storage_step lo env en st (snd (RemoveCertInfo lo ty url st))"
| remove_all_certs: "storage_step lo env en st (snd (RemoveAllCertsInfo lo ty st))"

text \<open>The four files, of which any call may fail as long as no write stops part of the way.\<close>

definition storage_safe :: "layouts \<Rightarrow> sha_env \<Rightarrow> Storage \<Rightarrow> bool" where
  "storage_safe lo env st \<longleftrightarrow>
     db_safe (lo_instance lo) env (sd_mInstanceDatabase st) \<and> db_safe (lo_service lo) env (sd_mServiceDatabase st) \<and>
     db_safe (lo_layer lo) env (sd_mLayerDatabase st) \<and> db_safe (lo_cert lo) env (sd_mCertDatabase st)"

lemma storage_ok_safe: "storage_ok lo env st \<Longrightarrow> storage_safe lo env st"
  by (simp add: storage_ok_def storage_safe_def db_ok_safe)

definition storage_inv :: "layouts \<Rightarrow> sha_env \<Rightarrow> Storage \<Rightarrow> bool" where
  "storage_inv lo env st \<longleftrightarrow> storage_safe lo env st \<and> keys_unique lo st"

lemma storage_inv_instances:
  "storage_inv lo env st \<Longrightarrow> db_safe (lo_instance lo) env f \<Longrightarrow> distinct (map in_mInstanceID (db_view (lo_instance lo) f)) \<Longrightarrow>
    storage_inv lo env (st\<lparr>sd_mInstanceDatabase := f\<rparr>)"
  by (simp add: storage_inv_def keys_unique_def storage_safe_def storage_view_defs)

lemma storage_inv_services:
  "storage_inv lo env st \<Longrightarrow> db_safe (lo_service lo) env f \<Longrightarrow>
    distinct (map (\<lambda>s. (sv_mServiceID s, sv_mVersion s)) (db_view (lo_service lo) f)) \<Longrightarrow>
    storage_inv lo env (st\<lparr>sd_mServiceDatabase := f\<rparr>)"
  by (simp add: storage_inv_def keys_unique_def storage_safe_def storage_view_defs)

lemma storage_inv_layers:
  "storage_inv lo env st \<Longrightarrow> db_safe (lo_layer lo) env f \<Longrightarrow> distinct (map ly_mLayerDigest (db_view (lo_layer lo) f)) \<Longrightarrow>
    storage_inv lo env (st\<lparr>sd_mLayerDatabase := f\<rparr>)"
  by (simp add: storage_inv_def keys_unique_def storage_safe_def storage_view_defs)

lemma storage_inv_certs:
  "storage_inv lo env st \<Longrightarrow> db_safe (lo_cert lo) env f \<Longrightarrow> distinct (map cert_key (db_view (lo_cert lo) f)) \<Longrightarrow>
    storage_inv lo env (st\<lparr>sd_mCertDatabase := f\<rparr>)"
  by (simp add: storage_inv_def keys_unique_def storage_safe_def storage_view_defs)

lemma storage_inv_dbs:
  assumes "storage_inv lo env st"
  shows "db_safe (lo_instance lo) env (sd_mInstanceDatabase st)"
    "distinct (map in_mInstanceID (db_view (lo_instance lo) (sd_mInstanceDatabase st)))"
    "db_safe (lo_service lo) env (sd_mServiceDatabase st)"
    "distinct (map (\<lambda>s. (sv_mServiceID s, sv_mVersion s)) (db_view (lo_service lo) (sd_mServiceDatabase st)))"
    "db_safe (lo_layer lo) env (sd_mLayerDatabase st)"
    "distinct (map ly_mLayerDigest (db_view (lo_layer lo) (sd_mLayerDatabase st)))"
    "db_safe (lo_cert lo) env (sd_mCertDatabase st)"
    "distinct (map cert_key (db_view (lo_cert lo) (sd_mCertDatabase st)))"
  using assms by (simp_all add: storage_inv_def keys_unique_def storage_safe_def storage_view_defs)

text \<open>One line per kind of operation.\<close>

lemma db_add_distinct:
  assumes "db_effect (DbAdd flt d) ds ds'" "distinct (map key ds)" "\<forall>a. flt a d \<longleftrightarrow> key a = key d"
  shows "distinct (map key ds')"
proof (cases "\<exists>x\<in>set ds. flt x d")
  case True
  with assms(1) have "mset (map key ds') = mset (map key ds)" by simp
  with assms(2) show ?thesis by (metis mset_eq_imp_distinct_iff)
next
  case False
  with assms(1) have "mset (map key ds') = mset (map key (d # ds))" by simp
  moreover have "distinct (map key (d # ds))" using False assms(2,3) by auto
  ultimately show ?thesis by (metis mset_eq_imp_distinct_iff)
qed

lemma fs_add_inv:
  assumes "db_safe rl env f" "distinct (map key (db_view rl f))" "rl_valid rl d" "\<forall>a. flt a d \<longleftrightarrow> key a = key d"
  shows "db_safe rl env (snd (FileStorage_Add rl env flt d f)) \<and>
    distinct (map key (db_view rl (snd (FileStorage_Add rl env flt d f))))"
proof -
  obtain err f' where a: "FileStorage_Add rl env flt d f = (err, f')" by fastforce
  have "db_safe rl env f' \<and> (db_view rl f' = db_view rl f \<or> db_effect (DbAdd flt d) (db_view rl f) (db_view rl f'))"
    by (rule db_safe_exec [OF assms(1)]) (simp_all add: assms(3) a)
  with assms(2) db_add_distinct [of flt d "db_view rl f" "db_view rl f'" key, OF _ assms(2,4)] a show ?thesis by (metis snd_conv)
qed

lemma fs_upd_inv:
  assumes "db_safe rl env f" "distinct (map key (db_view rl f))" "rl_valid rl d" "\<forall>a. p a \<longleftrightarrow> key a = key d"
  shows "db_safe rl env (snd (FileStorage_Update rl env p d f)) \<and>
    distinct (map key (db_view rl (snd (FileStorage_Update rl env p d f))))"
proof -
  obtain err f' where a: "FileStorage_Update rl env p d f = (err, f')" by fastforce
  have "db_safe rl env f' \<and> (db_view rl f' = db_view rl f \<or> db_effect (DbUpdate p d) (db_view rl f) (db_view rl f'))"
    by (rule db_safe_exec [OF assms(1)]) (simp_all add: assms(3) a)
  moreover have "p = (\<lambda>x. key x = key d)" using assms(4) by auto
  ultimately show ?thesis using assms(2) a mset_upd_first [of key d "key d" "db_view rl f"] by auto
qed

lemma fs_del_inv:
  assumes "db_safe rl env f" "distinct (map key (db_view rl f))"
  shows "db_safe rl env (snd (FileStorage_Remove rl p f)) \<and>
    distinct (map key (db_view rl (snd (FileStorage_Remove rl p f))))"
proof -
  obtain err f' where a: "FileStorage_Remove rl p f = (err, f')" by fastforce
  have "db_safe rl env f' \<and> (db_view rl f' = db_view rl f \<or> db_effect (DbRemove p) (db_view rl f) (db_view rl f'))"
    by (rule db_safe_exec [OF assms(1)]) (simp_all add: a)
  with assms(2) a distinct_del_first [of key "db_view rl f" p] show ?thesis by auto
qed

lemma ConvertServiceData_key: "service_clean s \<Longrightarrow>
    sv_mServiceID (ConvertServiceData en s) = sv_mServiceID s \<and> sv_mVersion (ConvertServiceData en s) = sv_mVersion s"
  by (simp add: ConvertServiceData_def service_clean_def)

lemma ConvertLayerData_key: "layer_clean l \<Longrightarrow> ly_mLayerDigest (ConvertLayerData en l) = ly_mLayerDigest l"
  by (simp add: ConvertLayerData_def layer_clean_def)

lemma cert_key_eq: "cert_key a = cert_key b \<longleftrightarrow>
    cd_mCertType a = cd_mCertType b \<and> ce_mIssuer a = ce_mIssuer b \<and> ce_mSerial a = ce_mSerial b"
  by (simp add: cert_key_def)

lemma storage_step_inv:
  assumes "storage_step lo env en st st'" "storage_inv lo env st"
  shows "storage_inv lo env st'"
  using assms(1)
proof cases
  case (add_instance i)
  from storage_inv_instances [OF assms(2)]
    fs_add_inv [OF storage_inv_dbs(1,2) [OF assms(2)] add_instance(3), where flt = "\<lambda>stored added. in_mInstanceID stored = in_mInstanceID added"]
  show ?thesis by (auto simp: add_instance(1) AddInstance_def case_prod_unfold )
next
  case (update_instance i)
  from storage_inv_instances [OF assms(2)]
    fs_upd_inv [OF storage_inv_dbs(1,2) [OF assms(2)] update_instance(3), where p = "\<lambda>d. in_mInstanceID d = in_mInstanceID i"]
  show ?thesis by (auto simp: update_instance(1) UpdateInstance_def case_prod_unfold  update_instance(2))
next
  case (remove_instance ident)
  from storage_inv_instances [OF assms(2)]
    fs_del_inv [OF storage_inv_dbs(1,2) [OF assms(2)]]
  show ?thesis by (auto simp: remove_instance RemoveInstance_def case_prod_unfold )
next
  case (add_service s)
  from storage_inv_services [OF assms(2)]
    fs_add_inv [OF storage_inv_dbs(3,4) [OF assms(2)] add_service(3), where flt = "\<lambda>stored added. sv_mServiceID stored = sv_mServiceID added \<and> sv_mVersion stored = sv_mVersion added"]
  show ?thesis by (auto simp: add_service(1) AddService_def case_prod_unfold )
next
  case (update_service s)
  from storage_inv_services [OF assms(2)]
    fs_upd_inv [OF storage_inv_dbs(3,4) [OF assms(2)] update_service(3), where p = "\<lambda>d. sv_mServiceID d = sv_mServiceID s \<and> sv_mVersion d = sv_mVersion s"]
  show ?thesis by (auto simp: update_service(1) UpdateService_def case_prod_unfold ConvertServiceData_key update_service(2))
next
  case (remove_service ident version)
  from storage_inv_services [OF assms(2)]
    fs_del_inv [OF storage_inv_dbs(3,4) [OF assms(2)]]
  show ?thesis by (auto simp: remove_service RemoveService_def case_prod_unfold )
next
  case (add_layer l)
  from storage_inv_layers [OF assms(2)]
    fs_add_inv [OF storage_inv_dbs(5,6) [OF assms(2)] add_layer(3), where flt = "\<lambda>stored added. ly_mLayerDigest stored = ly_mLayerDigest added"]
  show ?thesis by (auto simp: add_layer(1) AddLayer_def case_prod_unfold )
next
  case (update_layer l)
  from storage_inv_layers [OF assms(2)]
    fs_upd_inv [OF storage_inv_dbs(5,6) [OF assms(2)] update_layer(3), where p = "\<lambda>d. ly_mLayerDigest d = ly_mLayerDigest l"]
  show ?thesis by (auto simp: update_layer(1) UpdateLayer_def case_prod_unfold ConvertLayerData_key update_layer(2))
next
  case (remove_layer digest)
  from storage_inv_layers [OF assms(2)]
    fs_del_inv [OF storage_inv_dbs(5,6) [OF assms(2)]]
  show ?thesis by (auto simp: remove_layer RemoveLayer_def case_prod_unfold )
next
  case (add_cert ty c)
  let ?flt = "\<lambda>stored added :: db_CertInfo. cd_mCertType stored = cd_mCertType added \<and>
    length (ce_mIssuer stored) = length (ce_mIssuer added) \<and>
    length (ce_mSerial stored) = length (ce_mSerial added) \<and>
    ce_mIssuer stored = ce_mIssuer added \<and> ce_mSerial stored = ce_mSerial added"
  have "\<forall>a. ?flt a (ConvertCertInfo ty c) \<longleftrightarrow> cert_key a = cert_key (ConvertCertInfo ty c)"
    by (auto simp: cert_key_eq)
  from storage_inv_certs [OF assms(2)] fs_add_inv [where flt = ?flt, OF storage_inv_dbs(7,8) [OF assms(2)] add_cert(2) this]
  show ?thesis by (simp add: add_cert(1) AddCertInfo_def case_prod_unfold)
next
  case (remove_cert ty url)
  from storage_inv_certs [OF assms(2)]
    fs_del_inv [OF storage_inv_dbs(7,8) [OF assms(2)]]
  show ?thesis by (auto simp: remove_cert RemoveCertInfo_def case_prod_unfold )
next
  case (remove_all_certs ty)
  from storage_inv_certs [OF assms(2)]
    fs_del_inv [OF storage_inv_dbs(7,8) [OF assms(2)]]
  show ?thesis by (auto simp: remove_all_certs RemoveAllCertsInfo_def case_prod_unfold )
qed

inductive storage_run :: "layouts \<Rightarrow> sha_env \<Rightarrow> 'st enum_names \<Rightarrow> Storage \<Rightarrow> Storage \<Rightarrow> bool"
  for lo env en where
  run_none: "storage_run lo env en st st"
| run_step: "storage_run lo env en st st' \<Longrightarrow> storage_step lo env en st' st'' \<Longrightarrow> storage_run lo env en st st''"

lemma storage_run_inv:
  "storage_run lo env en st st' \<Longrightarrow> storage_inv lo env st \<Longrightarrow> storage_inv lo env st'"
  by (induction rule: storage_run.induct) (auto intro: storage_step_inv)

section \<open>Reading back\<close>

lemma GetAllInstances_view:
  assumes "storage_ok lo env st" "length (instances_of lo st) \<le> cap"
  shows "\<exists>st'. GetAllInstances lo cap [] st = (ENone, instances_of lo st, st') \<and> storage_ok lo env st' \<and>
    instances_of lo st' = instances_of lo st"
proof -
  let ?g = "emplace cap ConvertInstanceData_out"
  obtain err out f where r: "ReadRecords (lo_instance lo) ?g [] (sd_mInstanceDatabase st) = (err, out, f)"
    by (metis prod.exhaust)
  have "collect ?g (instances_of lo st) [] = (instances_of lo st, ENone)"
    using assms(2) by (simp add: collect_emplace comp_def)
  with fs.read_emplace [OF _ _ r] assms(1) r show ?thesis
    by (auto simp: GetAllInstances_def storage_view_defs)
qed

lemma collect_PushBack:
  "length acc + length (filter p ds) \<le> cap \<Longrightarrow>
    collect (\<lambda>d acc. if p d then PushBack cap acc (conv d) else (acc, ENone)) ds acc =
      (acc @ map conv (filter p ds), ENone)"
  by (induction ds arbitrary: acc) (auto simp: PushBack_def)

lemma GetCertsInfo_view:
  assumes "storage_ok lo env st" "length (filter (\<lambda>d. cd_mCertType d = ty) (certs_of lo st)) \<le> cap"
  shows "\<exists>st'. GetCertsInfo lo cap ty [] st =
      (ENone, map ConvertCertInfo_out (filter (\<lambda>d. cd_mCertType d = ty) (certs_of lo st)), st')"
proof -
  let ?g = "\<lambda>d acc. if cd_mCertType d = ty then PushBack cap acc (ConvertCertInfo_out d) else (acc, ENone)"
  obtain err out f where r: "ReadRecords (lo_cert lo) ?g [] (sd_mCertDatabase st) = (err, out, f)"
    by (rule prod_cases3)
  have c: "collect ?g (db_view (lo_cert lo) (sd_mCertDatabase st)) [] =
      (map ConvertCertInfo_out (filter (\<lambda>d. cd_mCertType d = ty) (certs_of lo st)), ENone)"
    using collect_PushBack [of "[]" "\<lambda>d. cd_mCertType d = ty" "certs_of lo st" cap ConvertCertInfo_out] assms(2)
    by (simp add: certs_of_def)
  have "db_ok (lo_cert lo) env (sd_mCertDatabase st)" using assms(1) by (simp add: storage_ok_def)
  from fs.read_emplace [OF this c r] show ?thesis by (simp add: GetCertsInfo_def r)
qed

lemma AddInstance_view:
  assumes "storage_ok lo env st" "instance_clean i" "rl_valid (lo_instance lo) i" "AddInstance lo env i st = (err, st')"
  shows "storage_ok lo env st' \<and>
    (if \<exists>x\<in>set (instances_of lo st). in_mInstanceID x = in_mInstanceID i
     then err = EEnum eAlreadyExist \<and> instances_of lo st' = instances_of lo st
     else err = ENone \<and> mset (instances_of lo st') = add_mset i (mset (instances_of lo st)))"
proof -
  obtain f where a: "FileStorage_Add (lo_instance lo) env
      (\<lambda>stored added. in_mInstanceID stored = in_mInstanceID added) i (sd_mInstanceDatabase st) = (err, f)"
    "st' = st\<lparr>sd_mInstanceDatabase := f\<rparr>"
    using assms(2,4) by (auto simp: AddInstance_def split: prod.splits)
  from fs.add_law [OF _ assms(3) a(1)] assms(1) a(2) show ?thesis
    by (auto simp: storage_view_defs split: if_splits)
qed

lemma RemoveAllCertsInfo_view:
  assumes "storage_ok lo env st" "RemoveAllCertsInfo lo ty st = (err, st')"
  shows "err = ENone \<and> storage_ok lo env st' \<and>
    certs_of lo st' = del_first (\<lambda>d. cd_mCertType d = ty) (certs_of lo st)"
proof -
  obtain e f where a: "FileStorage_Remove (lo_cert lo) (\<lambda>d. cd_mCertType d = ty) (sd_mCertDatabase st) = (e, f)"
    "st' = st\<lparr>sd_mCertDatabase := f\<rparr>" "err = (if e \<noteq> ENone \<and> e \<noteq> EEnum eNotFound then e else ENone)"
    using assms(2) by (auto simp: RemoveAllCertsInfo_def split: prod.splits)
  from fs.del_law [OF _ a(1)] assms(1) a(2,3) show ?thesis
    by (auto simp: storage_view_defs split: if_splits)
qed

lemma filter_del_first:
  "filter p (del_first p ds) = tl (filter p ds)"
  by (induction ds) auto

section \<open>Layouts for examples\<close>

text \<open>A layout that stores values of a given table by their position.\<close>

fun pos_of :: "'a \<Rightarrow> 'a list \<Rightarrow> nat" where
  "pos_of x [] = 0"
| "pos_of x (y # ys) = (if x = y then 0 else Suc (pos_of x ys))"

lemma pos_of_nth: "x \<in> set ys \<Longrightarrow> pos_of x ys < length ys \<and> ys ! pos_of x ys = x"
  by (induction ys) auto

definition table_layout :: "'d list \<Rightarrow> 'd rec_layout" where
  "table_layout vs = \<lparr>rl_enc = (\<lambda>d. [of_nat (pos_of d vs)]), rl_dec = (\<lambda>b. vs ! unat (hd b)), rl_size = 1, rl_tail = replicate 32 0,
     rl_valid = (\<lambda>d. length vs < 256 \<and> d \<in> set vs)\<rparr>"

lemma table_layout_valid: "layout_valid (table_layout vs)"
proof -
  have "vs ! unat (of_nat (pos_of d vs) :: byte) = d" if "length vs < 256" "d \<in> set vs" for d
    using pos_of_nth [OF that(2)] that(1) by (simp add: unat_of_nat)
  then show ?thesis by (simp add: layout_valid_def table_layout_def)
qed

definition empty_db :: db_file where
  "empty_db = \<lparr>df_bytes = replicate Header_size 0, df_pos = 0, df_open = True, df_faults = []\<rparr>"

lemma empty_db_ok: "layout_valid rl \<Longrightarrow> sha_works env \<Longrightarrow> db_ok rl env empty_db"
  by (auto simp: db_ok_def empty_db_def holds_records_def intro: exI [of _ "[]"])

lemma empty_db_view: "layout_valid rl \<Longrightarrow> db_view rl empty_db = []"
  by (subst db_view_holds [of rl "[]"]) (auto simp: empty_db_def holds_records_def)

definition demo_storage :: Storage where
  "demo_storage = \<lparr>sd_mInstanceDatabase = empty_db, sd_mServiceDatabase = empty_db,
     sd_mLayerDatabase = empty_db, sd_mCertDatabase = empty_db\<rparr>"

definition demo_instance :: "string \<Rightarrow> InstanceData" where
  "demo_instance n = \<lparr>in_mInstanceID = n, in_mInstanceIdent = \<lparr>ii_mServiceID = ''svc'', ii_mSubjectID = ''sub'', ii_mInstance = 0\<rparr>,
     in_mUID = 5000, in_mPriority = 1, in_mStoragePath = [], in_mStatePath = []\<rparr>"

definition demo_cert :: "byte \<Rightarrow> CertInfo" where
  "demo_cert b = \<lparr>ce_mIssuer = [1], ce_mSerial = [b], ce_mCertURL = ''u'', ce_mKeyURL = ''k'', ce_mNotAfter = Time 0 0\<rparr>"

definition demo_layouts :: layouts where
  "demo_layouts = \<lparr>lo_instance = table_layout [demo_instance ''a'', demo_instance ''b''], lo_service = table_layout [],
     lo_layer = table_layout [], lo_cert = table_layout [ConvertCertInfo ''iam'' (demo_cert 1), ConvertCertInfo ''iam'' (demo_cert 2)]\<rparr>"

lemma demo_storage_ok: "storage_ok demo_layouts zero_sha demo_storage"
  by (simp add: storage_ok_def demo_storage_def demo_layouts_def empty_db_ok table_layout_valid zero_sha_works)

lemma demo_storage_views:
  "instances_of demo_layouts demo_storage = []" "services_of demo_layouts demo_storage = []"
  "layers_of demo_layouts demo_storage = []" "certs_of demo_layouts demo_storage = []"
  by (simp_all add: storage_view_defs demo_storage_def demo_layouts_def empty_db_view table_layout_valid)

section \<open>Properties\<close>

text \<open>Stored instances are read back unchanged: after \<open>AddInstance\<close> of an instance whose
  strings hold no NUL, \<open>GetAllInstances\<close> returns, if there is room, the instances that were
  stored before and the new one; an instance whose identifier is already stored is refused
  with \<open>eAlreadyExist\<close> and nothing changes.\<close>

theorem storage_instance_roundtrip:
  assumes "storage_ok lo env st" "instance_clean i" "rl_valid (lo_instance lo) i"
    and "length (instances_of lo st) < cap" "AddInstance lo env i st = (err, st')"
  shows "\<exists>out st''. GetAllInstances lo cap [] st' = (ENone, out, st'') \<and>
    (if \<exists>x\<in>set (instances_of lo st). in_mInstanceID x = in_mInstanceID i
     then err = EEnum eAlreadyExist \<and> out = instances_of lo st
     else err = ENone \<and> mset out = add_mset i (mset (instances_of lo st)))"
proof -
  note a = AddInstance_view [OF assms(1-3,5)]
  then have "size (mset (instances_of lo st')) \<le> Suc (size (mset (instances_of lo st)))"
    by (auto split: if_splits simp del: size_mset dest: arg_cong [where f = size])
  then have "length (instances_of lo st') \<le> cap" using assms(4) by simp
  from GetAllInstances_view [OF conjunct1 [OF a] this] a show ?thesis by metis
qed

lemma storage_instance_roundtrip_witness:
  "\<exists>out st''. GetAllInstances demo_layouts 4 [] (snd (AddInstance demo_layouts zero_sha (demo_instance ''a'') demo_storage)) =
     (ENone, out, st'') \<and> out = [demo_instance ''a'']"
proof -
  obtain err st' where a: "AddInstance demo_layouts zero_sha (demo_instance ''a'') demo_storage = (err, st')" by fastforce
  have "instance_clean (demo_instance ''a'')" "rl_valid (lo_instance demo_layouts) (demo_instance ''a'')"
    by (simp_all add: instance_clean_def demo_instance_def no_nul_def demo_layouts_def table_layout_def)
  from storage_instance_roundtrip [OF demo_storage_ok this _ a, of 4] show ?thesis
    by (auto simp: demo_storage_views a)
qed


lemma demo_keys_unique: "keys_unique demo_layouts demo_storage"
  by (simp add: keys_unique_def demo_storage_views)


text \<open>\<open>RemoveAllCertsInfo\<close> removes one certificate only: with two or more certificates of
  the type stored it reports success, and \<open>GetCertsInfo\<close> still returns all of them but the
  first.\<close>

theorem remove_all_certs_removes_one:
  assumes "storage_ok lo env st" "filter (\<lambda>d. cd_mCertType d = ty) (certs_of lo st) = c1 # c2 # cs"
    and "length cs < cap" "RemoveAllCertsInfo lo ty st = (err, st')"
  shows "err = ENone \<and>
    (\<exists>st''. GetCertsInfo lo cap ty [] st' = (ENone, map ConvertCertInfo_out (c2 # cs), st''))"
proof -
  note r = RemoveAllCertsInfo_view [OF assms(1,4)]
  have "filter (\<lambda>d. cd_mCertType d = ty) (certs_of lo st') = c2 # cs"
    using r assms(2) by (simp add: filter_del_first)
  with GetCertsInfo_view [of lo env st' ty cap] r assms(3) show ?thesis by auto
qed

definition demo_certs :: Storage where
  "demo_certs = snd (AddCertInfo demo_layouts zero_sha ''iam'' (demo_cert 2)
     (snd (AddCertInfo demo_layouts zero_sha ''iam'' (demo_cert 1) demo_storage)))"

lemma AddCertInfo_view:
  assumes "storage_ok lo env st" "rl_valid (lo_cert lo) (ConvertCertInfo ty c)"
    "cert_key (ConvertCertInfo ty c) \<notin> set (map cert_key (certs_of lo st))"
  shows "storage_ok lo env (snd (AddCertInfo lo env ty c st)) \<and>
    mset (certs_of lo (snd (AddCertInfo lo env ty c st))) = add_mset (ConvertCertInfo ty c) (mset (certs_of lo st))"
proof -
  let ?flt = "\<lambda>stored added :: db_CertInfo. cd_mCertType stored = cd_mCertType added \<and>
    length (ce_mIssuer stored) = length (ce_mIssuer added) \<and>
    length (ce_mSerial stored) = length (ce_mSerial added) \<and>
    ce_mIssuer stored = ce_mIssuer added \<and> ce_mSerial stored = ce_mSerial added"
  obtain err f where a: "FileStorage_Add (lo_cert lo) env ?flt (ConvertCertInfo ty c) (sd_mCertDatabase st) = (err, f)"
    by fastforce
  have "\<not> (\<exists>x\<in>set (certs_of lo st). ?flt x (ConvertCertInfo ty c))"
    using assms(3) by (auto simp: cert_key_def image_iff)
  with fs.add_law [OF _ assms(2) a] assms(1) a show ?thesis
    by (simp add: AddCertInfo_def storage_view_defs)
qed

lemma demo_certs_view:
  "storage_ok demo_layouts zero_sha demo_certs \<and>
   mset (certs_of demo_layouts demo_certs) =
     {#ConvertCertInfo ''iam'' (demo_cert 1), ConvertCertInfo ''iam'' (demo_cert 2)#}"
proof -
  have v: "rl_valid (lo_cert demo_layouts) (ConvertCertInfo ''iam'' (demo_cert 1))"
    "rl_valid (lo_cert demo_layouts) (ConvertCertInfo ''iam'' (demo_cert 2))"
    by (simp_all add: demo_layouts_def table_layout_def)
  let ?s1 = "snd (AddCertInfo demo_layouts zero_sha ''iam'' (demo_cert 1) demo_storage)"
  have s1: "storage_ok demo_layouts zero_sha ?s1 \<and>
      mset (certs_of demo_layouts ?s1) = {#ConvertCertInfo ''iam'' (demo_cert 1)#}"
    using AddCertInfo_view [OF demo_storage_ok v(1)] by (simp add: demo_storage_views)
  then have "set (certs_of demo_layouts ?s1) = {ConvertCertInfo ''iam'' (demo_cert 1)}"
    by (metis set_mset_single set_mset_mset)
  then have "cert_key (ConvertCertInfo ''iam'' (demo_cert 2)) \<notin> set (map cert_key (certs_of demo_layouts ?s1))"
    by (simp add: cert_key_def ConvertCertInfo_def demo_cert_def)
  from AddCertInfo_view [OF _ v(2) this] s1 show ?thesis by (simp add: demo_certs_def)
qed

lemma remove_all_certs_removes_one_witness:
  "\<exists>err st' c st''. RemoveAllCertsInfo demo_layouts ''iam'' demo_certs = (err, st') \<and> err = ENone \<and>
     GetCertsInfo demo_layouts 8 ''iam'' [] st' = (ENone, [c], st'')"
proof -
  obtain err st' where r: "RemoveAllCertsInfo demo_layouts ''iam'' demo_certs = (err, st')" by fastforce
  let ?cs = "certs_of demo_layouts demo_certs"
  have "set ?cs = {ConvertCertInfo ''iam'' (demo_cert 1), ConvertCertInfo ''iam'' (demo_cert 2)}"
    using demo_certs_view by (metis set_mset_add_mset_insert set_mset_empty set_mset_mset)
  then have "filter (\<lambda>d. cd_mCertType d = ''iam'') ?cs = ?cs"
    by (auto simp: filter_id_conv ConvertCertInfo_def cstr_def)
  moreover have "length ?cs = 2" using demo_certs_view by (metis size_mset size_add_mset size_empty numeral_2_eq_2)
  ultimately obtain c1 c2 where "filter (\<lambda>d. cd_mCertType d = ''iam'') ?cs = [c1, c2]"
    by (auto simp: numeral_2_eq_2 length_Suc_conv)
  from remove_all_certs_removes_one [OF conjunct1 [OF demo_certs_view] this _ r, of 8] r
  show ?thesis by auto
qed

text \<open>Nothing is lost in the conversions: an instance, a service, a layer and a certificate
  whose strings hold no NUL come back equal from their stored form, provided the names of
  the states are ones the library parses back.\<close>

theorem storage_conversions_roundtrip:
  assumes "instance_clean i" "service_clean s" "layer_clean l" "cert_clean c" "names_ok en" "names_ok en'"
  shows "ConvertInstanceData_out (ConvertInstanceData i) = (i, ENone) \<and>
    ConvertServiceData_out en st0 (ConvertServiceData en s) = (s, ENone) \<and>
    ConvertLayerData_out en' st0' (ConvertLayerData en' l) = (l, ENone) \<and>
    ConvertCertInfo_out (ConvertCertInfo ty c) = c \<and> cd_mCertType (ConvertCertInfo ty c) = cstr ty"
  using assms
  by (simp add: instance_roundtrip service_roundtrip layer_roundtrip cert_roundtrip [of c ty])
    (simp add: ConvertCertInfo_def)

definition demo_names :: "bool enum_names" where
  "demo_names = \<lparr>en_ToString = (\<lambda>b. if b then ''active'' else ''cached''),
     en_FromString = (\<lambda>s. if s = ''active'' then Some True else if s = ''cached'' then Some False else None)\<rparr>"

lemma demo_names_ok: "names_ok demo_names"
  by (auto simp: names_ok_def demo_names_def no_nul_def)

lemma storage_conversions_roundtrip_witness:
  "ConvertServiceData_out demo_names False (ConvertServiceData demo_names
     \<lparr>sv_mServiceID = ''s'', sv_mProviderID = ''p'', sv_mVersion = ''1'', sv_mImagePath = ''/i'',
      sv_mManifestDigest = ''d'', sv_mTimestamp = Time 5 6, sv_mState = True, sv_mSize = 7, sv_mGID = 8\<rparr>) =
     (\<lparr>sv_mServiceID = ''s'', sv_mProviderID = ''p'', sv_mVersion = ''1'', sv_mImagePath = ''/i'',
      sv_mManifestDigest = ''d'', sv_mTimestamp = Time 5 6, sv_mState = True, sv_mSize = 7, sv_mGID = 8\<rparr>, ENone)"
  by (rule conjunct1 [OF conjunct2 [OF storage_conversions_roundtrip [where i = "demo_instance ''a''"
      and l = "\<lparr>ly_mLayerDigest = [], ly_mUnpackedLayerDigest = [], ly_mLayerID = [], ly_mVersion = [], ly_mPath = [],
        ly_mOSVersion = [], ly_mTimestamp = Time 0 0, ly_mState = False, ly_mSize = 0\<rparr>"
      and c = "demo_cert 1" and en' = demo_names, OF _ _ _ _ demo_names_ok demo_names_ok]]])
    (simp_all add: instance_clean_def service_clean_def layer_clean_def cert_clean_def demo_instance_def demo_cert_def no_nul_def)

end
