(* ===== verification/ClockSync.thy ===== *)
theory ClockSync
  imports Prelude
begin

text \<open>
  \<open>src/clocksync/clocksync.cpp\<close>: the thread that asks for the time, notes that a time
  arrived, and tells its subscribers when the clock becomes synchronised or stops being so.
  One round of the thread runs under the mutex from the end of its wait to the next wait and
  is one step; the calls of the other threads are the steps in between. The periods are
  configuration constants and parameters here.
\<close>

section \<open>State and operations\<close>

record 'sub ClockSync =
  ck_mSyncTime :: Time
  ck_mSync :: bool
  ck_mSynced :: bool
  ck_mStart :: bool
  ck_mStarted :: bool
  ck_mClose :: bool
  ck_mConnectionSubscribers :: "'sub list"

definition ClockSync_new :: "'sub ClockSync" where
  "ClockSync_new = \<lparr>ck_mSyncTime = Time 0 0, ck_mSync = False, ck_mSynced = False, ck_mStart = False,
     ck_mStarted = False, ck_mClose = False, ck_mConnectionSubscribers = []\<rparr>"

definition cMaxSubscribers :: nat where "cMaxSubscribers = 2"

text \<open>What the thread does to the outside: a notification of its subscribers, or a request.\<close>

datatype 'sub ck_event = CkNotify bool "'sub list" | CkRequest

definition ClockSyncNotification :: "'sub ClockSync \<Rightarrow> 'sub ck_event list" where
  "ClockSyncNotification ck = [CkNotify (ck_mSynced ck) (ck_mConnectionSubscribers ck)]"

definition ClockSync_Start :: "'sub ClockSync \<Rightarrow> 'sub ClockSync \<times> Error" where
  "ClockSync_Start ck = (ck\<lparr>ck_mStart := True\<rparr>, ENone)"

text \<open>\<open>Stop\<close> up to the join.\<close>

definition ClockSync_Stop :: "'sub ClockSync \<Rightarrow> 'sub ClockSync \<times> Error" where
  "ClockSync_Stop ck = (ck\<lparr>ck_mClose := True\<rparr>, ENone)"

text \<open>
  \<open>Sync\<close> on the real-time clock \<open>clock\<close>, whose setting returns \<open>settime\<close>.
\<close>

definition ClockSync_Sync :: "int \<Rightarrow> int \<Rightarrow> Time \<Rightarrow> Time \<times> 'sub ClockSync \<Rightarrow> (Time \<times> 'sub ClockSync) \<times> Error" where
  "ClockSync_Sync cMaxTimeDiff settime time s =
     (case s of (clock, ck) \<Rightarrow>
        if cMaxTimeDiff < \<bar>nanoseconds clock - nanoseconds time\<bar> then
          (if settime \<noteq> 0 then ((clock, ck), AOS_ERROR_WRAP (error_of_int settime))
           else ((time, ck\<lparr>ck_mSync := True\<rparr>), ENone))
        else ((clock, ck\<lparr>ck_mSync := True\<rparr>), ENone))"

definition ClockSync_Subscribe :: "'sub \<Rightarrow> 'sub ClockSync \<Rightarrow> 'sub ClockSync \<times> Error" where
  "ClockSync_Subscribe sub ck =
     (case PushBack cMaxSubscribers (ck_mConnectionSubscribers ck) sub of
        (subs, err) \<Rightarrow>
          if err \<noteq> ENone then (ck, AOS_ERROR_WRAP err)
          else (ck\<lparr>ck_mConnectionSubscribers := subs\<rparr>, ENone))"

definition ClockSync_Unsubscribe :: "'sub \<Rightarrow> 'sub ClockSync \<Rightarrow> 'sub ClockSync" where
  "ClockSync_Unsubscribe sub ck =
     ck\<lparr>ck_mConnectionSubscribers := filter (\<lambda>s. s \<noteq> sub) (ck_mConnectionSubscribers ck)\<rparr>"

text \<open>
  A round of the thread at the monotonic time \<open>now\<close>, after its wait ended, by a notification
  or by the period: no state when the thread ends, and the events. The result of a request
  only goes to the log.
\<close>

definition ClockSync_round ::
  "int \<Rightarrow> Time \<Rightarrow> 'sub ClockSync \<Rightarrow> 'sub ClockSync option \<times> 'sub ck_event list" where
  "ClockSync_round cSyncTimeout now ck0 =
     (if ck_mClose ck0 then (None, [])
      else
        (let ck1 = (if ck_mStart ck0 then ck0\<lparr>ck_mStart := False, ck_mStarted := True\<rparr> else ck0) in
         if ck_mSync ck1 then
           (let ck2 = ck1\<lparr>ck_mSync := False, ck_mSyncTime := now\<rparr> in
            if \<not> ck_mSynced ck2
            then (Some (ck2\<lparr>ck_mSynced := True\<rparr>), ClockSyncNotification (ck2\<lparr>ck_mSynced := True\<rparr>))
            else (Some ck2, []))
         else
           (let lost = ck_mSynced ck1 \<and> cSyncTimeout < \<bar>nanoseconds now - nanoseconds (ck_mSyncTime ck1)\<bar>;
                ck2 = (if lost then ck1\<lparr>ck_mSynced := False\<rparr> else ck1);
                notes = (if lost then ClockSyncNotification ck2 else [])
            in (Some ck2, notes @ (if ck_mStarted ck2 then [CkRequest] else [])))))"

lemmas ck_defs = ClockSync_round_def ClockSyncNotification_def ClockSync_Sync_def ClockSync_Start_def
  ClockSync_Stop_def ClockSync_Subscribe_def ClockSync_Unsubscribe_def

section \<open>Runs\<close>

text \<open>
  The system: the state (none once the thread ended), the real-time clock, the events, and
  the times of the rounds that took a synchronisation.
\<close>

record 'sub ck_sys =
  cy_state :: "'sub ClockSync option"
  cy_clock :: Time
  cy_events :: "'sub ck_event list"

inductive ck_reach :: "int \<Rightarrow> int \<Rightarrow> 'sub ck_sys \<Rightarrow> bool" for cSyncTimeout cMaxTimeDiff where
  init: "ck_reach cSyncTimeout cMaxTimeDiff \<lparr>cy_state = Some ClockSync_new, cy_clock = t, cy_events = []\<rparr>"
| start: "ck_reach cSyncTimeout cMaxTimeDiff s \<Longrightarrow> cy_state s = Some ck \<Longrightarrow>
    ck_reach cSyncTimeout cMaxTimeDiff (s\<lparr>cy_state := Some (fst (ClockSync_Start ck))\<rparr>)"
| stop: "ck_reach cSyncTimeout cMaxTimeDiff s \<Longrightarrow> cy_state s = Some ck \<Longrightarrow>
    ck_reach cSyncTimeout cMaxTimeDiff (s\<lparr>cy_state := Some (fst (ClockSync_Stop ck))\<rparr>)"
| sync: "ck_reach cSyncTimeout cMaxTimeDiff s \<Longrightarrow> cy_state s = Some ck \<Longrightarrow>
    ClockSync_Sync cMaxTimeDiff settime time (cy_clock s, ck) = ((clock, ck'), err) \<Longrightarrow>
    ck_reach cSyncTimeout cMaxTimeDiff (s\<lparr>cy_state := Some ck', cy_clock := clock\<rparr>)"
| subscribe: "ck_reach cSyncTimeout cMaxTimeDiff s \<Longrightarrow> cy_state s = Some ck \<Longrightarrow>
    ck_reach cSyncTimeout cMaxTimeDiff (s\<lparr>cy_state := Some (fst (ClockSync_Subscribe sub ck))\<rparr>)"
| unsubscribe: "ck_reach cSyncTimeout cMaxTimeDiff s \<Longrightarrow> cy_state s = Some ck \<Longrightarrow>
    ck_reach cSyncTimeout cMaxTimeDiff (s\<lparr>cy_state := Some (ClockSync_Unsubscribe sub ck)\<rparr>)"
| thread: "ck_reach cSyncTimeout cMaxTimeDiff s \<Longrightarrow> cy_state s = Some ck \<Longrightarrow>
    ClockSync_round cSyncTimeout now ck = (st, evs) \<Longrightarrow>
    ck_reach cSyncTimeout cMaxTimeDiff (s\<lparr>cy_state := st, cy_events := cy_events s @ evs\<rparr>)"

text \<open>The flags of the notifications, in order.\<close>

fun flags :: "'sub ck_event list \<Rightarrow> bool list" where
  "flags [] = []"
| "flags (CkNotify b subs # es) = b # flags es"
| "flags (CkRequest # es) = flags es"

lemma flags_append [simp]: "flags (es @ es') = flags es @ flags es'"
  by (induction es rule: flags.induct) auto

text \<open>Alternating flags that start with \<open>b\<close>.\<close>

fun alternates :: "bool \<Rightarrow> bool list \<Rightarrow> bool" where
  "alternates b [] \<longleftrightarrow> True"
| "alternates b (c # cs) \<longleftrightarrow> c = b \<and> alternates (\<not> b) cs"

fun ends_with :: "bool \<Rightarrow> bool list \<Rightarrow> bool" where
  "ends_with b [] = b"
| "ends_with b (c # cs) = ends_with c cs"

lemma alternates_snoc: "alternates b (cs @ [c]) \<longleftrightarrow> alternates b cs \<and> c \<noteq> ends_with (\<not> b) cs"
  by (induction cs arbitrary: b) auto

lemma ends_with_snoc [simp]: "ends_with b (cs @ [c]) = c"
  by (induction cs arbitrary: b) auto

definition ck_inv :: "'sub ck_sys \<Rightarrow> bool" where
  "ck_inv s \<longleftrightarrow> alternates True (flags (cy_events s)) \<and>
     (\<forall>ck. cy_state s = Some ck \<longrightarrow> ck_mSynced ck = ends_with False (flags (cy_events s)) \<and>
        length (ck_mConnectionSubscribers ck) \<le> cMaxSubscribers \<and>
        (CkRequest \<in> set (cy_events s) \<longrightarrow> ck_mStarted ck)) \<and>
     (\<forall>b subs. CkNotify b subs \<in> set (cy_events s) \<longrightarrow> length subs \<le> cMaxSubscribers)"

lemma round_inv:
  assumes "ck_inv s" "cy_state s = Some ck" "ClockSync_round cSyncTimeout now ck = (st, evs)"
  shows "ck_inv (s\<lparr>cy_state := st, cy_events := cy_events s @ evs\<rparr>)"
  using assms
  by (auto simp: ck_inv_def ck_defs Let_def alternates_snoc split: if_splits)

lemma subscribe_inv:
  "ck_inv s \<Longrightarrow> cy_state s = Some ck \<Longrightarrow> ck_inv (s\<lparr>cy_state := Some (fst (ClockSync_Subscribe sub ck))\<rparr>)"
  by (auto simp: ck_inv_def ClockSync_Subscribe_def PushBack_def)

lemma ck_reach_inv: "ck_reach cSyncTimeout cMaxTimeDiff s \<Longrightarrow> ck_inv s"
proof (induction rule: ck_reach.induct)
  case (unsubscribe s ck sub)
  then show ?case
    by (auto simp: ck_inv_def ClockSync_Unsubscribe_def intro: le_trans [OF length_filter_le])
next
  case (sync s ck settime time clock ck' err)
  then show ?case by (auto simp: ck_inv_def ClockSync_Sync_def split: if_splits)
next
  case (subscribe s ck sub)
  then show ?case by (simp add: subscribe_inv)
next
  case (thread s ck now st evs)
  then show ?case by (simp add: round_inv)
qed (auto simp: ck_inv_def ClockSync_new_def ClockSync_Start_def ClockSync_Stop_def)

section \<open>Properties\<close>

text \<open>Subscribers see an alternating story: in every reachable state the notifications so far
  alternate between synchronised and not, beginning with synchronised, the thread's flag is
  the last one told, no notification goes to more than two subscribers, and requests are
  sent only after a start was taken.\<close>

theorem clock_notifications_alternate:
  assumes "ck_reach cSyncTimeout cMaxTimeDiff s"
  shows "alternates True (flags (cy_events s)) \<and>
    (\<forall>ck. cy_state s = Some ck \<longrightarrow> ck_mSynced ck = ends_with False (flags (cy_events s)) \<and>
      (CkRequest \<in> set (cy_events s) \<longrightarrow> ck_mStarted ck)) \<and>
    (\<forall>b subs. CkNotify b subs \<in> set (cy_events s) \<longrightarrow> length subs \<le> 2)"
  using ck_reach_inv [OF assms] by (simp add: ck_inv_def cMaxSubscribers_def)

definition demo_synced :: "nat ck_sys" where
  "demo_synced =
     \<lparr>cy_state = fst (ClockSync_round 10 (Time 7 0) (fst (ClockSync_Subscribe 1 (ClockSync_new\<lparr>ck_mSync := True\<rparr>)))),
      cy_clock = Time 100 0,
      cy_events = snd (ClockSync_round 10 (Time 7 0) (fst (ClockSync_Subscribe 1 (ClockSync_new\<lparr>ck_mSync := True\<rparr>))))\<rparr>"

lemma demo_synced_reach: "ck_reach 10 5 demo_synced"
proof -
  let ?s0 = "\<lparr>cy_state = Some ClockSync_new, cy_clock = Time 100 0, cy_events = []\<rparr> :: nat ck_sys"
  have "ck_reach 10 5 (?s0\<lparr>cy_state := Some (ClockSync_new\<lparr>ck_mSync := True\<rparr>), cy_clock := Time 100 0\<rparr>)"
    by (rule ck_reach.sync [OF ck_reach.init, where settime = 0 and time = "Time 100 0" and err = ENone])
      (simp_all add: ClockSync_Sync_def)
  note r1 = this
  have "ck_reach 10 5 (?s0\<lparr>cy_state := Some (fst (ClockSync_Subscribe 1 (ClockSync_new\<lparr>ck_mSync := True\<rparr>)))\<rparr>)"
    using ck_reach.subscribe [OF r1, of "ClockSync_new\<lparr>ck_mSync := True\<rparr>" 1] by simp
  from ck_reach.thread [OF this _ surjective_pairing, of "fst (ClockSync_Subscribe 1 (ClockSync_new\<lparr>ck_mSync := True\<rparr>))" "Time 7 0"]
  show ?thesis by (simp add: demo_synced_def)
qed

lemma clock_notifications_alternate_witness:
  "cy_events demo_synced = [CkNotify True [1]] \<and> alternates True (flags (cy_events demo_synced))"
  using clock_notifications_alternate [OF demo_synced_reach]
  by (simp add: demo_synced_def ck_defs ClockSync_new_def PushBack_def cMaxSubscribers_def)

text \<open>The clock and its state are right: a successful \<open>Sync\<close> leaves the real-time clock within
  \<open>cMaxTimeDiff\<close> of the given time and wakes the thread, a failing one changes nothing; the
  thread tells that the clock is synchronised only when such a time arrived, and that it no
  longer is only when it was, none is waiting, and more than \<open>cSyncTimeout\<close> has passed
  since the last one was taken.\<close>

theorem clock_sync_correct:
  assumes "0 \<le> cMaxTimeDiff"
    and "ClockSync_Sync cMaxTimeDiff settime time (clock, ck) = ((clock', ck'), err)"
    and "ClockSync_round cSyncTimeout now ck1 = (st, evs)"
  shows "(if err = ENone then \<bar>nanoseconds clock' - nanoseconds time\<bar> \<le> cMaxTimeDiff \<and> ck' = ck\<lparr>ck_mSync := True\<rparr>
      else clock' = clock \<and> ck' = ck) \<and>
    (\<forall>subs. CkNotify True subs \<in> set evs \<longrightarrow>
      ck_mSync ck1 \<and> \<not> ck_mSynced ck1 \<and> subs = ck_mConnectionSubscribers ck1) \<and>
    (\<forall>subs. CkNotify False subs \<in> set evs \<longrightarrow> ck_mSynced ck1 \<and> \<not> ck_mSync ck1 \<and>
      cSyncTimeout < \<bar>nanoseconds now - nanoseconds (ck_mSyncTime ck1)\<bar> \<and> subs = ck_mConnectionSubscribers ck1)"
  using assms by (auto simp: ck_defs Let_def split: if_splits)

lemma clock_sync_correct_witness:
  "\<bar>nanoseconds (Time 60 0) - nanoseconds (Time 60 0)\<bar> \<le> (5::int) \<and>
   snd (ClockSync_round 10 (Time 9 0) (ClockSync_new\<lparr>ck_mSynced := True, ck_mConnectionSubscribers := [1::nat]\<rparr>)) =
     [CkNotify False [1]] \<and> 10 < \<bar>nanoseconds (Time 9 0) - nanoseconds (Time 0 0)\<bar>"
proof -
  let ?ck = "ClockSync_new\<lparr>ck_mSynced := True, ck_mConnectionSubscribers := [1::nat]\<rparr>"
  have s: "ClockSync_Sync 5 0 (Time 60 0) (Time 10 0, ?ck) = ((Time 60 0, ?ck\<lparr>ck_mSync := True\<rparr>), ENone)"
    by (simp add: ClockSync_Sync_def nanoseconds_def)
  have r: "ClockSync_round 10 (Time 9 0) ?ck = (Some (?ck\<lparr>ck_mSynced := False\<rparr>), [CkNotify False [1]])"
    by (simp add: ck_defs ClockSync_new_def nanoseconds_def Let_def)
  from clock_sync_correct [OF _ s r] r show ?thesis by (simp add: ClockSync_new_def)
qed

end
