(* ===== verification/NodeInfoProvider.thy ===== *)
theory NodeInfoProvider
  imports Prelude
begin

text \<open>
  \<open>src/nodeinfoprovider/nodeinfoprovider.cpp\<close>: the node's identity, its status kept in a file,
  and the observers of the status. The library's string files are two parameters on a world
  \<open>'w\<close>; observers are functions of the notification.
\<close>

section \<open>Interfaces\<close>

text \<open>\<open>fs::ReadFileToString\<close> and \<open>fs::WriteStringToFile\<close>.\<close>

record 'w file_ops =
  fo_read :: "'w \<Rightarrow> string \<Rightarrow> Error + string"
  fo_write :: "'w \<Rightarrow> string \<Rightarrow> string \<Rightarrow> Error \<times> 'w"

text \<open>A write that succeeds is what later reads of the file return; other files do not change.\<close>

definition files_ok :: "'w file_ops \<Rightarrow> bool" where
  "files_ok fo \<longleftrightarrow> (\<forall>w p s err w'. fo_write fo w p s = (err, w') \<longrightarrow>
     (err = ENone \<longrightarrow> fo_read fo w' p = Inr s) \<and> (\<forall>q. q \<noteq> p \<longrightarrow> fo_read fo w' q = fo_read fo w q))"

text \<open>The library's node states with their names.\<close>

datatype NodeStatus = eUnprovisioned | eProvisioned | ePaused

record status_names =
  ns_ToString :: "NodeStatus \<Rightarrow> string"
  ns_FromString :: "string \<Rightarrow> NodeStatus option"

definition status_names_ok :: "status_names \<Rightarrow> bool" where
  "status_names_ok sn \<longleftrightarrow> (\<forall>s. ns_ToString sn s \<noteq> [] \<and> ns_FromString sn (ns_ToString sn s) = Some s)"

section \<open>State\<close>

record PartitionInfo =
  pi_mName :: string
  pi_mPath :: string
  pi_mTypes :: "string list"
  pi_mTotalSize :: u64

record CPUInfo =
  cp_mModelName :: string
  cp_mNumCores :: u64
  cp_mNumThreads :: u64
  cp_mArch :: string
  cp_mArchFamily :: "string option"
  cp_mMaxDMIPS :: "u64 option"

definition CPUInfo_default :: CPUInfo where
  "CPUInfo_default = \<lparr>cp_mModelName = [], cp_mNumCores = 0, cp_mNumThreads = 0, cp_mArch = [],
     cp_mArchFamily = None, cp_mMaxDMIPS = None\<rparr>"

record NodeInfo =
  ni_mNodeID :: string
  ni_mNodeType :: string
  ni_mName :: string
  ni_mStatus :: NodeStatus
  ni_mOSType :: string
  ni_mCPUs :: "CPUInfo list"
  ni_mTotalRAM :: u64
  ni_mMaxDMIPS :: u64
  ni_mAttrs :: "(string \<times> string) list"
  ni_mPartitions :: "PartitionInfo list"

text \<open>The build's constants, and the library's array capacities.\<close>

record node_config =
  nc_cNodeName :: string
  nc_cNodeType :: string
  nc_cMaxDMIPS :: u64
  nc_cNodeIDFile :: string
  nc_cNodeStatusFile :: string
  nc_cDiskPartitionPoint :: string
  nc_cMaxAttrs :: nat
  nc_cMaxPartitions :: nat
  nc_cMaxCPUs :: nat

definition cMaxNodeStatusSubscribers :: nat where "cMaxNodeStatusSubscribers = 4"

record 'o NodeInfoProvider =
  np_mNodeInfo :: NodeInfo
  np_mStatusChangedSubscribers :: "('o \<times> bool) list"

section \<open>Status file\<close>

definition StoreNodeStatus :: "'w file_ops \<Rightarrow> status_names \<Rightarrow> node_config \<Rightarrow> NodeStatus \<Rightarrow> 'w \<Rightarrow> Error \<times> 'w" where
  "StoreNodeStatus fo sn nc status w =
     (case fo_write fo w (nc_cNodeStatusFile nc) (ns_ToString sn status) of
        (err, w') \<Rightarrow> if err \<noteq> ENone then (AOS_ERROR_WRAP err, w') else (ENone, w'))"

definition ReadNodeStatus :: "'w file_ops \<Rightarrow> status_names \<Rightarrow> node_config \<Rightarrow> 'w \<Rightarrow> NodeStatus \<times> Error" where
  "ReadNodeStatus fo sn nc w =
     (case fo_read fo w (nc_cNodeStatusFile nc) of
        Inl err \<Rightarrow>
          if err = EErrno (- ENOENT) then (eUnprovisioned, ENone) else (eUnprovisioned, AOS_ERROR_WRAP err)
      | Inr statusStr \<Rightarrow>
          if statusStr = [] then (eUnprovisioned, AOS_ERROR_WRAP (EEnum eFailed))
          else (case ns_FromString sn statusStr of
            None \<Rightarrow> (eUnprovisioned, AOS_ERROR_WRAP (ELib ''FromString''))
          | Some status \<Rightarrow> (status, ENone)))"

section \<open>Initialisation\<close>

text \<open>\<open>Trim\<close> drops the given characters at both ends.\<close>

definition Trim :: "char list \<Rightarrow> string \<Rightarrow> string" where
  "Trim cs s = rev (dropWhile (\<lambda>c. c \<in> set cs) (rev (dropWhile (\<lambda>c. c \<in> set cs) s)))"

text \<open>\<open>uuid\<close> is the result of \<open>CreateUUIDv4\<close>, as a string.\<close>

definition InitNodeID ::
  "'w file_ops \<Rightarrow> node_config \<Rightarrow> string \<times> Error \<Rightarrow> 'o NodeInfoProvider \<Rightarrow> 'w \<Rightarrow> Error \<times> 'o NodeInfoProvider \<times> 'w" where
  "InitNodeID fo nc uuid np w =
     (let setID = (\<lambda>s. np\<lparr>np_mNodeInfo := (np_mNodeInfo np)\<lparr>ni_mNodeID := s\<rparr>\<rparr>);
          generate = (\<lambda>np'. case uuid of (uuidStr, err) \<Rightarrow>
            if err \<noteq> ENone then (AOS_ERROR_WRAP err, np', w)
            else (case fo_write fo w (nc_cNodeIDFile nc) uuidStr of
              (err, w') \<Rightarrow>
                if err \<noteq> ENone then (AOS_ERROR_WRAP err, np', w') else (ENone, setID uuidStr, w')))
      in (case fo_read fo w (nc_cNodeIDFile nc) of
            Inl err \<Rightarrow> generate np
          | Inr s \<Rightarrow> if s = [] then generate (setID s) else (ENone, setID (Trim [CHR 0x0D, CHR 0x0A] s), w)))"

definition cAttrAosComponents :: string where "cAttrAosComponents = ''AosComponents''"
definition cAttrNodeRunners :: string where "cAttrNodeRunners = ''NodeRunners''"

definition InitAttributes :: "node_config \<Rightarrow> 'o NodeInfoProvider \<Rightarrow> Error \<times> 'o NodeInfoProvider" where
  "InitAttributes nc np =
     (let ni = np_mNodeInfo np in
      case PushBack (nc_cMaxAttrs nc) (ni_mAttrs ni) (cAttrAosComponents, ''iam,sm'') of
        (attrs, err) \<Rightarrow>
          if err \<noteq> ENone then (err, np)
          else (case PushBack (nc_cMaxAttrs nc) attrs (cAttrNodeRunners, ''xrun'') of
            (attrs', err) \<Rightarrow>
              (err, np\<lparr>np_mNodeInfo := ni\<lparr>ni_mAttrs := attrs'\<rparr>\<rparr>)))"

text \<open>\<open>statvfs\<close> of a path: the code, the fragment size and the number of blocks.\<close>

fun stat_partitions ::
  "(string \<Rightarrow> int \<times> u64 \<times> u64) \<Rightarrow> PartitionInfo list \<Rightarrow> PartitionInfo list \<times> Error" where
  "stat_partitions statvfs [] = ([], ENone)"
| "stat_partitions statvfs (p # ps) =
     (case statvfs (pi_mPath p) of
        (ret, frsize, blocks) \<Rightarrow>
          if ret \<noteq> 0 then (p # ps, error_of_int ret)
          else (case stat_partitions statvfs ps of
            (ps', err) \<Rightarrow> (p\<lparr>pi_mTotalSize := frsize * blocks\<rparr> # ps', err)))"

definition InitPartitionInfo ::
  "node_config \<Rightarrow> (string \<Rightarrow> int \<times> u64 \<times> u64) \<Rightarrow> 'o NodeInfoProvider \<Rightarrow> Error \<times> 'o NodeInfoProvider" where
  "InitPartitionInfo nc statvfs np =
     (let ni = np_mNodeInfo np;
          part = \<lparr>pi_mName = ''aos'', pi_mPath = nc_cDiskPartitionPoint nc,
                  pi_mTypes = [''services'', ''layers''], pi_mTotalSize = 0\<rparr>
      in (case PushBack (nc_cMaxPartitions nc) (ni_mPartitions ni) part of
            (parts, err) \<Rightarrow>
              if err \<noteq> ENone then (err, np)
              else (case stat_partitions statvfs parts of
                (parts', err) \<Rightarrow> (err, np\<lparr>np_mNodeInfo := ni\<lparr>ni_mPartitions := parts'\<rparr>\<rparr>))))"

text \<open>\<open>xstat\<close> is the code of \<open>xstat_getstat\<close> and the total memory it reports.\<close>

definition NodeInfoProvider_Init ::
  "'w file_ops \<Rightarrow> status_names \<Rightarrow> node_config \<Rightarrow> string \<times> Error \<Rightarrow> int \<times> u64 \<Rightarrow>
   (string \<Rightarrow> int \<times> u64 \<times> u64) \<Rightarrow> 'o NodeInfoProvider \<Rightarrow> 'w \<Rightarrow> Error \<times> 'o NodeInfoProvider \<times> 'w" where
  "NodeInfoProvider_Init fo sn nc uuid xstat statvfs np w =
     (case InitNodeID fo nc uuid np w of
        (err, np1, w1) \<Rightarrow>
          if err \<noteq> ENone \<and> err \<noteq> EEnum eNotSupported then (AOS_ERROR_WRAP err, np1, w1)
          else if fst xstat \<noteq> 0 then (AOS_ERROR_WRAP (error_of_int (fst xstat)), np1, w1)
          else
            (let ni = (np_mNodeInfo np1)\<lparr>ni_mName := nc_cNodeName nc, ni_mTotalRAM := snd xstat,
                   ni_mNodeType := nc_cNodeType nc, ni_mMaxDMIPS := nc_cMaxDMIPS nc,
                   ni_mCPUs := fst (PushBack (nc_cMaxCPUs nc) (ni_mCPUs (np_mNodeInfo np1)) CPUInfo_default)\<rparr>
             in (case ReadNodeStatus fo sn nc w1 of
               (status, err) \<Rightarrow>
                 (let np2 = np1\<lparr>np_mNodeInfo := ni\<lparr>ni_mStatus := status\<rparr>\<rparr> in
                  if err \<noteq> ENone then (AOS_ERROR_WRAP err, np2, w1)
                  else (case InitAttributes nc np2 of
                    (err, np3) \<Rightarrow>
                      if err \<noteq> ENone then (AOS_ERROR_WRAP err, np3, w1)
                      else (case InitPartitionInfo nc statvfs np3 of
                        (err, np4) \<Rightarrow>
                          if err \<noteq> ENone then (AOS_ERROR_WRAP err, np4, w1) else (ENone, np4, w1)))))))"

section \<open>Operations\<close>

definition GetNodeInfo :: "'o NodeInfoProvider \<Rightarrow> NodeInfo \<times> Error" where
  "GetNodeInfo np = (np_mNodeInfo np, ENone)"

text \<open>
  The observers, called in the order of the map until one fails. \<open>obs\<close> is what an observer
  returns; the result lists the observers that were called.
\<close>

fun notify_observers :: "('o \<Rightarrow> Error) \<Rightarrow> ('o \<times> bool) list \<Rightarrow> 'o list \<times> Error" where
  "notify_observers obs [] = ([], ENone)"
| "notify_observers obs ((ob, b) # os) =
     (if obs ob \<noteq> ENone then ([ob], AOS_ERROR_WRAP (obs ob))
      else (case notify_observers obs os of (called, err) \<Rightarrow> (ob # called, err)))"

definition NotifyNodeStatusChanged ::
  "('o \<Rightarrow> string \<Rightarrow> NodeStatus \<Rightarrow> Error) \<Rightarrow> NodeStatus \<Rightarrow> 'o NodeInfoProvider \<Rightarrow> 'o list \<times> Error" where
  "NotifyNodeStatusChanged obs status np =
     notify_observers (\<lambda>ob. obs ob (ni_mNodeID (np_mNodeInfo np)) status) (np_mStatusChangedSubscribers np)"

definition SetNodeStatus ::
  "'w file_ops \<Rightarrow> status_names \<Rightarrow> node_config \<Rightarrow> ('o \<Rightarrow> string \<Rightarrow> NodeStatus \<Rightarrow> Error) \<Rightarrow> NodeStatus \<Rightarrow>
   'o NodeInfoProvider \<Rightarrow> 'w \<Rightarrow> Error \<times> 'o list \<times> 'o NodeInfoProvider \<times> 'w" where
  "SetNodeStatus fo sn nc obs status np w =
     (if status = ni_mStatus (np_mNodeInfo np) then (ENone, [], np, w)
      else (case StoreNodeStatus fo sn nc status w of
        (err, w') \<Rightarrow>
          if err \<noteq> ENone then (AOS_ERROR_WRAP err, [], np, w')
          else
            (let np' = np\<lparr>np_mNodeInfo := (np_mNodeInfo np)\<lparr>ni_mStatus := status\<rparr>\<rparr>
             in (case NotifyNodeStatusChanged obs status np' of
                   (called, err) \<Rightarrow>
                     if err \<noteq> ENone then (AOS_ERROR_WRAP err, called, np', w') else (ENone, called, np', w')))))"

definition SubscribeNodeStatusChanged :: "'o \<Rightarrow> 'o NodeInfoProvider \<Rightarrow> Error \<times> 'o NodeInfoProvider" where
  "SubscribeNodeStatusChanged ob np =
     (case map_Set cMaxNodeStatusSubscribers ob True (np_mStatusChangedSubscribers np) of
        (m, err) \<Rightarrow>
          if err \<noteq> ENone then (AOS_ERROR_WRAP err, np) else (ENone, np\<lparr>np_mStatusChangedSubscribers := m\<rparr>))"

definition UnsubscribeNodeStatusChanged :: "'o \<Rightarrow> 'o NodeInfoProvider \<Rightarrow> Error \<times> 'o NodeInfoProvider" where
  "UnsubscribeNodeStatusChanged ob np =
     (case map_Remove ob (np_mStatusChangedSubscribers np) of
        (m, err) \<Rightarrow>
          if err \<noteq> ENone then (AOS_ERROR_WRAP err, np) else (ENone, np\<lparr>np_mStatusChangedSubscribers := m\<rparr>))"

section \<open>Lemmas\<close>

lemma notify_observers_called:
  "notify_observers obs os = (called, err) \<Longrightarrow> called = takeWhile (\<lambda>ob. obs ob = ENone) (map fst os) @
     take 1 (dropWhile (\<lambda>ob. obs ob = ENone) (map fst os)) \<and>
   (err = ENone \<longleftrightarrow> list_all (\<lambda>ob. obs ob = ENone) (map fst os))"
  by (induction os arbitrary: called rule: list.induct) (auto split: prod.splits if_splits)

lemma StoreNodeStatus_read:
  assumes "files_ok fo" "status_names_ok sn" "StoreNodeStatus fo sn nc status w = (ENone, w')"
  shows "ReadNodeStatus fo sn nc w' = (status, ENone)"
proof -
  have "fo_read fo w' (nc_cNodeStatusFile nc) = Inr (ns_ToString sn status)"
    using assms(1,3) by (auto simp: StoreNodeStatus_def files_ok_def split: prod.splits if_splits)
  with assms(2) show ?thesis by (simp add: ReadNodeStatus_def status_names_ok_def)
qed

section \<open>Properties\<close>

text \<open>A status change is durable before it is told: \<open>SetNodeStatus\<close> with the current status
  does nothing; with another one it either fails to store it, then the status is the old one
  and nobody is notified, or the status file holds it, the node reports it, and the
  observers are called in order up to the first that fails, whose failure is reported.\<close>

theorem set_node_status_effect:
  assumes "files_ok fo" "status_names_ok sn"
    and "SetNodeStatus fo sn nc obs status np w = (err, called, np', w')"
  shows "if status = ni_mStatus (np_mNodeInfo np) then err = ENone \<and> called = [] \<and> np' = np \<and> w' = w
    else err \<noteq> ENone \<and> called = [] \<and> np' = np \<or>
      ni_mStatus (np_mNodeInfo np') = status \<and> ReadNodeStatus fo sn nc w' = (status, ENone) \<and>
      (let subs = map fst (np_mStatusChangedSubscribers np);
           good = (\<lambda>ob. obs ob (ni_mNodeID (np_mNodeInfo np)) status = ENone)
       in called = takeWhile good subs @ take 1 (dropWhile good subs) \<and> (err = ENone \<longleftrightarrow> (\<forall>ob\<in>set subs. good ob)))"
proof (cases "status = ni_mStatus (np_mNodeInfo np)")
  case True
  with assms(3) show ?thesis by (simp add: SetNodeStatus_def)
next
  case False
  obtain e w1 where st: "StoreNodeStatus fo sn nc status w = (e, w1)" by fastforce
  show ?thesis
  proof (cases "e = ENone")
    case True
    let ?np = "np\<lparr>np_mNodeInfo := (np_mNodeInfo np)\<lparr>ni_mStatus := status\<rparr>\<rparr>"
    let ?obs = "\<lambda>ob. obs ob (ni_mNodeID (np_mNodeInfo np)) status"
    obtain called' e' where n: "notify_observers ?obs (np_mStatusChangedSubscribers np) = (called', e')" by fastforce
    have "called = called'" "err = e'" "np' = ?np" "w' = w1"
      using assms(3) False st True n
      by (auto simp: SetNodeStatus_def NotifyNodeStatusChanged_def Let_def split: if_splits)
    with notify_observers_called [OF n] StoreNodeStatus_read [OF assms(1,2) st [unfolded True]] False
    show ?thesis by (simp add: Let_def list_all_iff)
  next
    case e: False
    with False st assms(3) show ?thesis by (auto simp: SetNodeStatus_def)
  qed
qed

definition demo_files :: "(string \<rightharpoonup> string) file_ops" where
  "demo_files = \<lparr>fo_read = (\<lambda>w p. case w p of None \<Rightarrow> Inl (EErrno (- ENOENT)) | Some s \<Rightarrow> Inr s),
     fo_write = (\<lambda>w p s. (ENone, w(p \<mapsto> s)))\<rparr>"

lemma demo_files_ok: "files_ok demo_files"
  by (simp add: files_ok_def demo_files_def)

definition demo_status_names :: status_names where
  "demo_status_names = \<lparr>ns_ToString = (\<lambda>s. case s of eUnprovisioned \<Rightarrow> ''unprovisioned'' | eProvisioned \<Rightarrow> ''provisioned''
       | ePaused \<Rightarrow> ''paused''),
     ns_FromString = (\<lambda>s. if s = ''unprovisioned'' then Some eUnprovisioned else if s = ''provisioned'' then Some eProvisioned
       else if s = ''paused'' then Some ePaused else None)\<rparr>"

lemma demo_status_names_ok: "status_names_ok demo_status_names"
  by (auto simp: status_names_ok_def demo_status_names_def split: NodeStatus.split)

definition demo_nc :: node_config where
  "demo_nc = \<lparr>nc_cNodeName = ''n'', nc_cNodeType = ''t'', nc_cMaxDMIPS = 1000, nc_cNodeIDFile = ''/id'',
     nc_cNodeStatusFile = ''/status'', nc_cDiskPartitionPoint = ''/disk'', nc_cMaxAttrs = 4, nc_cMaxPartitions = 2, nc_cMaxCPUs = 2\<rparr>"

definition demo_np :: "nat NodeInfoProvider" where
  "demo_np = \<lparr>np_mNodeInfo = \<lparr>ni_mNodeID = ''node'', ni_mNodeType = ''t'', ni_mName = ''n'', ni_mStatus = eUnprovisioned,
     ni_mOSType = ''zephyr'', ni_mCPUs = [], ni_mTotalRAM = 0, ni_mMaxDMIPS = 0, ni_mAttrs = [], ni_mPartitions = []\<rparr>,
     np_mStatusChangedSubscribers = [(1, True), (2, True), (3, True)]\<rparr>"

text \<open>The second of three observers fails.\<close>

definition demo_obs :: "nat \<Rightarrow> string \<Rightarrow> NodeStatus \<Rightarrow> Error" where
  "demo_obs ob n s = (if ob = 2 then EEnum eFailed else ENone)"

lemma set_node_status_effect_witness:
  "fst (snd (SetNodeStatus demo_files demo_status_names demo_nc demo_obs eProvisioned demo_np Map.empty)) = [1, 2] \<and>
   ReadNodeStatus demo_files demo_status_names demo_nc
     (snd (snd (snd (SetNodeStatus demo_files demo_status_names demo_nc demo_obs eProvisioned demo_np Map.empty)))) =
     (eProvisioned, ENone)"
proof -
  obtain err called np' w' where s: "SetNodeStatus demo_files demo_status_names demo_nc demo_obs eProvisioned demo_np Map.empty
      = (err, called, np', w')" by (metis prod.exhaust)
  then have "called \<noteq> []"
    by (auto simp: SetNodeStatus_def StoreNodeStatus_def demo_files_def demo_np_def demo_obs_def NotifyNodeStatusChanged_def Let_def
        split: if_splits)
  with set_node_status_effect [OF demo_files_ok demo_status_names_ok s] s show ?thesis
    by (simp add: demo_np_def demo_obs_def Let_def split: if_splits)
qed

text \<open>A failed notification is not made up for: when an observer fails, \<open>SetNodeStatus\<close> reports
  the error after the status was changed, the observers behind it are not called, and
  repeating the call reports success without calling anybody.\<close>

theorem set_node_status_retry_silent:
  assumes "status \<noteq> ni_mStatus (np_mNodeInfo np)"
    and "np_mStatusChangedSubscribers np = before @ (ob, b) # after"
    and "\<forall>p\<in>set before. obs (fst p) (ni_mNodeID (np_mNodeInfo np)) status = ENone"
    and "obs ob (ni_mNodeID (np_mNodeInfo np)) status \<noteq> ENone"
    and "StoreNodeStatus fo sn nc status w = (ENone, w1)"
  shows "\<exists>err np'. SetNodeStatus fo sn nc obs status np w = (err, map fst before @ [ob], np', w1) \<and> err \<noteq> ENone \<and>
    SetNodeStatus fo sn nc obs' status np' w1 = (ENone, [], np', w1)"
proof -
  let ?obs = "\<lambda>ob. obs ob (ni_mNodeID (np_mNodeInfo np)) status"
  have "notify_observers ?obs (before @ (ob, b) # after) = (map fst before @ [ob], ?obs ob)"
    using assms(3,4) by (induction before) auto
  with assms(1,2,4,5) show ?thesis
    by (simp add: SetNodeStatus_def NotifyNodeStatusChanged_def Let_def)
qed

lemma set_node_status_retry_silent_witness:
  "\<exists>err np'. SetNodeStatus demo_files demo_status_names demo_nc demo_obs eProvisioned demo_np Map.empty =
     (err, [1, 2], np', [''/status'' \<mapsto> ''provisioned'']) \<and> err \<noteq> ENone \<and>
     SetNodeStatus demo_files demo_status_names demo_nc demo_obs eProvisioned np' [''/status'' \<mapsto> ''provisioned''] =
       (ENone, [], np', [''/status'' \<mapsto> ''provisioned''])"
  using set_node_status_retry_silent [of eProvisioned demo_np "[(1, True)]" 2 True "[(3, True)]" demo_obs
      demo_files demo_status_names demo_nc Map.empty "[''/status'' \<mapsto> ''provisioned'']" demo_obs]
  by (simp add: demo_np_def demo_obs_def StoreNodeStatus_def demo_files_def demo_status_names_def demo_nc_def)

text \<open>The node keeps its identity: once \<open>InitNodeID\<close> has succeeded, every later start reads the
  same identifier, whatever a new random identifier would have been, and leaves the file as
  it is.\<close>

theorem node_id_stable:
  assumes "files_ok fo" "InitNodeID fo nc uuid np w = (ENone, np1, w1)"
    and "fst uuid \<noteq> []" "Trim [CHR 0x0D, CHR 0x0A] (fst uuid) = fst uuid"
  shows "\<exists>np3. InitNodeID fo nc uuid' np2 w1 = (ENone, np3, w1) \<and>
    ni_mNodeID (np_mNodeInfo np3) = ni_mNodeID (np_mNodeInfo np1)"
proof -
  have gen: "\<exists>np3. InitNodeID fo nc uuid' np2 w1 = (ENone, np3, w1) \<and> ni_mNodeID (np_mNodeInfo np3) = fst uuid"
    if "fo_write fo w (nc_cNodeIDFile nc) (fst uuid) = (ENone, w1)"
    using that assms(1,3,4) by (auto simp: InitNodeID_def files_ok_def Let_def)
  show ?thesis
  proof (cases "fo_read fo w (nc_cNodeIDFile nc)")
    case (Inl e)
    with assms(2) gen show ?thesis
      by (cases uuid) (auto simp: InitNodeID_def Let_def split: prod.splits if_splits)
  next
    case (Inr s)
    with assms(2) gen show ?thesis
      by (cases uuid) (auto simp: InitNodeID_def Let_def split: prod.splits if_splits)
  qed
qed

lemma node_id_stable_witness:
  "\<exists>np3. InitNodeID demo_files demo_nc (''other'', ENone) demo_np [''/id'' \<mapsto> ''abc''] = (ENone, np3, [''/id'' \<mapsto> ''abc'']) \<and>
     ni_mNodeID (np_mNodeInfo np3) = ''abc''"
  using node_id_stable [OF demo_files_ok, of demo_nc "(''abc'', ENone)" demo_np Map.empty _ "[''/id'' \<mapsto> ''abc'']" "(''other'', ENone)" demo_np]
  by (simp add: InitNodeID_def demo_files_def demo_nc_def Trim_def Let_def)

end
