(* ===== verification/PbConvert.thy ===== *)
theory PbConvert
  imports Storage
begin

text \<open>
  \<open>src/utils/pbconvert.hpp\<close>: conversions between the library's types and protobuf structures.
  The numeric value and the errno of an error are library functions and parameters. Messages
  are free text and left out. A protobuf string is a C array into which the value fits.
\<close>

record pb_ErrorInfo =
  pe_aos_code :: int
  pe_exit_code :: int

record error_codes =
  er_Value :: "Error \<Rightarrow> int"
  er_Errno :: "Error \<Rightarrow> int"
  er_enum :: "int \<Rightarrow> Error"

text \<open>
  The library's contract: only the absence of an error has neither value nor errno, and an
  error made from a value or an errno is not none.
\<close>

definition error_codes_ok :: "error_codes \<Rightarrow> bool" where
  "error_codes_ok ec \<longleftrightarrow> er_Value ec ENone = 0 \<and> er_Errno ec ENone = 0 \<and>
     (\<forall>e. e \<noteq> ENone \<longrightarrow> er_Value ec e \<noteq> 0 \<or> er_Errno ec e \<noteq> 0) \<and> (\<forall>v. v \<noteq> 0 \<longrightarrow> er_enum ec v \<noteq> ENone)"

definition ErrorToPB :: "error_codes \<Rightarrow> Error \<Rightarrow> pb_ErrorInfo" where
  "ErrorToPB ec e = \<lparr>pe_aos_code = er_Value ec e, pe_exit_code = er_Errno ec e\<rparr>"

definition PBToError :: "error_codes \<Rightarrow> pb_ErrorInfo \<Rightarrow> Error" where
  "PBToError ec info =
     (if pe_aos_code info \<noteq> 0 then er_enum ec (pe_aos_code info)
      else if pe_exit_code info \<noteq> 0 then error_of_int (pe_exit_code info)
      else ENone)"

text \<open>
  \<open>PBToEnum\<close>: an unknown name fails an assertion; where assertions are compiled out the
  target keeps its value.
\<close>

definition PBToEnum :: "(string \<Rightarrow> 'e option) \<Rightarrow> string \<Rightarrow> 'e \<Rightarrow> 'e" where
  "PBToEnum from_string src dst = (case from_string (cstr src) of None \<Rightarrow> dst | Some v \<Rightarrow> v)"

text \<open>A protobuf byte field: the array and the number of used bytes.\<close>

record pb_bytes =
  by_bytes :: "byte list"
  by_size :: nat

definition ByteArrayToPB :: "nat \<Rightarrow> byte list \<Rightarrow> pb_bytes" where
  "ByteArrayToPB cap src = \<lparr>by_bytes = src @ replicate (cap - length src) 0, by_size = length src\<rparr>"

definition PBToByteArray :: "pb_bytes \<Rightarrow> byte list" where
  "PBToByteArray src = take (if length (by_bytes src) < by_size src then length (by_bytes src) else by_size src) (by_bytes src)"

record pb_InstanceIdent =
  pid_service_id :: string
  pid_subject_id :: string
  pid_instance :: u64

definition InstanceIdentToPB :: "InstanceIdent \<Rightarrow> pb_InstanceIdent" where
  "InstanceIdentToPB i = \<lparr>pid_service_id = ii_mServiceID i, pid_subject_id = ii_mSubjectID i, pid_instance = ii_mInstance i\<rparr>"

definition PBToInstanceIdent :: "pb_InstanceIdent \<Rightarrow> InstanceIdent" where
  "PBToInstanceIdent p =
     \<lparr>ii_mServiceID = cstr (pid_service_id p), ii_mSubjectID = cstr (pid_subject_id p), ii_mInstance = pid_instance p\<rparr>"

section \<open>Round trips\<close>

lemma PBToError_none: "error_codes_ok ec \<Longrightarrow> PBToError ec (ErrorToPB ec e) = ENone \<longleftrightarrow> e = ENone"
  by (auto simp: PBToError_def ErrorToPB_def error_codes_ok_def)

lemma bytes_roundtrip: "PBToByteArray (ByteArrayToPB cap bs) = bs"
  by (simp add: PBToByteArray_def ByteArrayToPB_def)

lemma ident_roundtrip:
  "no_nul (ii_mServiceID i) \<Longrightarrow> no_nul (ii_mSubjectID i) \<Longrightarrow> PBToInstanceIdent (InstanceIdentToPB i) = i"
  by (simp add: PBToInstanceIdent_def InstanceIdentToPB_def)

lemma PBToInstanceIdent_clean:
  "no_nul (ii_mServiceID (PBToInstanceIdent p)) \<and> no_nul (ii_mSubjectID (PBToInstanceIdent p))"
  by (simp add: PBToInstanceIdent_def)

text \<open>Codes for examples.\<close>

definition demo_codes :: error_codes where
  "demo_codes = \<lparr>er_Value = (\<lambda>e. case e of ENone \<Rightarrow> 0 | EEnum eNotFound \<Rightarrow> 3 | EEnum eInvalidArgument \<Rightarrow> 4
       | EEnum eWrongState \<Rightarrow> 5 | EEnum eFailed \<Rightarrow> 1 | EEnum _ \<Rightarrow> 2 | EErrno _ \<Rightarrow> 2 | ELib _ \<Rightarrow> 2),
     er_Errno = (\<lambda>e. case e of EErrno n \<Rightarrow> n | _ \<Rightarrow> 0),
     er_enum = (\<lambda>v. if v = 3 then EEnum eNotFound else if v = 4 then EEnum eInvalidArgument
       else if v = 5 then EEnum eWrongState else if v = 1 then EEnum eFailed else EEnum eRuntime)\<rparr>"

lemma demo_codes_ok: "error_codes_ok demo_codes"
  by (auto simp: error_codes_ok_def demo_codes_def split: Error.splits ErrorEnum.splits)

end
