(* ===== verification/IAMClient.thy ===== *)
theory IAMClient
  imports NodeInfoProvider PbConvert ChannelManager TLSChannel
begin

text \<open>
  \<open>src/iamclient/iamclient.cpp\<close>: the provisioning protocol of the node and the thread that
  moves the client between the open channel of an unprovisioned node and the secure one. The
  node status lives in the node info provider, which calls the client back; both states are
  modelled together. The provision manager, the certificate handler and the channel objects
  are results of calls, and protobuf messages are records after decoding and before encoding.
\<close>

section \<open>Messages\<close>

datatype IAMIncoming =
    StartProvisioningRequest string string
  | FinishProvisioningRequest string string
  | DeprovisionRequest string string
  | GetCertTypesRequest string
  | CreateKeyRequest string string string string
  | ApplyCertRequest string string string
  | PauseNodeRequest string
  | ResumeNodeRequest string
  | UnsupportedIncoming nat

record pb_CPUInfo =
  pcp_model_name :: string
  pcp_num_cores :: u64
  pcp_num_threads :: u64
  pcp_arch :: string
  pcp_arch_family :: string
  pcp_max_dmips :: u64

record pb_PartitionInfo =
  ppi_name :: string
  ppi_total_size :: u64
  ppi_path :: string
  ppi_types :: "string list"

record pb_NodeInfo =
  pni_node_id :: string
  pni_node_type :: string
  pni_name :: string
  pni_status :: string
  pni_os_type :: string
  pni_max_dmips :: u64
  pni_total_ram :: u64
  pni_cpus :: "pb_CPUInfo list"
  pni_partitions :: "pb_PartitionInfo list"
  pni_attrs :: "(string \<times> string) list"

text \<open>The error field of a response is absent or a converted error.\<close>

datatype IAMOutgoing =
    NodeInfoMessage pb_NodeInfo
  | StartProvisioningResponse "pb_ErrorInfo option"
  | FinishProvisioningResponse "pb_ErrorInfo option"
  | DeprovisionResponse "pb_ErrorInfo option"
  | CertTypesResponse "string list"
  | CreateKeyResponse (ck_type: string) (ck_node_id: string) (ck_csr: string) (ck_error: "pb_ErrorInfo option")
  | ApplyCertResponse (ac_type: string) (ac_url: string) (ac_node_id: string) (ac_serial: string)
      (ac_error: "pb_ErrorInfo option")
  | PauseNodeResponse "pb_ErrorInfo option"
  | ResumeNodeResponse "pb_ErrorInfo option"

section \<open>State\<close>

text \<open>
  The client, the node info provider with the world of its files, and the messages sent. In
  the provider's map of observers the client has the key \<open>0\<close>.
\<close>

record IAMClient =
  ic_mNodeInfo :: NodeInfo
  ic_mClockSynced :: bool
  ic_mReconnect :: bool
  ic_mCurrentPort :: u32
  ic_mClose :: bool

record 'w iam_sys =
  is_client :: IAMClient
  is_provider :: "nat NodeInfoProvider"
  is_world :: 'w
  is_sent :: "IAMOutgoing list"

text \<open>
  The surroundings of a message: the files, names and error codes; what \<open>SendMessage\<close>
  returns for a message; the results of the provision manager; and what the other observers
  of the node status return.
\<close>

record 'w iam_env =
  ie_files :: "'w file_ops"
  ie_names :: status_names
  ie_config :: node_config
  ie_codes :: error_codes
  ie_SendMessage :: "IAMOutgoing \<Rightarrow> Error"
  ie_StartProvisioning :: "string \<Rightarrow> Error"
  ie_FinishProvisioning :: "string \<Rightarrow> Error"
  ie_Deprovision :: "string \<Rightarrow> Error"
  ie_GetCertTypes :: "string list \<times> Error"
  ie_CreateKey :: "string \<Rightarrow> string \<Rightarrow> string \<Rightarrow> string \<times> Error"
  ie_ApplyCert :: "string \<Rightarrow> string \<Rightarrow> CertInfo \<times> Error"
  ie_ByteArrayToHex :: "byte list \<Rightarrow> string \<times> Error"
  ie_observers :: "nat \<Rightarrow> string \<Rightarrow> NodeStatus \<Rightarrow> Error"

section \<open>Sending\<close>

definition send :: "'w iam_env \<Rightarrow> IAMOutgoing \<Rightarrow> 'w iam_sys \<Rightarrow> 'w iam_sys \<times> Error" where
  "send env msg s = (s\<lparr>is_sent := is_sent s @ [msg]\<rparr>, ie_SendMessage env msg)"

text \<open>\<open>SendError\<close>: the response built so far with its error field set.\<close>

definition SendError ::
  "'w iam_env \<Rightarrow> (pb_ErrorInfo option \<Rightarrow> IAMOutgoing) \<Rightarrow> Error \<Rightarrow> 'w iam_sys \<Rightarrow> 'w iam_sys \<times> Error" where
  "SendError env response err s = send env (response (Some (ErrorToPB (ie_codes env) err))) s"

definition CPUInfoToPB :: "CPUInfo \<Rightarrow> pb_CPUInfo" where
  "CPUInfoToPB c =
     \<lparr>pcp_model_name = cp_mModelName c, pcp_num_cores = cp_mNumCores c, pcp_num_threads = cp_mNumThreads c,
      pcp_arch = cp_mArch c,
      pcp_arch_family = (case cp_mArchFamily c of None \<Rightarrow> [] | Some f \<Rightarrow> cstr f),
      pcp_max_dmips = (case cp_mMaxDMIPS c of None \<Rightarrow> 0 | Some d \<Rightarrow> d)\<rparr>"

definition PartitionInfoToPB :: "PartitionInfo \<Rightarrow> pb_PartitionInfo" where
  "PartitionInfoToPB p =
     \<lparr>ppi_name = pi_mName p, ppi_total_size = pi_mTotalSize p, ppi_path = pi_mPath p, ppi_types = pi_mTypes p\<rparr>"

definition NodeInfoToPB :: "status_names \<Rightarrow> NodeInfo \<Rightarrow> pb_NodeInfo" where
  "NodeInfoToPB sn ni =
     \<lparr>pni_node_id = ni_mNodeID ni, pni_node_type = ni_mNodeType ni, pni_name = ni_mName ni,
      pni_status = ns_ToString sn (ni_mStatus ni), pni_os_type = ni_mOSType ni,
      pni_max_dmips = ni_mMaxDMIPS ni, pni_total_ram = ni_mTotalRAM ni,
      pni_cpus = map CPUInfoToPB (ni_mCPUs ni), pni_partitions = map PartitionInfoToPB (ni_mPartitions ni),
      pni_attrs = ni_mAttrs ni\<rparr>"

definition SendNodeInfo :: "'w iam_env \<Rightarrow> 'w iam_sys \<Rightarrow> 'w iam_sys \<times> Error" where
  "SendNodeInfo env s = send env (NodeInfoMessage (NodeInfoToPB (ie_names env) (ic_mNodeInfo (is_client s)))) s"

section \<open>Notifications\<close>

definition IAM_OnClockSynced :: "IAMClient \<Rightarrow> IAMClient" where
  "IAM_OnClockSynced c = c\<lparr>ic_mClockSynced := True\<rparr>"

definition IAM_OnClockUnsynced :: "IAMClient \<Rightarrow> IAMClient" where
  "IAM_OnClockUnsynced c = c\<lparr>ic_mClockSynced := False\<rparr>"

definition IAM_OnCertChanged :: "IAMClient \<Rightarrow> IAMClient" where
  "IAM_OnCertChanged c = c\<lparr>ic_mReconnect := True\<rparr>"

text \<open>
  \<open>OnNodeStatusChanged\<close> first updates the client, and then announces the node if the new
  status keeps the channel. A wrong node identifier is only logged.
\<close>

definition IAM_status_update :: "NodeStatus \<Rightarrow> IAMClient \<Rightarrow> IAMClient \<times> bool" where
  "IAM_status_update status c =
     (let ni = ic_mNodeInfo c in
      if ni_mStatus ni = status then (c, False)
      else if ni_mStatus ni = eUnprovisioned \<or> status = eUnprovisioned then
        (c\<lparr>ic_mReconnect := True, ic_mNodeInfo := ni\<lparr>ni_mStatus := status\<rparr>\<rparr>, False)
      else (c\<lparr>ic_mNodeInfo := ni\<lparr>ni_mStatus := status\<rparr>\<rparr>, True))"

definition IAM_OnNodeStatusChanged :: "'w iam_env \<Rightarrow> string \<Rightarrow> NodeStatus \<Rightarrow> 'w iam_sys \<Rightarrow> 'w iam_sys \<times> Error" where
  "IAM_OnNodeStatusChanged env nodeID status s =
     (case IAM_status_update status (is_client s) of
        (c, sendNodeInfo) \<Rightarrow>
          if sendNodeInfo then SendNodeInfo env (s\<lparr>is_client := c\<rparr>) else (s\<lparr>is_client := c\<rparr>, ENone))"

text \<open>
  \<open>mNodeInfoProvider->SetNodeStatus\<close>: the provider stores the status and calls its
  observers, the client among them.
\<close>

definition set_status :: "'w iam_env \<Rightarrow> NodeStatus \<Rightarrow> 'w iam_sys \<Rightarrow> 'w iam_sys \<times> Error" where
  "set_status env status s =
     (let obs = (\<lambda>ob n st. if ob = 0 then snd (IAM_OnNodeStatusChanged env n st s) else ie_observers env ob n st);
          nodeID = ni_mNodeID (np_mNodeInfo (is_provider s))
      in (case SetNodeStatus (ie_files env) (ie_names env) (ie_config env) obs status (is_provider s) (is_world s) of
            (err, called, np, w) \<Rightarrow>
              (let s' = s\<lparr>is_provider := np, is_world := w\<rparr>
               in (if 0 \<in> set called then fst (IAM_OnNodeStatusChanged env nodeID status s') else s', err))))"

section \<open>Requests\<close>

definition CheckNodeIDAndStatus :: "IAMClient \<Rightarrow> string \<Rightarrow> NodeStatus list \<Rightarrow> Error" where
  "CheckNodeIDAndStatus c nodeID expected =
     (if nodeID \<noteq> ni_mNodeID (ic_mNodeInfo c) then EEnum eInvalidArgument
      else if ni_mStatus (ic_mNodeInfo c) \<notin> set expected then EEnum eWrongState
      else ENone)"

definition ProcessStartProvisioning :: "'w iam_env \<Rightarrow> string \<Rightarrow> string \<Rightarrow> 'w iam_sys \<Rightarrow> 'w iam_sys \<times> Error" where
  "ProcessStartProvisioning env node_id password s =
     (let err = CheckNodeIDAndStatus (is_client s) node_id [eUnprovisioned] in
      if err \<noteq> ENone then SendError env StartProvisioningResponse (AOS_ERROR_WRAP err) s
      else (let err = ie_StartProvisioning env password in
        if err \<noteq> ENone then SendError env StartProvisioningResponse (AOS_ERROR_WRAP err) s
        else send env (StartProvisioningResponse None) s))"

definition ProcessFinishProvisioning :: "'w iam_env \<Rightarrow> string \<Rightarrow> string \<Rightarrow> 'w iam_sys \<Rightarrow> 'w iam_sys \<times> Error" where
  "ProcessFinishProvisioning env node_id password s =
     (let err = CheckNodeIDAndStatus (is_client s) node_id [eUnprovisioned] in
      if err \<noteq> ENone then SendError env FinishProvisioningResponse (AOS_ERROR_WRAP err) s
      else (let err = ie_FinishProvisioning env password in
        if err \<noteq> ENone then SendError env FinishProvisioningResponse (AOS_ERROR_WRAP err) s
        else (case set_status env eProvisioned s of
          (s', err) \<Rightarrow>
            if err \<noteq> ENone then SendError env FinishProvisioningResponse (AOS_ERROR_WRAP err) s'
            else send env (FinishProvisioningResponse None) s')))"

definition ProcessDeprovision :: "'w iam_env \<Rightarrow> string \<Rightarrow> string \<Rightarrow> 'w iam_sys \<Rightarrow> 'w iam_sys \<times> Error" where
  "ProcessDeprovision env node_id password s =
     (let err = CheckNodeIDAndStatus (is_client s) node_id [eProvisioned, ePaused] in
      if err \<noteq> ENone then SendError env DeprovisionResponse (AOS_ERROR_WRAP err) s
      else (let err = ie_Deprovision env password in
        if err \<noteq> ENone then SendError env DeprovisionResponse (AOS_ERROR_WRAP err) s
        else (case set_status env eUnprovisioned s of
          (s', err) \<Rightarrow>
            if err \<noteq> ENone then SendError env DeprovisionResponse (AOS_ERROR_WRAP err) s'
            else send env (DeprovisionResponse None) s')))"

text \<open>The failed check and the error of \<open>GetCertTypes\<close> only go to the log.\<close>

definition ProcessGetCertTypes :: "'w iam_env \<Rightarrow> string \<Rightarrow> 'w iam_sys \<Rightarrow> 'w iam_sys \<times> Error" where
  "ProcessGetCertTypes env node_id s =
     (let err = CheckNodeIDAndStatus (is_client s) node_id [eUnprovisioned, eProvisioned, ePaused]
      in send env (CertTypesResponse (fst (ie_GetCertTypes env))) s)"

definition ProcessCreateKey :: "'w iam_env \<Rightarrow> string \<Rightarrow> string \<Rightarrow> string \<Rightarrow> string \<Rightarrow> 'w iam_sys \<Rightarrow> 'w iam_sys \<times> Error" where
  "ProcessCreateKey env node_id ty subject password s =
     (let err = CheckNodeIDAndStatus (is_client s) node_id [eUnprovisioned, eProvisioned, ePaused] in
      if err \<noteq> ENone then SendError env (CreateKeyResponse [] [] []) (AOS_ERROR_WRAP err) s
      else (case ie_CreateKey env ty subject password of
        (csr, err) \<Rightarrow>
          if err \<noteq> ENone then SendError env (CreateKeyResponse [] [] csr) (AOS_ERROR_WRAP err) s
          else send env (CreateKeyResponse ty (ni_mNodeID (ic_mNodeInfo (is_client s))) csr None) s))"

definition ProcessApplyCert :: "'w iam_env \<Rightarrow> string \<Rightarrow> string \<Rightarrow> string \<Rightarrow> 'w iam_sys \<Rightarrow> 'w iam_sys \<times> Error" where
  "ProcessApplyCert env node_id ty cert s =
     (let err = CheckNodeIDAndStatus (is_client s) node_id [eUnprovisioned, eProvisioned, ePaused] in
      if err \<noteq> ENone then SendError env (ApplyCertResponse [] [] [] []) (AOS_ERROR_WRAP err) s
      else (case ie_ApplyCert env ty cert of
        (certInfo, err) \<Rightarrow>
          if err \<noteq> ENone then SendError env (ApplyCertResponse [] [] [] []) (AOS_ERROR_WRAP err) s
          else (case ie_ByteArrayToHex env (ce_mSerial certInfo) of
            (serial, err) \<Rightarrow>
              (let response = ApplyCertResponse ty (ce_mCertURL certInfo) (ni_mNodeID (ic_mNodeInfo (is_client s))) serial
               in if err \<noteq> ENone then SendError env response (AOS_ERROR_WRAP err) s
                  else send env (response None) s))))"

definition ProcessPauseNode :: "'w iam_env \<Rightarrow> string \<Rightarrow> 'w iam_sys \<Rightarrow> 'w iam_sys \<times> Error" where
  "ProcessPauseNode env node_id s =
     (let err = CheckNodeIDAndStatus (is_client s) node_id [eProvisioned] in
      if err \<noteq> ENone then SendError env PauseNodeResponse (AOS_ERROR_WRAP err) s
      else (case set_status env ePaused s of
        (s', err) \<Rightarrow>
          if err \<noteq> ENone then SendError env PauseNodeResponse (AOS_ERROR_WRAP err) s'
          else send env (PauseNodeResponse None) s'))"

definition ProcessResumeNode :: "'w iam_env \<Rightarrow> string \<Rightarrow> 'w iam_sys \<Rightarrow> 'w iam_sys \<times> Error" where
  "ProcessResumeNode env node_id s =
     (let err = CheckNodeIDAndStatus (is_client s) node_id [ePaused] in
      if err \<noteq> ENone then SendError env ResumeNodeResponse (AOS_ERROR_WRAP err) s
      else (case set_status env eProvisioned s of
        (s', err) \<Rightarrow>
          if err \<noteq> ENone then SendError env ResumeNodeResponse (AOS_ERROR_WRAP err) s'
          else send env (ResumeNodeResponse None) s'))"

text \<open>\<open>pb_decode\<close> is the library's decoder; an unsupported message is only logged.\<close>

definition IAM_ReceiveMessage ::
  "'w iam_env \<Rightarrow> (byte list \<Rightarrow> IAMIncoming option) \<Rightarrow> byte list \<Rightarrow> 'w iam_sys \<Rightarrow> 'w iam_sys \<times> Error" where
  "IAM_ReceiveMessage env pb_decode data s =
     (case pb_decode data of
        None \<Rightarrow> (s, EEnum eRuntime)
      | Some (StartProvisioningRequest n p) \<Rightarrow> ProcessStartProvisioning env n p s
      | Some (FinishProvisioningRequest n p) \<Rightarrow> ProcessFinishProvisioning env n p s
      | Some (DeprovisionRequest n p) \<Rightarrow> ProcessDeprovision env n p s
      | Some (GetCertTypesRequest n) \<Rightarrow> ProcessGetCertTypes env n s
      | Some (CreateKeyRequest n t sj p) \<Rightarrow> ProcessCreateKey env n t sj p s
      | Some (ApplyCertRequest n t c) \<Rightarrow> ProcessApplyCert env n t c s
      | Some (PauseNodeRequest n) \<Rightarrow> ProcessPauseNode env n s
      | Some (ResumeNodeRequest n) \<Rightarrow> ProcessResumeNode env n s
      | Some (UnsupportedIncoming t) \<Rightarrow> (s, ENone))"

text \<open>\<open>OnConnect\<close> announces the node; \<open>OnDisconnect\<close> only logs.\<close>

definition IAM_OnConnect :: "'w iam_env \<Rightarrow> 'w iam_sys \<Rightarrow> 'w iam_sys" where
  "IAM_OnConnect env s = fst (SendNodeInfo env s)"

lemmas iam_process_defs = ProcessStartProvisioning_def ProcessFinishProvisioning_def ProcessDeprovision_def
  ProcessGetCertTypes_def ProcessCreateKey_def ProcessApplyCert_def ProcessPauseNode_def ProcessResumeNode_def


section \<open>What the requests ask for\<close>

text \<open>The transition a request stands for: the node, the states it may start from, the new state.\<close>

fun IAM_edge :: "IAMIncoming \<Rightarrow> (string \<times> NodeStatus list \<times> NodeStatus) option" where
  "IAM_edge (FinishProvisioningRequest n p) = Some (n, [eUnprovisioned], eProvisioned)"
| "IAM_edge (DeprovisionRequest n p) = Some (n, [eProvisioned, ePaused], eUnprovisioned)"
| "IAM_edge (PauseNodeRequest n) = Some (n, [eProvisioned], ePaused)"
| "IAM_edge (ResumeNodeRequest n) = Some (n, [ePaused], eProvisioned)"
| "IAM_edge _ = None"

text \<open>The provision manager's consent to it.\<close>

fun IAM_consent :: "'w iam_env \<Rightarrow> IAMIncoming \<Rightarrow> bool" where
  "IAM_consent env (FinishProvisioningRequest n p) = (ie_FinishProvisioning env p = ENone)"
| "IAM_consent env (DeprovisionRequest n p) = (ie_Deprovision env p = ENone)"
| "IAM_consent env _ = True"

text \<open>The guard of every request that has one: the node and the states it may be asked in.\<close>

fun IAM_guard :: "IAMIncoming \<Rightarrow> (string \<times> NodeStatus list) option" where
  "IAM_guard (StartProvisioningRequest n p) = Some (n, [eUnprovisioned])"
| "IAM_guard (FinishProvisioningRequest n p) = Some (n, [eUnprovisioned])"
| "IAM_guard (DeprovisionRequest n p) = Some (n, [eProvisioned, ePaused])"
| "IAM_guard (CreateKeyRequest n t sj p) = Some (n, [eUnprovisioned, eProvisioned, ePaused])"
| "IAM_guard (ApplyCertRequest n t c) = Some (n, [eUnprovisioned, eProvisioned, ePaused])"
| "IAM_guard (PauseNodeRequest n) = Some (n, [eProvisioned])"
| "IAM_guard (ResumeNodeRequest n) = Some (n, [ePaused])"
| "IAM_guard _ = None"

fun response_error :: "IAMOutgoing \<Rightarrow> pb_ErrorInfo option" where
  "response_error (StartProvisioningResponse e) = e"
| "response_error (FinishProvisioningResponse e) = e"
| "response_error (DeprovisionResponse e) = e"
| "response_error (CreateKeyResponse t n c e) = e"
| "response_error (ApplyCertResponse t u n sr e) = e"
| "response_error (PauseNodeResponse e) = e"
| "response_error (ResumeNodeResponse e) = e"
| "response_error _ = None"

text \<open>The status a response without error confirms.\<close>

fun confirmed :: "IAMOutgoing \<Rightarrow> NodeStatus option" where
  "confirmed (FinishProvisioningResponse None) = Some eProvisioned"
| "confirmed (DeprovisionResponse None) = Some eUnprovisioned"
| "confirmed (PauseNodeResponse None) = Some ePaused"
| "confirmed (ResumeNodeResponse None) = Some eProvisioned"
| "confirmed _ = None"

section \<open>Lemmas\<close>

abbreviation client_status :: "'w iam_sys \<Rightarrow> NodeStatus" where
  "client_status s \<equiv> ni_mStatus (ic_mNodeInfo (is_client s))"

abbreviation provider_status :: "'w iam_sys \<Rightarrow> NodeStatus" where
  "provider_status s \<equiv> ni_mStatus (np_mNodeInfo (is_provider s))"

lemma send_sel [simp]:
  "is_client (fst (send env m s)) = is_client s" "is_provider (fst (send env m s)) = is_provider s"
  "is_world (fst (send env m s)) = is_world s" "is_sent (fst (send env m s)) = is_sent s @ [m]"
  by (simp_all add: send_def)

lemma SendError_sel [simp]:
  "is_client (fst (SendError env f e s)) = is_client s" "is_provider (fst (SendError env f e s)) = is_provider s"
  "is_world (fst (SendError env f e s)) = is_world s"
  "is_sent (fst (SendError env f e s)) = is_sent s @ [f (Some (ErrorToPB (ie_codes env) e))]"
  by (simp_all add: SendError_def)

lemma OnNodeStatusChanged_sel [simp]:
  "client_status (fst (IAM_OnNodeStatusChanged env n st s)) = st"
  "ni_mNodeID (ic_mNodeInfo (is_client (fst (IAM_OnNodeStatusChanged env n st s)))) = ni_mNodeID (ic_mNodeInfo (is_client s))"
  "is_provider (fst (IAM_OnNodeStatusChanged env n st s)) = is_provider s"
  "is_world (fst (IAM_OnNodeStatusChanged env n st s)) = is_world s"
  by (auto simp: IAM_OnNodeStatusChanged_def IAM_status_update_def SendNodeInfo_def Let_def)

lemma OnNodeStatusChanged_sent:
  "\<exists>ms. is_sent (fst (IAM_OnNodeStatusChanged env n st s)) = is_sent s @ ms \<and> (\<forall>m\<in>set ms. confirmed m = None)"
  by (auto simp: IAM_OnNodeStatusChanged_def IAM_status_update_def SendNodeInfo_def Let_def)

text \<open>The three outcomes of setting a status.\<close>

lemma set_status_cases:
  assumes "set_status env st s = (s', err)"
  obtains (same) "st = provider_status s" "s' = s" "err = ENone"
  | (failed) "err \<noteq> ENone" "is_client s' = is_client s" "is_provider s' = is_provider s" "is_sent s' = is_sent s"
      "StoreNodeStatus (ie_files env) (ie_names env) (ie_config env) st (is_world s) = (err, is_world s')"
  | (stored) called where
      "is_provider s' = (is_provider s)\<lparr>np_mNodeInfo := (np_mNodeInfo (is_provider s))\<lparr>ni_mStatus := st\<rparr>\<rparr>"
      "StoreNodeStatus (ie_files env) (ie_names env) (ie_config env) st (is_world s) = (ENone, is_world s')"
      "client_status s' = (if 0 \<in> set called then st else client_status s)"
      "ni_mNodeID (ic_mNodeInfo (is_client s')) = ni_mNodeID (ic_mNodeInfo (is_client s))"
      "\<exists>ms. is_sent s' = is_sent s @ ms \<and> (\<forall>m\<in>set ms. confirmed m = None)"
      "notify_observers (\<lambda>ob. if ob = 0 then snd (IAM_OnNodeStatusChanged env (ni_mNodeID (np_mNodeInfo (is_provider s))) st s)
         else ie_observers env ob (ni_mNodeID (np_mNodeInfo (is_provider s))) st)
         (np_mStatusChangedSubscribers (is_provider s)) = (called, err)"
proof (cases "st = provider_status s")
  case True
  with assms show ?thesis by (intro same) (auto simp: set_status_def SetNodeStatus_def Let_def)
next
  case False
  obtain e w where w: "StoreNodeStatus (ie_files env) (ie_names env) (ie_config env) st (is_world s) = (e, w)" by fastforce
  show ?thesis
  proof (cases "e = ENone")
    case F: False
    with False w assms show ?thesis by (intro failed) (auto simp: set_status_def SetNodeStatus_def Let_def)
  next
    case True
    obtain called e' where n: "notify_observers (\<lambda>ob. if ob = 0 then snd (IAM_OnNodeStatusChanged env (ni_mNodeID (np_mNodeInfo (is_provider s))) st s)
         else ie_observers env ob (ni_mNodeID (np_mNodeInfo (is_provider s))) st)
         (np_mStatusChangedSubscribers (is_provider s)) = (called, e')" by fastforce
    let ?s1 = "s\<lparr>is_provider := (is_provider s)\<lparr>np_mNodeInfo := (np_mNodeInfo (is_provider s))\<lparr>ni_mStatus := st\<rparr>\<rparr>, is_world := w\<rparr>"
    have "s' = (if 0 \<in> set called then fst (IAM_OnNodeStatusChanged env (ni_mNodeID (np_mNodeInfo (is_provider s))) st ?s1) else ?s1)
      \<and> err = e'"
      using assms w True False n by (cases "e' = ENone") (auto simp: set_status_def SetNodeStatus_def NotifyNodeStatusChanged_def Let_def)
    moreover obtain ms where "is_sent (fst (IAM_OnNodeStatusChanged env (ni_mNodeID (np_mNodeInfo (is_provider s))) st ?s1)) = is_sent s @ ms"
      "\<forall>m\<in>set ms. confirmed m = None"
      using OnNodeStatusChanged_sent [of env "ni_mNodeID (np_mNodeInfo (is_provider s))" st ?s1] by auto
    ultimately show ?thesis using w True n
      by (intro stored [of called]) auto
  qed
qed


lemma CheckNodeIDAndStatus_none:
  "CheckNodeIDAndStatus c n ex = ENone \<longleftrightarrow> n = ni_mNodeID (ic_mNodeInfo c) \<and> ni_mStatus (ic_mNodeInfo c) \<in> set ex"
  by (simp add: CheckNodeIDAndStatus_def)

text \<open>Only the four transitions reach the status, and only after their checks.\<close>

lemma process_status:
  assumes "IAM_ReceiveMessage env pb_decode data s = (s', r)"
  shows "is_client s' = is_client s \<and> is_provider s' = is_provider s \<and> is_world s' = is_world s \<and>
      (\<exists>ms. is_sent s' = is_sent s @ ms \<and> (\<forall>m\<in>set ms. confirmed m = None)) \<or>
    (\<exists>m n expected target s1 err ms. pb_decode data = Some m \<and> IAM_edge m = Some (n, expected, target) \<and>
       n = ni_mNodeID (ic_mNodeInfo (is_client s)) \<and> client_status s \<in> set expected \<and> IAM_consent env m \<and>
       set_status env target s = (s1, err) \<and> is_client s' = is_client s1 \<and> is_provider s' = is_provider s1 \<and>
       is_world s' = is_world s1 \<and> is_sent s' = is_sent s1 @ ms \<and>
       (\<forall>m\<in>set ms. confirmed m \<noteq> None \<longrightarrow> err = ENone \<and> confirmed m = Some target))"
proof (cases "pb_decode data")
  case None
  with assms show ?thesis by (auto simp: IAM_ReceiveMessage_def)
next
  case (Some m)
  have s': "s' = fst (IAM_ReceiveMessage env pb_decode data s)" using assms by simp
  show ?thesis
  proof (cases m)
    case (StartProvisioningRequest n p)
    with Some show ?thesis by (simp add: s' IAM_ReceiveMessage_def ProcessStartProvisioning_def Let_def)
  next
    case (FinishProvisioningRequest n p)
    with Some show ?thesis
      by (simp add: s' IAM_ReceiveMessage_def ProcessFinishProvisioning_def Let_def CheckNodeIDAndStatus_none split: prod.split)
  next
    case (DeprovisionRequest n p)
    with Some show ?thesis
      by (simp add: s' IAM_ReceiveMessage_def ProcessDeprovision_def Let_def CheckNodeIDAndStatus_none split: prod.split)
  next
    case (GetCertTypesRequest n)
    with Some show ?thesis by (simp add: s' IAM_ReceiveMessage_def ProcessGetCertTypes_def Let_def)
  next
    case (CreateKeyRequest n t sj p)
    with Some show ?thesis by (simp add: s' IAM_ReceiveMessage_def ProcessCreateKey_def Let_def split: prod.split)
  next
    case (ApplyCertRequest n t c)
    with Some show ?thesis by (simp add: s' IAM_ReceiveMessage_def ProcessApplyCert_def Let_def split: prod.split)
  next
    case (PauseNodeRequest n)
    with Some show ?thesis
      by (simp add: s' IAM_ReceiveMessage_def ProcessPauseNode_def Let_def CheckNodeIDAndStatus_none split: prod.split)
  next
    case (ResumeNodeRequest n)
    with Some show ?thesis
      by (simp add: s' IAM_ReceiveMessage_def ProcessResumeNode_def Let_def CheckNodeIDAndStatus_none split: prod.split)
  next
    case (UnsupportedIncoming t)
    with Some show ?thesis by (simp add: s' IAM_ReceiveMessage_def)
  qed
qed


text \<open>The client and the provider agree on the status, and the client observes it.\<close>

definition iam_sync :: "'w iam_sys \<Rightarrow> bool" where
  "iam_sync s \<longleftrightarrow> client_status s = provider_status s \<and> 0 \<in> fst ` set (np_mStatusChangedSubscribers (is_provider s))"

lemma notified_all:
  assumes "notify_observers f os = (called, err)" "\<forall>ob. ob \<noteq> k \<longrightarrow> f ob = ENone" "k \<in> fst ` set os"
  shows "k \<in> set called"
  using assms(1,3)
proof (induction os arbitrary: called)
  case (Cons o' os)
  obtain ob b where [simp]: "o' = (ob, b)" by fastforce
  show ?case
  proof (cases "ob = k")
    case False
    with Cons assms(2) show ?thesis by (auto split: prod.splits)
  qed (use Cons.prems in \<open>auto split: prod.splits if_splits\<close>)
qed simp

lemma set_status_sync:
  assumes "files_ok (ie_files env)" "status_names_ok (ie_names env)" "\<forall>ob n st. ie_observers env ob n st = ENone"
    and "iam_sync s" "st \<noteq> provider_status s" "set_status env st s = (s', err)"
  shows "iam_sync s' \<and> (err = ENone \<longrightarrow> provider_status s' = st \<and>
    ReadNodeStatus (ie_files env) (ie_names env) (ie_config env) (is_world s') = (st, ENone))"
  using assms(6)
proof (cases rule: set_status_cases)
  case (stored called)
  have "0 \<in> set called"
    using notified_all [OF stored(6), of 0] assms(3,4) by (simp add: iam_sync_def)
  moreover have "ReadNodeStatus (ie_files env) (ie_names env) (ie_config env) (is_world s') = (st, ENone)"
    by (rule StoreNodeStatus_read [OF assms(1,2) stored(2)])
  ultimately show ?thesis using stored assms(4) by (simp add: iam_sync_def)
qed (use assms(4,5) in \<open>auto simp: iam_sync_def\<close>)

lemma set_status_sent:
  assumes "set_status env st s = (s', err)"
  shows "\<exists>ms. is_sent s' = is_sent s @ ms \<and> (\<forall>m\<in>set ms. confirmed m = None)"
  using assms by (cases rule: set_status_cases) auto

lemma IAM_edge_changes: "IAM_edge m = Some (n, expected, target) \<Longrightarrow> target \<notin> set expected"
  by (cases m) auto

text \<open>A sequence of received messages.\<close>

definition IAM_run :: "'w iam_env \<Rightarrow> (byte list \<Rightarrow> IAMIncoming option) \<Rightarrow> byte list list \<Rightarrow> 'w iam_sys \<Rightarrow> 'w iam_sys" where
  "IAM_run env pb_decode datas s = foldl (\<lambda>s data. fst (IAM_ReceiveMessage env pb_decode data s)) s datas"

lemma receive_sync:
  assumes "files_ok (ie_files env)" "status_names_ok (ie_names env)" "\<forall>ob n st. ie_observers env ob n st = ENone"
    and "iam_sync s" "IAM_ReceiveMessage env pb_decode data s = (s', r)"
  shows "iam_sync s' \<and> (\<exists>ms. is_sent s' = is_sent s @ ms \<and> (\<forall>m\<in>set ms. \<forall>st. confirmed m = Some st \<longrightarrow>
     provider_status s' = st \<and> ReadNodeStatus (ie_files env) (ie_names env) (ie_config env) (is_world s') = (st, ENone)))"
proof -
  consider (none) "is_client s' = is_client s" "is_provider s' = is_provider s"
      "\<exists>ms. is_sent s' = is_sent s @ ms \<and> (\<forall>m\<in>set ms. confirmed m = None)"
    | (edge) m n expected target s1 err ms where "IAM_edge m = Some (n, expected, target)" "client_status s \<in> set expected"
      "set_status env target s = (s1, err)" "is_client s' = is_client s1" "is_provider s' = is_provider s1"
      "is_world s' = is_world s1" "is_sent s' = is_sent s1 @ ms"
      "\<forall>m\<in>set ms. confirmed m \<noteq> None \<longrightarrow> err = ENone \<and> confirmed m = Some target"
    using process_status [OF assms(5)] by blast
  then show ?thesis
  proof cases
    case none
    with assms(4) show ?thesis by (auto simp: iam_sync_def)
  next
    case edge
    have "target \<noteq> provider_status s"
      using IAM_edge_changes [OF edge(1)] edge(2) assms(4) by (auto simp: iam_sync_def)
    note sy = set_status_sync [OF assms(1-4) this edge(3)]
    obtain ms' where "is_sent s1 = is_sent s @ ms'" "\<forall>m\<in>set ms'. confirmed m = None"
      using set_status_sent [OF edge(3)] by blast
    with edge(7,8) sy show ?thesis
      by (intro conjI exI [of _ "ms' @ ms"]) (auto simp: iam_sync_def edge(4-6))
  qed
qed

lemma run_sync:
  assumes "files_ok (ie_files env)" "status_names_ok (ie_names env)" "\<forall>ob n st. ie_observers env ob n st = ENone"
    and "iam_sync s"
  shows "iam_sync (IAM_run env pb_decode datas s)"
  using assms(4)
proof (induction datas arbitrary: s)
  case (Cons d ds)
  obtain s1 r where "IAM_ReceiveMessage env pb_decode d s = (s1, r)" by fastforce
  with Cons.IH [of s1] receive_sync [OF assms(1-3) Cons.prems this] show ?case by (simp add: IAM_run_def)
qed (simp add: IAM_run_def)

section \<open>Properties\<close>

text \<open>C7. The provisioning state machine: whatever message arrives, the status the client or the
  provider holds changes only if the message asks for one of the four transitions, names this
  node, finds the client in a state the transition starts from, and the provision manager has
  consented; and the status it changes to is the transition's.\<close>

theorem iam_status_transitions:
  assumes "IAM_ReceiveMessage env pb_decode data s = (s', r)"
    and "client_status s' \<noteq> client_status s \<or> provider_status s' \<noteq> provider_status s"
  shows "\<exists>m expected target. pb_decode data = Some m \<and>
    IAM_edge m = Some (ni_mNodeID (ic_mNodeInfo (is_client s)), expected, target) \<and>
    client_status s \<in> set expected \<and> IAM_consent env m \<and> provider_status s' = target \<and>
    client_status s' \<in> {client_status s, target}"
proof -
  from process_status [OF assms(1)] assms(2) obtain m expected target s1 err where
    e: "pb_decode data = Some m" "IAM_edge m = Some (ni_mNodeID (ic_mNodeInfo (is_client s)), expected, target)"
      "client_status s \<in> set expected" "IAM_consent env m" "is_client s' = is_client s1" "is_provider s' = is_provider s1"
    and st: "set_status env target s = (s1, err)" by auto
  from st have "provider_status s' = target \<and> client_status s' \<in> {client_status s, target}"
    using assms(2) e(5,6) by (cases rule: set_status_cases) auto
  with e(1-4) show ?thesis by blast
qed

definition demo_iam_env :: "(string \<rightharpoonup> string) iam_env" where
  "demo_iam_env = \<lparr>ie_files = demo_files, ie_names = demo_status_names, ie_config = demo_nc, ie_codes = demo_codes,
     ie_SendMessage = (\<lambda>m. ENone), ie_StartProvisioning = (\<lambda>p. ENone), ie_FinishProvisioning = (\<lambda>p. ENone),
     ie_Deprovision = (\<lambda>p. EEnum eFailed), ie_GetCertTypes = ([''iam'', ''sm''], ENone),
     ie_CreateKey = (\<lambda>t sj p. (''csr'', ENone)), ie_ApplyCert = (\<lambda>t c. (\<lparr>ce_mIssuer = [], ce_mSerial = [], ce_mCertURL = [],
       ce_mKeyURL = [], ce_mNotAfter = Time 0 0\<rparr>, ENone)), ie_ByteArrayToHex = (\<lambda>b. ([], ENone)),
     ie_observers = (\<lambda>ob n st. ENone)\<rparr>"

text \<open>An unprovisioned node whose client observes the status.\<close>

definition demo_iam :: "(string \<rightharpoonup> string) iam_sys" where
  "demo_iam = \<lparr>is_client = \<lparr>ic_mNodeInfo = np_mNodeInfo demo_np, ic_mClockSynced = True, ic_mReconnect = False,
       ic_mCurrentPort = 8000, ic_mClose = False\<rparr>,
     is_provider = demo_np\<lparr>np_mStatusChangedSubscribers := [(0, True)]\<rparr>, is_world = Map.empty, is_sent = []\<rparr>"

definition demo_iam_decode :: "byte list \<Rightarrow> IAMIncoming option" where
  "demo_iam_decode bs = (if bs = [1] then Some (FinishProvisioningRequest ''node'' ''pw'')
     else if bs = [2] then Some (PauseNodeRequest ''node'')
     else if bs = [3] then Some (ResumeNodeRequest ''other'') else None)"

lemmas demo_iam_simps = demo_iam_env_def demo_iam_decode_def demo_iam_def demo_np_def demo_files_def demo_nc_def IAM_ReceiveMessage_def
  IAM_run_def ProcessFinishProvisioning_def ProcessPauseNode_def CheckNodeIDAndStatus_def set_status_def SetNodeStatus_def StoreNodeStatus_def
  NotifyNodeStatusChanged_def IAM_OnNodeStatusChanged_def IAM_status_update_def SendNodeInfo_def send_def Let_def

lemma iam_status_transitions_witness:
  "provider_status (fst (IAM_ReceiveMessage demo_iam_env demo_iam_decode [1] demo_iam)) = eProvisioned \<and>
   client_status demo_iam = eUnprovisioned"
proof -
  obtain s' r where r: "IAM_ReceiveMessage demo_iam_env demo_iam_decode [1] demo_iam = (s', r)" by fastforce
  then have "client_status s' \<noteq> client_status demo_iam" by (auto simp: demo_iam_simps)
  with iam_status_transitions [OF r] r show ?thesis by (auto simp: demo_iam_def demo_np_def demo_iam_decode_def)
qed

text \<open>C26. A confirmed transition is a fact: while the other observers of the status do not fail,
  the client and the provider agree after any sequence of messages, and a response without
  error to a finish-provisioning, deprovision, pause or resume request is only sent when the
  provider has that status and the status file reads as it, so that it survives a restart.\<close>

theorem iam_confirmed_durable:
  assumes "files_ok (ie_files env)" "status_names_ok (ie_names env)" "\<forall>ob n st. ie_observers env ob n st = ENone"
    and "iam_sync s0" "IAM_ReceiveMessage env pb_decode data (IAM_run env pb_decode datas s0) = (s', r)"
  shows "iam_sync s' \<and> (\<exists>ms. is_sent s' = is_sent (IAM_run env pb_decode datas s0) @ ms \<and>
    (\<forall>m\<in>set ms. \<forall>st. confirmed m = Some st \<longrightarrow> provider_status s' = st \<and>
      ReadNodeStatus (ie_files env) (ie_names env) (ie_config env) (is_world s') = (st, ENone)))"
  by (rule receive_sync [OF assms(1-3) run_sync [OF assms(1-4)] assms(5)])

lemma iam_confirmed_durable_witness:
  "ReadNodeStatus demo_files demo_status_names demo_nc
     (is_world (fst (IAM_ReceiveMessage demo_iam_env demo_iam_decode [2] (IAM_run demo_iam_env demo_iam_decode [[1]] demo_iam)))) =
   (ePaused, ENone)"
proof -
  let ?s = "IAM_run demo_iam_env demo_iam_decode [[1]] demo_iam"
  obtain s' r where r: "IAM_ReceiveMessage demo_iam_env demo_iam_decode [2] ?s = (s', r)" by fastforce
  then have "is_sent s' = is_sent ?s @ [NodeInfoMessage (NodeInfoToPB demo_status_names (ic_mNodeInfo (is_client s'))), PauseNodeResponse None]"
    by (auto simp: demo_iam_simps)
  moreover have "iam_sync demo_iam" by (simp add: iam_sync_def demo_iam_def)
  moreover have "files_ok (ie_files demo_iam_env)" "status_names_ok (ie_names demo_iam_env)"
    "\<forall>ob n st. ie_observers demo_iam_env ob n st = ENone"
    by (simp_all add: demo_iam_env_def demo_files_ok demo_status_names_ok)
  ultimately show ?thesis
    using iam_confirmed_durable [of demo_iam_env demo_iam demo_iam_decode "[2]" "[[1]]" s' r] r
    by (auto simp: demo_iam_env_def)
qed

text \<open>A request for another node, or in a state it may not be asked in, changes nothing and is
  answered by exactly one response, whose error field decodes to an error.\<close>

theorem iam_rejects:
  assumes "error_codes_ok (ie_codes env)" "pb_decode data = Some m" "IAM_guard m = Some (n, expected)"
    and "n \<noteq> ni_mNodeID (ic_mNodeInfo (is_client s)) \<or> client_status s \<notin> set expected"
  shows "\<exists>resp e. fst (IAM_ReceiveMessage env pb_decode data s) = s\<lparr>is_sent := is_sent s @ [resp]\<rparr> \<and>
    response_error resp = Some e \<and> PBToError (ie_codes env) e \<noteq> ENone"
proof -
  have "CheckNodeIDAndStatus (is_client s) n expected \<noteq> ENone" using assms(4) by (simp add: CheckNodeIDAndStatus_none)
  moreover from this have "PBToError (ie_codes env) (ErrorToPB (ie_codes env) (CheckNodeIDAndStatus (is_client s) n expected)) \<noteq> ENone"
    using PBToError_none [OF assms(1)] by simp
  ultimately show ?thesis
    using assms(2,3) by (cases m) (auto simp: IAM_ReceiveMessage_def iam_process_defs Let_def SendError_def send_def)
qed


lemma iam_rejects_witness:
  "\<exists>resp e. fst (IAM_ReceiveMessage demo_iam_env demo_iam_decode [3] demo_iam) = demo_iam\<lparr>is_sent := [resp]\<rparr> \<and>
     response_error resp = Some e \<and> PBToError demo_codes e \<noteq> ENone"
  using iam_rejects [of demo_iam_env demo_iam_decode "[3]" "ResumeNodeRequest ''other''" "''other''" "[ePaused]" demo_iam] demo_codes_ok
  by (simp add: demo_iam_env_def demo_iam_def demo_np_def demo_iam_decode_def)

end
