(* ===== verification/IAMChannels.thy ===== *)
theory IAMChannels
  imports IAMClient
begin

text \<open>
  \<open>src/iamclient/iamclient.cpp\<close>, \<open>HandleChannels\<close>: the thread that keeps one channel of the
  client open, the open one while the node is unprovisioned and the TLS one otherwise, over
  the channel manager, the protobuf handler and the TLS channel of their theories.
\<close>

section \<open>State\<close>

text \<open>The ports are build constants; \<open>he_itf\<close> stands for the channel objects' \<open>Close\<close>.\<close>

datatype link = Plain u32 | Secure u32

record iam_ports =
  gc_cOpenPort :: u32
  gc_cSecurePort :: u32

text \<open>The results of the calls of one step.\<close>

record handle_env =
  he_run :: Error
  he_join :: Error
  he_itf :: "link ChannelItf"
  he_SubscribeCertChanged :: Error
  he_UnsubscribeCertChanged :: Error
  he_tls :: tls_env

text \<open>
  \<open>ih_subscribed\<close> says that the certificate handler has the client's subscription, and
  \<open>ih_stopping\<close> that a caller is inside \<open>Stop\<close>.
\<close>

record 't iam_channels =
  ih_client :: IAMClient
  ih_manager :: "'t ChannelManager"
  ih_handler :: "link PBHandler"
  ih_tls :: "u32 TLSChannel"
  ih_subscribed :: bool
  ih_stopping :: bool

section \<open>Operations\<close>

definition UnsubscribeCert :: "handle_env \<Rightarrow> 't iam_channels \<Rightarrow> 't iam_channels \<times> Error" where
  "UnsubscribeCert env s =
     (if he_UnsubscribeCertChanged env = ENone then s\<lparr>ih_subscribed := False\<rparr> else s, he_UnsubscribeCertChanged env)"

text \<open>
  \<open>ReleaseChannel\<close>. A failed unsubscription wraps the error collected so far, which is none
  in that branch.
\<close>

definition IAM_ReleaseChannel :: "handle_env \<Rightarrow> 't iam_channels \<Rightarrow> 't iam_channels \<times> Error" where
  "IAM_ReleaseChannel env s =
     (if ic_mCurrentPort (ih_client s) = 0 then (s, ENone)
      else (case PBHandler_Stop (he_itf env) (he_join env) (ih_handler s) of
        (h, stopErr) \<Rightarrow>
          (let err = (if stopErr \<noteq> ENone then AOS_ERROR_WRAP stopErr else ENone) in
           case DeleteChannel (ic_mCurrentPort (ih_client s)) (ih_manager s) of
             (cm, deleteErr) \<Rightarrow>
               (let err = (if deleteErr \<noteq> ENone \<and> err = ENone then AOS_ERROR_WRAP deleteErr else err) in
                case UnsubscribeCert env (s\<lparr>ih_handler := h, ih_manager := cm\<rparr>) of
                  (s', unsubscribeErr) \<Rightarrow>
                    (s', if unsubscribeErr \<noteq> ENone \<and> err = ENone then AOS_ERROR_WRAP err else err)))))"

definition start_handler :: "handle_env \<Rightarrow> string \<Rightarrow> link \<Rightarrow> 't iam_channels \<Rightarrow> 't iam_channels \<times> Error" where
  "start_handler env name channel s =
     (case PBHandler_Init name channel (ih_handler s) of
        (h, err) \<Rightarrow>
          if err \<noteq> ENone then (s\<lparr>ih_handler := h\<rparr>, AOS_ERROR_WRAP err)
          else (case PBHandler_Start (he_run env) h of
            (h', err) \<Rightarrow>
              if err \<noteq> ENone then (s\<lparr>ih_handler := h'\<rparr>, AOS_ERROR_WRAP err) else (s\<lparr>ih_handler := h'\<rparr>, ENone)))"

definition IAM_SetupChannel :: "iam_ports \<Rightarrow> handle_env \<Rightarrow> 't iam_channels \<Rightarrow> 't iam_channels \<times> Error" where
  "IAM_SetupChannel gc env s =
     (if ni_mStatus (ic_mNodeInfo (ih_client s)) = eUnprovisioned then
        (case CreateChannel (gc_cOpenPort gc) (ih_manager s) of
          (cm, err) \<Rightarrow>
            if err \<noteq> ENone then (s\<lparr>ih_manager := cm\<rparr>, AOS_ERROR_WRAP err)
            else start_handler env ''IAM open'' (Plain (gc_cOpenPort gc))
              (s\<lparr>ih_manager := cm, ih_client := (ih_client s)\<lparr>ic_mCurrentPort := gc_cOpenPort gc\<rparr>\<rparr>))
      else
        (case CreateChannel (gc_cSecurePort gc) (ih_manager s) of
          (cm, err) \<Rightarrow>
            if err \<noteq> ENone then (s\<lparr>ih_manager := cm\<rparr>, AOS_ERROR_WRAP err)
            else
              (let s1 = s\<lparr>ih_manager := cm, ih_client := (ih_client s)\<lparr>ic_mCurrentPort := gc_cSecurePort gc\<rparr>\<rparr> in
               if he_SubscribeCertChanged env \<noteq> ENone then (s1, AOS_ERROR_WRAP (he_SubscribeCertChanged env))
               else
                 (let s2 = s1\<lparr>ih_subscribed := True\<rparr> in
                  case TLSChannel_Init ''iam'' (gc_cSecurePort gc) (ih_tls s2) of
                    (tls, err) \<Rightarrow>
                      if err \<noteq> ENone then (s2\<lparr>ih_tls := tls\<rparr>, AOS_ERROR_WRAP err)
                      else (case SetTLSConfig (he_tls env) ''iam'' tls of
                        (tls', err) \<Rightarrow>
                          if err \<noteq> ENone then (s2\<lparr>ih_tls := tls'\<rparr>, AOS_ERROR_WRAP err)
                          else start_handler env ''IAM secure'' (Secure (gc_cSecurePort gc)) (s2\<lparr>ih_tls := tls'\<rparr>))))))"

section \<open>The thread\<close>

text \<open>
  \<open>HReleasing\<close>: about to release; \<open>HLocked\<close>: taking the lock; \<open>HWaitClock\<close>: in
  \<open>WaitClockSynced\<close>; \<open>HSetup\<close>: setting up, with the lock held; \<open>HRetry\<close>: in the timed wait
  after a failed setup; \<open>HConnected\<close>: in \<open>WaitReconnect\<close>. A wait that cannot end stays.
\<close>

datatype handle_phase = HReleasing | HLocked | HWaitClock | HSetup | HRetry | HConnected | HStopped

definition HandleChannels_step ::
  "iam_ports \<Rightarrow> handle_env \<Rightarrow> bool \<Rightarrow> handle_phase \<times> 't iam_channels \<Rightarrow> handle_phase \<times> 't iam_channels" where
  "HandleChannels_step gc env timeout st =
     (case st of (ph, s) \<Rightarrow>
       (case ph of
          HReleasing \<Rightarrow> (HLocked, fst (IAM_ReleaseChannel env s))
        | HLocked \<Rightarrow> (if ic_mClose (ih_client s) then HStopped else HWaitClock, s)
        | HWaitClock \<Rightarrow>
            (if ic_mClose (ih_client s) then HReleasing else if ic_mClockSynced (ih_client s) then HSetup else HWaitClock, s)
        | HSetup \<Rightarrow>
            (case IAM_SetupChannel gc env s of (s', err) \<Rightarrow> (if err \<noteq> ENone then HRetry else HConnected, s'))
        | HRetry \<Rightarrow> (if ic_mClose (ih_client s) \<or> timeout then HReleasing else HRetry, s)
        | HConnected \<Rightarrow>
            if ic_mReconnect (ih_client s) \<or> ic_mClose (ih_client s)
            then (HReleasing, s\<lparr>ih_client := (ih_client s)\<lparr>ic_mReconnect := False\<rparr>\<rparr>)
            else (HConnected, s)
        | HStopped \<Rightarrow> (HStopped, s)))"

text \<open>The two waits of the thread: none while they go on, then whether the thread goes on.\<close>

definition WaitReconnect :: "IAMClient \<Rightarrow> (bool \<times> IAMClient) option" where
  "WaitReconnect c = (if ic_mReconnect c \<or> ic_mClose c then Some (\<not> ic_mClose c, c\<lparr>ic_mReconnect := False\<rparr>) else None)"

definition WaitClockSynced :: "IAMClient \<Rightarrow> bool option" where
  "WaitClockSynced c = (if ic_mClockSynced c \<or> ic_mClose c then Some (\<not> ic_mClose c) else None)"

lemma HandleChannels_waits:
  "HandleChannels_step gc env timeout (HWaitClock, s) =
     ((case WaitClockSynced (ih_client s) of None \<Rightarrow> HWaitClock | Some go \<Rightarrow> if go then HSetup else HReleasing), s)"
  "HandleChannels_step gc env timeout (HConnected, s) =
     (case WaitReconnect (ih_client s) of None \<Rightarrow> (HConnected, s) | Some (go, c) \<Rightarrow> (HReleasing, s\<lparr>ih_client := c\<rparr>))"
  by (simp_all add: HandleChannels_step_def WaitClockSynced_def WaitReconnect_def)

text \<open>\<open>Stop\<close> stops the handler and drops the subscriptions, and then closes the thread.\<close>

definition IAM_Stop_begin :: "handle_env \<Rightarrow> 't iam_channels \<Rightarrow> 't iam_channels" where
  "IAM_Stop_begin env s =
     (case PBHandler_Stop (he_itf env) (he_join env) (ih_handler s) of
        (h, err) \<Rightarrow> fst (UnsubscribeCert env (s\<lparr>ih_handler := h, ih_stopping := True\<rparr>)))"

definition IAM_Stop_close :: "'t iam_channels \<Rightarrow> 't iam_channels" where
  "IAM_Stop_close s = s\<lparr>ih_client := (ih_client s)\<lparr>ic_mClose := True\<rparr>\<rparr>"

text \<open>\<open>Start\<close>, after its two subscriptions: the client takes the node info of the provider.\<close>

definition IAM_Start :: "Error \<Rightarrow> Error \<Rightarrow> 'o NodeInfoProvider \<Rightarrow> Error \<Rightarrow> IAMClient \<Rightarrow> IAMClient \<times> Error" where
  "IAM_Start subscribeClock subscribeStatus np run c =
     (if subscribeClock \<noteq> ENone then (c, AOS_ERROR_WRAP subscribeClock)
      else if subscribeStatus \<noteq> ENone then (c, AOS_ERROR_WRAP subscribeStatus)
      else (case GetNodeInfo np of
        (info, err) \<Rightarrow>
          (let c' = c\<lparr>ic_mNodeInfo := info\<rparr> in
           if err \<noteq> ENone then (c', AOS_ERROR_WRAP err)
           else if run \<noteq> ENone then (c', AOS_ERROR_WRAP run) else (c', ENone))))"

section \<open>Runs\<close>

text \<open>
  The thread, the callbacks and \<open>Stop\<close> interleave; others use the manager with other ports
  and the callbacks come while the lock is free, that is, outside \<open>HSetup\<close>: the status and the
  certificate only change while the client handles a message, which it does under its lock.
\<close>

inductive handle_reach :: "iam_ports \<Rightarrow> handle_phase \<times> 't iam_channels \<Rightarrow> bool" for gc where
  start: "handle_reach gc (HReleasing, s)" if "ic_mCurrentPort (ih_client s) = 0" "\<not> pb_mStarted (ih_handler s)"
    "map_of (cm_mChannels (ih_manager s)) (gc_cOpenPort gc) = None"
    "map_of (cm_mChannels (ih_manager s)) (gc_cSecurePort gc) = None" "\<not> ih_stopping s" "\<not> ic_mClose (ih_client s)"
| thread: "handle_reach gc (HandleChannels_step gc env timeout st)" if "handle_reach gc st"
| synced: "handle_reach gc (ph, s\<lparr>ih_client := IAM_OnClockSynced (ih_client s)\<rparr>)" if "handle_reach gc (ph, s)" "ph \<noteq> HSetup"
| unsynced: "handle_reach gc (ph, s\<lparr>ih_client := IAM_OnClockUnsynced (ih_client s)\<rparr>)" if "handle_reach gc (ph, s)" "ph \<noteq> HSetup"
| cert: "handle_reach gc (ph, s\<lparr>ih_client := IAM_OnCertChanged (ih_client s)\<rparr>)" if "handle_reach gc (ph, s)" "ph \<noteq> HSetup"
| status: "handle_reach gc (ph, s\<lparr>ih_client := fst (IAM_status_update status (ih_client s))\<rparr>)" if "handle_reach gc (ph, s)" "ph \<noteq> HSetup"
| create: "handle_reach gc (ph, s\<lparr>ih_manager := fst (CreateChannel port (ih_manager s))\<rparr>)"
    if "handle_reach gc (ph, s)" "port \<noteq> gc_cOpenPort gc" "port \<noteq> gc_cSecurePort gc"
| delete: "handle_reach gc (ph, s\<lparr>ih_manager := fst (DeleteChannel port (ih_manager s))\<rparr>)"
    if "handle_reach gc (ph, s)" "port \<noteq> gc_cOpenPort gc" "port \<noteq> gc_cSecurePort gc"
| stop_begin: "handle_reach gc (ph, IAM_Stop_begin env s)" if "handle_reach gc (ph, s)"
| stop_close: "handle_reach gc (ph, IAM_Stop_close s)" if "handle_reach gc (ph, s)" "ih_stopping s" "ph \<noteq> HSetup"

section \<open>The invariant\<close>

lemma CreateChannel_cases:
  assumes "CreateChannel p cm = (cm', err)"
  shows "if err = ENone then map_of (cm_mChannels cm') p \<noteq> None \<and>
      (\<forall>q. q \<noteq> p \<longrightarrow> map_of (cm_mChannels cm') q = map_of (cm_mChannels cm) q) else cm' = cm"
  using assms by (auto simp: CreateChannel_def map_Set_def update_conv' split: option.splits prod.splits if_splits)

lemma DeleteChannel_lookup:
  "map_of (cm_mChannels (fst (DeleteChannel p cm))) q = (if q = p then None else map_of (cm_mChannels cm) q)"
  by (auto simp: DeleteChannel_def map_Remove_def delete_conv' split: option.splits)

definition has_channel :: "u32 \<Rightarrow> 't iam_channels \<Rightarrow> bool" where
  "has_channel p s \<longleftrightarrow> map_of (cm_mChannels (ih_manager s)) p \<noteq> None"

text \<open>A started handler runs on the channel of the current port, and on the secure port behind TLS.\<close>

definition handler_ok :: "iam_ports \<Rightarrow> 't iam_channels \<Rightarrow> bool" where
  "handler_ok gc s \<longleftrightarrow> has_channel (ic_mCurrentPort (ih_client s)) s \<and>
     (pb_mChannel (ih_handler s) = Plain (gc_cOpenPort gc) \<and> ic_mCurrentPort (ih_client s) = gc_cOpenPort gc \<or>
      pb_mChannel (ih_handler s) = Secure (gc_cSecurePort gc) \<and> ic_mCurrentPort (ih_client s) = gc_cSecurePort gc \<and>
      tl_mCertType (ih_tls s) \<noteq> [])"

definition mode_ok :: "iam_ports \<Rightarrow> 't iam_channels \<Rightarrow> bool" where
  "mode_ok gc s \<longleftrightarrow> (pb_mChannel (ih_handler s) = Plain (gc_cOpenPort gc) \<longleftrightarrow>
     ni_mStatus (ic_mNodeInfo (ih_client s)) = eUnprovisioned)"

definition released :: "iam_ports \<Rightarrow> 't iam_channels \<Rightarrow> bool" where
  "released gc s \<longleftrightarrow> \<not> pb_mStarted (ih_handler s) \<and> \<not> has_channel (gc_cOpenPort gc) s \<and> \<not> has_channel (gc_cSecurePort gc) s"

fun handle_inv :: "iam_ports \<Rightarrow> handle_phase \<times> 't iam_channels \<Rightarrow> bool" where
  "handle_inv gc (ph, s) \<longleftrightarrow>
     (\<forall>p\<in>{gc_cOpenPort gc, gc_cSecurePort gc}. has_channel p s \<longrightarrow> p = ic_mCurrentPort (ih_client s)) \<and>
     (pb_mStarted (ih_handler s) \<longrightarrow> handler_ok gc s) \<and>
     (ph \<in> {HLocked, HWaitClock, HSetup, HStopped} \<longrightarrow> released gc s) \<and>
     (ph = HRetry \<longrightarrow> \<not> pb_mStarted (ih_handler s)) \<and>
     (ph = HConnected \<longrightarrow> (pb_mStarted (ih_handler s) \<or> ih_stopping s) \<and>
        (pb_mStarted (ih_handler s) \<and> \<not> ic_mReconnect (ih_client s) \<longrightarrow> mode_ok gc s))"

lemma PBHandler_Stop_stopped [simp]: "pb_mStarted (fst (PBHandler_Stop ci join h)) = False"
  by (simp add: PBHandler_Stop_def)

lemma ReleaseChannel_sel:
  assumes "ic_mCurrentPort (ih_client s) \<noteq> 0"
  shows "ih_handler (fst (IAM_ReleaseChannel env s)) = fst (PBHandler_Stop (he_itf env) (he_join env) (ih_handler s))"
    "ih_manager (fst (IAM_ReleaseChannel env s)) = fst (DeleteChannel (ic_mCurrentPort (ih_client s)) (ih_manager s))"
    "ih_stopping (fst (IAM_ReleaseChannel env s)) = ih_stopping s"
  using assms by (simp_all add: IAM_ReleaseChannel_def UnsubscribeCert_def Let_def split_beta)

lemma Stop_begin_sel [simp]:
  "ih_client (IAM_Stop_begin env s) = ih_client s" "ih_manager (IAM_Stop_begin env s) = ih_manager s"
  "pb_mStarted (ih_handler (IAM_Stop_begin env s)) = False" "ih_stopping (IAM_Stop_begin env s) = True"
  by (simp_all add: IAM_Stop_begin_def UnsubscribeCert_def split_beta)

locale distinct_ports =
  fixes gc :: iam_ports
  assumes open_secure: "gc_cOpenPort gc \<noteq> gc_cSecurePort gc"
    and nonzero: "gc_cOpenPort gc \<noteq> 0" "gc_cSecurePort gc \<noteq> 0"
begin

lemma release_released:
  assumes "handle_inv gc (ph, s)"
  shows "released gc (fst (IAM_ReleaseChannel env s)) \<and> ih_stopping (fst (IAM_ReleaseChannel env s)) = ih_stopping s"
proof (cases "ic_mCurrentPort (ih_client s) = 0")
  case True
  with assms nonzero show ?thesis
    by (auto simp: IAM_ReleaseChannel_def released_def handler_ok_def)
next
  case False
  with assms show ?thesis
    by (auto simp: ReleaseChannel_sel released_def has_channel_def DeleteChannel_lookup)
qed

lemma start_handler_cases:
  assumes "start_handler env name l s = (s', err)" "\<not> pb_mStarted (ih_handler s)"
  shows "ih_client s' = ih_client s \<and> ih_manager s' = ih_manager s \<and> ih_tls s' = ih_tls s \<and> ih_stopping s' = ih_stopping s \<and>
    pb_mStarted (ih_handler s') = (err = ENone) \<and> pb_mChannel (ih_handler s') = l"
  using assms by (auto simp: start_handler_def PBHandler_Init_def PBHandler_Start_def split: prod.splits if_splits)

text \<open>What setting up gives, from a released state.\<close>

lemma setup_inv:
  assumes "released gc s" "IAM_SetupChannel gc env s = (s', err)"
  shows "handle_inv gc (if err = ENone then HConnected else HRetry, s') \<and> ih_stopping s' = ih_stopping s"
proof (cases "ni_mStatus (ic_mNodeInfo (ih_client s)) = eUnprovisioned")
  case True
  obtain cm e where c: "CreateChannel (gc_cOpenPort gc) (ih_manager s) = (cm, e)" by fastforce
  show ?thesis
    using assms True c CreateChannel_cases [OF c] open_secure
      start_handler_cases [of env "''IAM open''" "Plain (gc_cOpenPort gc)"
        "s\<lparr>ih_manager := cm, ih_client := (ih_client s)\<lparr>ic_mCurrentPort := gc_cOpenPort gc\<rparr>\<rparr>" s' err]
    by (auto simp: IAM_SetupChannel_def released_def has_channel_def handler_ok_def mode_ok_def split: if_splits)
next
  case False
  obtain cm e where c: "CreateChannel (gc_cSecurePort gc) (ih_manager s) = (cm, e)" by fastforce
  obtain tls e' where t: "SetTLSConfig (he_tls env) ''iam'' (fst (TLSChannel_Init ''iam'' (gc_cSecurePort gc) (ih_tls s))) = (tls, e')"
    by fastforce
  have tls: "e' = ENone \<longrightarrow> tl_mCertType tls \<noteq> []"
    using t by (auto simp: SetTLSConfig_def Let_def split: prod.splits if_splits)
  show ?thesis
    using assms False c CreateChannel_cases [OF c] open_secure t tls
      start_handler_cases [of env "''IAM secure''" "Secure (gc_cSecurePort gc)"
        "s\<lparr>ih_manager := cm, ih_client := (ih_client s)\<lparr>ic_mCurrentPort := gc_cSecurePort gc\<rparr>, ih_subscribed := True, ih_tls := tls\<rparr>" s' err]
    by (auto simp: IAM_SetupChannel_def TLSChannel_Init_def released_def has_channel_def handler_ok_def mode_ok_def Let_def
        split: if_splits)
qed

lemma thread_inv:
  assumes "handle_inv gc (ph, s)"
  shows "handle_inv gc (HandleChannels_step gc env timeout (ph, s))"
proof (cases ph)
  case HReleasing
  with release_released [OF assms, of env] show ?thesis
    by (auto simp: HandleChannels_step_def released_def)
next
  case HSetup
  obtain s' err where s': "IAM_SetupChannel gc env s = (s', err)" by fastforce
  have "released gc s" using HSetup assms by simp
  from setup_inv [OF this s'] have "handle_inv gc (if err = ENone then HConnected else HRetry, s')" ..
  with HSetup s' show ?thesis by (simp only: HandleChannels_step_def prod.case handle_phase.case) (cases "err = ENone"; simp)
qed (use assms in \<open>auto simp: HandleChannels_step_def released_def handler_ok_def has_channel_def\<close>)

lemma client_event_inv:
  assumes "handle_inv gc (ph, s)" "ic_mCurrentPort c = ic_mCurrentPort (ih_client s)"
    and "ic_mReconnect c \<or> (\<not> ic_mReconnect (ih_client s) \<and>
      (ni_mStatus (ic_mNodeInfo c) = eUnprovisioned \<longleftrightarrow> ni_mStatus (ic_mNodeInfo (ih_client s)) = eUnprovisioned))"
  shows "handle_inv gc (ph, s\<lparr>ih_client := c\<rparr>)"
  using assms by (auto simp: released_def handler_ok_def has_channel_def mode_ok_def)

lemma manager_event_inv:
  assumes "handle_inv gc (ph, s)" "\<forall>p\<in>{gc_cOpenPort gc, gc_cSecurePort gc}. map_of (cm_mChannels cm) p = map_of (cm_mChannels (ih_manager s)) p"
  shows "handle_inv gc (ph, s\<lparr>ih_manager := cm\<rparr>)"
proof -
  let ?s = "s\<lparr>ih_manager := cm\<rparr>"
  have hc: "has_channel (gc_cOpenPort gc) ?s = has_channel (gc_cOpenPort gc) s"
    "has_channel (gc_cSecurePort gc) ?s = has_channel (gc_cSecurePort gc) s"
    using assms(2) by (simp_all add: has_channel_def)
  moreover have "handler_ok gc ?s = handler_ok gc s"
    unfolding handler_ok_def using hc by fastforce
  moreover have "released gc ?s = released gc s" "mode_ok gc ?s = mode_ok gc s"
    using hc by (simp_all add: released_def mode_ok_def)
  ultimately show ?thesis using assms(1) by simp
qed

lemma reach_inv: "handle_reach gc st \<Longrightarrow> handle_inv gc st"
proof (induction rule: handle_reach.induct)
  case (start s)
  then show ?case by (simp add: has_channel_def)
next
  case (thread st env timeout)
  then show ?case by (cases st) (simp only: thread_inv)
next
  case (status ph s st)
  show ?case
    by (rule client_event_inv [OF status.IH]) (auto simp: IAM_status_update_def Let_def)
next
  case (create ph s port)
  obtain cm e where "CreateChannel port (ih_manager s) = (cm, e)" by fastforce
  with manager_event_inv [OF create.IH, of cm] CreateChannel_cases [OF this] create.hyps show ?case
    by (simp split: if_splits)
next
  case (delete ph s port)
  with manager_event_inv [OF delete.IH, of "fst (DeleteChannel port (ih_manager s))"] show ?case
    by (simp add: DeleteChannel_lookup)
next
  case (stop_begin ph s env)
  then show ?case
    by (auto simp: released_def has_channel_def)
next
  case (synced ph s)
  show ?case by (rule client_event_inv [OF synced.IH]) (auto simp: IAM_OnClockSynced_def)
next
  case (unsynced ph s)
  show ?case by (rule client_event_inv [OF unsynced.IH]) (auto simp: IAM_OnClockUnsynced_def)
next
  case (cert ph s)
  show ?case by (rule client_event_inv [OF cert.IH]) (auto simp: IAM_OnCertChanged_def)
next
  case (stop_close ph s)
  show ?case unfolding IAM_Stop_close_def by (rule client_event_inv [OF stop_close.IH]) auto
qed

end

text \<open>The defaults of \<open>Kconfig\<close>.\<close>

definition iam_kconfig :: iam_ports where
  "iam_kconfig = \<lparr>gc_cOpenPort = 1, gc_cSecurePort = 2\<rparr>"

interpretation iam_default: distinct_ports iam_kconfig
  by unfold_locales (simp_all add: iam_kconfig_def)

section \<open>Properties\<close>

text \<open>C9. The client is never on the wrong channel: however the callbacks, the other users of the
  manager, failing calls and \<open>Stop\<close> interleave with the thread, a running handler is on the
  open port or on the secure port behind a configured TLS channel, and that channel is in the
  manager; while the thread waits for a reconnect request that has not come, it runs on the
  open port exactly if the node is unprovisioned; and when the thread has ended, the handler is
  stopped and both channels are deleted.\<close>

theorem iam_channel_mode:
  assumes "handle_reach gc (ph, s)"
    and "gc_cOpenPort gc \<noteq> gc_cSecurePort gc" "gc_cOpenPort gc \<noteq> 0" "gc_cSecurePort gc \<noteq> 0"
  shows "(pb_mStarted (ih_handler s) \<longrightarrow>
      map_of (cm_mChannels (ih_manager s)) (ic_mCurrentPort (ih_client s)) \<noteq> None \<and>
      (pb_mChannel (ih_handler s) = Plain (gc_cOpenPort gc) \<and> ic_mCurrentPort (ih_client s) = gc_cOpenPort gc \<or>
       pb_mChannel (ih_handler s) = Secure (gc_cSecurePort gc) \<and> ic_mCurrentPort (ih_client s) = gc_cSecurePort gc \<and>
       tl_mCertType (ih_tls s) \<noteq> [])) \<and>
    (ph = HConnected \<and> \<not> ih_stopping s \<and> \<not> ic_mReconnect (ih_client s) \<longrightarrow> pb_mStarted (ih_handler s) \<and>
      (pb_mChannel (ih_handler s) = Plain (gc_cOpenPort gc) \<longleftrightarrow>
       ni_mStatus (ic_mNodeInfo (ih_client s)) = eUnprovisioned)) \<and>
    (ph = HStopped \<longrightarrow> \<not> pb_mStarted (ih_handler s) \<and>
      map_of (cm_mChannels (ih_manager s)) (gc_cOpenPort gc) = None \<and>
      map_of (cm_mChannels (ih_manager s)) (gc_cSecurePort gc) = None)"
proof -
  have "distinct_ports gc" using assms(2-4) by unfold_locales
  from distinct_ports.reach_inv [OF this assms(1)] show ?thesis
    by (auto simp: handler_ok_def mode_ok_def released_def has_channel_def)
qed

text \<open>Two rounds of an unprovisioned node that has its clock.\<close>

definition demo_handle_env :: "Error \<Rightarrow> handle_env" where
  "demo_handle_env unsub = \<lparr>he_run = ENone, he_join = ENone,
     he_itf = \<lparr>ci_Connect = (\<lambda>c. (c, ENone)), ci_Close = (\<lambda>c. (c, ENone)), ci_Read = (\<lambda>c n. (0, [], c)), ci_Write = (\<lambda>c bs. (0, c))\<rparr>,
     he_SubscribeCertChanged = ENone, he_UnsubscribeCertChanged = unsub, he_tls = demo_tls_env 5 0\<rparr>"

definition demo_channels :: "unit iam_channels" where
  "demo_channels = \<lparr>ih_client = (is_client demo_iam)\<lparr>ic_mCurrentPort := 0\<rparr>, ih_manager = ChannelManager_new (),
     ih_handler = \<lparr>pb_mName = [], pb_mChannel = Plain 0, pb_mStarted = False, pb_cReceiveBufferSize = 100, pb_cSendBufferSize = 100\<rparr>,
     ih_tls = \<lparr>tl_mName = [], tl_mCertType = [], tl_mKeyID = 0, tl_mPrivKey = False, tl_mChannel = 0, tl_psa = {}\<rparr>,
     ih_subscribed = False, ih_stopping = False\<rparr>"

definition demo_thread :: "nat \<Rightarrow> handle_phase \<times> unit iam_channels" where
  "demo_thread n = (HandleChannels_step iam_kconfig (demo_handle_env ENone) False ^^ n) (HReleasing, demo_channels)"

lemma demo_thread_reach: "handle_reach iam_kconfig (demo_thread n)"
proof (induction n)
  case 0
  show ?case
    by (auto simp: demo_thread_def demo_channels_def demo_iam_def ChannelManager_new_def intro!: handle_reach.start)
next
  case (Suc n)
  then show ?case by (simp add: demo_thread_def handle_reach.thread)
qed

lemma iam_channel_mode_witness:
  "fst (demo_thread 4) = HConnected \<and> pb_mStarted (ih_handler (snd (demo_thread 4))) \<and>
   pb_mChannel (ih_handler (snd (demo_thread 4))) = Plain 1"
proof -
  have ph: "fst (demo_thread 4) = HConnected \<and> \<not> ih_stopping (snd (demo_thread 4)) \<and> \<not> ic_mReconnect (ih_client (snd (demo_thread 4)))
      \<and> ni_mStatus (ic_mNodeInfo (ih_client (snd (demo_thread 4)))) = eUnprovisioned"
    by (simp add: demo_thread_def eval_nat_numeral HandleChannels_step_def IAM_ReleaseChannel_def IAM_SetupChannel_def
        demo_channels_def demo_iam_def demo_np_def iam_kconfig_def ChannelManager_new_def CreateChannel_def map_Set_def
        cMaxChannels_def start_handler_def PBHandler_Init_def PBHandler_Start_def demo_handle_env_def)
  have "handle_reach iam_kconfig (fst (demo_thread 4), snd (demo_thread 4))" using demo_thread_reach [of 4] by simp
  from iam_channel_mode [OF this] ph show ?thesis by (auto simp: iam_kconfig_def)
qed

text \<open>A failed unsubscription is not reported: when stopping the handler and deleting the
  channel succeed, \<open>ReleaseChannel\<close> returns no error although the certificate handler keeps
  the client's subscription.\<close>

theorem iam_release_hides_unsubscribe:
  assumes "ic_mCurrentPort (ih_client s) \<noteq> 0" "he_join env = ENone" "he_UnsubscribeCertChanged env \<noteq> ENone"
    and "map_of (cm_mChannels (ih_manager s)) (ic_mCurrentPort (ih_client s)) = Some ch"
  shows "snd (IAM_ReleaseChannel env s) = ENone \<and> ih_subscribed (fst (IAM_ReleaseChannel env s)) = ih_subscribed s"
  using assms
  by (simp add: IAM_ReleaseChannel_def PBHandler_Stop_def DeleteChannel_def map_Remove_def UnsubscribeCert_def Let_def split_beta)

lemma iam_release_hides_unsubscribe_witness:
  "snd (IAM_ReleaseChannel (demo_handle_env (EEnum eNotFound)) (snd (demo_thread 4))) = ENone"
proof -
  have "ic_mCurrentPort (ih_client (snd (demo_thread 4))) = 1 \<and>
      map_of (cm_mChannels (ih_manager (snd (demo_thread 4)))) 1 = Some (Channel_new 1)"
    by (simp add: demo_thread_def eval_nat_numeral HandleChannels_step_def IAM_ReleaseChannel_def IAM_SetupChannel_def
        demo_channels_def demo_iam_def demo_np_def iam_kconfig_def ChannelManager_new_def CreateChannel_def map_Set_def
        cMaxChannels_def start_handler_def PBHandler_Init_def PBHandler_Start_def demo_handle_env_def)
  with iam_release_hides_unsubscribe [of "snd (demo_thread 4)" "demo_handle_env (EEnum eNotFound)" "Channel_new 1"] show ?thesis
    by (simp add: demo_handle_env_def)
qed

end
