(* ===== verification/Posix.thy ===== *)
theory Posix
  imports FileStorage
begin

text \<open>
  The part of the POSIX file interface that the downloader, the log reader and the log backend
  use: files by path, a table of open descriptors of which the lowest free one is taken, and
  injected faults as in the file storage. No component renames or removes a file it has
  open, so a descriptor refers to its file by path.
\<close>

section \<open>Files and descriptors\<close>

record fs_world =
  fw_files :: "string \<rightharpoonup> byte list"
  fw_fds :: "(string \<times> nat) option list"
  fw_faults :: "fault list"

definition pop_fault :: "fs_world \<Rightarrow> fault \<times> fs_world" where
  "pop_fault w = (case fw_faults w of [] \<Rightarrow> (FOk, w) | f # fs \<Rightarrow> (f, w\<lparr>fw_faults := fs\<rparr>))"

definition fd_of :: "fs_world \<Rightarrow> nat \<Rightarrow> (string \<times> nat) option" where
  "fd_of w n = (if n < length (fw_fds w) then fw_fds w ! n else None)"

definition content :: "fs_world \<Rightarrow> string \<Rightarrow> byte list" where
  "content w p = (case fw_files w p of None \<Rightarrow> [] | Some bs \<Rightarrow> bs)"

definition free_fd :: "fs_world \<Rightarrow> nat" where
  "free_fd w = length (takeWhile (\<lambda>e. e \<noteq> None) (fw_fds w))"

definition set_fd :: "nat \<Rightarrow> (string \<times> nat) option \<Rightarrow> fs_world \<Rightarrow> fs_world" where
  "set_fd n e w =
     w\<lparr>fw_fds := (if n < length (fw_fds w) then (fw_fds w)[n := e] else fw_fds w @ [e])\<rparr>"

text \<open>\<open>open\<close> with \<open>O_CREAT\<close> and without \<open>O_TRUNC\<close>: an existing file keeps its content.\<close>

definition open_creat :: "string \<Rightarrow> fs_world \<Rightarrow> (int + nat) \<times> fs_world" where
  "open_creat p w =
     (case pop_fault w of
        (FErr e, w1) \<Rightarrow> (Inl e, w1)
      | (_, w1) \<Rightarrow>
          (Inr (free_fd w1), set_fd (free_fd w1) (Some (p, 0)) (w1\<lparr>fw_files := (fw_files w1)(p \<mapsto> content w1 p)\<rparr>)))"

text \<open>\<open>write\<close> at the descriptor's offset; a fault may shorten it. It returns the bytes written.\<close>

definition write_fd :: "nat \<Rightarrow> byte list \<Rightarrow> fs_world \<Rightarrow> (int + nat) \<times> fs_world" where
  "write_fd n bs w =
     (case fd_of w n of
        None \<Rightarrow> (Inl EBADF, w)
      | Some (p, off) \<Rightarrow>
          (case pop_fault w of
             (FErr e, w1) \<Rightarrow> (Inl e, w1)
           | (f, w1) \<Rightarrow>
               (let m = (case f of FShort k \<Rightarrow> min k (length bs) | _ \<Rightarrow> length bs)
                in (Inr m, set_fd n (Some (p, off + m))
                     (w1\<lparr>fw_files := (fw_files w1)(p \<mapsto> overwrite off (take m bs) (content w1 p))\<rparr>)))))"

definition close_fd :: "nat \<Rightarrow> fs_world \<Rightarrow> int option \<times> fs_world" where
  "close_fd n w =
     (case fd_of w n of
        None \<Rightarrow> (Some EBADF, w)
      | Some _ \<Rightarrow>
          (case pop_fault w of
             (FErr e, w1) \<Rightarrow> (Some e, set_fd n None w1)
           | (_, w1) \<Rightarrow> (None, set_fd n None w1)))"

section \<open>Lemmas\<close>

lemma free_fd_le: "free_fd w \<le> length (fw_fds w)"
  by (simp add: free_fd_def length_takeWhile_le)

lemma free_fd_free [simp]: "fd_of w (free_fd w) = None"
proof (cases "free_fd w < length (fw_fds w)")
  case True
  then have "\<not> (fw_fds w ! free_fd w \<noteq> None)"
    unfolding free_fd_def by (rule nth_length_takeWhile)
  then show ?thesis by (cases "fw_fds w ! free_fd w") (auto simp: fd_of_def)
qed (simp add: fd_of_def)

lemma fd_of_set: "n \<le> length (fw_fds w) \<Longrightarrow> fd_of (set_fd n e w) m = (if m = n then e else fd_of w m)"
  by (auto simp: fd_of_def set_fd_def nth_append nth_list_update)

lemma fd_of_Some_less: "fd_of w n = Some e \<Longrightarrow> n < length (fw_fds w)"
  by (simp add: fd_of_def split: if_splits)

lemma set_fd_sel [simp]: "fw_files (set_fd n e w) = fw_files w" "fw_faults (set_fd n e w) = fw_faults w"
  by (simp_all add: set_fd_def)

lemma fd_of_files [simp]: "fd_of (w\<lparr>fw_files := f\<rparr>) n = fd_of w n" "free_fd (w\<lparr>fw_files := f\<rparr>) = free_fd w"
  by (simp_all add: fd_of_def free_fd_def)

text \<open>Without faults.\<close>

lemma open_creat_ok:
  assumes "fw_faults w = []"
  shows "\<exists>w'. open_creat p w = (Inr (free_fd w), w') \<and> fw_faults w' = [] \<and>
    fw_files w' = (fw_files w)(p \<mapsto> content w p) \<and>
    (\<forall>n. fd_of w' n = (if n = free_fd w then Some (p, 0) else fd_of w n))"
  using assms free_fd_le [of w] by (simp add: open_creat_def pop_fault_def fd_of_set)

lemma write_fd_ok:
  assumes "fw_faults w = []" "fd_of w n = Some (p, off)"
  shows "\<exists>w'. write_fd n bs w = (Inr (length bs), w') \<and> fw_faults w' = [] \<and>
    fw_files w' = (fw_files w)(p \<mapsto> overwrite off bs (content w p)) \<and>
    (\<forall>m. fd_of w' m = (if m = n then Some (p, off + length bs) else fd_of w m))"
  using assms fd_of_Some_less [OF assms(2)] by (simp add: write_fd_def pop_fault_def fd_of_set Let_def)

lemma close_fd_ok:
  assumes "fw_faults w = []" "fd_of w n = Some e"
  shows "\<exists>w'. close_fd n w = (None, w') \<and> fw_faults w' = [] \<and> fw_files w' = fw_files w \<and>
    (\<forall>m. fd_of w' m = (if m = n then None else fd_of w m))"
  using assms fd_of_Some_less [OF assms(2)] by (simp add: close_fd_def pop_fault_def fd_of_set)

end
