(* ===== verification/Downloader.thy ===== *)
theory Downloader
  imports Posix
begin

text \<open>
  \<open>src/downloader/downloader.cpp\<close>: a download asks for an image, and the chunks of its files
  are written as they arrive until the last file is done or an error or the timer ends the
  wait. \<open>Download\<close> is split at its wait; the mutex makes the parts and the receivers atomic.
\<close>

section \<open>State\<close>

record FileInfo =
  fi_mRelativePath :: string
  fi_mSHA256 :: "byte list"
  fi_mSize :: u64

record ImageContentInfo =
  im_mRequestID :: u64
  im_mFiles :: "FileInfo list"
  im_mError :: Error

record FileChunk =
  fc_mRequestID :: u64
  fc_mRelativePath :: string
  fc_mPartsCount :: u64
  fc_mPart :: u64
  fc_mData :: "byte list"

record ImageContentRequest =
  ir_mURL :: string
  ir_mRequestID :: u64
  ir_mContentType :: nat

text \<open>No descriptor is \<open>None\<close>; the source has \<open>-1\<close>.\<close>

record DownloadResult =
  dr_mRelativePath :: string
  dr_mFile :: "nat option"
  dr_mIsDone :: bool

definition cMaxDownloadResults :: nat where "cMaxDownloadResults = 32"

record Downloader =
  dl_mErrProcessImageRequest :: Error
  dl_mRequestedPath :: string
  dl_mDownloadResults :: "DownloadResult list"
  dl_mRequestID :: u64
  dl_mFinishDownload :: bool
  dl_timer :: bool

text \<open>
  The library's path functions, the results of its calls, and \<open>errno\<close> after a failed
  \<open>MakeDirAll\<close>.
\<close>

record download_env =
  de_JoinPath :: "string \<Rightarrow> string \<Rightarrow> string"
  de_timer_Start :: Error
  de_timer_Stop :: Error
  de_SendImageContentRequest :: "ImageContentRequest \<Rightarrow> Error"
  de_Dir :: "string \<Rightarrow> string"
  de_MakeDirAll :: "string \<Rightarrow> Error"
  de_errno :: int

section \<open>Operations\<close>

definition SetErrorAndNotify :: "Error \<Rightarrow> Downloader \<Rightarrow> Downloader" where
  "SetErrorAndNotify err d = d\<lparr>dl_mFinishDownload := True, dl_mErrProcessImageRequest := err\<rparr>"

text \<open>The timer's callback.\<close>

definition Timer_fires :: "Downloader \<Rightarrow> Downloader" where
  "Timer_fires d = (SetErrorAndNotify (AOS_ERROR_WRAP (EEnum eTimeout)) d)\<lparr>dl_timer := False\<rparr>"

definition IsAllDownloadDone :: "DownloadResult list \<Rightarrow> bool" where
  "IsAllDownloadDone rs \<longleftrightarrow> list_all dr_mIsDone rs"

text \<open>\<open>Download\<close> up to its wait, \<open>None\<close> when it waits; a failed request leaves the timer on.\<close>

definition Download_begin :: "download_env \<Rightarrow> string \<Rightarrow> string \<Rightarrow> nat \<Rightarrow> Downloader \<Rightarrow> Error option \<times> Downloader" where
  "Download_begin env url path targetType d =
     (let d1 = d\<lparr>dl_mFinishDownload := False, dl_mDownloadResults := []\<rparr> in
      if de_timer_Start env \<noteq> ENone then (Some (AOS_ERROR_WRAP (de_timer_Start env)), d1)
      else
        (let requestID = dl_mRequestID d1 + 1;
             err = de_SendImageContentRequest env \<lparr>ir_mURL = url, ir_mRequestID = requestID, ir_mContentType = targetType\<rparr>;
             d2 = d1\<lparr>dl_timer := True, dl_mRequestedPath := path, dl_mRequestID := requestID,
                     dl_mErrProcessImageRequest := err\<rparr>
         in (if err \<noteq> ENone then Some err else None, d2)))"

fun close_results :: "DownloadResult list \<Rightarrow> Error \<Rightarrow> fs_world \<Rightarrow> Error \<times> fs_world" where
  "close_results [] err w = (err, w)"
| "close_results (r # rs) err w =
     (case dr_mFile r of
        None \<Rightarrow> close_results rs err w
      | Some fd \<Rightarrow>
          (case close_fd fd w of
             (None, w') \<Rightarrow> close_results rs err w'
           | (Some e, w') \<Rightarrow> close_results rs (if err = ENone then AOS_ERROR_WRAP (error_of_int e) else err) w'))"

text \<open>
  \<open>Download\<close> after its wait, \<open>None\<close> while the wait goes on. The closed descriptors stay in
  the results.
\<close>

definition Download_end :: "download_env \<Rightarrow> Downloader \<times> fs_world \<Rightarrow> (Error \<times> Downloader \<times> fs_world) option" where
  "Download_end env st =
     (case st of (d, w) \<Rightarrow>
        if \<not> dl_mFinishDownload d then None
        else if de_timer_Stop env \<noteq> ENone then Some (AOS_ERROR_WRAP (de_timer_Stop env), d, w)
        else (case close_results (dl_mDownloadResults d) (dl_mErrProcessImageRequest d) w of
          (err, w') \<Rightarrow> Some (err, d\<lparr>dl_timer := False, dl_mErrProcessImageRequest := err\<rparr>, w')))"

text \<open>The destructor ends a wait.\<close>

definition Downloader_destroy :: "Downloader \<Rightarrow> Downloader" where
  "Downloader_destroy d = d\<lparr>dl_mFinishDownload := True\<rparr>"

text \<open>A download that the destructor ends returns as if it were complete: no error is set.\<close>

lemma destroyed_download_succeeds:
  assumes "Download_begin env url path ty d = (None, d1)" "de_timer_Stop env = ENone"
  shows "\<exists>d2. Download_end env (Downloader_destroy d1, w) = Some (ENone, d2, w)"
  using assms by (auto simp: Download_begin_def Download_end_def Downloader_destroy_def Let_def split: if_splits)

text \<open>\<open>FindIf\<close>: the first result with the chunk's path.\<close>

fun find_result :: "string \<Rightarrow> DownloadResult list \<Rightarrow> nat option" where
  "find_result p [] = None"
| "find_result p (r # rs) = (if dr_mRelativePath r = p then Some 0 else map_option Suc (find_result p rs))"

text \<open>
  The second half of \<open>ReceiveFileChunk\<close>, from the write on, for the result \<open>r\<close> at \<open>i\<close> with the
  descriptor \<open>fd\<close>. A write that takes only part of the data counts as done.
\<close>

definition deliver ::
  "FileChunk \<Rightarrow> nat \<Rightarrow> DownloadResult \<Rightarrow> nat \<Rightarrow> Downloader \<times> fs_world \<Rightarrow> Error \<times> Downloader \<times> fs_world" where
  "deliver chunk i r fd st = (case st of (d, w) \<Rightarrow>
     (case write_fd fd (fc_mData chunk) w of
        (Inl e, w1) \<Rightarrow> (AOS_ERROR_WRAP (error_of_int e), SetErrorAndNotify (AOS_ERROR_WRAP (error_of_int e)) d, w1)
      | (Inr m, w1) \<Rightarrow>
          (let d1 = d\<lparr>dl_timer := True\<rparr> in
           if fc_mPart chunk = fc_mPartsCount chunk then
             (case close_fd fd w1 of
                (Some e, w2) \<Rightarrow> (AOS_ERROR_WRAP (error_of_int e), SetErrorAndNotify (AOS_ERROR_WRAP (error_of_int e)) d1, w2)
              | (None, w2) \<Rightarrow>
                  (let d2 = d1\<lparr>dl_mDownloadResults := (dl_mDownloadResults d1)[i := r\<lparr>dr_mFile := None, dr_mIsDone := True\<rparr>]\<rparr>
                   in (ENone, if IsAllDownloadDone (dl_mDownloadResults d2) then d2\<lparr>dl_mFinishDownload := True\<rparr> else d2, w2)))
           else (ENone, d1, w1))))"

text \<open>\<open>ReceiveFileChunk\<close>. The chunk's request identifier is not looked at.\<close>

definition ReceiveFileChunk ::
  "download_env \<Rightarrow> FileChunk \<Rightarrow> Downloader \<times> fs_world \<Rightarrow> Error \<times> Downloader \<times> fs_world" where
  "ReceiveFileChunk env chunk st =
     (case st of (d, w) \<Rightarrow>
       (let fail = (\<lambda>err d w. (err, SetErrorAndNotify err d, w)) in
        case find_result (fc_mRelativePath chunk) (dl_mDownloadResults d) of
          None \<Rightarrow> fail (AOS_ERROR_WRAP (EEnum eNotFound)) d w
        | Some i \<Rightarrow>
            (let path = de_JoinPath env (dl_mRequestedPath d) (fc_mRelativePath chunk);
                 r = dl_mDownloadResults d ! i
             in (case dr_mFile r of
                   Some fd \<Rightarrow> deliver chunk i r fd (d, w)
                 | None \<Rightarrow>
                     if de_MakeDirAll env (de_Dir env path) \<noteq> ENone then fail (AOS_ERROR_WRAP (error_of_int (de_errno env))) d w
                     else (case open_creat path w of
                       (Inl e, w1) \<Rightarrow> fail (AOS_ERROR_WRAP (error_of_int e)) d w1
                     | (Inr fd, w1) \<Rightarrow>
                         deliver chunk i r fd
                           (d\<lparr>dl_mDownloadResults := (dl_mDownloadResults d)[i := r\<lparr>dr_mFile := Some fd\<rparr>]\<rparr>, w1))))))"

fun push_files :: "FileInfo list \<Rightarrow> DownloadResult list \<Rightarrow> DownloadResult list" where
  "push_files [] rs = rs"
| "push_files (f # fs) rs =
     push_files fs (fst (PushBack cMaxDownloadResults rs \<lparr>dr_mRelativePath = fi_mRelativePath f, dr_mFile = None, dr_mIsDone = False\<rparr>))"

definition ReceiveImageContentInfo :: "ImageContentInfo \<Rightarrow> Downloader \<Rightarrow> Error \<times> Downloader" where
  "ReceiveImageContentInfo info d =
     (if im_mRequestID info \<noteq> dl_mRequestID d then (AOS_ERROR_WRAP (EEnum eFailed), d)
      else if im_mError info \<noteq> ENone then (im_mError info, SetErrorAndNotify (im_mError info) d)
      else (ENone, d\<lparr>dl_mDownloadResults := push_files (im_mFiles info) (dl_mDownloadResults d), dl_timer := True\<rparr>))"

section \<open>Well-behaved downloads\<close>

abbreviation final_chunk :: "FileChunk \<Rightarrow> bool" where
  "final_chunk c \<equiv> fc_mPart c = fc_mPartsCount c"

text \<open>Each chunk belongs to a file that is still open, and a file's final chunk closes it.\<close>

fun chunks_ok :: "string set \<Rightarrow> FileChunk list \<Rightarrow> bool" where
  "chunks_ok P [] = True"
| "chunks_ok P (c # cs) \<longleftrightarrow> fc_mRelativePath c \<in> P \<and>
     chunks_ok (if final_chunk c then P - {fc_mRelativePath c} else P) cs"

fun open_after :: "string set \<Rightarrow> FileChunk list \<Rightarrow> string set" where
  "open_after P [] = P"
| "open_after P (c # cs) = open_after (if final_chunk c then P - {fc_mRelativePath c} else P) cs"

definition data_of :: "string \<Rightarrow> FileChunk list \<Rightarrow> byte list" where
  "data_of p cs = concat (map fc_mData (filter (\<lambda>c. fc_mRelativePath c = p) cs))"

fun ReceiveChunks ::
  "download_env \<Rightarrow> FileChunk list \<Rightarrow> Downloader \<times> fs_world \<Rightarrow> Error list \<times> Downloader \<times> fs_world" where
  "ReceiveChunks env [] st = ([], st)"
| "ReceiveChunks env (c # cs) st =
     (case ReceiveFileChunk env c st of (e, st') \<Rightarrow> (case ReceiveChunks env cs st' of (es, st'') \<Rightarrow> (e # es, st'')))"

lemma overwrite_append: "overwrite (length a) b (overwrite 0 a old) = overwrite 0 (a @ b) old"
  by (simp add: overwrite_def add.commute)

lemma find_result_distinct:
  "distinct (map dr_mRelativePath rs) \<Longrightarrow> i < length rs \<Longrightarrow> find_result (dr_mRelativePath (rs ! i)) rs = Some i"
proof (induction rs arbitrary: i)
  case (Cons r rs)
  then show ?case by (cases i) (auto dest: nth_mem)
qed simp

text \<open>
  The invariant of such a download: \<open>J\<close> places the files, \<open>old\<close> is what was there before,
  \<open>P\<close> are the files still open and \<open>acc\<close> what has arrived.
\<close>

definition result_ok ::
  "(string \<Rightarrow> string) \<Rightarrow> (string \<Rightarrow> byte list) \<Rightarrow> string set \<Rightarrow> (string \<Rightarrow> byte list) \<Rightarrow> fs_world \<Rightarrow> DownloadResult \<Rightarrow> bool" where
  "result_ok J old P acc w r \<longleftrightarrow> (let p = dr_mRelativePath r in
     content w (J p) = overwrite 0 (acc p) (old (J p)) \<and> (dr_mIsDone r \<longleftrightarrow> p \<notin> P) \<and>
     (case dr_mFile r of
        None \<Rightarrow> dr_mIsDone r \<or> acc p = []
      | Some fd \<Rightarrow> \<not> dr_mIsDone r \<and> fd_of w fd = Some (J p, length (acc p))))"

definition download_inv ::
  "download_env \<Rightarrow> string list \<Rightarrow> fs_world \<Rightarrow> string set \<Rightarrow> (string \<Rightarrow> byte list) \<Rightarrow> Downloader \<times> fs_world \<Rightarrow> bool" where
  "download_inv env ps w0 P acc st \<longleftrightarrow> (case st of (d, w) \<Rightarrow>
     let J = de_JoinPath env (dl_mRequestedPath d) in
     map dr_mRelativePath (dl_mDownloadResults d) = ps \<and> distinct ps \<and> inj_on J (set ps) \<and> fw_faults w = [] \<and>
     (\<forall>r\<in>set (dl_mDownloadResults d). result_ok J (content w0) P acc w r) \<and>
     (\<forall>q. q \<notin> J ` set ps \<longrightarrow> fw_files w q = fw_files w0 q))"

lemma result_ok_other:
  assumes "result_ok J old P acc w r" "dr_mRelativePath r \<noteq> p" "J (dr_mRelativePath r) \<noteq> J p"
    and "fw_files w' = (fw_files w)(J p \<mapsto> bs)" "P' - {p} = P - {p}"
    and "\<forall>n e. fd_of w n = Some e \<longrightarrow> fst e \<noteq> J p \<longrightarrow> fd_of w' n = Some e"
  shows "result_ok J old P' (acc(p := bs')) w' r"
proof -
  have "content w' (J (dr_mRelativePath r)) = content w (J (dr_mRelativePath r))"
    using assms(3,4) by (simp add: content_def)
  moreover have "dr_mRelativePath r \<in> P' \<longleftrightarrow> dr_mRelativePath r \<in> P" using assms(2,5) by blast
  ultimately show ?thesis
    using assms(1-3,6) by (auto simp: result_ok_def Let_def split: option.splits)
qed

text \<open>The files other than the chunk's do not notice.\<close>

lemma deliver_ok:
  assumes inv: "map dr_mRelativePath (dl_mDownloadResults d) = ps" "distinct ps" "inj_on J (set ps)" "fw_faults w = []"
    and J: "J = de_JoinPath env (dl_mRequestedPath d)"
    and i: "i < length ps" "ps ! i = fc_mRelativePath chunk" "ps ! i \<in> P"
    and fd: "fd_of w fd = Some (J (ps ! i), length (acc (ps ! i)))"
    and here: "content w (J (ps ! i)) = overwrite 0 (acc (ps ! i)) (content w0 (J (ps ! i)))"
    and r: "dr_mRelativePath r = ps ! i"
    and at: "dl_mDownloadResults d ! i = r\<lparr>dr_mFile := Some fd, dr_mIsDone := False\<rparr>"
    and others: "\<forall>j<length ps. j \<noteq> i \<longrightarrow> result_ok J (content w0) P acc w (dl_mDownloadResults d ! j)"
    and rest: "\<forall>q. q \<notin> J ` set ps \<longrightarrow> fw_files w q = fw_files w0 q"
  shows "\<exists>d' w'. deliver chunk i r fd (d, w) = (ENone, d', w') \<and>
    download_inv env ps w0 (if final_chunk chunk then P - {ps ! i} else P)
      (acc(ps ! i := acc (ps ! i) @ fc_mData chunk)) (d', w') \<and> dl_mRequestedPath d' = dl_mRequestedPath d \<and>
    dl_mErrProcessImageRequest d' = dl_mErrProcessImageRequest d \<and>
    dl_mFinishDownload d' = (dl_mFinishDownload d \<or> final_chunk chunk \<and> IsAllDownloadDone (dl_mDownloadResults d'))"
proof -
  let ?p = "ps ! i" and ?bs = "fc_mData chunk" and ?rs = "dl_mDownloadResults d"
  let ?acc = "acc(?p := acc ?p @ ?bs)" and ?P = "if final_chunk chunk then P - {?p} else P"
  have len: "length ?rs = length ps" and path: "\<And>j. j < length ps \<Longrightarrow> dr_mRelativePath (?rs ! j) = ps ! j"
    using inv(1) by auto
  obtain w1 where w1: "write_fd fd ?bs w = (Inr (length ?bs), w1)" "fw_faults w1 = []"
      "fw_files w1 = (fw_files w)(J ?p \<mapsto> overwrite 0 (acc ?p @ ?bs) (content w0 (J ?p)))"
      "\<forall>m. fd_of w1 m = (if m = fd then Some (J ?p, length (acc ?p) + length ?bs) else fd_of w m)"
    using write_fd_ok [OF inv(4) fd, of ?bs] by (auto simp: here overwrite_append)
  obtain w2 where w2: "close_fd fd w1 = (None, w2)" "fw_faults w2 = []" "fw_files w2 = fw_files w1"
      "\<forall>m. fd_of w2 m = (if m = fd then None else fd_of w1 m)"
    using close_fd_ok [OF w1(2), of fd] w1(4) by auto
  have keep: "result_ok J (content w0) ?P ?acc w' (?rs ! j)"
    if "j < length ps" "j \<noteq> i" "fw_files w' = fw_files w1" "\<forall>n e. fd_of w n = Some e \<longrightarrow> fst e \<noteq> J ?p \<longrightarrow> fd_of w' n = Some e" for j w'
  proof (rule result_ok_other)
    show "result_ok J (content w0) P acc w (?rs ! j)" using others that by blast
    have "ps ! j \<noteq> ?p" using that inv(2) i(1) by (simp add: nth_eq_iff_index_eq)
    then show "dr_mRelativePath (?rs ! j) \<noteq> ?p" "J (dr_mRelativePath (?rs ! j)) \<noteq> J ?p"
      using that path i(1) inv(3) by (auto simp: inj_on_eq_iff)
    show "fw_files w' = (fw_files w)(J ?p \<mapsto> overwrite 0 (acc ?p @ ?bs) (content w0 (J ?p)))" using that(3) w1(3) by simp
  qed (use that in auto)
  have out: "J ?p \<in> J ` set ps" using i(1) by simp
  have idx: "(\<forall>r\<in>set rs. Q r) \<longleftrightarrow> (\<forall>j<length ps. Q (rs ! j))" if "length rs = length ps" for rs and Q :: "DownloadResult \<Rightarrow> bool"
    using that by (metis all_set_conv_all_nth)
  show ?thesis
  proof (cases "final_chunk chunk")
    case False
    let ?d = "d\<lparr>dl_timer := True\<rparr>"
    have "deliver chunk i r fd (d, w) = (ENone, ?d, w1)"
      using False w1(1) by (simp add: deliver_def)
    moreover have "download_inv env ps w0 ?P ?acc (?d, w1)"
    proof -
      have "result_ok J (content w0) ?P ?acc w1 (?rs ! j)" if j: "j < length ps" for j
      proof (cases "j = i")
        case True
        have "dr_mFile (?rs ! i) = Some fd" "\<not> dr_mIsDone (?rs ! i)" using at by simp_all
        with False w1(3,4) i(3) path [OF i(1)] True show ?thesis
          by (simp add: result_ok_def Let_def content_def)
      next
        case False
        then show ?thesis by (rule keep [OF j]) (use w1(4) fd in auto)
      qed
      with w1(2,3) inv(1-3) rest out show ?thesis
        by (auto simp: download_inv_def Let_def idx [OF len] J)
    qed
    ultimately show ?thesis using False by simp
  next
    case True
    let ?rs' = "?rs[i := r\<lparr>dr_mFile := None, dr_mIsDone := True\<rparr>]"
    let ?d = "if IsAllDownloadDone ?rs' then d\<lparr>dl_timer := True, dl_mDownloadResults := ?rs', dl_mFinishDownload := True\<rparr>
      else d\<lparr>dl_timer := True, dl_mDownloadResults := ?rs'\<rparr>"
    have sel: "dl_mDownloadResults ?d = ?rs'" "dl_mRequestedPath ?d = dl_mRequestedPath d"
      "dl_mErrProcessImageRequest ?d = dl_mErrProcessImageRequest d"
      "dl_mFinishDownload ?d = (dl_mFinishDownload d \<or> IsAllDownloadDone ?rs')" by simp_all
    have "deliver chunk i r fd (d, w) = (ENone, ?d, w2)"
      using True w1(1) w2(1) by (simp add: deliver_def)
    moreover have "download_inv env ps w0 ?P ?acc (?d, w2)"
    proof -
      have "result_ok J (content w0) ?P ?acc w2 (?rs' ! j)" if j: "j < length ps" for j
      proof (cases "j = i")
        case i': True
        with True w1(3) w2(3) i len r show ?thesis by (simp add: result_ok_def Let_def content_def)
      next
        case False
        then have "?rs' ! j = ?rs ! j" by simp
        with False show ?thesis by (simp only:) (rule keep [OF j], use w1(4) w2(3,4) fd in auto)
      qed
      moreover have "map dr_mRelativePath ?rs' = ps"
        using inv(1) r i(1) by (simp add: map_update list_update_same_conv)
      ultimately show ?thesis using w1(3) w2(2,3) inv(2,3) rest out len
        by (auto simp: download_inv_def sel Let_def idx J)
    qed
    ultimately show ?thesis using True sel by (intro exI [of _ ?d] exI [of _ w2]) simp
  qed
qed

lemma receive_ok:
  assumes inv: "download_inv env ps w0 P acc (d, w)" and p: "fc_mRelativePath chunk \<in> P" "P \<subseteq> set ps"
    and mk: "\<forall>q. de_MakeDirAll env q = ENone"
  defines "p' \<equiv> fc_mRelativePath chunk"
  shows "\<exists>d' w'. ReceiveFileChunk env chunk (d, w) = (ENone, d', w') \<and>
    download_inv env ps w0 (if final_chunk chunk then P - {p'} else P) (acc(p' := acc p' @ fc_mData chunk)) (d', w') \<and>
    dl_mRequestedPath d' = dl_mRequestedPath d \<and> dl_mErrProcessImageRequest d' = dl_mErrProcessImageRequest d \<and>
    dl_mFinishDownload d' = (dl_mFinishDownload d \<or> final_chunk chunk \<and> IsAllDownloadDone (dl_mDownloadResults d'))"
proof -
  let ?rs = "dl_mDownloadResults d" and ?J = "de_JoinPath env (dl_mRequestedPath d)"
  have ps: "map dr_mRelativePath ?rs = ps" "distinct ps" "inj_on ?J (set ps)" "fw_faults w = []"
    and ok: "\<And>r. r \<in> set ?rs \<Longrightarrow> result_ok ?J (content w0) P acc w r"
    and rest: "\<forall>q. q \<notin> ?J ` set ps \<longrightarrow> fw_files w q = fw_files w0 q"
    using inv by (auto simp: download_inv_def Let_def)
  from p ps(1) obtain i where i: "i < length ps" "ps ! i = p'" "i < length ?rs" "dr_mRelativePath (?rs ! i) = p'"
    by (metis in_set_conv_nth length_map nth_map p'_def subsetD)
  let ?r = "?rs ! i"
  have find: "find_result (fc_mRelativePath chunk) ?rs = Some i"
    using find_result_distinct [of ?rs i] ps(1,2) i(3,4) by (simp add: p'_def)
  have ri: "result_ok ?J (content w0) P acc w ?r" using ok i(3) by simp
  have nd: "\<not> dr_mIsDone ?r" using ri p(1) i(4) by (simp add: result_ok_def Let_def p'_def)
  have others: "\<forall>j<length ps. j \<noteq> i \<longrightarrow> result_ok ?J (content w0) P acc w (?rs ! j)"
    using ok ps(1) by auto
  show ?thesis
  proof (cases "dr_mFile ?r")
    case (Some fd)
    have "fd_of w fd = Some (?J (ps ! i), length (acc (ps ! i)))" and "content w (?J (ps ! i)) = overwrite 0 (acc (ps ! i)) (content w0 (?J (ps ! i)))"
      using ri Some i by (simp_all add: result_ok_def Let_def)
    from deliver_ok [where J = ?J and acc = acc and chunk = chunk and env = env and P = P and r = ?r,
        OF ps refl i(1) _ _ this _ _ others rest] show ?thesis
      using Some nd find p(1) i by (auto simp: ReceiveFileChunk_def Let_def p'_def)
  next
    case None
    obtain w1 where w1: "open_creat (?J p') w = (Inr (free_fd w), w1)" "fw_faults w1 = []"
        "fw_files w1 = (fw_files w)(?J p' \<mapsto> content w (?J p'))"
        "\<forall>n. fd_of w1 n = (if n = free_fd w then Some (?J p', 0) else fd_of w n)"
      using open_creat_ok [OF ps(4)] by blast
    let ?rs' = "?rs[i := ?r\<lparr>dr_mFile := Some (free_fd w)\<rparr>]"
    let ?d = "d\<lparr>dl_mDownloadResults := ?rs'\<rparr>"
    have acc: "acc p' = []" using ri None nd i(4) by (simp add: result_ok_def Let_def)
    have same: "content w1 q = content w q" for q using w1(3) by (simp add: content_def)
    have others': "\<forall>j<length ps. j \<noteq> i \<longrightarrow> result_ok ?J (content w0) P acc w1 (?rs' ! j)"
    proof (intro allI impI)
      fix j assume j: "j < length ps" "j \<noteq> i"
      have "fd_of w1 n = Some e" if "fd_of w n = Some e" for n e
        using that w1(4) free_fd_free [of w] by auto
      with j others show "result_ok ?J (content w0) P acc w1 (?rs' ! j)"
        by (auto simp: result_ok_def Let_def same split: option.splits)
    qed
    have map': "map dr_mRelativePath (dl_mDownloadResults ?d) = ps"
      using ps(1) i by (auto simp: map_update list_update_same_conv)
    have rest': "\<forall>q. q \<notin> ?J ` set ps \<longrightarrow> fw_files w1 q = fw_files w0 q"
      using rest w1(3) i(1,2) by auto
    have fd: "fd_of w1 (free_fd w) = Some (?J (ps ! i), length (acc (ps ! i)))" using w1(4) acc i by simp
    have here: "content w1 (?J (ps ! i)) = overwrite 0 (acc (ps ! i)) (content w0 (?J (ps ! i)))"
      using ri i by (simp add: same result_ok_def Let_def)
    have at: "dl_mDownloadResults ?d ! i = ?r\<lparr>dr_mFile := Some (free_fd w), dr_mIsDone := False\<rparr>"
      using i(3) nd by simp
    from deliver_ok [where J = ?J and acc = acc and chunk = chunk and env = env and P = P, OF map' ps(2,3) w1(2) _ i(1) _ _ fd here _ at _ rest'] show ?thesis
      using None mk find p(1) i w1(1) others' by (auto simp: ReceiveFileChunk_def Let_def p'_def)
  qed
qed

text \<open>All items are done exactly when no file is open; no file opens again.\<close>

lemma IsAllDownloadDone_inv:
  assumes "download_inv env ps w0 P acc (d, w)" "P \<subseteq> set ps"
  shows "IsAllDownloadDone (dl_mDownloadResults d) \<longleftrightarrow> P = {}"
proof -
  have "\<And>r. r \<in> set (dl_mDownloadResults d) \<Longrightarrow> dr_mIsDone r \<longleftrightarrow> dr_mRelativePath r \<notin> P"
    and "set ps = dr_mRelativePath ` set (dl_mDownloadResults d)"
    using assms(1) by (auto simp: download_inv_def Let_def result_ok_def)
  with assms(2) show ?thesis by (auto simp: IsAllDownloadDone_def list_all_iff)
qed

lemma open_after_subset: "open_after P cs \<subseteq> P"
proof (induction cs arbitrary: P)
  case (Cons c cs)
  have "open_after P (c # cs) \<subseteq> (if final_chunk c then P - {fc_mRelativePath c} else P)"
    unfolding open_after.simps by (rule Cons.IH)
  also have "... \<subseteq> P" by auto
  finally show ?case .
qed simp

lemma Download_begin_waits: "Download_begin env url path targetType d = (None, d0) \<Longrightarrow> Download_end env (d0, w) = None"
  by (auto simp: Download_begin_def Download_end_def Let_def split: if_splits)

lemma ReceiveChunks_ok:
  assumes "download_inv env ps w0 P acc (d, w)" "chunks_ok P cs" "P \<subseteq> set ps" "\<forall>q. de_MakeDirAll env q = ENone"
  shows "\<exists>d' w'. ReceiveChunks env cs (d, w) = (replicate (length cs) ENone, d', w') \<and>
    download_inv env ps w0 (open_after P cs) (\<lambda>p. acc p @ data_of p cs) (d', w') \<and>
    dl_mRequestedPath d' = dl_mRequestedPath d \<and> dl_mErrProcessImageRequest d' = dl_mErrProcessImageRequest d \<and>
    (P \<noteq> {} \<and> open_after P cs = {} \<longrightarrow> dl_mFinishDownload d') \<and>
    (open_after P cs \<noteq> {} \<longrightarrow> dl_mFinishDownload d' = dl_mFinishDownload d)"
  using assms(1-3)
proof (induction cs arbitrary: P acc d w)
  case Nil
  then show ?case by (simp add: data_of_def)
next
  case (Cons c cs)
  let ?p = "fc_mRelativePath c"
  let ?P = "if final_chunk c then P - {?p} else P" and ?acc = "acc(?p := acc ?p @ fc_mData c)"
  have pc: "?p \<in> P" "chunks_ok ?P cs" using Cons.prems(2) by auto
  obtain d1 w1 where r: "ReceiveFileChunk env c (d, w) = (ENone, d1, w1)" "download_inv env ps w0 ?P ?acc (d1, w1)"
      "dl_mRequestedPath d1 = dl_mRequestedPath d" "dl_mErrProcessImageRequest d1 = dl_mErrProcessImageRequest d"
      "dl_mFinishDownload d1 = (dl_mFinishDownload d \<or> final_chunk c \<and> IsAllDownloadDone (dl_mDownloadResults d1))"
    using receive_ok [OF Cons.prems(1) pc(1) Cons.prems(3) assms(4)] by blast
  have "?P \<subseteq> set ps" using Cons.prems(3) by auto
  from Cons.IH [OF r(2) pc(2) this] obtain d2 w2 where
    r2: "ReceiveChunks env cs (d1, w1) = (replicate (length cs) ENone, d2, w2)"
      "download_inv env ps w0 (open_after ?P cs) (\<lambda>p. ?acc p @ data_of p cs) (d2, w2)"
      "dl_mRequestedPath d2 = dl_mRequestedPath d1" "dl_mErrProcessImageRequest d2 = dl_mErrProcessImageRequest d1"
      "?P \<noteq> {} \<and> open_after ?P cs = {} \<longrightarrow> dl_mFinishDownload d2"
      "open_after ?P cs \<noteq> {} \<longrightarrow> dl_mFinishDownload d2 = dl_mFinishDownload d1"
    by blast
  have all_done: "IsAllDownloadDone (dl_mDownloadResults d1) \<longleftrightarrow> ?P = {}"
    using IsAllDownloadDone_inv [OF r(2) \<open>?P \<subseteq> set ps\<close>] .
  have "(\<lambda>p. ?acc p @ data_of p cs) = (\<lambda>p. acc p @ data_of p (c # cs))" by (auto simp: data_of_def)
  moreover have "dl_mFinishDownload d2" if "?P = {}"
  proof -
    have "cs = []" using pc(2) that by (cases cs) auto
    moreover have "final_chunk c" using that pc(1) by (auto split: if_splits)
    ultimately show ?thesis using r(5) r2(1) all_done that by simp
  qed
  moreover have "?P \<noteq> {}" if "open_after ?P cs \<noteq> {}" using that open_after_subset by (metis subset_empty)
  ultimately show ?case using r r2 all_done by auto
qed

lemma chunks_ok_open:
  "chunks_ok P cs \<Longrightarrow> k < length cs \<Longrightarrow> open_after P (take k cs) \<noteq> {} \<and> chunks_ok P (take k cs)"
  by (induction cs arbitrary: P k) (auto simp: take_Cons split: nat.splits)

lemma close_results_closed: "\<forall>r\<in>set rs. dr_mFile r = None \<Longrightarrow> close_results rs err w = (err, w)"
  by (induction rs) auto

lemma close_results_keeps: "err \<noteq> ENone \<Longrightarrow> fst (close_results rs err w) = err"
  by (induction rs arbitrary: w) (auto split: option.splits prod.splits)

lemma push_files_room:
  "length rs + length fs \<le> cMaxDownloadResults \<Longrightarrow>
   push_files fs rs = rs @ map (\<lambda>f. \<lparr>dr_mRelativePath = fi_mRelativePath f, dr_mFile = None, dr_mIsDone = False\<rparr>) fs"
  by (induction fs arbitrary: rs) (auto simp: PushBack_room)

text \<open>From the accepted request to the end of the download.\<close>

lemma download_complete:
  fixes env d info w path
  defines "J \<equiv> de_JoinPath env path" and "ps \<equiv> map fi_mRelativePath (im_mFiles info)"
  assumes "Download_begin env url path targetType d = (None, d0)" "ReceiveImageContentInfo info d0 = (ENone, d1)"
    and "distinct ps" "ps \<noteq> []" "length ps \<le> 32" "inj_on J (set ps)"
    and "fw_faults w = []" "\<forall>q. de_MakeDirAll env q = ENone" "de_timer_Stop env = ENone"
    and "chunks_ok (set ps) cs" "open_after (set ps) cs = {}"
  shows "\<exists>d2 w2 d3. ReceiveChunks env cs (d1, w) = (replicate (length cs) ENone, d2, w2) \<and>
    (\<forall>k<length cs. Download_end env (snd (ReceiveChunks env (take k cs) (d1, w))) = None) \<and>
    Download_end env (d2, w2) = Some (ENone, d3, w2) \<and>
    (\<forall>p\<in>set ps. content w2 (J p) = data_of p cs @ drop (length (data_of p cs)) (content w (J p))) \<and>
    (\<forall>q. q \<notin> J ` set ps \<longrightarrow> fw_files w2 q = fw_files w q)"
proof -
  have d0: "dl_mRequestedPath d0 = path" "dl_mErrProcessImageRequest d0 = ENone" "dl_mDownloadResults d0 = []" "\<not> dl_mFinishDownload d0"
    using assms(3) by (auto simp: Download_begin_def Let_def split: if_splits)
  let ?new = "\<lambda>f. \<lparr>dr_mRelativePath = fi_mRelativePath f, dr_mFile = None, dr_mIsDone = False\<rparr>"
  have d1: "dl_mRequestedPath d1 = path" "dl_mErrProcessImageRequest d1 = ENone" "\<not> dl_mFinishDownload d1"
    "dl_mDownloadResults d1 = map ?new (im_mFiles info)"
    using assms(4,7) d0 push_files_room [of "[]" "im_mFiles info"]
    by (auto simp: ReceiveImageContentInfo_def ps_def cMaxDownloadResults_def split: if_splits)
  have start: "download_inv env ps w (set ps) (\<lambda>p. []) (d1, w)"
    using assms(5,8,9) d1
    by (auto simp: download_inv_def result_ok_def ps_def J_def overwrite_def comp_def Let_def)
  have waits: "Download_end env (snd (ReceiveChunks env (take k cs) (d1, w))) = None" if "k < length cs" for k
  proof -
    have k: "open_after (set ps) (take k cs) \<noteq> {}" "chunks_ok (set ps) (take k cs)"
      using chunks_ok_open [OF assms(12) that] by auto
    from ReceiveChunks_ok [OF start k(2) _ assms(10)] k(1) d1(3) show ?thesis by (auto simp: Download_end_def)
  qed
  from ReceiveChunks_ok [OF start assms(12) _ assms(10)] assms(6,13) obtain d2 w2 where
    r: "ReceiveChunks env cs (d1, w) = (replicate (length cs) ENone, d2, w2)"
      "download_inv env ps w {} (\<lambda>p. data_of p cs) (d2, w2)" "dl_mRequestedPath d2 = path"
      "dl_mErrProcessImageRequest d2 = ENone" "dl_mFinishDownload d2"
    using d1 by auto
  have rs: "\<And>r. r \<in> set (dl_mDownloadResults d2) \<Longrightarrow> result_ok J (content w) {} (\<lambda>p. data_of p cs) w2 r"
    and ps: "map dr_mRelativePath (dl_mDownloadResults d2) = ps" and rest: "\<forall>q. q \<notin> J ` set ps \<longrightarrow> fw_files w2 q = fw_files w q"
    using r(2,3) by (auto simp: download_inv_def Let_def J_def)
  have "dr_mFile r = None" if "r \<in> set (dl_mDownloadResults d2)" for r
    using rs [OF that] by (auto simp: result_ok_def Let_def split: option.splits)
  then have "Download_end env (d2, w2) = Some (ENone, d2\<lparr>dl_timer := False\<rparr>, w2)"
    using r(4,5) assms(11) by (simp add: Download_end_def close_results_closed)
  moreover have "content w2 (J p) = data_of p cs @ drop (length (data_of p cs)) (content w (J p))" if "p \<in> set ps" for p
    using that rs unfolding ps [symmetric] by (fastforce simp: result_ok_def Let_def overwrite_def)
  ultimately show ?thesis using r(1) rest waits by blast
qed

section \<open>Properties\<close>

text \<open>C3. A download that goes well: the request is accepted, the content info lists up to 32
  different files, their chunks arrive in the order of each file, interleaved in any way,
  and no call fails. Then every chunk is accepted, \<open>Download\<close> waits as long as a chunk is
  missing and returns without error once the last chunk is in, no other file has changed, and each file holds its chunks
  one after the other - followed by the rest of an older, longer file of that name, because
  files are opened without truncation.\<close>

theorem download_writes_files:
  fixes env d info w path
  defines "J \<equiv> de_JoinPath env path" and "ps \<equiv> map fi_mRelativePath (im_mFiles info)"
  assumes "Download_begin env url path targetType d = (None, d0)" "ReceiveImageContentInfo info d0 = (ENone, d1)"
    and "distinct ps" "ps \<noteq> []" "length ps \<le> 32" "inj_on J (set ps)"
    and "fw_faults w = []" "\<forall>q. de_MakeDirAll env q = ENone" "de_timer_Stop env = ENone"
    and "chunks_ok (set ps) cs" "open_after (set ps) cs = {}"
  shows "\<exists>d2 w2 d3. ReceiveChunks env cs (d1, w) = (replicate (length cs) ENone, d2, w2) \<and>
    (\<forall>k<length cs. Download_end env (snd (ReceiveChunks env (take k cs) (d1, w))) = None) \<and>
    Download_end env (d2, w2) = Some (ENone, d3, w2) \<and>
    (\<forall>p\<in>set ps. content w2 (J p) = data_of p cs @ drop (length (data_of p cs)) (content w (J p))) \<and>
    (\<forall>q. q \<notin> J ` set ps \<longrightarrow> fw_files w2 q = fw_files w q)"
  unfolding J_def ps_def by (rule download_complete [OF assms(3-13) [unfolded J_def ps_def]])

text \<open>Two files, of which one existed; its new content is shorter.\<close>

definition demo_denv :: download_env where
  "demo_denv = \<lparr>de_JoinPath = (\<lambda>a b. a @ b), de_timer_Start = ENone, de_timer_Stop = ENone,
     de_SendImageContentRequest = (\<lambda>r. ENone), de_Dir = id, de_MakeDirAll = (\<lambda>p. ENone), de_errno = 0\<rparr>"

definition demo_downloader :: Downloader where
  "demo_downloader = \<lparr>dl_mErrProcessImageRequest = ENone, dl_mRequestedPath = [], dl_mDownloadResults = [], dl_mRequestID = 0,
     dl_mFinishDownload = False, dl_timer = False\<rparr>"

definition demo_info :: ImageContentInfo where
  "demo_info = \<lparr>im_mRequestID = 1, im_mFiles = [\<lparr>fi_mRelativePath = ''a'', fi_mSHA256 = [], fi_mSize = 3\<rparr>,
     \<lparr>fi_mRelativePath = ''b'', fi_mSHA256 = [], fi_mSize = 1\<rparr>], im_mError = ENone\<rparr>"

definition demo_chunk :: "string \<Rightarrow> u64 \<Rightarrow> u64 \<Rightarrow> byte list \<Rightarrow> FileChunk" where
  "demo_chunk p n k bs = \<lparr>fc_mRequestID = 1, fc_mRelativePath = p, fc_mPartsCount = n, fc_mPart = k, fc_mData = bs\<rparr>"

definition demo_chunks :: "FileChunk list" where
  "demo_chunks = [demo_chunk ''a'' 2 1 [1, 2], demo_chunk ''b'' 1 1 [9], demo_chunk ''a'' 2 2 [3]]"

definition demo_world :: fs_world where
  "demo_world = \<lparr>fw_files = [''/b'' \<mapsto> [7, 7]], fw_fds = [None], fw_faults = []\<rparr>"

lemma download_writes_files_witness:
  "\<exists>d1 d2 w2 d3. ReceiveChunks demo_denv demo_chunks (d1, demo_world) = ([ENone, ENone, ENone], d2, w2) \<and>
     Download_end demo_denv (snd (ReceiveChunks demo_denv (take 2 demo_chunks) (d1, demo_world))) = None \<and>
     Download_end demo_denv (d2, w2) = Some (ENone, d3, w2) \<and> content w2 ''/a'' = [1, 2, 3] \<and> content w2 ''/b'' = [9, 7]"
proof -
  let ?d0 = "snd (Download_begin demo_denv ''u'' ''/'' 0 demo_downloader)"
  let ?d1 = "snd (ReceiveImageContentInfo demo_info ?d0)"
  have "Download_begin demo_denv ''u'' ''/'' 0 demo_downloader = (None, ?d0)" "ReceiveImageContentInfo demo_info ?d0 = (ENone, ?d1)"
    by (simp_all add: Download_begin_def demo_denv_def demo_downloader_def demo_info_def ReceiveImageContentInfo_def Let_def)
  from download_writes_files [OF this, of demo_world demo_chunks] obtain d2 w2 d3 where
    "ReceiveChunks demo_denv demo_chunks (?d1, demo_world) = ([ENone, ENone, ENone], d2, w2)"
    "\<forall>k<length demo_chunks. Download_end demo_denv (snd (ReceiveChunks demo_denv (take k demo_chunks) (?d1, demo_world))) = None"
    "Download_end demo_denv (d2, w2) = Some (ENone, d3, w2)" "content w2 ''/a'' = [1, 2, 3]" "content w2 ''/b'' = [9, 7]"
    by (auto simp: demo_denv_def demo_info_def demo_world_def demo_chunks_def demo_chunk_def data_of_def content_def insert_Diff_if eval_nat_numeral)
  moreover have "2 < length demo_chunks" by (simp add: demo_chunks_def)
  ultimately show ?thesis by blast
qed

text \<open>A download that waits is never stuck, and what ends it is reported: a waiting \<open>Download\<close>
  has its timer on; when the timer fires, it returns a timeout; and when a chunk or a content
  info of the request is answered with an error, it returns that error.\<close>

theorem download_errors_reported:
  assumes "de_timer_Stop env = ENone"
  shows "(Download_begin env url path targetType d = (None, d0) \<longrightarrow> dl_timer d0 \<and> \<not> dl_mFinishDownload d0) \<and>
    (\<exists>d' w'. Download_end env (Timer_fires d, w) = Some (EEnum eTimeout, d', w')) \<and>
    (ReceiveFileChunk env chunk (d, w) = (err, d1, w1) \<longrightarrow> err \<noteq> ENone \<longrightarrow>
      (\<exists>d' w'. Download_end env (d1, w1) = Some (err, d', w'))) \<and>
    (ReceiveImageContentInfo info d = (err, d2) \<longrightarrow> err \<noteq> ENone \<longrightarrow> im_mRequestID info = dl_mRequestID d \<longrightarrow>
      (\<exists>d' w'. Download_end env (d2, w) = Some (err, d', w')))"
proof -
  have fin: "\<exists>d' w'. Download_end env (e, v) = Some (er, d', w')"
    if "dl_mFinishDownload e" "dl_mErrProcessImageRequest e = er" "er \<noteq> ENone" for e v er
    using that assms close_results_keeps [of er "dl_mDownloadResults e" v]
    by (cases "close_results (dl_mDownloadResults e) er v") (simp add: Download_end_def)
  have chunk: "ReceiveFileChunk env chunk (d, w) = (err, d1, w1) \<Longrightarrow> err \<noteq> ENone \<Longrightarrow>
      dl_mFinishDownload d1 \<and> dl_mErrProcessImageRequest d1 = err"
    by (auto simp: ReceiveFileChunk_def deliver_def SetErrorAndNotify_def Let_def
        split: option.splits sum.splits prod.splits if_splits)
  show ?thesis
    by (intro conjI impI fin)
      (auto simp: Download_begin_def Timer_fires_def SetErrorAndNotify_def ReceiveImageContentInfo_def Let_def
        dest: chunk split: if_splits)
qed

lemma download_errors_reported_witness:
  "\<exists>d' w'. Download_end demo_denv (Timer_fires demo_downloader, demo_world) = Some (EEnum eTimeout, d', w')"
  using download_errors_reported [of demo_denv "[]" "[]" 0 demo_downloader] by (simp add: demo_denv_def)

text \<open>A chunk that comes after its download has ended goes to a foreign file: when a download
  ends with a file still incomplete, the closed descriptor stays in the results; if another
  file is opened on that descriptor, the data of a late chunk overwrites that file.\<close>

theorem late_chunk_foreign_file:
  assumes "Download_end env (d, w) = Some (err, d', w')"
    and "find_result (fc_mRelativePath chunk) (dl_mDownloadResults d) = Some i" "dr_mFile (dl_mDownloadResults d ! i) = Some fd"
    and "fw_faults w' = []" "open_creat other w' = (Inr fd, w1)"
  shows "content (snd (snd (ReceiveFileChunk env chunk (d', w1)))) other =
    fc_mData chunk @ drop (length (fc_mData chunk)) (content w' other)"
proof -
  have res: "dl_mDownloadResults d' = dl_mDownloadResults d"
    using assms(1) by (auto simp: Download_end_def split: if_splits prod.splits)
  have w1: "fw_faults w1 = []" "fw_files w1 = (fw_files w')(other \<mapsto> content w' other)" "fd_of w1 fd = Some (other, 0)"
    using open_creat_ok [OF assms(4), of other] assms(5) by auto
  obtain w2 where w2: "write_fd fd (fc_mData chunk) w1 = (Inr (length (fc_mData chunk)), w2)" "fw_faults w2 = []"
      "fw_files w2 = (fw_files w1)(other \<mapsto> overwrite 0 (fc_mData chunk) (content w1 other))" "fd_of w2 fd \<noteq> None"
    using write_fd_ok [OF w1(1,3), of "fc_mData chunk"] by auto
  then obtain e where "fd_of w2 fd = Some e" by blast
  from close_fd_ok [OF w2(2) this] obtain w3 where "close_fd fd w2 = (None, w3)" "fw_files w3 = fw_files w2" by blast
  with assms(2,3) res w1(2) w2 show ?thesis
    by (simp add: ReceiveFileChunk_def deliver_def Let_def content_def overwrite_def)
qed

lemma late_chunk_foreign_file_witness:
  "\<exists>d' w1. content (snd (snd (ReceiveFileChunk demo_denv (demo_chunk ''a'' 2 2 [5]) (d', w1)))) ''/other'' = [5]"
proof -
  let ?d = "demo_downloader\<lparr>dl_mDownloadResults := [\<lparr>dr_mRelativePath = ''a'', dr_mFile = Some 0, dr_mIsDone = False\<rparr>]\<rparr>"
  let ?w = "demo_world\<lparr>fw_fds := [Some (''/a'', 1)]\<rparr>"
  obtain err d' w' where e: "Download_end demo_denv (Timer_fires ?d, ?w) = Some (err, d', w')" "fw_faults w' = []" "free_fd w' = 0"
      "content w' ''/other'' = []"
    by (auto simp: Download_end_def demo_denv_def Timer_fires_def SetErrorAndNotify_def demo_downloader_def demo_world_def
        close_fd_def fd_of_def pop_fault_def set_fd_def free_fd_def content_def)
  obtain w1 where "open_creat ''/other'' w' = (Inr 0, w1)" using open_creat_ok [OF e(2)] e(3) by fastforce
  from late_chunk_foreign_file [OF e(1) _ _ e(2) this, of "demo_chunk ''a'' 2 2 [5]" 0] e(4) show ?thesis
    by (auto simp: Timer_fires_def SetErrorAndNotify_def demo_chunk_def)
qed

text \<open>The request of a chunk is not checked, and a failed \<open>MakeDirAll\<close> that leaves \<open>errno\<close> at
  zero ends the download as if it had succeeded.\<close>

lemma chunk_request_ignored: "ReceiveFileChunk env (chunk\<lparr>fc_mRequestID := r\<rparr>) st = ReceiveFileChunk env chunk st"
  by (simp add: ReceiveFileChunk_def deliver_def Let_def split: prod.splits option.splits sum.splits)

lemma mkdir_error_lost:
  assumes "find_result (fc_mRelativePath chunk) (dl_mDownloadResults d) = Some i" "dr_mFile (dl_mDownloadResults d ! i) = None"
    and "de_MakeDirAll env (de_Dir env (de_JoinPath env (dl_mRequestedPath d) (fc_mRelativePath chunk))) \<noteq> ENone" "de_errno env = 0"
  shows "ReceiveFileChunk env chunk (d, w) = (ENone, SetErrorAndNotify ENone d, w)"
  using assms by (simp add: ReceiveFileChunk_def Let_def)

end
