(* ===== verification/FSLogReader.thy ===== *)
theory FSLogReader
  imports Posix
begin

text \<open>
  \<open>src/logprovider/fslogreader.cpp\<close>: reads the log files one after the other, line by line. The
  interface \<open>log_source\<close> is what the log provider relies on; the reader implements it for
  the files as they are. Listing the directory, the library's line reader, the time parser
  and the string search are parameters.
\<close>

section \<open>State\<close>

record LogEntry =
  le_mContent :: string
  le_mTime :: "Time option"

text \<open>
  \<open>lr_ReadLine\<close> is \<open>fs::ReadLine\<close> on a file's bytes from a position; \<open>lr_UTC\<close> is \<open>Time::UTC\<close>;
  \<open>lr_prefixed\<close> says that a name starts with the prefix of the log files.
\<close>

record reader_env =
  lr_ReadLine :: "byte list \<Rightarrow> nat \<Rightarrow> Error + string"
  lr_UTC :: "string \<Rightarrow> Time option"
  lr_prefixed :: "string \<Rightarrow> bool"
  lr_AppendPath :: "string \<Rightarrow> string"
  lr_cMaxLogFiles :: nat

text \<open>The open file is the name it was opened by. The directory lists names and whether they are directories.\<close>

record FSLogReader =
  lo_mCurrentEntry :: "LogEntry option"
  lo_mCurrentPos :: nat
  lo_mFD :: "string option"
  lo_mLogFiles :: "string list"

record log_dir =
  ld_entries :: "(string \<times> bool) list"
  ld_files :: "string \<rightharpoonup> byte list"

section \<open>Operations\<close>

definition FSLogReader_GetEntry :: "FSLogReader \<Rightarrow> Error + LogEntry" where
  "FSLogReader_GetEntry r = (case lo_mCurrentEntry r of None \<Rightarrow> Inl (EEnum eNotFound) | Some e \<Rightarrow> Inr e)"

text \<open>\<open>OpenNextFile\<close>, called with a non-empty list only: the name is taken off in any case.\<close>

definition OpenNextFile :: "log_dir \<Rightarrow> FSLogReader \<Rightarrow> Error \<times> FSLogReader" where
  "OpenNextFile dir r =
     (case lo_mLogFiles r of
        [] \<Rightarrow> (EEnum eFailed, r)
      | f # fs \<Rightarrow>
          (let r1 = r\<lparr>lo_mCurrentPos := 0, lo_mLogFiles := fs\<rparr> in
           if ld_files dir f = None then (EEnum eFailed, r1\<lparr>lo_mFD := None\<rparr>) else (ENone, r1\<lparr>lo_mFD := Some f\<rparr>)))"

definition CloseFile :: "FSLogReader \<Rightarrow> FSLogReader" where
  "CloseFile r = r\<lparr>lo_mFD := None, lo_mCurrentPos := 0\<rparr>"

definition FS_ReadLine :: "reader_env \<Rightarrow> log_dir \<Rightarrow> FSLogReader \<Rightarrow> Error \<times> FSLogReader" where
  "FS_ReadLine env dir r =
     (let (err, r1) = (if lo_mFD r = None then OpenNextFile dir r else (ENone, r)) in
      if err \<noteq> ENone then (err, r1)
      else
        (let bytes = (case lo_mFD r1 of None \<Rightarrow> [] | Some f \<Rightarrow> (case ld_files dir f of None \<Rightarrow> [] | Some bs \<Rightarrow> bs)) in
         case lr_ReadLine env bytes (lo_mCurrentPos r1) of
           Inl err \<Rightarrow> (err, CloseFile (r1\<lparr>lo_mCurrentEntry := Some \<lparr>le_mContent = [], le_mTime = None\<rparr>\<rparr>))
         | Inr line \<Rightarrow>
             (ENone, r1\<lparr>lo_mCurrentEntry := Some \<lparr>le_mContent = line, le_mTime = lr_UTC env line\<rparr>,
                        lo_mCurrentPos := lo_mCurrentPos r1 + length line + 1\<rparr>)))"

definition HasFilesToRead :: "FSLogReader \<Rightarrow> bool" where
  "HasFilesToRead r \<longleftrightarrow> lo_mFD r \<noteq> None \<or> lo_mLogFiles r \<noteq> []"

text \<open>
  The library's line reader: at the end of the file, and for a line that does not fit, an
  error; else the characters before the next line end. The repository passes it the
  delimiters CR and LF.
\<close>

definition line_of :: "byte list \<Rightarrow> nat \<Rightarrow> string" where
  "line_of bs pos = map (\<lambda>b. char_of (unat b)) (takeWhile (\<lambda>b. b \<noteq> 13 \<and> b \<noteq> 10) (drop pos bs))"

definition reader_ok :: "reader_env \<Rightarrow> nat \<Rightarrow> bool" where
  "reader_ok env cLogEntryLen \<longleftrightarrow>
     (\<forall>bs pos. if pos < length bs \<and> length (line_of bs pos) \<le> cLogEntryLen
        then lr_ReadLine env bs pos = Inr (line_of bs pos)
        else \<exists>e. e \<noteq> ENone \<and> lr_ReadLine env bs pos = Inl e)"

lemma FS_ReadLine_progress:
  assumes "FS_ReadLine env dir r = (err, r1)" "\<not> (err = ENone \<and> lo_mCurrentEntry r1 \<noteq> None)" "HasFilesToRead r"
  shows "2 * length (lo_mLogFiles r1) + (if lo_mFD r1 = None then 0 else 1) <
    2 * length (lo_mLogFiles r) + (if lo_mFD r = None then 0 else 1)"
  using assms
  by (auto simp: FS_ReadLine_def OpenNextFile_def CloseFile_def HasFilesToRead_def Let_def
      split: list.splits if_splits prod.splits sum.splits)

text \<open>The loop of \<open>Next\<close>: every failing round drops a name or closes a file.\<close>

function Next_loop :: "reader_env \<Rightarrow> log_dir \<Rightarrow> FSLogReader \<Rightarrow> bool \<times> FSLogReader" where
  "Next_loop env dir r =
     (if HasFilesToRead r then
        (case FS_ReadLine env dir r of
           (err, r1) \<Rightarrow>
             if err = ENone \<and> lo_mCurrentEntry r1 \<noteq> None then (True, r1) else Next_loop env dir r1)
      else (False, r\<lparr>lo_mCurrentEntry := None\<rparr>))"
  by pat_completeness auto

termination
proof (relation "measure (\<lambda>(env, dir, r). 2 * length (lo_mLogFiles r) + (if lo_mFD r = None then 0 else 1))", goal_cases)
  case (2 env dir r err r1)
  from FS_ReadLine_progress [OF 2(2) [symmetric] 2(3) 2(1)] show ?case by (simp only: in_measure prod.case)
qed simp

declare Next_loop.simps [simp del]

definition FSLogReader_Next :: "reader_env \<Rightarrow> log_dir \<Rightarrow> FSLogReader \<Rightarrow> bool \<times> FSLogReader" where
  "FSLogReader_Next env dir r = Next_loop env dir r"

text \<open>\<open>ReadLogFiles\<close>: the prefixed files of the directory, sorted by name.\<close>

fun collect_logs :: "reader_env \<Rightarrow> (string \<times> bool) list \<Rightarrow> string list \<Rightarrow> Error \<times> string list" where
  "collect_logs env [] fs = (ENone, fs)"
| "collect_logs env ((name, isDir) # es) fs =
     (if isDir \<or> \<not> lr_prefixed env name then collect_logs env es fs
      else (case PushBack (lr_cMaxLogFiles env) fs (lr_AppendPath env name) of
        (fs', err) \<Rightarrow> if err \<noteq> ENone then (err, fs') else collect_logs env es fs'))"

definition ReadLogFiles :: "reader_env \<Rightarrow> log_dir \<Rightarrow> FSLogReader \<Rightarrow> Error \<times> FSLogReader" where
  "ReadLogFiles env dir r =
     (case collect_logs env (ld_entries dir) [] of
        (err, fs) \<Rightarrow> if err \<noteq> ENone then (err, r\<lparr>lo_mLogFiles := fs\<rparr>) else (ENone, r\<lparr>lo_mLogFiles := sort fs\<rparr>))"

definition FSLogReader_Reset :: "reader_env \<Rightarrow> log_dir \<Rightarrow> FSLogReader \<Rightarrow> Error \<times> FSLogReader" where
  "FSLogReader_Reset env dir r = ReadLogFiles env dir ((CloseFile r)\<lparr>lo_mLogFiles := [], lo_mCurrentEntry := None\<rparr>)"

section \<open>What a source of log entries delivers\<close>

locale log_source =
  fixes Next :: "'r \<Rightarrow> bool \<times> 'r" and GetEntry :: "'r \<Rightarrow> Error + LogEntry" and entries :: "'r \<Rightarrow> LogEntry list"
  assumes Next_end: "entries r = [] \<Longrightarrow> \<not> fst (Next r)"
    and Next_more: "entries r = e # es \<Longrightarrow> fst (Next r) \<and> GetEntry (snd (Next r)) = Inr e \<and> entries (snd (Next r)) = es"

text \<open>The entries that up to \<open>k\<close> calls of \<open>Next\<close>, each followed by \<open>GetEntry\<close>, deliver.\<close>

fun deliver_entries :: "('r \<Rightarrow> bool \<times> 'r) \<Rightarrow> ('r \<Rightarrow> Error + LogEntry) \<Rightarrow> nat \<Rightarrow> 'r \<Rightarrow> LogEntry list" where
  "deliver_entries Next GetEntry 0 r = []"
| "deliver_entries Next GetEntry (Suc k) r =
     (if fst (Next r) then
        (case GetEntry (snd (Next r)) of Inl err \<Rightarrow> [] | Inr e \<Rightarrow> [e]) @ deliver_entries Next GetEntry k (snd (Next r))
      else [])"

context log_source
begin

lemma deliver_take: "deliver_entries Next GetEntry k r = take k (entries r)"
proof (induction k arbitrary: r)
  case (Suc k)
  show ?case
  proof (cases "entries r")
    case Nil
    then show ?thesis using Next_end [of r] by simp
  next
    case (Cons e es)
    from Next_more [OF this] Suc [of "snd (Next r)"] Cons show ?thesis by simp
  qed
qed simp

end

section \<open>The reader as a source\<close>

text \<open>The lines of a file from a position, up to the first that does not fit.\<close>

function lines_from :: "nat \<Rightarrow> byte list \<Rightarrow> nat \<Rightarrow> string list" where
  "lines_from cap bs pos =
     (if pos < length bs \<and> length (line_of bs pos) \<le> cap
      then line_of bs pos # lines_from cap bs (pos + length (line_of bs pos) + 1) else [])"
  by pat_completeness auto
termination by (relation "measure (\<lambda>(cap, bs, pos). length bs - pos)") auto

declare lines_from.simps [simp del]

text \<open>
  What a file holds, told without the reader: its text, cut at every CR and LF. The reader delivers these
  lines up to the first that is longer than an entry; that one and all lines after it in its
  file are not read, because the error closes the file.
\<close>

fun split_lines :: "byte list \<Rightarrow> string list" where
  "split_lines [] = []"
| "split_lines (b # bs) =
     (if b = 13 \<or> b = 10 then [] # split_lines bs
      else (case split_lines bs of [] \<Rightarrow> [[char_of (unat b)]] | l # ls \<Rightarrow> (char_of (unat b) # l) # ls))"

lemma split_lines_first:
  "bs \<noteq> [] \<Longrightarrow> split_lines bs = line_of bs 0 # split_lines (drop (length (line_of bs 0) + 1) bs)"
proof (induction bs)
  case (Cons b bs)
  show ?case
  proof (cases "b = 13 \<or> b = 10")
    case True
    then show ?thesis by (auto simp: line_of_def)
  next
    case False
    then show ?thesis using Cons.IH by (cases "bs = []") (auto simp: line_of_def)
  qed
qed simp

lemma line_of_drop: "line_of (drop pos bs) 0 = line_of bs pos"
  by (simp add: line_of_def)

lemma lines_from_split: "lines_from cap bs pos = takeWhile (\<lambda>l. length l \<le> cap) (split_lines (drop pos bs))"
proof (induction cap bs pos rule: lines_from.induct)
  case (1 cap bs pos)
  show ?case
  proof (cases "pos < length bs")
    case False
    then show ?thesis using lines_from.simps [of cap bs pos] by simp
  next
    case True
    then have "split_lines (drop pos bs) = line_of bs pos # split_lines (drop (pos + length (line_of bs pos) + 1) bs)"
      using split_lines_first [of "drop pos bs"] by (simp add: line_of_drop add.commute add.left_commute)
    with 1 True show ?thesis using lines_from.simps [of cap bs pos] by simp
  qed
qed

definition entry_of :: "reader_env \<Rightarrow> string \<Rightarrow> LogEntry" where
  "entry_of env line = \<lparr>le_mContent = line, le_mTime = lr_UTC env line\<rparr>"

definition file_lines :: "nat \<Rightarrow> log_dir \<Rightarrow> string \<Rightarrow> string list" where
  "file_lines cap dir f = (case ld_files dir f of None \<Rightarrow> [] | Some bs \<Rightarrow> lines_from cap bs 0)"

definition remaining :: "reader_env \<Rightarrow> nat \<Rightarrow> log_dir \<Rightarrow> FSLogReader \<Rightarrow> LogEntry list" where
  "remaining env cap dir r = map (entry_of env)
     ((case lo_mFD r of None \<Rightarrow> [] | Some f \<Rightarrow> lines_from cap (case ld_files dir f of None \<Rightarrow> [] | Some bs \<Rightarrow> bs) (lo_mCurrentPos r)) @
      concat (map (file_lines cap dir) (lo_mLogFiles r)))"

lemma FS_ReadLine_cases:
  assumes "reader_ok env cap" "HasFilesToRead r" "FS_ReadLine env dir r = (err, r1)"
  shows "if err = ENone then (\<exists>e. lo_mCurrentEntry r1 = Some e \<and> remaining env cap dir r = e # remaining env cap dir r1)
    else remaining env cap dir r1 = remaining env cap dir r"
proof -
  have rl: "lr_ReadLine env bs pos = Inr (line_of bs pos) \<and> lines_from cap bs pos = line_of bs pos # lines_from cap bs (pos + length (line_of bs pos) + 1) \<or>
      (\<exists>e. e \<noteq> ENone \<and> lr_ReadLine env bs pos = Inl e \<and> lines_from cap bs pos = [])" for bs pos
    using assms(1) lines_from.simps [of cap bs pos] unfolding reader_ok_def by (metis (full_types))
  show ?thesis
  proof (cases "lo_mFD r")
    case (Some f)
    with assms(3) rl [of "case ld_files dir f of None \<Rightarrow> [] | Some bs \<Rightarrow> bs" "lo_mCurrentPos r"] show ?thesis
      by (auto simp: FS_ReadLine_def CloseFile_def remaining_def entry_of_def Let_def)
  next
    case None
    with assms(2) obtain f fs where f: "lo_mLogFiles r = f # fs" by (auto simp: HasFilesToRead_def neq_Nil_conv)
    show ?thesis
    proof (cases "ld_files dir f")
      case N: None
      with None f assms(3) show ?thesis
        by (auto simp: FS_ReadLine_def OpenNextFile_def remaining_def file_lines_def Let_def)
    next
      case (Some bs)
      with None f assms(3) rl [of bs 0] show ?thesis
        by (auto simp: FS_ReadLine_def OpenNextFile_def CloseFile_def remaining_def file_lines_def entry_of_def Let_def)
    qed
  qed
qed

lemma Next_loop_source:
  assumes "reader_ok env cap"
  shows "case remaining env cap dir r of
      [] \<Rightarrow> \<not> fst (Next_loop env dir r)
    | e # es \<Rightarrow> fst (Next_loop env dir r) \<and> lo_mCurrentEntry (snd (Next_loop env dir r)) = Some e \<and>
        remaining env cap dir (snd (Next_loop env dir r)) = es"
  using assms
proof (induction env dir r rule: Next_loop.induct)
  case (1 env dir r)
  show ?case
  proof (cases "HasFilesToRead r")
    case False
    then show ?thesis by (auto simp: HasFilesToRead_def remaining_def Next_loop.simps [of env dir r])
  next
    case has: True
    obtain err r1 where r1: "FS_ReadLine env dir r = (err, r1)" by fastforce
    note c = FS_ReadLine_cases [OF "1.prems" has r1]
    show ?thesis
    proof (cases "err = ENone")
      case True
      with c has r1 show ?thesis by (auto simp: Next_loop.simps [of env dir r])
    next
      case False
      then have "Next_loop env dir r = Next_loop env dir r1"
        using has r1 by (simp add: Next_loop.simps [of env dir r])
      moreover have "remaining env cap dir r1 = remaining env cap dir r" using c False by simp
      moreover note "1.IH" [OF has r1 [symmetric] _ "1.prems"]
      ultimately show ?thesis using False by (simp only: simp_thms)
    qed
  qed
qed

text \<open>The implementation of the interface.\<close>

lemma FSLogReader_source:
  assumes "reader_ok env cap"
  shows "log_source (FSLogReader_Next env dir) FSLogReader_GetEntry (remaining env cap dir)"
  using Next_loop_source [OF assms, of dir]
  by unfold_locales (force simp: FSLogReader_Next_def FSLogReader_GetEntry_def split: list.splits)+

text \<open>A line reader that is as the library documents it, for lines of 200 characters.\<close>

definition posix_reader :: reader_env where
  "posix_reader = \<lparr>lr_ReadLine = (\<lambda>bs pos. if pos < length bs \<and> length (line_of bs pos) \<le> 200 then Inr (line_of bs pos)
       else Inl (EEnum eFailed)),
     lr_UTC = (\<lambda>s. None), lr_prefixed = (\<lambda>s. True), lr_AppendPath = (\<lambda>s. ''/log/'' @ s), lr_cMaxLogFiles = 8\<rparr>"

lemma posix_reader_ok: "reader_ok posix_reader 200"
  by (simp add: reader_ok_def posix_reader_def)

interpretation fsr: log_source "FSLogReader_Next posix_reader dir" FSLogReader_GetEntry "remaining posix_reader 200 dir" for dir
  by (rule FSLogReader_source [OF posix_reader_ok])

text \<open>After \<open>Reset\<close> all lines of the prefixed files remain, in the order of the file names.\<close>

lemma collect_logs_ok:
  "collect_logs env es fs = (ENone, fs') \<Longrightarrow>
   fs' = fs @ map (lr_AppendPath env \<circ> fst) (filter (\<lambda>(name, isDir). \<not> isDir \<and> lr_prefixed env name) es)"
  by (induction env es fs rule: collect_logs.induct) (auto simp: PushBack_def split: if_splits)

definition log_files :: "reader_env \<Rightarrow> log_dir \<Rightarrow> string list" where
  "log_files env dir = sort (map (lr_AppendPath env \<circ> fst)
     (filter (\<lambda>(name, isDir). \<not> isDir \<and> lr_prefixed env name) (ld_entries dir)))"

lemma Reset_remaining:
  "FSLogReader_Reset env dir r = (ENone, r') \<Longrightarrow>
   remaining env cap dir r' = map (entry_of env) (concat (map (file_lines cap dir) (log_files env dir)))"
  by (auto simp: FSLogReader_Reset_def ReadLogFiles_def CloseFile_def remaining_def log_files_def
      split: prod.splits if_splits dest: collect_logs_ok)

end
