(* ===== verification/LogProvider.thy ===== *)
theory LogProvider
  imports FSLogReader Storage
begin

text \<open>
  \<open>src/logprovider/logprovider.cpp\<close>: the queue of log requests and the thread that answers each
  by chunks of the matching log lines. The reader is a record of its virtual operations on a
  state \<open>'r\<close>, the observer is a function of the pushed log, and the library's instance filter is
  a type \<open>'f\<close> with its match.
\<close>

section \<open>State\<close>

record 'f RequestLog =
  rq_mLogID :: string
  rq_mFrom :: "Time option"
  rq_mTill :: "Time option"
  rq_mInstanceFilter :: 'f

datatype LogStatus = LogOk | LogError | LogEmpty

record PushLog =
  pg_mLogID :: string
  pg_mPartsCount :: u64
  pg_mPart :: u64
  pg_mContent :: string
  pg_mErrorInfo :: Error
  pg_mStatus :: LogStatus

definition cMaxNumLogRequests :: nat where "cMaxNumLogRequests = 4"

record 'f LogProvider =
  lp_mLogRequests :: "'f RequestLog list"
  lp_mStopped :: bool
  lp_mLogObserver :: bool

record 'r LogReaderItf =
  rd_Reset :: "'r \<Rightarrow> Error \<times> 'r"
  rd_Next :: "'r \<Rightarrow> bool \<times> 'r"
  rd_GetEntry :: "'r \<Rightarrow> Error + LogEntry"

text \<open>Capacities, the instance filter of the library, the observer and the stored instances.\<close>

record ('f) log_env =
  ln_cMaxContent :: nat
  ln_cLogEntryLen :: nat
  ln_InstanceFilter :: 'f
  ln_Match :: "'f \<Rightarrow> InstanceIdent \<Rightarrow> bool"
  ln_OnLogReceived :: "PushLog \<Rightarrow> Error"
  ln_instances :: "(InstanceIdent \<times> string) list"

section \<open>Requests\<close>

definition LogProvider_Start :: "Error \<Rightarrow> 'f LogProvider \<Rightarrow> Error \<times> 'f LogProvider" where
  "LogProvider_Start run lp =
     (if \<not> lp_mStopped lp then (EEnum eWrongState, lp) else (run, lp\<lparr>lp_mStopped := False\<rparr>))"

definition LogProvider_Stop :: "Error \<Rightarrow> 'f LogProvider \<Rightarrow> Error \<times> 'f LogProvider" where
  "LogProvider_Stop join lp =
     (if lp_mStopped lp then (EEnum eWrongState, lp) else (join, lp\<lparr>lp_mStopped := True\<rparr>))"

definition GetInstanceLog :: "'f RequestLog \<Rightarrow> 'f LogProvider \<Rightarrow> Error \<times> 'f LogProvider" where
  "GetInstanceLog request lp =
     (case PushBack cMaxNumLogRequests (lp_mLogRequests lp) request of
        (rs, err) \<Rightarrow> if err \<noteq> ENone then (err, lp) else (ENone, lp\<lparr>lp_mLogRequests := rs\<rparr>))"

definition GetSystemLog :: "'f RequestLog \<Rightarrow> 'f LogProvider \<Rightarrow> Error \<times> 'f LogProvider" where
  "GetSystemLog request lp =
     (case PushBack cMaxNumLogRequests (lp_mLogRequests lp) request of
        (rs, err) \<Rightarrow> if err \<noteq> ENone then (err, lp) else (ENone, lp\<lparr>lp_mLogRequests := rs\<rparr>))"

definition GetInstanceCrashLog :: "'f RequestLog \<Rightarrow> 'f LogProvider \<Rightarrow> Error \<times> 'f LogProvider" where
  "GetInstanceCrashLog request lp = (EEnum eNotSupported, lp)"

definition LogProvider_Subscribe :: "'f LogProvider \<Rightarrow> Error \<times> 'f LogProvider" where
  "LogProvider_Subscribe lp =
     (if lp_mLogObserver lp then (EEnum eAlreadyExist, lp) else (ENone, lp\<lparr>lp_mLogObserver := True\<rparr>))"

definition LogProvider_Unsubscribe :: "'f LogProvider \<Rightarrow> Error \<times> 'f LogProvider" where
  "LogProvider_Unsubscribe lp = (ENone, lp\<lparr>lp_mLogObserver := False\<rparr>)"

section \<open>Filters\<close>

definition FilterByDate :: "LogEntry \<Rightarrow> 'f RequestLog \<Rightarrow> bool" where
  "FilterByDate e rq =
     (if le_mContent e = [] then True
      else if rq_mFrom rq = None \<and> rq_mTill rq = None then False
      else (case le_mTime e of
        None \<Rightarrow> True
      | Some t \<Rightarrow>
          (case rq_mFrom rq of Some from \<Rightarrow> t < from | None \<Rightarrow> False) \<or>
          (case rq_mTill rq of Some till \<Rightarrow> t > till \<or> t = till | None \<Rightarrow> False)))"

definition FilterByInstanceID :: "LogEntry \<Rightarrow> string \<Rightarrow> bool" where
  "FilterByInstanceID e instanceFilter =
     (if instanceFilter = [] then True else \<not> sublist (''['' @ instanceFilter @ '']'') (le_mContent e))"

definition GetInstanceFilter :: "'f log_env \<Rightarrow> 'f RequestLog \<Rightarrow> string option" where
  "GetInstanceFilter env rq =
     (if rq_mInstanceFilter rq = ln_InstanceFilter env then None
      else map_option snd (List.find (\<lambda>(ident, id). ln_Match env (rq_mInstanceFilter rq) ident) (ln_instances env)))"

section \<open>Chunks\<close>

text \<open>An append beyond the capacity of a string is refused.\<close>

definition Append :: "nat \<Rightarrow> string \<Rightarrow> string \<Rightarrow> string" where
  "Append cap s t = (if length s + length t \<le> cap then s @ t else s)"

definition SendLogChunk :: "'f log_env \<Rightarrow> bool \<Rightarrow> PushLog \<Rightarrow> PushLog list \<Rightarrow> Error \<times> PushLog \<times> PushLog list" where
  "SendLogChunk env observer log sent =
     (let log1 = log\<lparr>pg_mPart := pg_mPart log + 1, pg_mPartsCount := pg_mPartsCount log + 1\<rparr> in
      if \<not> observer then (EEnum eNotFound, log1, sent)
      else if ln_OnLogReceived env log1 \<noteq> ENone then (ln_OnLogReceived env log1, log1, sent @ [log1])
      else (ENone, log1\<lparr>pg_mContent := []\<rparr>, sent @ [log1]))"

definition SendFinalChunk :: "'f log_env \<Rightarrow> bool \<Rightarrow> PushLog \<Rightarrow> PushLog list \<Rightarrow> Error \<times> PushLog \<times> PushLog list" where
  "SendFinalChunk env observer log sent = SendLogChunk env observer (log\<lparr>pg_mStatus := LogEmpty\<rparr>) sent"

definition SendErrorLog :: "'f log_env \<Rightarrow> bool \<Rightarrow> string \<Rightarrow> Error \<Rightarrow> PushLog list \<Rightarrow> Error \<times> PushLog list" where
  "SendErrorLog env observer logID err sent =
     (case SendLogChunk env observer \<lparr>pg_mLogID = logID, pg_mPartsCount = 0, pg_mPart = 0, pg_mContent = [],
             pg_mErrorInfo = err, pg_mStatus = LogError\<rparr> sent of
        (e, log, sent') \<Rightarrow> (e, sent'))"

text \<open>The line to be sent for an entry, unless the filters drop it.\<close>

definition keep :: "'f RequestLog \<Rightarrow> string option \<Rightarrow> LogEntry \<Rightarrow> bool" where
  "keep rq flt e \<longleftrightarrow> \<not> FilterByDate e rq \<and> \<not> (case flt of None \<Rightarrow> False | Some f \<Rightarrow> FilterByInstanceID e f)"

definition line :: "'f log_env \<Rightarrow> LogEntry \<Rightarrow> string" where
  "line env e = Append (ln_cLogEntryLen env) (le_mContent e) [CHR 0x0A]"

text \<open>The loop of \<open>HandleLogRequest\<close>; a reader may go on forever.\<close>

partial_function (option) HandleLog_loop ::
  "('r \<Rightarrow> bool \<times> 'r) \<Rightarrow> ('r \<Rightarrow> Error + LogEntry) \<Rightarrow> 'f log_env \<Rightarrow> bool \<Rightarrow> (LogEntry \<Rightarrow> bool) \<Rightarrow>
   PushLog \<Rightarrow> PushLog list \<Rightarrow> 'r \<Rightarrow> (Error \<times> PushLog \<times> PushLog list \<times> 'r) option" where
  "HandleLog_loop Next GetEntry env observer keeps log sent r =
     (let r' = snd (Next r) in
      if \<not> fst (Next r) then Some (ENone, log, sent, r')
      else (case GetEntry r' of
        Inl err \<Rightarrow> HandleLog_loop Next GetEntry env observer keeps log sent r'
      | Inr e \<Rightarrow>
          if \<not> keeps e then HandleLog_loop Next GetEntry env observer keeps log sent r'
          else
            (let l = line env e;
                 res = (if length (pg_mContent log) + length l > ln_cMaxContent env then SendLogChunk env observer log sent
                        else (ENone, log, sent));
                 log1 = fst (snd res); sent1 = snd (snd res)
             in if fst res \<noteq> ENone then Some (fst res, log1, sent1, r')
                else HandleLog_loop Next GetEntry env observer keeps
                  (log1\<lparr>pg_mContent := Append (ln_cMaxContent env) (pg_mContent log1) l\<rparr>) sent1 r')))"

definition HandleLogRequest ::
  "'r LogReaderItf \<Rightarrow> 'f log_env \<Rightarrow> bool \<Rightarrow> 'f RequestLog \<Rightarrow> PushLog list \<Rightarrow> 'r \<Rightarrow> (Error \<times> PushLog list \<times> 'r) option" where
  "HandleLogRequest rd env observer rq sent r =
     (case rd_Reset rd r of
        (err, r1) \<Rightarrow>
          if err \<noteq> ENone then Some (err, sent, r1)
          else
            (case HandleLog_loop (rd_Next rd) (rd_GetEntry rd) env observer (keep rq (GetInstanceFilter env rq))
                \<lparr>pg_mLogID = rq_mLogID rq, pg_mPartsCount = 0, pg_mPart = 0, pg_mContent = [], pg_mErrorInfo = ENone,
                 pg_mStatus = LogOk\<rparr> sent r1 of
               None \<Rightarrow> None
             | Some (err, log, sent, r2) \<Rightarrow>
                 if err \<noteq> ENone then Some (err, sent, r2)
                 else
                   (case (if pg_mContent log \<noteq> [] then SendLogChunk env observer log sent else (ENone, log, sent)) of
                      (err, log, sent) \<Rightarrow>
                        if err \<noteq> ENone then Some (err, sent, r2)
                        else (case SendFinalChunk env observer log sent of
                          (err, log, sent) \<Rightarrow> Some (err, sent, r2)))))"

text \<open>One round of \<open>ProcessLogRequests\<close>; \<open>None\<close> if the request's loop never ends.\<close>

definition ProcessLogRequests_step ::
  "'r LogReaderItf \<Rightarrow> 'f log_env \<Rightarrow> 'f LogProvider \<times> PushLog list \<times> 'r \<Rightarrow> ('f LogProvider \<times> PushLog list \<times> 'r) option" where
  "ProcessLogRequests_step rd env st =
     (case st of (lp, sent, r) \<Rightarrow>
        if lp_mStopped lp then Some st
        else (case lp_mLogRequests lp of
          [] \<Rightarrow> Some st
        | rq # rqs \<Rightarrow>
            (case HandleLogRequest rd env (lp_mLogObserver lp) rq sent r of
               None \<Rightarrow> None
             | Some (err, sent1, r1) \<Rightarrow>
                 (let sent2 = (if err \<noteq> ENone then snd (SendErrorLog env (lp_mLogObserver lp) (rq_mLogID rq) err sent1) else sent1)
                  in Some (lp\<lparr>lp_mLogRequests := rqs\<rparr>, sent2, r1)))))"

section \<open>The chunks of a request\<close>

text \<open>Lines are packed greedily: a chunk is sent when the next line does not fit any more.\<close>

fun pack :: "nat \<Rightarrow> string \<Rightarrow> string list \<Rightarrow> string list" where
  "pack cap acc [] = (if acc = [] then [] else [acc])"
| "pack cap acc (l # ls) = (if length acc + length l > cap then acc # pack cap l ls else pack cap (acc @ l) ls)"

lemma pack_concat: "concat (pack cap acc ls) = acc @ concat ls"
  by (induction cap acc ls rule: pack.induct) auto

lemma pack_bound: "length acc \<le> cap \<Longrightarrow> \<forall>l\<in>set ls. length l \<le> cap \<Longrightarrow> \<forall>c\<in>set (pack cap acc ls). length c \<le> cap"
  by (induction cap acc ls rule: pack.induct) auto

lemma pack_nonempty: "\<forall>l\<in>set ls. length l \<le> cap \<and> l \<noteq> [] \<Longrightarrow> \<forall>c\<in>set (pack cap acc ls). c \<noteq> []"
  by (induction cap acc ls rule: pack.induct) auto

definition kept :: "'f log_env \<Rightarrow> 'f RequestLog \<Rightarrow> LogEntry list \<Rightarrow> string list" where
  "kept env rq es = map (line env) (filter (keep rq (GetInstanceFilter env rq)) es)"

definition chunk :: "string \<Rightarrow> nat \<Rightarrow> LogStatus \<Rightarrow> string \<Rightarrow> PushLog" where
  "chunk logID n status c = \<lparr>pg_mLogID = logID, pg_mPartsCount = of_nat n, pg_mPart = of_nat n, pg_mContent = c,
     pg_mErrorInfo = ENone, pg_mStatus = status\<rparr>"

text \<open>The messages of the chunks, numbered from \<open>n + 1\<close>, with the closing empty one.\<close>

fun chunk_msgs :: "string \<Rightarrow> nat \<Rightarrow> string list \<Rightarrow> PushLog list" where
  "chunk_msgs logID n [] = [chunk logID (n + 1) LogEmpty []]"
| "chunk_msgs logID n (c # cs) = chunk logID (n + 1) LogOk c # chunk_msgs logID (n + 1) cs"

definition finish :: "'f log_env \<Rightarrow> bool \<Rightarrow> Error \<times> PushLog \<times> PushLog list \<times> 'r \<Rightarrow> Error \<times> PushLog list \<times> 'r" where
  "finish env observer res = (case res of (err, log, sent, r) \<Rightarrow>
     if err \<noteq> ENone then (err, sent, r)
     else (case (if pg_mContent log \<noteq> [] then SendLogChunk env observer log sent else (ENone, log, sent)) of
       (err, log, sent) \<Rightarrow>
         if err \<noteq> ENone then (err, sent, r)
         else (case SendFinalChunk env observer log sent of (err, log, sent) \<Rightarrow> (err, sent, r))))"

lemma HandleLogRequest_finish:
  "HandleLogRequest rd env observer rq sent r =
     (case rd_Reset rd r of
        (err, r1) \<Rightarrow>
          if err \<noteq> ENone then Some (err, sent, r1)
          else map_option (finish env observer)
            (HandleLog_loop (rd_Next rd) (rd_GetEntry rd) env observer (keep rq (GetInstanceFilter env rq))
              (chunk (rq_mLogID rq) 0 LogOk []) sent r1))"
  by (auto simp: HandleLogRequest_def finish_def chunk_def split: prod.splits option.splits)

lemma SendLogChunk_ok:
  assumes "\<forall>l. ln_OnLogReceived env l = ENone"
  shows "SendLogChunk env True (chunk logID n st c) sent = (ENone, chunk logID (Suc n) st [], sent @ [chunk logID (Suc n) st c])"
  using assms by (simp add: SendLogChunk_def chunk_def add.commute)

lemma Append_fits [simp]: "length s + length t \<le> cap \<Longrightarrow> Append cap s t = s @ t"
  by (simp add: Append_def)

context log_source
begin

text \<open>The loop ends for every observer, because the source does.\<close>

lemma loop_total: "\<exists>res. HandleLog_loop Next GetEntry env observer keeps log sent r = Some res"
proof (induction "entries r" arbitrary: r log sent)
  case Nil
  then show ?case using Next_end [of r] by (simp add: HandleLog_loop.simps)
next
  case (Cons e es)
  from Next_more [OF Cons(2) [symmetric]] have n: "fst (Next r)" "GetEntry (snd (Next r)) = Inr e" "es = entries (snd (Next r))"
    by auto
  from Cons(1) [OF n(3)] have "\<And>log sent. \<exists>res. HandleLog_loop Next GetEntry env observer keeps log sent (snd (Next r)) = Some res" .
  then show ?case
    by (subst HandleLog_loop.simps) (simp add: n(1,2) Let_def)
qed

text \<open>With an observer that takes everything, it sends the packed lines.\<close>

lemma loop_ok:
  assumes "\<forall>l. ln_OnLogReceived env l = ENone" "\<forall>e\<in>set (entries r). length (line env e) \<le> ln_cMaxContent env"
  shows "\<exists>r'. map_option (finish env True) (HandleLog_loop Next GetEntry env True keeps (chunk logID n LogOk c) sent r) =
    Some (ENone, sent @ chunk_msgs logID n (pack (ln_cMaxContent env) c (map (line env) (filter keeps (entries r)))), r')"
  using assms(2)
proof (induction "entries r" arbitrary: r c n sent)
  case Nil
  have f: "SendFinalChunk env True (chunk logID m LogOk []) sent' =
      (ENone, chunk logID (Suc m) LogEmpty [], sent' @ [chunk logID (Suc m) LogEmpty []])" for m sent'
    using SendLogChunk_ok [OF assms(1), of logID m LogEmpty "[]" sent'] by (simp add: SendFinalChunk_def chunk_def)
  have "HandleLog_loop Next GetEntry env True keeps (chunk logID n LogOk c) sent r = Some (ENone, chunk logID n LogOk c, sent, snd (Next r))"
    using Nil Next_end [of r] by (subst HandleLog_loop.simps) simp
  with Nil(1) show ?case
    using f [of n sent] f [of "Suc n"] SendLogChunk_ok [OF assms(1), of logID n LogOk c sent]
    by (auto simp: finish_def chunk_def)
next
  case (Cons e es)
  from Next_more [OF Cons(2) [symmetric]] have nx: "fst (Next r)" "GetEntry (snd (Next r)) = Inr e" "es = entries (snd (Next r))"
    by auto
  have fit: "\<forall>e\<in>set (entries (snd (Next r))). length (line env e) \<le> ln_cMaxContent env" "length (line env e) \<le> ln_cMaxContent env"
    using Cons.prems nx(3) Cons(2) [symmetric] by auto
  note IH = Cons(1) [OF nx(3) fit(1)]
  let ?l = "line env e" and ?cap = "ln_cMaxContent env"
  consider (drop) "\<not> keeps e" | (send) "keeps e" "length c + length ?l > ?cap" | (add) "keeps e" "length c + length ?l \<le> ?cap"
    by linarith
  then show ?case
  proof cases
    case drop
    with IH [of n c sent] nx show ?thesis
      by (subst HandleLog_loop.simps) (simp add: Let_def flip: Cons(2))
  next
    case send
    have "(chunk logID (Suc n) LogOk [])\<lparr>pg_mContent := ?l\<rparr> = chunk logID (Suc n) LogOk ?l" by (simp add: chunk_def)
    with send IH [of "Suc n" ?l "sent @ [chunk logID (Suc n) LogOk c]"] nx fit(2) show ?thesis
      using SendLogChunk_ok [OF assms(1), of logID n LogOk c sent]
      by (subst HandleLog_loop.simps) (simp add: Let_def chunk_def flip: Cons(2))
  next
    case add
    have "(chunk logID n LogOk c)\<lparr>pg_mContent := c @ ?l\<rparr> = chunk logID n LogOk (c @ ?l)" by (simp add: chunk_def)
    with add IH [of n "c @ ?l" sent] nx show ?thesis
      by (subst HandleLog_loop.simps) (simp add: Let_def chunk_def flip: Cons(2))
  qed
qed

end

definition fs_log_reader :: "reader_env \<Rightarrow> log_dir \<Rightarrow> FSLogReader LogReaderItf" where
  "fs_log_reader renv dir = \<lparr>rd_Reset = FSLogReader_Reset renv dir, rd_Next = FSLogReader_Next renv dir, rd_GetEntry = FSLogReader_GetEntry\<rparr>"

text \<open>All entries of the log files, oldest name first.\<close>

definition all_entries :: "reader_env \<Rightarrow> nat \<Rightarrow> log_dir \<Rightarrow> LogEntry list" where
  "all_entries renv cap dir = map (entry_of renv) (concat (map (file_lines cap dir) (log_files renv dir)))"

lemma lines_from_bound: "l \<in> set (lines_from cap bs pos) \<Longrightarrow> length l \<le> cap"
proof (induction cap bs pos rule: lines_from.induct)
  case (1 cap bs pos)
  then show ?case by (subst (asm) (2) lines_from.simps) (auto split: if_splits)
qed

lemma all_entries_bound: "e \<in> set (all_entries renv cap dir) \<Longrightarrow> length (le_mContent e) \<le> cap"
  by (auto simp: all_entries_def entry_of_def file_lines_def split: option.splits dest: lines_from_bound)

lemma line_length: "length (line env e) \<le> Suc (length (le_mContent e))"
  by (simp add: line_def Append_def)

lemma kept_nonempty: "l \<in> set (kept env rq es) \<Longrightarrow> l \<noteq> []"
  by (auto simp: kept_def keep_def FilterByDate_def line_def Append_def split: if_splits)

lemma HandleLogRequest_fs:
  assumes "reader_ok renv cap" "cap < ln_cMaxContent env" "\<forall>l. ln_OnLogReceived env l = ENone"
    and "FSLogReader_Reset renv dir r = (ENone, r1)"
  shows "\<exists>r'. HandleLogRequest (fs_log_reader renv dir) env True rq sent r =
    Some (ENone, sent @ chunk_msgs (rq_mLogID rq) 0 (pack (ln_cMaxContent env) [] (kept env rq (all_entries renv cap dir))), r')"
proof -
  have rem: "remaining renv cap dir r1 = all_entries renv cap dir"
    using Reset_remaining [OF assms(4)] by (simp add: all_entries_def)
  have "length (line env e) \<le> ln_cMaxContent env" if "e \<in> set (all_entries renv cap dir)" for e
    using line_length [of env e] all_entries_bound [OF that] assms(2) by linarith
  with log_source.loop_ok [OF FSLogReader_source [OF assms(1), of dir] assms(3), of r1 "keep rq (GetInstanceFilter env rq)"
      "rq_mLogID rq" 0 "[]" sent] rem assms(4) show ?thesis
    by (simp add: HandleLogRequest_finish fs_log_reader_def kept_def)
qed

text \<open>What answers a request: numbered data, and at the end one message that is not data.\<close>

definition answers :: "'f RequestLog \<Rightarrow> PushLog list \<Rightarrow> bool" where
  "answers rq ms \<longleftrightarrow> ms \<noteq> [] \<and> (\<forall>m\<in>set ms. pg_mLogID m = rq_mLogID rq) \<and>
     (\<forall>m\<in>set (butlast ms). pg_mStatus m = LogOk) \<and> pg_mStatus (last ms) \<noteq> LogOk"

lemma chunk_msgs_answer: "rq_mLogID rq = logID \<Longrightarrow> answers rq (chunk_msgs logID n cs)"
  by (induction cs arbitrary: n) (auto simp: answers_def chunk_def)

lemma step_answers:
  assumes "reader_ok renv cap" "cap < ln_cMaxContent env" "\<forall>l. ln_OnLogReceived env l = ENone"
    and "\<not> lp_mStopped lp" "lp_mLogObserver lp" "lp_mLogRequests lp = rq # rqs"
  shows "\<exists>ms r'. ProcessLogRequests_step (fs_log_reader renv dir) env (lp, sent, r) =
    Some (lp\<lparr>lp_mLogRequests := rqs\<rparr>, sent @ ms, r') \<and> answers rq ms"
proof -
  obtain err r1 where reset: "FSLogReader_Reset renv dir r = (err, r1)" by fastforce
  show ?thesis
  proof (cases "err = ENone")
    case True
    from HandleLogRequest_fs [OF assms(1-3) reset [unfolded True], of rq sent] obtain r' where
      "HandleLogRequest (fs_log_reader renv dir) env True rq sent r = Some (ENone, sent @ chunk_msgs (rq_mLogID rq) 0
         (pack (ln_cMaxContent env) [] (kept env rq (all_entries renv cap dir))), r')" by blast
    with assms(4-6) show ?thesis
      by (auto simp: ProcessLogRequests_step_def intro: chunk_msgs_answer)
  next
    case False
    with reset assms(3-6) show ?thesis
      by (simp add: ProcessLogRequests_step_def HandleLogRequest_def fs_log_reader_def SendErrorLog_def SendLogChunk_def answers_def Let_def)
  qed
qed

fun ProcessLogRequests_steps ::
  "nat \<Rightarrow> 'r LogReaderItf \<Rightarrow> 'f log_env \<Rightarrow> 'f LogProvider \<times> PushLog list \<times> 'r \<Rightarrow> ('f LogProvider \<times> PushLog list \<times> 'r) option" where
  "ProcessLogRequests_steps 0 rd env st = Some st"
| "ProcessLogRequests_steps (Suc n) rd env st =
     (case ProcessLogRequests_step rd env st of None \<Rightarrow> None | Some st' \<Rightarrow> ProcessLogRequests_steps n rd env st')"

section \<open>What is asked for\<close>

text \<open>
  A time \<open>t\<close> lies in a span whose beginning belongs to it and whose end does not. Without bounds the
  span holds every line, with a bound only lines with a time.
\<close>

definition in_span :: "Time option \<Rightarrow> Time option \<Rightarrow> Time option \<Rightarrow> bool" where
  "in_span from till t \<longleftrightarrow> from = None \<and> till = None \<or>
     (\<exists>u. t = Some u \<and> (\<forall>a. from = Some a \<longrightarrow> a \<le> u) \<and> (\<forall>z. till = Some z \<longrightarrow> u < z))"

text \<open>A line names the first stored instance that a filter matches by its identifier in brackets;
  a filter that is not given, or that matches no stored instance, is met by every line.\<close>

definition names_instance :: "'f log_env \<Rightarrow> 'f \<Rightarrow> string \<Rightarrow> bool" where
  "names_instance env flt l \<longleftrightarrow> flt = ln_InstanceFilter env \<or> (\<forall>x\<in>set (ln_instances env). \<not> ln_Match env flt (fst x)) \<or>
     (\<exists>pre ident id post. ln_instances env = pre @ (ident, id) # post \<and> (\<forall>x\<in>set pre. \<not> ln_Match env flt (fst x)) \<and>
        ln_Match env flt ident \<and> id \<noteq> [] \<and> (\<exists>u v. l = u @ ''['' @ id @ '']'' @ v))"

text \<open>The lines of all log files, oldest name first: of each file the lines before the first
  that is longer than an entry; empty lines do not count.\<close>

definition stored_lines :: "reader_env \<Rightarrow> nat \<Rightarrow> log_dir \<Rightarrow> string list" where
  "stored_lines renv cap dir = filter (\<lambda>l. l \<noteq> []) (concat (map (\<lambda>f. takeWhile (\<lambda>l. length l \<le> cap)
     (split_lines (case ld_files dir f of None \<Rightarrow> [] | Some bs \<Rightarrow> bs))) (log_files renv dir)))"

text \<open>A line is sent with a line end, unless it fills the entry that holds it.\<close>

definition sent_line :: "nat \<Rightarrow> string \<Rightarrow> string" where
  "sent_line n l = (if length l < n then l @ [CHR 0x0A] else l)"

lemma find_first:
  "List.find P xs = Some x \<longleftrightarrow> (\<exists>pre post. xs = pre @ x # post \<and> (\<forall>y\<in>set pre. \<not> P y) \<and> P x)"
proof
  assume "List.find P xs = Some x"
  then show "\<exists>pre post. xs = pre @ x # post \<and> (\<forall>y\<in>set pre. \<not> P y) \<and> P x"
  proof (induction xs)
    case (Cons y ys)
    show ?case
    proof (cases "P y")
      case True
      with Cons.prems show ?thesis by (intro exI [of _ "[]"] exI [of _ ys]) simp
    next
      case False
      with Cons obtain pre post where "ys = pre @ x # post" "\<forall>y\<in>set pre. \<not> P y" "P x" by auto
      with False show ?thesis by (intro exI [of _ "y # pre"] exI [of _ post]) simp
    qed
  qed simp
next
  assume "\<exists>pre post. xs = pre @ x # post \<and> (\<forall>y\<in>set pre. \<not> P y) \<and> P x"
  then obtain pre post where x: "xs = pre @ x # post" "\<forall>y\<in>set pre. \<not> P y" "P x" by blast
  from x(2,3) show "List.find P xs = Some x" unfolding x(1) by (induction pre) auto
qed

lemma filter_names:
  "(case GetInstanceFilter env rq of None \<Rightarrow> False | Some f \<Rightarrow> FilterByInstanceID e f) \<longleftrightarrow>
     \<not> names_instance env (rq_mInstanceFilter rq) (le_mContent e)"
proof (cases "rq_mInstanceFilter rq = ln_InstanceFilter env")
  case False
  let ?P = "\<lambda>(ident, id :: string). ln_Match env (rq_mInstanceFilter rq) ident"
  show ?thesis
  proof (cases "List.find ?P (ln_instances env)")
    case None
    then have "\<forall>x\<in>set (ln_instances env). \<not> ln_Match env (rq_mInstanceFilter rq) (fst x)" by (force simp: find_None_iff)
    with None False show ?thesis by (simp add: GetInstanceFilter_def names_instance_def)
  next
    case (Some x)
    obtain ident id where x: "x = (ident, id)" by fastforce
    have first: "List.find ?P (ln_instances env) = Some (i, d) \<longleftrightarrow> (\<exists>pre post. ln_instances env = pre @ (i, d) # post \<and>
        (\<forall>x\<in>set pre. \<not> ln_Match env (rq_mInstanceFilter rq) (fst x)) \<and> ln_Match env (rq_mInstanceFilter rq) i)" for i d
      by (simp add: find_first case_prod_beta)
    obtain pre post where "ln_instances env = pre @ (ident, id) # post" "ln_Match env (rq_mInstanceFilter rq) ident"
      using first [of ident id] Some unfolding x by blast
    then have "\<exists>x\<in>set (ln_instances env). ln_Match env (rq_mInstanceFilter rq) (fst x)"
      by (intro bexI [of _ "(ident, id)"]) simp_all
    then have some: "(\<forall>x\<in>set (ln_instances env). \<not> ln_Match env (rq_mInstanceFilter rq) (fst x)) = False" by blast
    have first_id: "(\<exists>pre i d post. ln_instances env = pre @ (i, d) # post \<and> (\<forall>x\<in>set pre. \<not> ln_Match env (rq_mInstanceFilter rq) (fst x)) \<and>
          ln_Match env (rq_mInstanceFilter rq) i \<and> d \<noteq> [] \<and> (\<exists>u v. l = u @ ''['' @ d @ '']'' @ v)) \<longleftrightarrow>
        id \<noteq> [] \<and> (\<exists>u v. l = u @ ''['' @ id @ '']'' @ v)" for l
    proof -
      have "(\<exists>pre i d post. ln_instances env = pre @ (i, d) # post \<and> (\<forall>x\<in>set pre. \<not> ln_Match env (rq_mInstanceFilter rq) (fst x)) \<and>
          ln_Match env (rq_mInstanceFilter rq) i \<and> d \<noteq> [] \<and> (\<exists>u v. l = u @ ''['' @ d @ '']'' @ v)) \<longleftrightarrow> (\<exists>i d. List.find ?P (ln_instances env) = Some (i, d) \<and> d \<noteq> [] \<and> (\<exists>u v. l = u @ ''['' @ d @ '']'' @ v))"
        unfolding first by blast
      then show ?thesis unfolding Some x by simp
    qed
    have "names_instance env (rq_mInstanceFilter rq) l \<longleftrightarrow> id \<noteq> [] \<and> (\<exists>u v. l = u @ ''['' @ id @ '']'' @ v)" for l
      by (simp only: names_instance_def first_id some False simp_thms)
    then show ?thesis using False Some x by (simp add: GetInstanceFilter_def FilterByInstanceID_def sublist_def)
  qed
qed (simp add: GetInstanceFilter_def names_instance_def)

lemma filter_span: "FilterByDate e rq \<longleftrightarrow> le_mContent e = [] \<or> \<not> in_span (rq_mFrom rq) (rq_mTill rq) (le_mTime e)"
  by (auto simp: FilterByDate_def in_span_def not_less split: option.splits)

lemma kept_stored:
  "concat (kept env rq (all_entries renv cap dir)) = concat (map (sent_line (ln_cLogEntryLen env))
     (filter (\<lambda>l. in_span (rq_mFrom rq) (rq_mTill rq) (lr_UTC renv l) \<and> names_instance env (rq_mInstanceFilter rq) l)
       (stored_lines renv cap dir)))"
proof -
  have "file_lines cap dir f = takeWhile (\<lambda>l. length l \<le> cap) (split_lines (case ld_files dir f of None \<Rightarrow> [] | Some bs \<Rightarrow> bs))" for f
    by (simp add: file_lines_def lines_from_split split: option.splits)
  moreover have "keep rq (GetInstanceFilter env rq) \<circ> entry_of renv =
      (\<lambda>l. l \<noteq> [] \<and> in_span (rq_mFrom rq) (rq_mTill rq) (lr_UTC renv l) \<and> names_instance env (rq_mInstanceFilter rq) l)"
    by (auto simp: fun_eq_iff keep_def filter_names filter_span entry_of_def)
  moreover have "line env \<circ> entry_of renv = sent_line (ln_cLogEntryLen env)"
    by (auto simp: fun_eq_iff line_def entry_of_def Append_def sent_line_def)
  ultimately show ?thesis
    by (simp add: kept_def all_entries_def stored_lines_def filter_map conj_assoc cong: map_cong)
qed

section \<open>Properties\<close>

text \<open>C13. A log request over the log files is answered completely: with an observer that accepts
  everything, and chunks that can hold a line, handling a request ends, and it sends data
  chunks numbered from one and a closing empty chunk; put together, the chunks are exactly
  the lines of all log files, in the order of the file names, that lie in the time span of the
  request and name the instance it asks for, each with a newline unless it fills an entry, and no
  chunk is empty or larger than a chunk may be. Of a file with a line longer than an entry only
  the lines before that line are sent.\<close>

theorem log_request_answered:
  assumes "reader_ok renv cap" "cap < ln_cMaxContent env" "\<forall>l. ln_OnLogReceived env l = ENone"
    and "FSLogReader_Reset renv dir r = (ENone, r1)"
  shows "\<exists>chunks r'. HandleLogRequest (fs_log_reader renv dir) env True rq sent r =
      Some (ENone, sent @ chunk_msgs (rq_mLogID rq) 0 chunks, r') \<and>
    concat chunks = concat (map (sent_line (ln_cLogEntryLen env))
      (filter (\<lambda>l. in_span (rq_mFrom rq) (rq_mTill rq) (lr_UTC renv l) \<and> names_instance env (rq_mInstanceFilter rq) l)
        (stored_lines renv cap dir))) \<and>
    (\<forall>c\<in>set chunks. c \<noteq> [] \<and> length c \<le> ln_cMaxContent env)"
proof -
  let ?ks = "kept env rq (all_entries renv cap dir)" and ?max = "ln_cMaxContent env"
  have "length l \<le> ?max" if l: "l \<in> set ?ks" for l
  proof -
    from l obtain e where e: "l = line env e" "e \<in> set (all_entries renv cap dir)" by (auto simp: kept_def)
    with line_length [of env e] all_entries_bound [OF e(2)] assms(2) show ?thesis unfolding e(1) by linarith
  qed
  then have len: "\<forall>l\<in>set ?ks. length l \<le> ?max" by blast
  then have "\<forall>c\<in>set (pack ?max [] ?ks). c \<noteq> []"
    using kept_nonempty by (intro pack_nonempty ballI conjI) blast+
  moreover have "\<forall>c\<in>set (pack ?max [] ?ks). length c \<le> ?max"
    using len by (intro pack_bound) auto
  ultimately show ?thesis
    using HandleLogRequest_fs [OF assms, of rq sent] pack_concat [of ?max "[]" ?ks] unfolding kept_stored [symmetric] by fastforce
qed

text \<open>Two files, an empty filter, and chunks of seven characters over lines of six.\<close>

definition demo_lenv :: "nat \<Rightarrow> nat log_env" where
  "demo_lenv n = \<lparr>ln_cMaxContent = n, ln_cLogEntryLen = 201, ln_InstanceFilter = 0, ln_Match = (\<lambda>f i. ii_mInstance i = of_nat f),
     ln_OnLogReceived = (\<lambda>l. ENone), ln_instances = [(\<lparr>ii_mServiceID = ''s'', ii_mSubjectID = ''u'', ii_mInstance = 1\<rparr>, ''id1'')]\<rparr>"

definition demo_dir :: log_dir where
  "demo_dir = \<lparr>ld_entries = [(''b'', False), (''d'', True), (''a'', False)],
     ld_files = [''/log/a'' \<mapsto> [65, 10, 66, 66, 10], ''/log/b'' \<mapsto> [67, 10]]\<rparr>"

definition demo_reader :: FSLogReader where
  "demo_reader = \<lparr>lo_mCurrentEntry = None, lo_mCurrentPos = 0, lo_mFD = None, lo_mLogFiles = []\<rparr>"

definition demo_rq :: "nat \<Rightarrow> nat RequestLog" where
  "demo_rq f = \<lparr>rq_mLogID = ''log'', rq_mFrom = None, rq_mTill = None, rq_mInstanceFilter = f\<rparr>"

lemma demo_log_files: "log_files posix_reader demo_dir = [''/log/a'', ''/log/b'']"
  by (simp add: log_files_def posix_reader_def demo_dir_def)

lemma demo_lines:
  "file_lines 200 demo_dir ''/log/a'' = [''A'', ''BB'']" "file_lines 200 demo_dir ''/log/b'' = [''C'']"
  by (simp_all add: file_lines_def demo_dir_def lines_from.simps line_of_def char_of_def bit_0)

lemma demo_entries:
  "all_entries posix_reader 200 demo_dir = map (\<lambda>l. \<lparr>le_mContent = l, le_mTime = None\<rparr>) [''A'', ''BB'', ''C'']"
proof -
  have "entry_of posix_reader l = \<lparr>le_mContent = l, le_mTime = None\<rparr>" for l by (simp add: entry_of_def posix_reader_def)
  then show ?thesis by (simp add: all_entries_def demo_log_files demo_lines)
qed

text \<open>With times known for two of the lines, and a request from second six on.\<close>

definition demo_timed :: reader_env where
  "demo_timed = posix_reader\<lparr>lr_UTC := (\<lambda>l. if l = ''A'' then Some (Time 5 0) else if l = ''BB'' then Some (Time 9 0) else None)\<rparr>"

lemma demo_timed_ok: "reader_ok demo_timed 200"
  using posix_reader_ok by (simp add: reader_ok_def demo_timed_def)

lemma demo_stored: "stored_lines demo_timed 200 demo_dir = [''A'', ''BB'', ''C'']" "stored_lines posix_reader 200 demo_dir = [''A'', ''BB'', ''C'']"
proof -
  have "log_files demo_timed demo_dir = [''/log/a'', ''/log/b'']"
    using demo_log_files by (simp add: log_files_def demo_timed_def)
  then show "stored_lines demo_timed 200 demo_dir = [''A'', ''BB'', ''C'']" "stored_lines posix_reader 200 demo_dir = [''A'', ''BB'', ''C'']"
    unfolding stored_lines_def demo_log_files by (simp_all add: demo_dir_def char_of_def bit_0)
qed

lemma log_request_answered_witness:
  "\<exists>chunks r'. HandleLogRequest (fs_log_reader demo_timed demo_dir) (demo_lenv 205) True ((demo_rq 0)\<lparr>rq_mFrom := Some (Time 6 0)\<rparr>) []
      demo_reader = Some (ENone, chunk_msgs ''log'' 0 chunks, r') \<and> concat chunks = ''BB'' @ [CHR 0x0A]"
proof -
  let ?rq = "(demo_rq 0)\<lparr>rq_mFrom := Some (Time 6 0)\<rparr>"
  obtain r1 where reset: "FSLogReader_Reset demo_timed demo_dir demo_reader = (ENone, r1)"
    by (simp add: FSLogReader_Reset_def ReadLogFiles_def demo_dir_def demo_timed_def posix_reader_def demo_reader_def)
  have lenv: "200 < ln_cMaxContent (demo_lenv 205)" "\<forall>l. ln_OnLogReceived (demo_lenv 205) l = ENone" "ln_cLogEntryLen (demo_lenv 205) = 201"
    "ln_InstanceFilter (demo_lenv 205) = 0" "rq_mLogID ?rq = ''log''" "rq_mFrom ?rq = Some (Time 6 0)" "rq_mTill ?rq = None" "rq_mInstanceFilter ?rq = 0"
    by (simp_all add: demo_lenv_def demo_rq_def)
  have "filter (\<lambda>l. in_span (rq_mFrom ?rq) (rq_mTill ?rq) (lr_UTC demo_timed l) \<and> names_instance (demo_lenv 205) (rq_mInstanceFilter ?rq) l)
      (stored_lines demo_timed 200 demo_dir) = [''BB'']"
    unfolding lenv(6-8) demo_stored
    by (simp add: in_span_def names_instance_def lenv(4) demo_timed_def less_eq_Time_def)
  with log_request_answered [OF demo_timed_ok lenv(1,2) reset, of ?rq "[]"] lenv(3,5) show ?thesis
    by (fastforce simp: sent_line_def)
qed

text \<open>C28. Accepted requests are served in order: however many are queued, as many rounds of the
  thread empty the queue, and the observer receives for each request in turn a group of
  messages with its identifier, data first and then exactly one closing message, an error if
  the log files could not be listed.\<close>

theorem log_requests_served:
  assumes "reader_ok renv cap" "cap < ln_cMaxContent env" "\<forall>l. ln_OnLogReceived env l = ENone"
    and "\<not> lp_mStopped lp" "lp_mLogObserver lp"
  shows "\<exists>groups r'. ProcessLogRequests_steps (length (lp_mLogRequests lp)) (fs_log_reader renv dir) env (lp, sent, r) =
      Some (lp\<lparr>lp_mLogRequests := []\<rparr>, sent @ concat groups, r') \<and>
    list_all2 answers (lp_mLogRequests lp) groups"
  using assms(4,5)
proof (induction "lp_mLogRequests lp" arbitrary: lp sent r)
  case Nil
  then show ?case by (intro exI [of _ "[]"] exI [of _ r]) simp
next
  case (Cons rq rqs)
  from step_answers [OF assms(1-3) Cons.prems Cons(2) [symmetric]] obtain ms r1 where
    s: "ProcessLogRequests_step (fs_log_reader renv dir) env (lp, sent, r) = Some (lp\<lparr>lp_mLogRequests := rqs\<rparr>, sent @ ms, r1)"
      "answers rq ms" by blast
  from Cons(1) [of "lp\<lparr>lp_mLogRequests := rqs\<rparr>" "sent @ ms" r1] Cons.prems obtain gs r2 where
    "ProcessLogRequests_steps (length rqs) (fs_log_reader renv dir) env (lp\<lparr>lp_mLogRequests := rqs\<rparr>, sent @ ms, r1) =
       Some (lp\<lparr>lp_mLogRequests := []\<rparr>, (sent @ ms) @ concat gs, r2)" "list_all2 answers rqs gs" by auto
  with s show ?case
    by (intro exI [of _ "ms # gs"] exI [of _ r2]) (simp flip: Cons(2))
qed

definition demo_lp :: "nat LogProvider" where
  "demo_lp = \<lparr>lp_mLogRequests = [demo_rq 0, demo_rq 1], lp_mStopped = False, lp_mLogObserver = True\<rparr>"

lemma log_requests_served_witness:
  "\<exists>g1 g2 r'. ProcessLogRequests_steps 2 (fs_log_reader posix_reader demo_dir) (demo_lenv 205) (demo_lp, [], demo_reader) =
      Some (demo_lp\<lparr>lp_mLogRequests := []\<rparr>, g1 @ g2, r') \<and> g1 \<noteq> [] \<and> g2 \<noteq> []"
  using log_requests_served [OF posix_reader_ok, of "demo_lenv 205" demo_lp demo_dir "[]" demo_reader]
  by (fastforce simp: demo_lenv_def demo_lp_def list_all2_Cons1 answers_def eval_nat_numeral simp del: ProcessLogRequests_steps.simps)

text \<open>A filter that matches no instance filters nothing: a request for an instance that is not
  stored is answered with the same messages as the same request without instance filter.\<close>

theorem unknown_instance_gets_all_logs:
  assumes "\<forall>(ident, id)\<in>set (ln_instances env). \<not> ln_Match env (rq_mInstanceFilter rq) ident"
  shows "HandleLogRequest rd env observer rq sent r =
    HandleLogRequest rd env observer (rq\<lparr>rq_mInstanceFilter := ln_InstanceFilter env\<rparr>) sent r"
proof -
  have "GetInstanceFilter env rq = None"
    using assms by (auto simp: GetInstanceFilter_def find_None_iff)
  moreover have "GetInstanceFilter env (rq\<lparr>rq_mInstanceFilter := ln_InstanceFilter env\<rparr>) = None"
    by (simp add: GetInstanceFilter_def)
  moreover have "keep (rq\<lparr>rq_mInstanceFilter := ln_InstanceFilter env\<rparr>) None = keep rq None"
    by (simp add: keep_def FilterByDate_def fun_eq_iff cong: option.case_cong if_cong)
  moreover have "rq_mLogID (rq\<lparr>rq_mInstanceFilter := ln_InstanceFilter env\<rparr>) = rq_mLogID rq" by simp
  ultimately show ?thesis by (simp add: HandleLogRequest_def cong: prod.case_cong if_cong)
qed

lemma unknown_instance_gets_all_logs_witness:
  "HandleLogRequest (fs_log_reader posix_reader demo_dir) (demo_lenv 205) True (demo_rq 7) [] demo_reader =
   HandleLogRequest (fs_log_reader posix_reader demo_dir) (demo_lenv 205) True (demo_rq 0) [] demo_reader"
  using unknown_instance_gets_all_logs [of "demo_lenv 205" "demo_rq 7"]
  by (simp add: demo_lenv_def demo_rq_def)

end
