(* ===== verification/FSBackend.thy ===== *)
theory FSBackend
  imports FileStorage
begin

text \<open>
  \<open>src/logger/fsbackend.cpp\<close>: the log backend that fills numbered files of a bounded size and
  number. The directory is a map from paths to contents; the backend closes a file before it
  renames or removes it, so the open file is its path. Calls fail as a schedule of faults
  says, and a fault may also shorten a write.
\<close>

section \<open>State\<close>

text \<open>The build's constants.\<close>

record backend_config =
  bc_cLogDir :: string
  bc_cLogPrefix :: string
  bc_cFileSizeLimit :: nat
  bc_cMaxLogFiles :: nat
  bc_cLogEntryLen :: nat

definition cMaxLogFileNumeral :: "backend_config \<Rightarrow> nat" where
  "cMaxLogFileNumeral bc = 2 * bc_cMaxLogFiles bc"

record FSBackend =
  bk_mLogBuffer :: string
  bk_mFD :: "string option"
  bk_mFileSize :: nat
  bk_mCurrentLogFileNumeral :: nat
  bk_mLogFiles :: "string list"
  bk_files :: "string \<rightharpoonup> string"
  bk_faults :: "fault list"

definition fetch :: "FSBackend \<Rightarrow> fault \<times> FSBackend" where
  "fetch b = (case bk_faults b of [] \<Rightarrow> (FOk, b) | f # fs \<Rightarrow> (f, b\<lparr>bk_faults := fs\<rparr>))"

definition file_text :: "FSBackend \<Rightarrow> string \<Rightarrow> string" where
  "file_text b p = (case bk_files b p of None \<Rightarrow> [] | Some s \<Rightarrow> s)"

section \<open>System calls\<close>

definition log_close :: "FSBackend \<Rightarrow> Error \<times> FSBackend" where
  "log_close b = (case fetch b of (FErr e, b') \<Rightarrow> (EErrno e, b') | (_, b') \<Rightarrow> (ENone, b'))"

text \<open>\<open>open\<close> with \<open>O_CREAT | O_RDWR | O_APPEND\<close>.\<close>

definition log_open :: "string \<Rightarrow> FSBackend \<Rightarrow> Error \<times> FSBackend" where
  "log_open p b = (case fetch b of
     (FErr e, b') \<Rightarrow> (EErrno e, b'\<lparr>bk_mFD := None\<rparr>)
   | (_, b') \<Rightarrow> (ENone, b'\<lparr>bk_mFD := Some p, bk_files := (bk_files b')(p \<mapsto> file_text b' p)\<rparr>))"

definition log_write :: "string \<Rightarrow> string \<Rightarrow> FSBackend \<Rightarrow> Error \<times> FSBackend" where
  "log_write p s b = (case fetch b of
     (FErr e, b') \<Rightarrow> (EErrno e, b')
   | (f, b') \<Rightarrow>
       (ENone, b'\<lparr>bk_files := (bk_files b')(p \<mapsto> file_text b' p @ (case f of FShort n \<Rightarrow> take n s | _ \<Rightarrow> s))\<rparr>))"

definition fs_Remove :: "string \<Rightarrow> FSBackend \<Rightarrow> Error \<times> FSBackend" where
  "fs_Remove p b = (case fetch b of
     (FErr e, b') \<Rightarrow> (EErrno e, b')
   | (_, b') \<Rightarrow> if bk_files b' p = None then (EErrno ENOENT, b') else (ENone, b'\<lparr>bk_files := (bk_files b')(p := None)\<rparr>))"

definition fs_Rename :: "string \<Rightarrow> string \<Rightarrow> FSBackend \<Rightarrow> Error \<times> FSBackend" where
  "fs_Rename p q b = (case fetch b of
     (FErr e, b') \<Rightarrow> (EErrno e, b')
   | (_, b') \<Rightarrow>
       (case bk_files b' p of
          None \<Rightarrow> (EErrno ENOENT, b')
        | Some s \<Rightarrow> (ENone, b'\<lparr>bk_files := (bk_files b')(p := None, q \<mapsto> s)\<rparr>)))"

text \<open>\<open>stat\<close>: the size, zero if there is no such file.\<close>

definition FS_GetFileSize :: "string \<Rightarrow> FSBackend \<Rightarrow> nat" where
  "FS_GetFileSize p b = length (file_text b p)"

section \<open>File names\<close>

definition digit :: "nat \<Rightarrow> char" where
  "digit d = char_of (48 + d)"

fun dec :: "nat \<Rightarrow> string" where
  "dec n = (if n < 10 then [digit n] else dec (n div 10) @ [digit (n mod 10)])"

declare dec.simps [simp del]

text \<open>\<open>atoi\<close> after an optional sign: the leading digits; blanks do not occur in the names.\<close>

definition is_digit :: "char \<Rightarrow> bool" where
  "is_digit c \<longleftrightarrow> 48 \<le> (of_char c :: nat) \<and> (of_char c :: nat) \<le> 57"

definition digits_value :: "string \<Rightarrow> int" where
  "digits_value s = foldl (\<lambda>v c. 10 * v + (int (of_char c) - 48)) 0 (takeWhile is_digit s)"

definition atoi :: "string \<Rightarrow> int" where
  "atoi s = (case dropWhile (\<lambda>c. c \<in> {CHR '' '', CHR 0x09, CHR 0x0A, CHR 0x0B, CHR 0x0C, CHR 0x0D}) s of
     [] \<Rightarrow> 0
   | c # t \<Rightarrow> if c = CHR ''-'' then - digits_value t else if c = CHR ''+'' then digits_value t else digits_value (c # t))"

definition GetFileNumber :: "backend_config \<Rightarrow> string \<Rightarrow> Error + nat" where
  "GetFileNumber bc path =
     (if length path < length (bc_cLogPrefix bc) then Inl (EEnum eInvalidArgument)
      else (let fileNum = atoi (drop (length (bc_cLogPrefix bc)) path)
            in if fileNum < 0 \<or> fileNum > int (cMaxLogFileNumeral bc) then Inl (EEnum eInvalidArgument) else Inr (nat fileNum)))"

definition GetFileName :: "backend_config \<Rightarrow> nat \<Rightarrow> string" where
  "GetFileName bc n = bc_cLogDir bc @ ''/'' @ bc_cLogPrefix bc @ dec n"

section \<open>Operations\<close>

definition ReopenLogFile :: "FSBackend \<Rightarrow> Error \<times> FSBackend" where
  "ReopenLogFile b =
     (case (if bk_mFD b = None then (ENone, b) else log_close b) of
        (err, b1) \<Rightarrow>
          if err \<noteq> ENone then (AOS_ERROR_WRAP err, b1)
          else
            (let b2 = b1\<lparr>bk_mFD := None\<rparr> in
             if bk_mLogFiles b2 = [] then (EEnum eInvalidArgument, b2)
             else (case log_open (last (bk_mLogFiles b2)) b2 of
               (err, b3) \<Rightarrow>
                 if err \<noteq> ENone then (AOS_ERROR_WRAP err, b3)
                 else (ENone, b3\<lparr>bk_mFileSize := FS_GetFileSize (last (bk_mLogFiles b3)) b3\<rparr>))))"

definition ShrinkLogFiles :: "backend_config \<Rightarrow> FSBackend \<Rightarrow> Error \<times> FSBackend" where
  "ShrinkLogFiles bc b =
     (if bk_mLogFiles b = [] \<or> length (bk_mLogFiles b) < bc_cMaxLogFiles bc then (ENone, b)
      else (case fs_Remove (hd (bk_mLogFiles b)) b of
        (err, b1) \<Rightarrow> if err \<noteq> ENone then (err, b1) else (ENone, b1\<lparr>bk_mLogFiles := List.tl (bk_mLogFiles b1)\<rparr>)))"

text \<open>The files are renamed to 0, 1, ... in the order of the list.\<close>

fun rename_loop :: "backend_config \<Rightarrow> string list \<Rightarrow> string list \<Rightarrow> FSBackend \<Rightarrow> Error \<times> FSBackend" where
  "rename_loop bc renamed [] b = (ENone, b)"
| "rename_loop bc renamed (f # fs) b =
     (case fs_Rename f (GetFileName bc (bk_mCurrentLogFileNumeral b)) b of
        (err, b1) \<Rightarrow>
          if err \<noteq> ENone then (err, b1)
          else
            (let name = GetFileName bc (bk_mCurrentLogFileNumeral b1)
             in rename_loop bc (renamed @ [name]) fs
                  (b1\<lparr>bk_mLogFiles := renamed @ name # fs, bk_mCurrentLogFileNumeral := bk_mCurrentLogFileNumeral b1 + 1\<rparr>)))"

definition UpdateLogFileNumerals :: "backend_config \<Rightarrow> FSBackend \<Rightarrow> Error \<times> FSBackend" where
  "UpdateLogFileNumerals bc b = rename_loop bc [] (bk_mLogFiles b) (b\<lparr>bk_mCurrentLogFileNumeral := 0\<rparr>)"

definition AllocateNewLogFile :: "backend_config \<Rightarrow> FSBackend \<Rightarrow> Error \<times> FSBackend" where
  "AllocateNewLogFile bc b =
     (let b1 = (if bk_mFD b = None then b else (snd (log_close b))\<lparr>bk_mFD := None\<rparr>) in
      case ShrinkLogFiles bc b1 of
        (err, b2) \<Rightarrow>
          if err \<noteq> ENone then (err, b2)
          else
            (case (if bk_mCurrentLogFileNumeral b2 = cMaxLogFileNumeral bc then UpdateLogFileNumerals bc b2 else (ENone, b2)) of
               (err, b3) \<Rightarrow>
                 if err \<noteq> ENone then (err, b3)
                 else
                   (let name = GetFileName bc (bk_mCurrentLogFileNumeral b3);
                        b4 = b3\<lparr>bk_mCurrentLogFileNumeral := bk_mCurrentLogFileNumeral b3 + 1\<rparr>
                    in (case PushBack (bc_cMaxLogFiles bc) (bk_mLogFiles b4) name of
                      (fs, err) \<Rightarrow> if err \<noteq> ENone then (err, b4) else ReopenLogFile (b4\<lparr>bk_mLogFiles := fs\<rparr>)))))"

text \<open>Writing checks neither for a short write nor reopens a file that could not be opened before.\<close>

definition WriteToFile :: "backend_config \<Rightarrow> FSBackend \<Rightarrow> Error \<times> FSBackend" where
  "WriteToFile bc b =
     (if bk_mFD b = None then (EEnum eFailed, b)
      else
        (case (if bk_mFileSize b + length (bk_mLogBuffer b) > bc_cFileSizeLimit bc then AllocateNewLogFile bc b else (ENone, b)) of
           (err, b1) \<Rightarrow>
             if err \<noteq> ENone then (err, b1)
             else (case bk_mFD b1 of
               None \<Rightarrow> (EEnum eFailed, b1)
             | Some p \<Rightarrow>
                 (case log_write p (bk_mLogBuffer b1) b1 of
                    (err, b2) \<Rightarrow>
                      if err \<noteq> ENone then (EEnum eFailed, b2) else ReopenLogFile (b2\<lparr>bk_mLogBuffer := []\<rparr>)))))"

definition FillLogBuffer :: "backend_config \<Rightarrow> string \<Rightarrow> FSBackend \<Rightarrow> nat \<times> FSBackend" where
  "FillLogBuffer bc log b =
     (let copySize = min (length log) (bc_cLogEntryLen bc - length (bk_mLogBuffer b))
      in (copySize, b\<lparr>bk_mLogBuffer := bk_mLogBuffer b @ take copySize log\<rparr>))"

text \<open>\<open>HandleLog\<close>: zero tells the caller that nothing was taken.\<close>

definition HandleLog :: "backend_config \<Rightarrow> string \<Rightarrow> FSBackend \<Rightarrow> nat \<times> FSBackend" where
  "HandleLog bc log b =
     (case FillLogBuffer bc log b of
        (addedBytes, b1) \<Rightarrow>
          (let buf = bk_mLogBuffer b1 in
           if length buf \<ge> bc_cLogEntryLen bc \<or> (buf \<noteq> [] \<and> (last buf = CHR 0x0A \<or> last buf = CHR 0x00)) then
             (case WriteToFile bc b1 of (err, b2) \<Rightarrow> if err \<noteq> ENone then (0, b2) else (addedBytes, b2))
           else (addedBytes, b1)))"

fun restore_loop :: "backend_config \<Rightarrow> (string \<times> bool) list \<Rightarrow> FSBackend \<Rightarrow> Error \<times> FSBackend" where
  "restore_loop bc [] b = (ENone, b)"
| "restore_loop bc ((name, isDir) # es) b =
     (if isDir then restore_loop bc es b
      else (case GetFileNumber bc name of
        Inl err \<Rightarrow> restore_loop bc es b
      | Inr n \<Rightarrow>
          (let b1 = b\<lparr>bk_mCurrentLogFileNumeral := max (bk_mCurrentLogFileNumeral b) n\<rparr> in
           case PushBack (bc_cMaxLogFiles bc) (bk_mLogFiles b1) (bc_cLogDir bc @ ''/'' @ name) of
             (fs, err) \<Rightarrow> if err \<noteq> ENone then (err, b1) else restore_loop bc es (b1\<lparr>bk_mLogFiles := fs\<rparr>))))"

definition RestoreLogFiles :: "backend_config \<Rightarrow> (string \<times> bool) list \<Rightarrow> FSBackend \<Rightarrow> Error \<times> FSBackend" where
  "RestoreLogFiles bc listing b =
     (case restore_loop bc listing b of
        (err, b1) \<Rightarrow>
          if err = ENone then (ENone, b1\<lparr>bk_mLogFiles := sort (bk_mLogFiles b1)\<rparr>)
          else (err, b1\<lparr>bk_mCurrentLogFileNumeral := 0, bk_mLogFiles := []\<rparr>))"

text \<open>
  \<open>Init\<close>, with the result of \<open>MakeDirAll\<close> and the directory's listing; the middle result says
  whether the backend was activated. \<open>ClearDir\<close> removes every file.
\<close>

definition FSBackend_Init ::
  "backend_config \<Rightarrow> Error \<Rightarrow> (string \<times> bool) list \<Rightarrow> FSBackend \<Rightarrow> Error \<times> bool \<times> FSBackend" where
  "FSBackend_Init bc mkdir listing b =
     (if mkdir \<noteq> ENone then (mkdir, False, b)
      else (case RestoreLogFiles bc listing b of
        (err, b1) \<Rightarrow>
          (let b2 = (if err \<noteq> ENone then b1\<lparr>bk_files := (\<lambda>p. None)\<rparr> else b1);
               (ret, b3) = (if bk_mLogFiles b2 = [] then AllocateNewLogFile bc b2
                 else ReopenLogFile (snd (UpdateLogFileNumerals bc (snd (ShrinkLogFiles bc b2)))))
           in (ret, err = ENone, b3))))"

section \<open>Numbers in names\<close>

lemma is_digit_digit: "d < 10 \<Longrightarrow> is_digit (digit d)"
  by (simp add: is_digit_def digit_def)

lemma dec_digits: "list_all is_digit (dec n)"
  by (induction n rule: dec.induct) (subst dec.simps, simp add: is_digit_digit)

lemma dec_value: "digits_value (dec n) = int n"
proof (induction n rule: dec.induct)
  case (1 n)
  have tw: "takeWhile is_digit (dec m @ [digit (n mod 10)]) = dec m @ [digit (n mod 10)]" for m
    using dec_digits [of m] is_digit_digit [of "n mod 10"] by (simp add: takeWhile_eq_all_conv list_all_iff)
  have dg: "int (of_char (digit d)) - 48 = int d" if "d < 10" for d
    using that by (simp add: digit_def)
  show ?case
  proof (cases "n < 10")
    case True
    with dg [OF True] show ?thesis by (simp add: dec.simps [of n] digits_value_def is_digit_digit)
  next
    case False
    have "takeWhile is_digit (dec (n div 10)) = dec (n div 10)"
      using dec_digits [of "n div 10"] by (simp add: takeWhile_eq_all_conv list_all_iff)
    with 1 False have "foldl (\<lambda>v c. 10 * v + (int (of_char c) - 48)) 0 (dec (n div 10)) = int (n div 10)"
      by (simp add: digits_value_def)
    with False tw [of "n div 10"] dg [of "n mod 10"] show ?thesis
      by (simp add: dec.simps [of n] digits_value_def) presburger
  qed
qed

lemma dec_nonempty: "dec n \<noteq> []"
  by (subst dec.simps) simp

lemma atoi_dec: "atoi (dec n) = int n"
proof -
  obtain c cs where c: "dec n = c # cs" using dec_nonempty by (cases "dec n") auto
  then have d: "is_digit c" using dec_digits [of n] by simp
  then have "c \<notin> {CHR '' '', CHR 0x09, CHR 0x0A, CHR 0x0B, CHR 0x0C, CHR 0x0D}" "c \<noteq> CHR ''-''" "c \<noteq> CHR ''+''"
    by (auto simp: is_digit_def)
  moreover have "digits_value (c # cs) = int n" using dec_value [of n] c by simp
  ultimately show ?thesis by (simp add: atoi_def c)
qed

lemma dec_inj: "dec m = dec n \<longleftrightarrow> m = n"
  using dec_value by (metis of_nat_eq_iff)

lemma GetFileName_inj [simp]: "GetFileName bc m = GetFileName bc n \<longleftrightarrow> m = n"
  by (simp add: GetFileName_def dec_inj)

lemma GetFileNumber_name:
  "n \<le> cMaxLogFileNumeral bc \<Longrightarrow> GetFileNumber bc (bc_cLogPrefix bc @ dec n) = Inr n"
  by (simp add: GetFileNumber_def atoi_dec Let_def)

section \<open>The files as a sequence\<close>

text \<open>What the files hold, one after the other.\<close>

definition log_text :: "FSBackend \<Rightarrow> string list" where
  "log_text b = map (file_text b) (bk_mLogFiles b)"

text \<open>The files of the list exist, nothing else does, and their numbers increase.\<close>

definition logs_ok :: "backend_config \<Rightarrow> FSBackend \<Rightarrow> bool" where
  "logs_ok bc b \<longleftrightarrow> (\<exists>ns. bk_mLogFiles b = map (GetFileName bc) ns \<and> sorted_wrt (<) ns \<and>
     (\<forall>n\<in>set ns. n < bk_mCurrentLogFileNumeral b) \<and> dom (bk_files b) = set (bk_mLogFiles b)) \<and>
   bk_mCurrentLogFileNumeral b \<le> cMaxLogFileNumeral bc \<and> length (bk_mLogFiles b) \<le> bc_cMaxLogFiles bc \<and>
   (\<forall>p\<in>set (bk_mLogFiles b). length (file_text b p) \<le> bc_cFileSizeLimit bc) \<and> bk_faults b = []"

lemma fetch_ok [simp]: "bk_faults b = [] \<Longrightarrow> fetch b = (FOk, b)"
  by (simp add: fetch_def)

lemma rename_loop_ok:
  assumes "bk_faults b = []" "sorted_wrt (<) ms" "\<forall>m\<in>set ms. i \<le> m" "bk_mCurrentLogFileNumeral b = i"
    and "bk_mLogFiles b = map (GetFileName bc) ([0..<i] @ ms)" "dom (bk_files b) = set (bk_mLogFiles b)"
  shows "\<exists>b'. rename_loop bc (map (GetFileName bc) [0..<i]) (map (GetFileName bc) ms) b = (ENone, b') \<and>
    bk_mLogFiles b' = map (GetFileName bc) [0..<i + length ms] \<and> bk_mCurrentLogFileNumeral b' = i + length ms \<and>
    log_text b' = log_text b \<and> dom (bk_files b') = set (bk_mLogFiles b') \<and> bk_faults b' = [] \<and>
    bk_mLogBuffer b' = bk_mLogBuffer b \<and> bk_mFD b' = bk_mFD b"
  using assms
proof (induction ms arbitrary: i b)
  case Nil
  then show ?case by simp
next
  case (Cons m ms)
  let ?name = "GetFileName bc"
  have "?name m \<in> dom (bk_files b)" using Cons.prems(5,6) by simp
  then obtain s where s: "bk_files b (?name m) = Some s" by blast
  have m: "i \<le> m" "\<forall>k\<in>set ms. m < k" using Cons.prems(2,3) by auto
  let ?b = "b\<lparr>bk_files := (bk_files b)(?name m := None, ?name i \<mapsto> s), bk_mLogFiles := map ?name [0..<i] @ ?name i # map ?name ms,
      bk_mCurrentLogFileNumeral := Suc i\<rparr>"
  have files: "bk_mLogFiles ?b = map ?name ([0..<Suc i] @ ms)" by simp
  have rest: "\<forall>k\<in>set ms. Suc i \<le> k" using m by auto
  have dom: "dom (bk_files ?b) = set (bk_mLogFiles ?b)"
    using Cons.prems(5,6) m by (auto simp: image_iff)
  have same: "log_text ?b = log_text b"
    using Cons.prems(5) s m by (auto simp: log_text_def file_text_def)
  from Cons.IH [OF _ _ rest _ files dom] Cons.prems(1,2) same show ?case
    using Cons.prems(4) s by (auto simp: fs_Rename_def)
qed

lemma Update_ok:
  assumes "logs_ok bc b"
  shows "\<exists>b'. UpdateLogFileNumerals bc b = (ENone, b') \<and> logs_ok bc b' \<and> log_text b' = log_text b \<and>
    bk_mCurrentLogFileNumeral b' = length (bk_mLogFiles b) \<and> length (bk_mLogFiles b') = length (bk_mLogFiles b) \<and>
    bk_mLogBuffer b' = bk_mLogBuffer b \<and> bk_mFD b' = bk_mFD b"
proof -
  from assms obtain ns where ns: "bk_mLogFiles b = map (GetFileName bc) ns" "sorted_wrt (<) ns" "dom (bk_files b) = set (bk_mLogFiles b)"
      "bk_faults b = []" "length (bk_mLogFiles b) \<le> bc_cMaxLogFiles bc" "\<forall>p\<in>set (bk_mLogFiles b). length (file_text b p) \<le> bc_cFileSizeLimit bc"
    by (auto simp: logs_ok_def)
  let ?b = "b\<lparr>bk_mCurrentLogFileNumeral := 0\<rparr>"
  have "\<exists>b'. rename_loop bc (map (GetFileName bc) [0..<0]) (map (GetFileName bc) ns) ?b = (ENone, b') \<and>
    bk_mLogFiles b' = map (GetFileName bc) [0..<0 + length ns] \<and> bk_mCurrentLogFileNumeral b' = 0 + length ns \<and>
    log_text b' = log_text ?b \<and> dom (bk_files b') = set (bk_mLogFiles b') \<and> bk_faults b' = [] \<and>
    bk_mLogBuffer b' = bk_mLogBuffer ?b \<and> bk_mFD b' = bk_mFD ?b"
    by (rule rename_loop_ok) (use ns in auto)
  then obtain b' where b': "UpdateLogFileNumerals bc b = (ENone, b')" "bk_mLogFiles b' = map (GetFileName bc) [0..<length ns]"
      "bk_mCurrentLogFileNumeral b' = length ns" "log_text b' = log_text b" "dom (bk_files b') = set (bk_mLogFiles b')" "bk_faults b' = []"
      "bk_mLogBuffer b' = bk_mLogBuffer b" "bk_mFD b' = bk_mFD b"
    using ns(1) by (auto simp: UpdateLogFileNumerals_def log_text_def file_text_def)
  moreover have "set (log_text b') = set (log_text b)" using b'(4) by simp
  then have "\<forall>p\<in>set (bk_mLogFiles b'). length (file_text b' p) \<le> bc_cFileSizeLimit bc"
    using ns(6) by (auto simp: log_text_def) (metis image_eqI image_iff)
  moreover have "logs_ok bc b'"
    unfolding logs_ok_def using b' calculation ns(1,5)
    by (auto simp: cMaxLogFileNumeral_def sorted_wrt_upt intro!: exI [of _ "[0..<length ns]"])
  ultimately show ?thesis using ns(1) by auto
qed

lemma Shrink_ok:
  assumes "logs_ok bc b" "0 < bc_cMaxLogFiles bc"
  shows "\<exists>b'. ShrinkLogFiles bc b = (ENone, b') \<and> logs_ok bc b' \<and> length (bk_mLogFiles b') < bc_cMaxLogFiles bc \<and>
    log_text b' = (if length (bk_mLogFiles b) = bc_cMaxLogFiles bc then List.tl (log_text b) else log_text b) \<and>
    bk_mLogBuffer b' = bk_mLogBuffer b \<and> bk_mFD b' = bk_mFD b"
proof (cases "length (bk_mLogFiles b) < bc_cMaxLogFiles bc")
  case True
  with assms(1) show ?thesis by (simp add: ShrinkLogFiles_def)
next
  case False
  with assms obtain n ns where n: "bk_mLogFiles b = map (GetFileName bc) (n # ns)" "sorted_wrt (<) (n # ns)"
      "\<forall>n\<in>set (n # ns). n < bk_mCurrentLogFileNumeral b" "dom (bk_files b) = set (bk_mLogFiles b)" "bk_faults b = []"
      "Suc (length ns) = bc_cMaxLogFiles bc"
  proof -
    from assms(1) obtain ms where ms: "bk_mLogFiles b = map (GetFileName bc) ms" "sorted_wrt (<) ms"
        "\<forall>n\<in>set ms. n < bk_mCurrentLogFileNumeral b" "dom (bk_files b) = set (bk_mLogFiles b)" "bk_faults b = []"
        "length ms \<le> bc_cMaxLogFiles bc" by (auto simp: logs_ok_def)
    with False assms(2) have "length ms = bc_cMaxLogFiles bc" by simp
    with ms assms(2) that show ?thesis by (cases ms) auto
  qed
  let ?b = "b\<lparr>bk_files := (bk_files b)(GetFileName bc n := None), bk_mLogFiles := map (GetFileName bc) ns\<rparr>"
  have r: "ShrinkLogFiles bc b = (ENone, ?b)"
    using n by (auto simp: ShrinkLogFiles_def fs_Remove_def)
  have other: "file_text ?b (GetFileName bc m) = file_text b (GetFileName bc m)" if "m \<in> set ns" for m
    using that n(2) by (auto simp: file_text_def)
  have "logs_ok bc ?b"
    using assms(1) n other unfolding logs_ok_def by (auto intro!: exI [of _ ns])
  moreover have "log_text ?b = List.tl (log_text b)"
    using n(1) other by (simp add: log_text_def)
  ultimately show ?thesis using r n(1,6) by auto
qed

lemma Reopen_ok:
  assumes "bk_faults b = []" "bk_mLogFiles b \<noteq> []"
  shows "ReopenLogFile b = (ENone, b\<lparr>bk_mFD := Some (last (bk_mLogFiles b)), bk_mFileSize := length (file_text b (last (bk_mLogFiles b))),
    bk_files := (bk_files b)(last (bk_mLogFiles b) \<mapsto> file_text b (last (bk_mLogFiles b)))\<rparr>)"
  using assms by (auto simp: ReopenLogFile_def log_close_def log_open_def FS_GetFileSize_def file_text_def)

text \<open>The oldest file goes when the list is full, and an empty one comes.\<close>

lemma Allocate_ok:
  assumes "logs_ok bc b" "0 < bc_cMaxLogFiles bc"
  shows "\<exists>b'. AllocateNewLogFile bc b = (ENone, b') \<and> logs_ok bc b' \<and> bk_mLogFiles b' \<noteq> [] \<and>
    bk_mFD b' = Some (last (bk_mLogFiles b')) \<and> bk_mFileSize b' = 0 \<and> bk_mLogBuffer b' = bk_mLogBuffer b \<and>
    log_text b' = (if length (bk_mLogFiles b) = bc_cMaxLogFiles bc then List.tl (log_text b) else log_text b) @ [[]]"
proof -
  let ?b1 = "b\<lparr>bk_mFD := None\<rparr>"
  have close: "(if bk_mFD b = None then b else (snd (log_close b))\<lparr>bk_mFD := None\<rparr>) = ?b1"
    using assms(1) by (auto simp: log_close_def logs_ok_def)
  have "logs_ok bc ?b1" using assms(1) by (simp add: logs_ok_def file_text_def)
  moreover have "log_text ?b1 = log_text b" by (simp add: log_text_def file_text_def)
  ultimately obtain b2 where b2: "ShrinkLogFiles bc ?b1 = (ENone, b2)" "logs_ok bc b2"
      "length (bk_mLogFiles b2) < bc_cMaxLogFiles bc" "bk_mLogBuffer b2 = bk_mLogBuffer b"
      "log_text b2 = (if length (bk_mLogFiles b) = bc_cMaxLogFiles bc then List.tl (log_text b) else log_text b)"
    using Shrink_ok [of bc ?b1] assms(2) by auto
  obtain b3 where b3: "(if bk_mCurrentLogFileNumeral b2 = cMaxLogFileNumeral bc then UpdateLogFileNumerals bc b2 else (ENone, b2)) = (ENone, b3)"
      "logs_ok bc b3" "log_text b3 = log_text b2" "length (bk_mLogFiles b3) < bc_cMaxLogFiles bc" "bk_mLogBuffer b3 = bk_mLogBuffer b"
      "bk_mCurrentLogFileNumeral b3 < cMaxLogFileNumeral bc"
  proof (cases "bk_mCurrentLogFileNumeral b2 = cMaxLogFileNumeral bc")
    case True
    with Update_ok [OF b2(2)] b2(3,4) that show ?thesis by (auto simp: cMaxLogFileNumeral_def)
  next
    case False
    with b2 that show ?thesis by (auto simp: logs_ok_def)
  qed
  from b3(2) obtain ns where ns: "bk_mLogFiles b3 = map (GetFileName bc) ns" "sorted_wrt (<) ns" "\<forall>n\<in>set ns. n < bk_mCurrentLogFileNumeral b3"
      "dom (bk_files b3) = set (bk_mLogFiles b3)" "bk_faults b3 = []" "\<forall>p\<in>set (bk_mLogFiles b3). length (file_text b3 p) \<le> bc_cFileSizeLimit bc"
    by (auto simp: logs_ok_def)
  let ?c = "bk_mCurrentLogFileNumeral b3"
  let ?name = "GetFileName bc ?c"
  have new: "?name \<notin> set (bk_mLogFiles b3)" using ns(1,3) by auto
  then have absent: "file_text b3 ?name = []" using ns(4) by (auto simp: file_text_def split: option.splits)
  let ?b = "b3\<lparr>bk_mCurrentLogFileNumeral := ?c + 1, bk_mLogFiles := bk_mLogFiles b3 @ [?name], bk_mFD := Some ?name, bk_mFileSize := 0,
      bk_files := (bk_files b3)(?name \<mapsto> [])\<rparr>"
  have old: "file_text ?b p = file_text b3 p" if "p \<in> set (bk_mLogFiles b3)" for p
    using that new by (auto simp: file_text_def)
  have "AllocateNewLogFile bc b = (ENone, ?b)"
    using close b2(1) b3(1,4) ns(5) absent
    by (simp add: AllocateNewLogFile_def Let_def Reopen_ok) (simp add: file_text_def)
  moreover have "logs_ok bc ?b"
    unfolding logs_ok_def using b3(4,6) ns old
    by (auto simp: sorted_wrt_append file_text_def less_Suc_eq intro!: exI [of _ "ns @ [?c]"])
  moreover have "log_text ?b = log_text b3 @ [[]]"
    using old by (auto simp: log_text_def) (simp add: file_text_def)
  ultimately show ?thesis using b2(5) b3(3,5) by auto
qed

section \<open>Logging\<close>

definition backend_ok :: "backend_config \<Rightarrow> bool" where
  "backend_ok bc \<longleftrightarrow> 0 < bc_cMaxLogFiles bc \<and> 0 < bc_cLogEntryLen bc \<and> bc_cLogEntryLen bc \<le> bc_cFileSizeLimit bc"

definition log_inv :: "backend_config \<Rightarrow> FSBackend \<Rightarrow> bool" where
  "log_inv bc b \<longleftrightarrow> logs_ok bc b \<and> bk_mLogFiles b \<noteq> [] \<and> bk_mFD b = Some (last (bk_mLogFiles b)) \<and>
     bk_mFileSize b = length (file_text b (last (bk_mLogFiles b))) \<and> length (bk_mLogBuffer b) < bc_cLogEntryLen bc"

text \<open>Appending to the last file of a list that is otherwise in order.\<close>

lemma append_ok:
  assumes "logs_ok bc b" "bk_mLogFiles b \<noteq> []" "length (file_text b (last (bk_mLogFiles b)) @ s) \<le> bc_cFileSizeLimit bc"
    and "bk_faults b = []"
  defines "b' \<equiv> b\<lparr>bk_files := (bk_files b)(last (bk_mLogFiles b) \<mapsto> file_text b (last (bk_mLogFiles b)) @ s), bk_mLogBuffer := [],
    bk_mFD := Some (last (bk_mLogFiles b)), bk_mFileSize := length (file_text b (last (bk_mLogFiles b)) @ s)\<rparr>"
  shows "logs_ok bc b' \<and> log_text b' = butlast (log_text b) @ [last (log_text b) @ s]"
proof -
  let ?p = "last (bk_mLogFiles b)"
  obtain ps where ps: "bk_mLogFiles b = ps @ [?p]" using assms(2) by (metis append_butlast_last_id)
  from assms(1) obtain ns where ns: "bk_mLogFiles b = map (GetFileName bc) ns" "sorted_wrt (<) ns"
      "\<forall>n\<in>set ns. n < bk_mCurrentLogFileNumeral b" "dom (bk_files b) = set (bk_mLogFiles b)" by (auto simp: logs_ok_def)
  have "distinct ns" using ns(2) by (simp add: strict_sorted_iff)
  then have "distinct (bk_mLogFiles b)" unfolding ns(1) by (simp add: distinct_map inj_on_def)
  with ps have notin: "?p \<notin> set ps" by (metis distinct_append disjoint_insert(1) list.set(2) distinct.simps(2) not_distinct_conv_prefix)
  have other: "file_text b' q = file_text b q" if "q \<noteq> ?p" for q using that by (simp add: b'_def file_text_def)
  have here: "file_text b' ?p = file_text b ?p @ s" by (simp add: b'_def file_text_def)
  have files: "bk_mLogFiles b' = bk_mLogFiles b" by (simp add: b'_def)
  have lt: "log_text b = map (file_text b) ps @ [file_text b ?p]" unfolding log_text_def by (subst ps) simp
  have "log_text b' = map (file_text b') ps @ [file_text b ?p @ s]"
    unfolding log_text_def files by (subst ps) (simp add: here)
  also have "map (file_text b') ps = map (file_text b) ps" using notin by (intro map_cong refl other) auto
  also have "map (file_text b) ps @ [file_text b ?p @ s] = butlast (log_text b) @ [last (log_text b) @ s]"
    by (simp add: lt)
  finally have "log_text b' = butlast (log_text b) @ [last (log_text b) @ s]" .
  moreover have "dom (bk_files b') = set (bk_mLogFiles b')" using ns(4) assms(2) by (auto simp: b'_def)
  moreover have "length (file_text b' q) \<le> bc_cFileSizeLimit bc" if "q \<in> set (bk_mLogFiles b)" for q
    using that assms(1,3) here other by (cases "q = ?p") (auto simp: logs_ok_def)
  ultimately show ?thesis
    using assms(1,4) ns unfolding logs_ok_def files by (auto simp: b'_def intro!: exI [of _ ns])
qed

lemma concat_snoc_last: "L \<noteq> [] \<Longrightarrow> concat (butlast L @ [last L @ s]) = concat L @ s"
  by (induction L) auto

text \<open>The second half of \<open>WriteToFile\<close>, for a file with enough room.\<close>

lemma append_reopen_ok:
  assumes "backend_ok bc" "logs_ok bc c" "bk_mLogFiles c \<noteq> []" "bk_mFD c = Some (last (bk_mLogFiles c))"
    and "length (file_text c (last (bk_mLogFiles c)) @ bk_mLogBuffer c) \<le> bc_cFileSizeLimit bc"
  shows "\<exists>b'. (case bk_mFD c of None \<Rightarrow> (EEnum eFailed, c) | Some p \<Rightarrow>
      (case log_write p (bk_mLogBuffer c) c of (err, b2) \<Rightarrow>
         if err \<noteq> ENone then (EEnum eFailed, b2) else ReopenLogFile (b2\<lparr>bk_mLogBuffer := []\<rparr>))) = (ENone, b') \<and>
    log_inv bc b' \<and> bk_mLogBuffer b' = [] \<and> log_text b' = butlast (log_text c) @ [last (log_text c) @ bk_mLogBuffer c] \<and>
    bk_mLogFiles b' = bk_mLogFiles c"
proof -
  have f: "bk_faults c = []" using assms(2) by (simp add: logs_ok_def)
  let ?p = "last (bk_mLogFiles c)"
  let ?c = "c\<lparr>bk_files := (bk_files c)(?p \<mapsto> file_text c ?p @ bk_mLogBuffer c), bk_mLogBuffer := [],
    bk_mFD := Some ?p, bk_mFileSize := length (file_text c ?p @ bk_mLogBuffer c)\<rparr>"
  have "(case bk_mFD c of None \<Rightarrow> (EEnum eFailed, c) | Some p \<Rightarrow>
     (case log_write p (bk_mLogBuffer c) c of (err, b2) \<Rightarrow>
        if err \<noteq> ENone then (EEnum eFailed, b2) else ReopenLogFile (b2\<lparr>bk_mLogBuffer := []\<rparr>))) = (ENone, ?c)"
    using assms(3,4) f by (simp add: log_write_def Reopen_ok) (simp add: file_text_def)
  moreover have ac: "logs_ok bc ?c" "log_text ?c = butlast (log_text c) @ [last (log_text c) @ bk_mLogBuffer c]"
    using append_ok [OF assms(2,3,5) f] by auto
  moreover have "log_inv bc ?c"
    using ac(1) assms(1,3) by (simp add: log_inv_def backend_ok_def) (simp add: file_text_def)
  ultimately show ?thesis by simp
qed

lemma WriteToFile_shape:
  assumes "backend_ok bc" "logs_ok bc b" "bk_mLogFiles b \<noteq> []" "bk_mFD b = Some (last (bk_mLogFiles b))"
    and "bk_mFileSize b = length (file_text b (last (bk_mLogFiles b)))" "length (bk_mLogBuffer b) \<le> bc_cLogEntryLen bc"
  shows "\<exists>b' k. WriteToFile bc b = (ENone, b') \<and> log_inv bc b' \<and> bk_mLogBuffer b' = [] \<and>
    (k = 0 \<and> log_text b' = butlast (log_text b) @ [last (log_text b) @ bk_mLogBuffer b] \<or>
     log_text b' = drop k (log_text b) @ [bk_mLogBuffer b]) \<and>
    length (bk_mLogFiles b) \<le> length (bk_mLogFiles b') \<and> (k = 0 \<or> k = 1 \<and> length (bk_mLogFiles b') = bc_cMaxLogFiles bc)"
proof -
  show ?thesis
  proof (cases "bk_mFileSize b + length (bk_mLogBuffer b) > bc_cFileSizeLimit bc")
    case False
    then have "length (file_text b (last (bk_mLogFiles b)) @ bk_mLogBuffer b) \<le> bc_cFileSizeLimit bc" using assms(5) by simp
    from append_reopen_ok [OF assms(1-4) this] False assms(4) show ?thesis
      by (auto simp: WriteToFile_def intro!: exI [of _ 0])
  next
    case True
    have "0 < bc_cMaxLogFiles bc" using assms(1) by (simp add: backend_ok_def)
    from Allocate_ok [OF assms(2) this] obtain c where c: "AllocateNewLogFile bc b = (ENone, c)" "logs_ok bc c" "bk_mLogFiles c \<noteq> []"
        "bk_mFD c = Some (last (bk_mLogFiles c))" "bk_mLogBuffer c = bk_mLogBuffer b"
        "log_text c = (if length (bk_mLogFiles b) = bc_cMaxLogFiles bc then List.tl (log_text b) else log_text b) @ [[]]" by blast
    have len: "length (bk_mLogFiles c) = length (log_text c)" "length (log_text b) = length (bk_mLogFiles b)" by (simp_all add: log_text_def)
    have "file_text c (last (bk_mLogFiles c)) = last (log_text c)" using c(3) by (simp add: log_text_def last_map)
    then have "length (file_text c (last (bk_mLogFiles c)) @ bk_mLogBuffer c) \<le> bc_cFileSizeLimit bc"
      using c(5,6) assms(1,6) by (simp add: backend_ok_def)
    from append_reopen_ok [OF assms(1) c(2-4) this] obtain b' where b': "WriteToFile bc b = (ENone, b')" "log_inv bc b'" "bk_mLogBuffer b' = []"
        "log_text b' = butlast (log_text c) @ [last (log_text c) @ bk_mLogBuffer c]" "bk_mLogFiles b' = bk_mLogFiles c"
      using True c(1) assms(4) by (auto simp: WriteToFile_def)
    show ?thesis
    proof (cases "length (bk_mLogFiles b) = bc_cMaxLogFiles bc")
      case True
      with b' c(5,6) len assms(1,3) show ?thesis by (intro exI [of _ b'] exI [of _ 1]) (auto simp: drop_Suc backend_ok_def)
    next
      case False
      with b' c(5,6) len show ?thesis by (intro exI [of _ b'] exI [of _ 0]) auto
    qed
  qed
qed

lemma WriteToFile_ok:
  assumes "backend_ok bc" "logs_ok bc b" "bk_mLogFiles b \<noteq> []" "bk_mFD b = Some (last (bk_mLogFiles b))"
    and "bk_mFileSize b = length (file_text b (last (bk_mLogFiles b)))" "length (bk_mLogBuffer b) \<le> bc_cLogEntryLen bc"
  shows "\<exists>b' k. WriteToFile bc b = (ENone, b') \<and> log_inv bc b' \<and> bk_mLogBuffer b' = [] \<and>
    concat (log_text b') = concat (drop k (log_text b)) @ bk_mLogBuffer b \<and>
    length (bk_mLogFiles b) \<le> length (bk_mLogFiles b') \<and> (k = 0 \<or> k = 1 \<and> length (bk_mLogFiles b') = bc_cMaxLogFiles bc)"
proof -
  obtain b' k where w: "WriteToFile bc b = (ENone, b')" "log_inv bc b'" "bk_mLogBuffer b' = []"
      "k = 0 \<and> log_text b' = butlast (log_text b) @ [last (log_text b) @ bk_mLogBuffer b] \<or> log_text b' = drop k (log_text b) @ [bk_mLogBuffer b]"
      "length (bk_mLogFiles b) \<le> length (bk_mLogFiles b')" "k = 0 \<or> k = 1 \<and> length (bk_mLogFiles b') = bc_cMaxLogFiles bc"
    using WriteToFile_shape [OF assms] by blast
  have "log_text b \<noteq> []" using assms(3) by (simp add: log_text_def)
  from concat_snoc_last [OF this] have "concat (log_text b') = concat (drop k (log_text b)) @ bk_mLogBuffer b"
    using w(4) by auto
  with w show ?thesis by (intro exI [of _ b'] exI [of _ k] conjI)
qed

lemma HandleLog_ok:
  assumes "backend_ok bc" "log_inv bc b"
  shows "\<exists>n b' k. HandleLog bc log b = (n, b') \<and> log_inv bc b' \<and> n = min (length log) (bc_cLogEntryLen bc - length (bk_mLogBuffer b)) \<and>
    concat (log_text b') @ bk_mLogBuffer b' = concat (drop k (log_text b)) @ bk_mLogBuffer b @ take n log \<and>
    length (bk_mLogFiles b) \<le> length (bk_mLogFiles b') \<and> (k = 0 \<or> k = 1 \<and> length (bk_mLogFiles b') = bc_cMaxLogFiles bc)"
proof -
  let ?n = "min (length log) (bc_cLogEntryLen bc - length (bk_mLogBuffer b))"
  let ?b = "b\<lparr>bk_mLogBuffer := bk_mLogBuffer b @ take ?n log\<rparr>"
  have fill: "FillLogBuffer bc log b = (?n, ?b)" by (simp add: FillLogBuffer_def Let_def)
  have b: "logs_ok bc ?b" "bk_mLogFiles ?b \<noteq> []" "bk_mFD ?b = Some (last (bk_mLogFiles ?b))"
    "bk_mFileSize ?b = length (file_text ?b (last (bk_mLogFiles ?b)))" "log_text ?b = log_text b"
    using assms(2) by (simp_all add: log_inv_def logs_ok_def file_text_def log_text_def)
  have len: "length (bk_mLogBuffer ?b) \<le> bc_cLogEntryLen bc" using assms(2) by (auto simp: log_inv_def)
  show ?thesis
  proof (cases "length (bk_mLogBuffer ?b) \<ge> bc_cLogEntryLen bc \<or>
      (bk_mLogBuffer ?b \<noteq> [] \<and> (last (bk_mLogBuffer ?b) = CHR 0x0A \<or> last (bk_mLogBuffer ?b) = CHR 0x00))")
    case True
    from WriteToFile_ok [OF assms(1) b(1-4) len] obtain b' k where w: "WriteToFile bc ?b = (ENone, b')" "log_inv bc b'"
        "bk_mLogBuffer b' = []" "concat (log_text b') = concat (drop k (log_text ?b)) @ bk_mLogBuffer ?b"
        "length (bk_mLogFiles ?b) \<le> length (bk_mLogFiles b')" "k = 0 \<or> k = 1 \<and> length (bk_mLogFiles b') = bc_cMaxLogFiles bc" by blast
    have "HandleLog bc log b = (?n, b')"
      unfolding HandleLog_def fill prod.case Let_def w(1) by (simp only: True if_True prod.case) simp
    with w b(5) show ?thesis by (intro exI [of _ ?n] exI [of _ b'] exI [of _ k]) simp
  next
    case False
    have "HandleLog bc log b = (?n, ?b)"
      unfolding HandleLog_def fill prod.case Let_def by (simp only: False if_False)
    moreover have "log_inv bc ?b" using b False assms(2) by (auto simp: log_inv_def)
    ultimately show ?thesis using b(5) by (intro exI [of _ ?n] exI [of _ ?b] exI [of _ 0]) simp
  qed
qed

text \<open>A sequence of calls, with what each took.\<close>

fun HandleLogs :: "backend_config \<Rightarrow> string list \<Rightarrow> FSBackend \<Rightarrow> string list \<times> FSBackend" where
  "HandleLogs bc [] b = ([], b)"
| "HandleLogs bc (log # logs) b =
     (case HandleLog bc log b of (n, b1) \<Rightarrow> (case HandleLogs bc logs b1 of (taken, b2) \<Rightarrow> (take n log # taken, b2)))"

lemma concat_drop: "\<exists>k'. concat (drop k L) = drop k' (concat L)"
proof (induction L arbitrary: k)
  case (Cons x L)
  show ?case
  proof (cases k)
    case (Suc m)
    obtain k' where "concat (drop m L) = drop k' (concat L)" using Cons.IH by blast
    with Suc show ?thesis by (intro exI [of _ "length x + k'"]) simp
  qed (intro exI [of _ 0], simp)
qed simp

lemma HandleLogs_ok:
  assumes "backend_ok bc" "log_inv bc b" "HandleLogs bc logs b = (taken, b')"
  shows "log_inv bc b' \<and> length (bk_mLogFiles b) \<le> length (bk_mLogFiles b') \<and>
    (\<exists>lost. lost @ concat (log_text b') @ bk_mLogBuffer b' = concat (log_text b) @ bk_mLogBuffer b @ concat taken \<and>
       (lost \<noteq> [] \<longrightarrow> length (bk_mLogFiles b') = bc_cMaxLogFiles bc))"
  using assms(2,3)
proof (induction logs arbitrary: b taken b')
  case Nil
  then show ?case by (intro conjI exI [of _ "[]"]) auto
next
  case (Cons log logs)
  from HandleLog_ok [OF assms(1) Cons.prems(1), of log] obtain n b1 k where s: "HandleLog bc log b = (n, b1)" "log_inv bc b1"
      "concat (log_text b1) @ bk_mLogBuffer b1 = concat (drop k (log_text b)) @ bk_mLogBuffer b @ take n log"
      "length (bk_mLogFiles b) \<le> length (bk_mLogFiles b1)" "k = 0 \<or> k = 1 \<and> length (bk_mLogFiles b1) = bc_cMaxLogFiles bc" by blast
  obtain ts where ts: "HandleLogs bc logs b1 = (ts, b')" "taken = take n log # ts" using Cons.prems(2) s(1) by (auto split: prod.splits)
  from Cons.IH [OF s(2) ts(1)] obtain lost where l: "log_inv bc b'" "length (bk_mLogFiles b1) \<le> length (bk_mLogFiles b')"
      "lost @ concat (log_text b') @ bk_mLogBuffer b' = (concat (log_text b1) @ bk_mLogBuffer b1) @ concat ts"
      "lost \<noteq> [] \<longrightarrow> length (bk_mLogFiles b') = bc_cMaxLogFiles bc" by auto
  obtain pre where pre: "concat (log_text b) = pre @ concat (drop k (log_text b))" "k = 0 \<longrightarrow> pre = []"
    by (metis append_Nil append_take_drop_id concat_append drop0)
  have "length (bk_mLogFiles b') \<le> bc_cMaxLogFiles bc" using l(1) by (simp add: log_inv_def logs_ok_def)
  then have full: "pre @ lost \<noteq> [] \<longrightarrow> length (bk_mLogFiles b') = bc_cMaxLogFiles bc"
    using l(2,4) s(5) pre(2) by auto
  have "(pre @ lost) @ concat (log_text b') @ bk_mLogBuffer b' = concat (log_text b) @ bk_mLogBuffer b @ concat taken"
    using l(3) s(3) pre(1) ts(2) by simp
  with l(1,2) s(4) full show ?case by (intro conjI exI [of _ "pre @ lost"]) auto
qed

text \<open>A first start in an empty directory.\<close>

lemma Init_empty:
  assumes "backend_ok bc" "bk_faults b = []" "bk_mLogFiles b = []" "bk_mFD b = None" "bk_files b = (\<lambda>p. None)"
    and "bk_mCurrentLogFileNumeral b = 0" "bk_mLogBuffer b = []"
  shows "\<exists>b'. FSBackend_Init bc ENone [] b = (ENone, True, b') \<and> log_inv bc b' \<and> log_text b' = [[]] \<and> bk_mLogBuffer b' = []"
proof -
  have "logs_ok bc b" "0 < bc_cMaxLogFiles bc" using assms by (auto simp: logs_ok_def backend_ok_def)
  from Allocate_ok [OF this] obtain c where c: "AllocateNewLogFile bc b = (ENone, c)" "logs_ok bc c" "bk_mLogFiles c \<noteq> []"
      "bk_mFD c = Some (last (bk_mLogFiles c))" "bk_mFileSize c = 0" "bk_mLogBuffer c = bk_mLogBuffer b" "log_text c = [[]]"
    using assms(3) \<open>0 < bc_cMaxLogFiles bc\<close> by (auto simp: log_text_def)
  have same: "b\<lparr>bk_mLogFiles := []\<rparr> = b" using assms(3) by (cases b) simp
  have "FSBackend_Init bc ENone [] b = (ENone, True, c)"
    using c(1) assms(3) by (simp add: FSBackend_Init_def RestoreLogFiles_def same)
  moreover have "length (file_text c (last (bk_mLogFiles c))) = 0"
    using c(3,7) by (cases "bk_mLogFiles c") (auto simp: log_text_def)
  ultimately show ?thesis using c assms(1,7) by (auto simp: log_inv_def backend_ok_def)
qed

section \<open>Properties\<close>

text \<open>C10. The log is a window on what was logged: after a first start in an empty directory and any
  sequence of messages, while no call fails, the log files in the order of the list, followed
  by the buffer, hold exactly what the backend took from the messages, in order, but for a
  part at the beginning that is only missing once the full number of files is in use; there
  are never more files than configured and no file is larger than the limit.\<close>

theorem log_keeps_latest:
  assumes "backend_ok bc"
    and "bk_faults b = []" "bk_mLogFiles b = []" "bk_mFD b = None" "bk_files b = (\<lambda>p. None)" "bk_mCurrentLogFileNumeral b = 0"
      "bk_mLogBuffer b = []"
  shows "\<exists>b1 taken b2 lost. FSBackend_Init bc ENone [] b = (ENone, True, b1) \<and> HandleLogs bc logs b1 = (taken, b2) \<and>
    lost @ concat (map (file_text b2) (bk_mLogFiles b2)) @ bk_mLogBuffer b2 = concat taken \<and>
    (lost \<noteq> [] \<longrightarrow> length (bk_mLogFiles b2) = bc_cMaxLogFiles bc) \<and>
    length (bk_mLogFiles b2) \<le> bc_cMaxLogFiles bc \<and>
    (\<forall>p\<in>set (bk_mLogFiles b2). length (file_text b2 p) \<le> bc_cFileSizeLimit bc)"
proof -
  from Init_empty [OF assms] obtain b1 where b1: "FSBackend_Init bc ENone [] b = (ENone, True, b1)" "log_inv bc b1" "log_text b1 = [[]]"
      "bk_mLogBuffer b1 = []" by blast
  obtain taken b2 where h: "HandleLogs bc logs b1 = (taken, b2)" by fastforce
  from HandleLogs_ok [OF assms(1) b1(2) h] b1(3,4) obtain lost where "log_inv bc b2"
      "lost @ concat (log_text b2) @ bk_mLogBuffer b2 = concat taken" "lost \<noteq> [] \<longrightarrow> length (bk_mLogFiles b2) = bc_cMaxLogFiles bc"
    by auto
  then have w: "lost @ concat (map (file_text b2) (bk_mLogFiles b2)) @ bk_mLogBuffer b2 = concat taken"
    "lost \<noteq> [] \<longrightarrow> length (bk_mLogFiles b2) = bc_cMaxLogFiles bc" "length (bk_mLogFiles b2) \<le> bc_cMaxLogFiles bc"
    "\<forall>p\<in>set (bk_mLogFiles b2). length (file_text b2 p) \<le> bc_cFileSizeLimit bc"
    by (simp_all add: log_inv_def logs_ok_def log_text_def)
  show ?thesis by (intro exI conjI) (fact b1(1), fact h, fact w(1), fact w(2), fact w(3), fact w(4))
qed

definition demo_bc :: "nat \<Rightarrow> backend_config" where
  "demo_bc n = \<lparr>bc_cLogDir = ''/l'', bc_cLogPrefix = ''log_'', bc_cFileSizeLimit = 8, bc_cMaxLogFiles = n, bc_cLogEntryLen = 6\<rparr>"

definition demo_backend :: FSBackend where
  "demo_backend = \<lparr>bk_mLogBuffer = [], bk_mFD = None, bk_mFileSize = 0, bk_mCurrentLogFileNumeral = 0, bk_mLogFiles = [],
     bk_files = (\<lambda>p. None), bk_faults = []\<rparr>"

lemma log_keeps_latest_witness:
  "\<exists>b1 taken b2 lost. FSBackend_Init (demo_bc 2) ENone [] demo_backend = (ENone, True, b1) \<and>
     HandleLogs (demo_bc 2) [''ab'', ''cdefgh''] b1 = (taken, b2) \<and>
     lost @ concat (map (file_text b2) (bk_mLogFiles b2)) @ bk_mLogBuffer b2 = concat taken \<and> length (bk_mLogFiles b2) \<le> 2"
  using log_keeps_latest [of "demo_bc 2" demo_backend "[''ab'', ''cdefgh'']"]
  by (fastforce simp: backend_ok_def demo_bc_def demo_backend_def simp del: HandleLogs.simps)

text \<open>Names and numbers of log files correspond: the number read back from the name of every
  file the backend creates is the number it was created with, and different numbers give
  different names.\<close>

theorem log_names_roundtrip:
  assumes "n \<le> cMaxLogFileNumeral bc"
  shows "\<exists>name. GetFileName bc n = bc_cLogDir bc @ ''/'' @ name \<and> GetFileNumber bc name = Inr n \<and>
    (\<forall>m. GetFileName bc m = GetFileName bc n \<longrightarrow> m = n)"
  using GetFileNumber_name [OF assms] by (auto simp: GetFileName_def dec_inj)

lemma log_names_roundtrip_witness: "\<exists>name. GetFileName (demo_bc 8) 13 = ''/l/'' @ name \<and> GetFileNumber (demo_bc 8) name = Inr 13"
  using log_names_roundtrip [of 13 "demo_bc 8"] by (auto simp: demo_bc_def cMaxLogFileNumeral_def)

text \<open>One failure ends logging for good: when the log file is not open, which a single failed
  open, close, remove or rename can bring about, then no further message changes any file or
  opens one again, whatever calls would succeed.\<close>

theorem logging_stops_for_good:
  assumes "bk_mFD b = None" "HandleLogs bc logs b = (taken, b')"
  shows "bk_mFD b' = None \<and> bk_files b' = bk_files b \<and> bk_mLogFiles b' = bk_mLogFiles b"
  using assms
proof (induction logs arbitrary: b taken)
  case (Cons log logs)
  obtain n b1 where h: "HandleLog bc log b = (n, b1)" by fastforce
  with Cons.prems(1) have "bk_mFD b1 = None \<and> bk_files b1 = bk_files b \<and> bk_mLogFiles b1 = bk_mLogFiles b"
    by (auto simp: HandleLog_def FillLogBuffer_def WriteToFile_def Let_def split: if_splits)
  with Cons.IH [of b1] Cons.prems(2) h show ?case by (auto split: prod.splits)
qed simp

text \<open>The open that fails is the one after the first message.\<close>

lemma logging_stops_for_good_witness:
  "bk_files (snd (HandleLogs (demo_bc 2) [''x'', [CHR 0x0A]] (snd (ReopenLogFile
     (demo_backend\<lparr>bk_mLogFiles := [''/l/log_0''], bk_faults := [FErr 5]\<rparr>))))) = (\<lambda>p. None)"
proof -
  let ?b = "snd (ReopenLogFile (demo_backend\<lparr>bk_mLogFiles := [''/l/log_0''], bk_faults := [FErr 5]\<rparr>))"
  have "bk_mFD ?b = None" "bk_files ?b = (\<lambda>p. None)"
    by (simp_all add: ReopenLogFile_def demo_backend_def log_open_def fetch_def Let_def)
  then show ?thesis
    using logging_stops_for_good [of ?b "demo_bc 2" "[''x'', [CHR 0x0A]]"] by (metis prod.collapse)
qed

text \<open>A message that could not be written is taken twice: when the file is not open, a message
  that completes a line is put into the buffer, but the caller is told that nothing was
  taken, so that repeating it duplicates it there.\<close>

theorem failed_log_kept:
  assumes "bk_mFD b = None" "log \<noteq> []" "last log = CHR 0x0A" "length (bk_mLogBuffer b) + 2 * length log \<le> bc_cLogEntryLen bc"
  shows "\<exists>b1 b2. HandleLog bc log b = (0, b1) \<and> HandleLog bc log b1 = (0, b2) \<and> bk_mLogBuffer b2 = bk_mLogBuffer b @ log @ log"
  using assms by (simp add: HandleLog_def FillLogBuffer_def WriteToFile_def Let_def)

lemma failed_log_kept_witness:
  "\<exists>b1 b2. HandleLog (demo_bc 2) [CHR ''x'', CHR 0x0A] demo_backend = (0, b1) \<and>
     HandleLog (demo_bc 2) [CHR ''x'', CHR 0x0A] b1 = (0, b2) \<and> bk_mLogBuffer b2 = [CHR ''x'', CHR 0x0A, CHR ''x'', CHR 0x0A]"
  using failed_log_kept [of demo_backend "[CHR ''x'', CHR 0x0A]" "demo_bc 2"] by (simp add: demo_backend_def demo_bc_def)

text \<open>The defaults of \<open>Kconfig\<close>, with an entry length for the library's part of it.\<close>

definition backend_kconfig :: backend_config where
  "backend_kconfig = \<lparr>bc_cLogDir = ''/lfs/aos/logs'', bc_cLogPrefix = ''log_'', bc_cFileSizeLimit = 16384, bc_cMaxLogFiles = 8,
     bc_cLogEntryLen = 256\<rparr>"

definition log_listing :: "nat list \<Rightarrow> (string \<times> bool) list" where
  "log_listing ns = map (\<lambda>n. (''log_'' @ dec n, False)) ns"

definition logs_on_disk :: "(nat \<Rightarrow> string) \<Rightarrow> nat list \<Rightarrow> FSBackend" where
  "logs_on_disk c ns = demo_backend\<lparr>bk_files := map_of (map (\<lambda>n. (GetFileName backend_kconfig n, c n)) ns)\<rparr>"

lemma dec_small: "dec 0 = ''0''" "dec 1 = ''1''" "dec 2 = ''2''" "dec 3 = ''3''" "dec 4 = ''4''" "dec 5 = ''5''"
  "dec 6 = ''6''" "dec 7 = ''7''" "dec 8 = ''8''" "dec 9 = ''9''" "dec 10 = ''10''"
  by (simp_all add: dec.simps digit_def char_of_def bit_0 bit_Suc)

lemma restored_order:
  "bk_mLogFiles (snd (RestoreLogFiles backend_kconfig (log_listing [3, 4, 5, 6, 7, 8, 9, 10]) (logs_on_disk c [3, 4, 5, 6, 7, 8, 9, 10]))) =
   map (GetFileName backend_kconfig) [10, 3, 4, 5, 6, 7, 8, 9]"
  "fst (RestoreLogFiles backend_kconfig (log_listing [3, 4, 5, 6, 7, 8, 9, 10]) (logs_on_disk c [3, 4, 5, 6, 7, 8, 9, 10])) = ENone"
proof -
  have num: "GetFileNumber backend_kconfig (''log_'' @ dec n) = Inr n" if "n \<le> 16" for n
    using GetFileNumber_name [of n backend_kconfig] that by (simp add: backend_kconfig_def cMaxLogFileNumeral_def)
  note num' = num [of 3] num [of 4] num [of 5] num [of 6] num [of 7] num [of 8] num [of 9] num [of 10]
  have r: "restore_loop backend_kconfig (log_listing [3, 4, 5, 6, 7, 8, 9, 10]) (logs_on_disk c [3, 4, 5, 6, 7, 8, 9, 10]) =
      (ENone, (logs_on_disk c [3, 4, 5, 6, 7, 8, 9, 10])\<lparr>bk_mCurrentLogFileNumeral := 10,
         bk_mLogFiles := map (GetFileName backend_kconfig) [3, 4, 5, 6, 7, 8, 9, 10]\<rparr>)"
    using num' by (simp add: log_listing_def logs_on_disk_def demo_backend_def Let_def GetFileName_def)
      (simp add: backend_kconfig_def dec_small)
  then show "fst (RestoreLogFiles backend_kconfig (log_listing [3, 4, 5, 6, 7, 8, 9, 10]) (logs_on_disk c [3, 4, 5, 6, 7, 8, 9, 10])) = ENone"
    by (simp add: RestoreLogFiles_def)
  show "bk_mLogFiles (snd (RestoreLogFiles backend_kconfig (log_listing [3, 4, 5, 6, 7, 8, 9, 10]) (logs_on_disk c [3, 4, 5, 6, 7, 8, 9, 10]))) =
      map (GetFileName backend_kconfig) [10, 3, 4, 5, 6, 7, 8, 9]"
    using r by (simp add: RestoreLogFiles_def GetFileName_def backend_kconfig_def dec_small less_eq_char_def less_char_def)
qed

text \<open>A restart can throw away the newest log file: with the default configuration and the eight
  files 3 to 10, which a running backend leaves behind, the names are sorted as text, so that
  file 10 comes first and is removed as if it were the oldest; the others stay, and logging
  goes on in file 9.\<close>

theorem restart_loses_newest:
  assumes "\<forall>n. length (c n) \<le> bc_cFileSizeLimit backend_kconfig"
  shows "\<exists>b'. FSBackend_Init backend_kconfig ENone (log_listing [3, 4, 5, 6, 7, 8, 9, 10]) (logs_on_disk c [3, 4, 5, 6, 7, 8, 9, 10]) =
      (ENone, True, b') \<and> map (file_text b') (bk_mLogFiles b') = map c [3, 4, 5, 6, 7, 8, 9]"
proof -
  let ?bc = backend_kconfig and ?ns = "[3, 4, 5, 6, 7, 8, 9, 10] :: nat list"
  let ?name = "GetFileName backend_kconfig"
  obtain b1 where b1: "RestoreLogFiles ?bc (log_listing ?ns) (logs_on_disk c ?ns) = (ENone, b1)" "bk_mLogFiles b1 = map ?name [10, 3, 4, 5, 6, 7, 8, 9]"
    using restored_order [of c] by (metis prod.collapse)
  have same: "bk_files b1 = bk_files (logs_on_disk c ?ns) \<and> bk_faults b1 = [] \<and> bk_mFD b1 = None"
  proof -
    have "restore_loop bc es b = (e, b') \<Longrightarrow> bk_files b' = bk_files b \<and> bk_faults b' = bk_faults b \<and> bk_mFD b' = bk_mFD b" for bc es b e b'
      by (induction bc es b rule: restore_loop.induct) (auto simp: Let_def split: sum.splits prod.splits if_splits)
    with b1(1) show ?thesis
      by (fastforce simp: RestoreLogFiles_def logs_on_disk_def demo_backend_def split: prod.splits if_splits)
  qed
  let ?b2 = "b1\<lparr>bk_files := (bk_files b1)(?name 10 := None), bk_mLogFiles := map ?name [3, 4, 5, 6, 7, 8, 9]\<rparr>"
  have shrink: "ShrinkLogFiles ?bc b1 = (ENone, ?b2)"
    using b1(2) same by (simp add: ShrinkLogFiles_def fs_Remove_def logs_on_disk_def) (simp add: backend_kconfig_def)
  let ?b3 = "?b2\<lparr>bk_mCurrentLogFileNumeral := 10\<rparr>"
  have content: "file_text ?b3 (?name n) = c n" if "n \<in> {3, 4, 5, 6, 7, 8, 9}" for n
    using that same by (auto simp: file_text_def logs_on_disk_def)
  have "logs_ok ?bc ?b3"
    unfolding logs_ok_def
  proof (intro conjI exI [of _ "[3, 4, 5, 6, 7, 8, 9]"])
    show "dom (bk_files ?b3) = set (bk_mLogFiles ?b3)"
      using same by (auto simp: logs_on_disk_def demo_backend_def split: if_splits)
    show "\<forall>p\<in>set (bk_mLogFiles ?b3). length (file_text ?b3 p) \<le> bc_cFileSizeLimit ?bc"
      using assms content by simp
  qed (use same in \<open>simp_all add: backend_kconfig_def cMaxLogFileNumeral_def\<close>)
  from Update_ok [OF this] obtain b4 where b4: "UpdateLogFileNumerals ?bc ?b3 = (ENone, b4)" "logs_ok ?bc b4"
      "log_text b4 = log_text ?b3" "length (bk_mLogFiles b4) = 7" by auto
  have upd: "UpdateLogFileNumerals ?bc ?b2 = (ENone, b4)" using b4(1) by (simp add: UpdateLogFileNumerals_def)
  have "bk_mLogFiles b4 \<noteq> []" "bk_faults b4 = []" using b4(2,4) by (auto simp: logs_ok_def)
  from Reopen_ok [OF this(2,1)] obtain b5 where b5: "ReopenLogFile b4 = (ENone, b5)" "bk_mLogFiles b5 = bk_mLogFiles b4"
      "\<forall>p. file_text b5 p = file_text b4 p" by (auto simp: file_text_def)
  have "FSBackend_Init ?bc ENone (log_listing ?ns) (logs_on_disk c ?ns) = (ENone, True, b5)"
    using b1(2) by (simp add: FSBackend_Init_def b1(1) shrink [simplified] upd [simplified] b5(1))
  moreover have "map (file_text b5) (bk_mLogFiles b5) = log_text ?b3"
    unfolding b4(3) [symmetric] by (simp add: log_text_def b5(2,3))
  moreover have "log_text ?b3 = map c [3, 4, 5, 6, 7, 8, 9]"
    using content by (simp add: log_text_def)
  ultimately show ?thesis by metis
qed

lemma restart_loses_newest_witness:
  "\<exists>b'. FSBackend_Init backend_kconfig ENone (log_listing [3, 4, 5, 6, 7, 8, 9, 10])
        (logs_on_disk (\<lambda>n. if n = 10 then ''new'' else ''old'') [3, 4, 5, 6, 7, 8, 9, 10]) = (ENone, True, b') \<and>
      ''new'' \<notin> set (map (file_text b') (bk_mLogFiles b'))"
proof -
  let ?c = "\<lambda>n::nat. if n = 10 then ''new'' else ''old''"
  have "\<forall>n. length (?c n) \<le> bc_cFileSizeLimit backend_kconfig" by (simp add: backend_kconfig_def)
  from restart_loses_newest [OF this] obtain b' where
    b': "FSBackend_Init backend_kconfig ENone (log_listing [3, 4, 5, 6, 7, 8, 9, 10]) (logs_on_disk ?c [3, 4, 5, 6, 7, 8, 9, 10]) = (ENone, True, b') \<and>
      map (file_text b') (bk_mLogFiles b') = map ?c [3, 4, 5, 6, 7, 8, 9]" ..
  have "''new'' \<notin> set (map (file_text b') (bk_mLogFiles b'))" unfolding conjunct2 [OF b'] by simp
  then show ?thesis by (intro exI conjI) (rule conjunct1 [OF b'])
qed

text \<open>Recovering from too many files succeeds but leaves the backend inactive.\<close>

lemma recovery_inactive:
  "fst (RestoreLogFiles bc listing b) \<noteq> ENone \<Longrightarrow> \<not> fst (snd (FSBackend_Init bc ENone listing b))"
  by (auto simp: FSBackend_Init_def Let_def split: prod.splits)

end
