(* ===== verification/SMMessages.thy ===== *)
theory SMMessages
  imports Complex_Main PbConvert Downloader LogProvider
begin

text \<open>
  The messages of the service manager protocol and the conversions of
  \<open>src/smclient/smclient.cpp\<close> between them and the types of the library. A message is the
  record that the protobuf library decodes or encodes; a \<open>has_\<close> flag with its field is an
  option, an array with its count is a list, and arrays are taken to be as large as their
  counterparts on the other side. Enumerations of the library that the client only prints
  are represented by their names.
\<close>

section \<open>Time\<close>

text \<open>Seconds are an \<open>int64_t\<close>, nanoseconds an \<open>int32_t\<close>, both read as signed.\<close>

record pb_Timestamp =
  pt_seconds :: u64
  pt_nanos :: u32

definition TimestampToPB :: "Time \<Rightarrow> pb_Timestamp" where
  "TimestampToPB t = \<lparr>pt_seconds = word_of_int (tv_sec t), pt_nanos = word_of_int (tv_nsec t)\<rparr>"

definition PBToTime :: "pb_Timestamp \<Rightarrow> Time" where
  "PBToTime p = Time (sint (pt_seconds p)) (sint (pt_nanos p))"

definition valid_time :: "Time \<Rightarrow> bool" where
  "valid_time t \<longleftrightarrow> - (2 ^ 63) \<le> tv_sec t \<and> tv_sec t < 2 ^ 63 \<and> 0 \<le> tv_nsec t \<and> tv_nsec t < 1000000000"

lemma sint_of_int_id: "- (2 ^ (LENGTH('a) - 1)) \<le> i \<Longrightarrow> i < 2 ^ (LENGTH('a) - 1) \<Longrightarrow> sint (word_of_int i :: 'a::len word) = i"
  by (simp add: signed_of_int signed_take_bit_int_eq_self)

lemma timestamp_roundtrip: "valid_time t \<Longrightarrow> PBToTime (TimestampToPB t) = t"
  by (cases t) (simp add: PBToTime_def TimestampToPB_def valid_time_def sint_of_int_id)

section \<open>Monitoring\<close>

record MonitoringData =
  mo_mCPU :: rat
  mo_mRAM :: u64
  mo_mPartitions :: "(string \<times> u64) list"
  mo_mDownload :: u64
  mo_mUpload :: u64

record InstanceMonitoringData =
  mi_mInstanceIdent :: InstanceIdent
  mi_mMonitoringData :: MonitoringData

record NodeMonitoringData =
  nm_mTimestamp :: Time
  nm_mMonitoringData :: MonitoringData
  nm_mServiceInstances :: "InstanceMonitoringData list"

record pb_MonitoringData =
  pmo_ram :: u64
  pmo_cpu :: u64
  pmo_download :: u64
  pmo_upload :: u64
  pmo_partitions :: "(string \<times> u64) list"
  pmo_timestamp :: "pb_Timestamp option"

record pb_NodeMonitoring =
  pnm_node_monitoring :: "pb_MonitoringData option"
  pnm_instances_monitoring :: "(pb_InstanceIdent \<times> pb_MonitoringData) list"

text \<open>
  The load is a \<open>double\<close>, standing for the rational it denotes; \<open>rnd\<close> rounds a sum to a \<open>double\<close>.
  The conversion to an integer cuts the fraction off. Outside the integer's range, where C++
  leaves the result open, the model wraps.
\<close>

definition MonitoringDataToPB :: "(rat \<Rightarrow> rat) \<Rightarrow> MonitoringData \<Rightarrow> Time \<Rightarrow> pb_MonitoringData" where
  "MonitoringDataToPB rnd md timestamp =
     \<lparr>pmo_ram = mo_mRAM md,
      pmo_cpu = (let x = rnd (mo_mCPU md + 1 / 2) in word_of_int (if 0 \<le> x then \<lfloor>x\<rfloor> else \<lceil>x\<rceil>)),
      pmo_download = mo_mDownload md, pmo_upload = mo_mUpload md, pmo_partitions = mo_mPartitions md,
      pmo_timestamp = Some (TimestampToPB timestamp)\<rparr>"

definition NodeMonitoringToPB :: "(rat \<Rightarrow> rat) \<Rightarrow> NodeMonitoringData \<Rightarrow> pb_NodeMonitoring" where
  "NodeMonitoringToPB rnd nm =
     \<lparr>pnm_node_monitoring = Some (MonitoringDataToPB rnd (nm_mMonitoringData nm) (nm_mTimestamp nm)),
      pnm_instances_monitoring =
        map (\<lambda>i. (InstanceIdentToPB (mi_mInstanceIdent i), MonitoringDataToPB rnd (mi_mMonitoringData i) (nm_mTimestamp nm)))
          (nm_mServiceInstances nm)\<rparr>"

section \<open>Instance status\<close>

record InstanceStatus =
  ins_mInstanceIdent :: InstanceIdent
  ins_mServiceVersion :: string
  ins_mRunState :: string
  ins_mError :: Error

record pb_InstanceStatus =
  pis_instance :: "pb_InstanceIdent option"
  pis_service_version :: string
  pis_run_state :: string
  pis_error :: "pb_ErrorInfo option"

definition InstanceStatusToPB :: "error_codes \<Rightarrow> InstanceStatus \<Rightarrow> pb_InstanceStatus" where
  "InstanceStatusToPB ec i =
     \<lparr>pis_instance = Some (InstanceIdentToPB (ins_mInstanceIdent i)), pis_service_version = ins_mServiceVersion i,
      pis_run_state = ins_mRunState i,
      pis_error = (if ins_mError i \<noteq> ENone then Some (ErrorToPB ec (ins_mError i)) else None)\<rparr>"

section \<open>Alerts\<close>

text \<open>What every alert carries, and the variants; \<open>OtherAlert\<close> is any variant without a visitor of its own.\<close>

record AlertItem =
  ai_mTag :: string
  ai_mTimestamp :: Time

datatype AlertVariant =
    SystemAlert AlertItem string
  | CoreAlert AlertItem string string
  | SystemQuotaAlert AlertItem string u64 string
  | InstanceQuotaAlert AlertItem InstanceIdent string u64 string
  | DeviceAllocateAlert AlertItem InstanceIdent string string
  | ResourceValidateAlert AlertItem string "Error list"
  | OtherAlert AlertItem

fun item_of :: "AlertVariant \<Rightarrow> AlertItem" where
  "item_of (SystemAlert i _) = i"
| "item_of (CoreAlert i _ _) = i"
| "item_of (SystemQuotaAlert i _ _ _) = i"
| "item_of (InstanceQuotaAlert i _ _ _ _) = i"
| "item_of (DeviceAllocateAlert i _ _ _) = i"
| "item_of (ResourceValidateAlert i _ _) = i"
| "item_of (OtherAlert i) = i"

text \<open>The protobuf alert is a tagged union: \<open>pal_which\<close> is the tag and \<open>pal_item\<close> the member written.\<close>

datatype alert_tag = system_alert_tag | core_alert_tag | system_quota_alert_tag | instance_quota_alert_tag
  | device_allocate_alert_tag | resource_validate_alert_tag

datatype pb_AlertItem =
    PbSystemAlert string
  | PbCoreAlert string string
  | PbSystemQuotaAlert string u64 string
  | PbInstanceQuotaAlert "pb_InstanceIdent option" string u64 string
  | PbDeviceAllocateAlert "pb_InstanceIdent option" string string
  | PbResourceValidateAlert string "pb_ErrorInfo list"

fun member_tag :: "pb_AlertItem \<Rightarrow> alert_tag" where
  "member_tag (PbSystemAlert _) = system_alert_tag"
| "member_tag (PbCoreAlert _ _) = core_alert_tag"
| "member_tag (PbSystemQuotaAlert _ _ _) = system_quota_alert_tag"
| "member_tag (PbInstanceQuotaAlert _ _ _ _) = instance_quota_alert_tag"
| "member_tag (PbDeviceAllocateAlert _ _ _) = device_allocate_alert_tag"
| "member_tag (PbResourceValidateAlert _ _) = resource_validate_alert_tag"

record pb_Alert =
  pal_tag :: string
  pal_timestamp :: "pb_Timestamp option"
  pal_which :: "alert_tag option"
  pal_item :: "pb_AlertItem option"

definition pb_Alert_init :: pb_Alert where
  "pb_Alert_init = \<lparr>pal_tag = [], pal_timestamp = None, pal_which = None, pal_item = None\<rparr>"

definition SetTimeAndTag :: "AlertItem \<Rightarrow> alert_tag \<Rightarrow> pb_Alert \<Rightarrow> pb_Alert" where
  "SetTimeAndTag src whichAlertItem pb =
     pb\<lparr>pal_tag := ai_mTag src, pal_timestamp := Some (TimestampToPB (ai_mTimestamp src)), pal_which := Some whichAlertItem\<rparr>"

text \<open>The visitors of \<open>AlertVisitor\<close>. The quota alert of the system sets the tag of the plain system alert.\<close>

fun AlertVisitor :: "error_codes \<Rightarrow> AlertVariant \<Rightarrow> pb_Alert \<Rightarrow> pb_Alert \<times> Error" where
  "AlertVisitor ec (SystemAlert i message) pb =
     ((SetTimeAndTag i system_alert_tag pb)\<lparr>pal_item := Some (PbSystemAlert message)\<rparr>, ENone)"
| "AlertVisitor ec (CoreAlert i component message) pb =
     ((SetTimeAndTag i core_alert_tag pb)\<lparr>pal_item := Some (PbCoreAlert component message)\<rparr>, ENone)"
| "AlertVisitor ec (SystemQuotaAlert i parameter v status) pb =
     ((SetTimeAndTag i system_alert_tag pb)\<lparr>pal_item := Some (PbSystemQuotaAlert parameter v status)\<rparr>, ENone)"
| "AlertVisitor ec (InstanceQuotaAlert i ident parameter v status) pb =
     ((SetTimeAndTag i instance_quota_alert_tag pb)
        \<lparr>pal_item := Some (PbInstanceQuotaAlert (Some (InstanceIdentToPB ident)) parameter v status)\<rparr>, ENone)"
| "AlertVisitor ec (DeviceAllocateAlert i ident device message) pb =
     ((SetTimeAndTag i device_allocate_alert_tag pb)
        \<lparr>pal_item := Some (PbDeviceAllocateAlert (Some (InstanceIdentToPB ident)) device message)\<rparr>, ENone)"
| "AlertVisitor ec (ResourceValidateAlert i name errors) pb =
     ((SetTimeAndTag i resource_validate_alert_tag pb)
        \<lparr>pal_item := Some (PbResourceValidateAlert name (map (ErrorToPB ec) errors))\<rparr>, ENone)"
| "AlertVisitor ec (OtherAlert i) pb = (pb, EEnum eNotSupported)"

definition AlertToPB :: "error_codes \<Rightarrow> AlertVariant \<Rightarrow> pb_Alert \<Rightarrow> pb_Alert \<times> Error" where
  "AlertToPB ec alert pb = AlertVisitor ec alert pb"

text \<open>A tag that fits its member, which is what a reader of the message relies on.\<close>

definition well_tagged :: "pb_Alert \<Rightarrow> bool" where
  "well_tagged pb \<longleftrightarrow> (case pal_item pb of None \<Rightarrow> False | Some m \<Rightarrow> pal_which pb = Some (member_tag m))"

section \<open>Logs\<close>

record pb_LogData =
  pld_log_id :: string
  pld_part_count :: u64
  pld_part :: u64
  pld_data :: pb_bytes
  pld_error :: "pb_ErrorInfo option"
  pld_status :: string

definition byte_of :: "char \<Rightarrow> byte" where
  "byte_of c = of_nat (of_char c)"

text \<open>\<open>ToString\<close> of the log status is the library's.\<close>

definition PushLogToPB :: "error_codes \<Rightarrow> (LogStatus \<Rightarrow> string) \<Rightarrow> nat \<Rightarrow> PushLog \<Rightarrow> pb_LogData" where
  "PushLogToPB ec status_name cap lg =
     \<lparr>pld_log_id = cstr (pg_mLogID lg), pld_part_count = pg_mPartsCount lg, pld_part = pg_mPart lg,
      pld_data = ByteArrayToPB cap (map byte_of (pg_mContent lg)),
      pld_error = (if pg_mErrorInfo lg \<noteq> ENone then Some (ErrorToPB ec (pg_mErrorInfo lg)) else None),
      pld_status = status_name (pg_mStatus lg)\<rparr>"

definition log_data_text :: "pb_LogData \<Rightarrow> string" where
  "log_data_text pb = map (\<lambda>b. char_of (unat b)) (PBToByteArray (pld_data pb))"

lemma char_of_byte_of [simp]: "char_of (unat (byte_of c)) = c"
  by (simp add: byte_of_def unat_of_nat)

lemma log_data_text_roundtrip: "log_data_text (PushLogToPB ec sn cap lg) = pg_mContent lg"
  by (simp add: log_data_text_def PushLogToPB_def bytes_roundtrip comp_def)

record pb_SystemLogRequest =
  psl_log_id :: string
  psl_from :: "pb_Timestamp option"
  psl_till :: "pb_Timestamp option"

text \<open>\<open>flt\<close> is the instance filter of a request that was not given one.\<close>

definition PBToSystemLogRequest :: "'f \<Rightarrow> pb_SystemLogRequest \<Rightarrow> 'f RequestLog" where
  "PBToSystemLogRequest flt p =
     \<lparr>rq_mLogID = cstr (psl_log_id p), rq_mFrom = map_option PBToTime (psl_from p), rq_mTill = map_option PBToTime (psl_till p),
      rq_mInstanceFilter = flt\<rparr>"

section \<open>Instances to run\<close>

record ServiceInfo =
  svi_mServiceID :: string
  svi_mProviderID :: string
  svi_mVersion :: string
  svi_mGID :: u32
  svi_mURL :: string
  svi_mSHA256 :: "byte list"
  svi_mSize :: u64

record LayerInfo =
  lyi_mLayerID :: string
  lyi_mLayerDigest :: string
  lyi_mVersion :: string
  lyi_mURL :: string
  lyi_mSHA256 :: "byte list"
  lyi_mSize :: u64

record InstanceInfo =
  ifo_mInstanceIdent :: InstanceIdent
  ifo_mUID :: u32
  ifo_mPriority :: u64
  ifo_mStoragePath :: string
  ifo_mStatePath :: string

record run_request =
  rr_services :: "ServiceInfo list"
  rr_layers :: "LayerInfo list"
  rr_instances :: "InstanceInfo list"
  rr_force_restart :: bool

record pb_ServiceInfo =
  psv_service_id :: string
  psv_provider_id :: string
  psv_version :: string
  psv_gid :: u32
  psv_url :: string
  psv_sha256 :: pb_bytes
  psv_size :: u64

record pb_LayerInfo =
  ply_layer_id :: string
  ply_digest :: string
  ply_version :: string
  ply_url :: string
  ply_sha256 :: pb_bytes
  ply_size :: u64

record pb_InstanceInfo =
  pio_instance :: "pb_InstanceIdent option"
  pio_uid :: u32
  pio_priority :: u64
  pio_storage_path :: string
  pio_state_path :: string

record pb_RunInstances =
  pri_services :: "pb_ServiceInfo list"
  pri_layers :: "pb_LayerInfo list"
  pri_instances :: "pb_InstanceInfo list"
  pri_force_restart :: bool

definition PBToServiceInfo :: "pb_ServiceInfo \<Rightarrow> ServiceInfo" where
  "PBToServiceInfo p =
     \<lparr>svi_mServiceID = cstr (psv_service_id p), svi_mProviderID = cstr (psv_provider_id p), svi_mVersion = cstr (psv_version p),
      svi_mGID = psv_gid p, svi_mURL = cstr (psv_url p), svi_mSHA256 = PBToByteArray (psv_sha256 p), svi_mSize = psv_size p\<rparr>"

definition PBToLayerInfo :: "pb_LayerInfo \<Rightarrow> LayerInfo" where
  "PBToLayerInfo p =
     \<lparr>lyi_mLayerID = cstr (ply_layer_id p), lyi_mLayerDigest = cstr (ply_digest p), lyi_mVersion = cstr (ply_version p),
      lyi_mURL = cstr (ply_url p), lyi_mSHA256 = PBToByteArray (ply_sha256 p), lyi_mSize = ply_size p\<rparr>"

text \<open>Without an identity in the message the instance keeps the default one.\<close>

definition PBToInstanceInfo :: "pb_InstanceInfo \<Rightarrow> InstanceInfo" where
  "PBToInstanceInfo p =
     \<lparr>ifo_mInstanceIdent = (case pio_instance p of
          None \<Rightarrow> \<lparr>ii_mServiceID = [], ii_mSubjectID = [], ii_mInstance = 0\<rparr>
        | Some i \<Rightarrow> PBToInstanceIdent i),
      ifo_mUID = pio_uid p, ifo_mPriority = pio_priority p, ifo_mStoragePath = cstr (pio_storage_path p),
      ifo_mStatePath = cstr (pio_state_path p)\<rparr>"

definition PBToRunInstances :: "pb_RunInstances \<Rightarrow> run_request" where
  "PBToRunInstances p =
     \<lparr>rr_services = map PBToServiceInfo (pri_services p), rr_layers = map PBToLayerInfo (pri_layers p),
      rr_instances = map PBToInstanceInfo (pri_instances p), rr_force_restart = pri_force_restart p\<rparr>"

section \<open>Image content\<close>

record pb_ImageFile =
  pif_relative_path :: string
  pif_sha256 :: pb_bytes
  pif_size :: u64

record pb_ImageContentInfo =
  pim_request_id :: u64
  pim_image_files :: "pb_ImageFile list"
  pim_error :: "pb_ErrorInfo option"

record pb_ImageContent =
  pic_request_id :: u64
  pic_relative_path :: string
  pic_parts_count :: u64
  pic_part :: u64
  pic_data :: pb_bytes

definition PBToImageContentInfo :: "error_codes \<Rightarrow> pb_ImageContentInfo \<Rightarrow> ImageContentInfo" where
  "PBToImageContentInfo ec p =
     \<lparr>im_mRequestID = pim_request_id p,
      im_mFiles = map (\<lambda>f. \<lparr>fi_mRelativePath = cstr (pif_relative_path f), fi_mSHA256 = PBToByteArray (pif_sha256 f),
                           fi_mSize = pif_size f\<rparr>) (pim_image_files p),
      im_mError = (case pim_error p of None \<Rightarrow> ENone | Some e \<Rightarrow> PBToError ec e)\<rparr>"

definition PBToFileChunk :: "pb_ImageContent \<Rightarrow> FileChunk" where
  "PBToFileChunk p =
     \<lparr>fc_mRequestID = pic_request_id p, fc_mRelativePath = cstr (pic_relative_path p), fc_mPartsCount = pic_parts_count p,
      fc_mPart = pic_part p, fc_mData = PBToByteArray (pic_data p)\<rparr>"

record pb_ImageContentRequest =
  pir_url :: string
  pir_request_id :: u64
  pir_content_type :: string

text \<open>\<open>ToString\<close> of the content type is the library's.\<close>

definition ImageContentRequestToPB :: "(nat \<Rightarrow> string) \<Rightarrow> ImageContentRequest \<Rightarrow> pb_ImageContentRequest" where
  "ImageContentRequestToPB type_name r =
     \<lparr>pir_url = ir_mURL r, pir_request_id = ir_mRequestID r, pir_content_type = type_name (ir_mContentType r)\<rparr>"

section \<open>Messages\<close>

record pb_NodeConfigStatus =
  pnc_node_id :: string
  pnc_node_type :: string
  pnc_version :: string
  pnc_error :: "pb_ErrorInfo option"

datatype SMIncoming =
    GetNodeConfigStatus
  | CheckNodeConfig (cnc_version: string) (cnc_node_config: string)
  | SetNodeConfig (snc_version: string) (snc_node_config: string)
  | GetAverageMonitoring
  | RunInstances pb_RunInstances
  | SystemLogRequest pb_SystemLogRequest
  | ImageContentInfoMessage pb_ImageContentInfo
  | ImageContentMessage pb_ImageContent
  | ClockSyncMessage "pb_Timestamp option"
  | UnsupportedSMIncoming nat

datatype SMOutgoing =
    NodeConfigStatusMessage pb_NodeConfigStatus
  | RunInstancesStatusMessage "pb_InstanceStatus list"
  | UpdateInstancesStatusMessage "pb_InstanceStatus list"
  | ImageContentRequestMessage pb_ImageContentRequest
  | InstantMonitoringMessage pb_NodeMonitoring
  | AverageMonitoringMessage pb_NodeMonitoring
  | AlertMessage pb_Alert
  | LogDataMessage pb_LogData
  | ClockSyncRequestMessage

section \<open>Properties\<close>

text \<open>C39. An alert that is sent is one the server can read: \<open>AlertToPB\<close> succeeds exactly on the
  variants with a visitor of their own, and the alert then carries the alert's own tag and
  time, and its union tag is the one of the member that was written - in all cases but the
  system quota alert, whose union tag is that of a plain system alert.\<close>

theorem alert_tagged:
  assumes "AlertToPB ec alert pb_Alert_init = (pb, err)"
  shows "err = (case alert of OtherAlert i \<Rightarrow> EEnum eNotSupported | _ \<Rightarrow> ENone) \<and>
    (err = ENone \<longrightarrow> pal_tag pb = ai_mTag (item_of alert) \<and>
       pal_timestamp pb = Some (TimestampToPB (ai_mTimestamp (item_of alert))) \<and>
       (case alert of
          SystemQuotaAlert i parameter v status \<Rightarrow> \<not> well_tagged pb \<and> pal_which pb = Some system_alert_tag \<and>
            pal_item pb = Some (PbSystemQuotaAlert parameter v status)
        | _ \<Rightarrow> well_tagged pb))"
  using assms by (cases alert) (auto simp: AlertToPB_def SetTimeAndTag_def well_tagged_def)

lemma alert_tagged_witness:
  "\<not> well_tagged (fst (AlertToPB demo_codes (SystemQuotaAlert \<lparr>ai_mTag = ''systemQuotaAlert'', ai_mTimestamp = Time 5 0\<rparr> ''ram'' 90 ''raise'')
     pb_Alert_init))"
  using alert_tagged [of demo_codes "SystemQuotaAlert \<lparr>ai_mTag = ''systemQuotaAlert'', ai_mTimestamp = Time 5 0\<rparr> ''ram'' 90 ''raise''"]
  by (simp add: AlertToPB_def)

end
