(* ===== verification/OpenHandler.thy ===== *)
theory OpenHandler
  imports SMMessages ClockSync PBHandler
begin

text \<open>
  \<open>src/smclient/openhandler.cpp\<close>: the service manager's handler on the open channel. It starts
  the clock synchronisation when the channel is connected, sends its requests, and hands the
  time of the answers to it. The real-time clock comes with the state of \<open>ClockSync\<close>.
\<close>

section \<open>Operations\<close>

definition OpenHandler_Init :: "'c \<Rightarrow> 'c PBHandler \<Rightarrow> 'c PBHandler \<times> Error" where
  "OpenHandler_Init channel h =
     (case PBHandler_Init ''SM open'' channel h of
        (h', err) \<Rightarrow> if err \<noteq> ENone then (h', AOS_ERROR_WRAP err) else (h', ENone))"

definition SendClockSyncRequest ::
  "pb_layout \<Rightarrow> (nat \<Rightarrow> SMOutgoing \<Rightarrow> byte list option) \<Rightarrow> 'c ChannelItf \<Rightarrow> 'c PBHandler \<Rightarrow> 'c PBHandler \<times> Error" where
  "SendClockSyncRequest pl pb_encode ci h = SendMessage pl pb_encode ci (Some ClockSyncRequestMessage) h"

text \<open>A failed start only goes to the log.\<close>

definition OpenHandler_OnConnect :: "'sub ClockSync \<Rightarrow> 'sub ClockSync" where
  "OpenHandler_OnConnect ck = fst (ClockSync_Start ck)"

definition OpenHandler_OnDisconnect :: "'sub ClockSync \<Rightarrow> 'sub ClockSync" where
  "OpenHandler_OnDisconnect ck = ck"

definition ProcessClockSync ::
  "int \<Rightarrow> int \<Rightarrow> pb_Timestamp option \<Rightarrow> Time \<times> 'sub ClockSync \<Rightarrow> (Time \<times> 'sub ClockSync) \<times> Error" where
  "ProcessClockSync cMaxTimeDiff settime current_time s =
     (case current_time of
        None \<Rightarrow> (s, AOS_ERROR_WRAP (EEnum eInvalidArgument))
      | Some ts \<Rightarrow>
          (case ClockSync_Sync cMaxTimeDiff settime (PBToTime ts) s of
             (s', err) \<Rightarrow> if err \<noteq> ENone then (s', AOS_ERROR_WRAP err) else (s', ENone)))"

text \<open>\<open>pb_decode\<close> is the protobuf library's.\<close>

definition OpenHandler_ReceiveMessage ::
  "(byte list \<Rightarrow> SMIncoming option) \<Rightarrow> int \<Rightarrow> int \<Rightarrow> byte list \<Rightarrow> Time \<times> 'sub ClockSync \<Rightarrow>
   (Time \<times> 'sub ClockSync) \<times> Error" where
  "OpenHandler_ReceiveMessage pb_decode cMaxTimeDiff settime data s =
     (case pb_decode data of
        None \<Rightarrow> (s, AOS_ERROR_WRAP (EEnum eRuntime))
      | Some (ClockSyncMessage current_time) \<Rightarrow> ProcessClockSync cMaxTimeDiff settime current_time s
      | Some _ \<Rightarrow> (s, ENone))"

section \<open>Properties\<close>



end
