(* ===== verification/SMClient.thy ===== *)
theory SMClient
  imports SMMessages NodeInfoProvider
begin

text \<open>
  \<open>src/smclient/smclient.cpp\<close>: what the service manager client sends, what it does with a
  received message, and what it is told. The downloader and the log provider are those of
  their theories and part of the state; the node info provider, the resource manager, the
  launcher and the resource monitor are results of calls. Every operation but the one that
  takes a log holds the client's mutex and is atomic.
\<close>

section \<open>State\<close>

text \<open>The subscribers are the objects told of the connection.\<close>

record SMClient =
  sm_mClockSynced :: bool
  sm_mProvisioned :: bool
  sm_mCertificateChanged :: bool
  sm_mClose :: bool
  sm_mConnectionSubscribers :: "nat list"

definition cMaxConnectionSubscribers :: nat where "cMaxConnectionSubscribers = 2"

text \<open>
  The client with what it works on: the launcher's calls, the messages handed to
  \<open>SendMessage\<close>, and the notifications of the subscribers, in order.
\<close>

record 'f sm_sys =
  ss_client :: SMClient
  ss_downloader :: "Downloader \<times> fs_world"
  ss_log :: "'f LogProvider"
  ss_runs :: "run_request list"
  ss_sent :: "SMOutgoing list"
  ss_notified :: "(nat \<times> bool) list"

text \<open>Results of calls, and functions of the library.\<close>

record 'f sm_env =
  sv_codes :: error_codes
  sv_SendMessage :: "SMOutgoing \<Rightarrow> Error"
  sv_GetNodeInfo :: "NodeInfo \<times> Error"
  sv_GetNodeConfigVersion :: "string \<times> Error"
  sv_CheckNodeConfig :: "string \<Rightarrow> string \<Rightarrow> Error"
  sv_UpdateNodeConfig :: "string \<Rightarrow> string \<Rightarrow> Error"
  sv_GetCurrentRunStatus :: "InstanceStatus list \<times> Error"
  sv_RunInstances :: "run_request \<Rightarrow> Error"
  sv_GetAverageMonitoringData :: "NodeMonitoringData \<times> Error"
  sv_download :: download_env
  sv_pb_decode :: "byte list \<Rightarrow> SMIncoming option"
  sv_round :: "rat \<Rightarrow> rat"
  sv_content_type :: "nat \<Rightarrow> string"
  sv_log_status :: "LogStatus \<Rightarrow> string"
  sv_log_data_size :: nat
  sv_InstanceFilter :: 'f

section \<open>Sending\<close>

definition sm_send :: "'f sm_env \<Rightarrow> SMOutgoing \<Rightarrow> 'f sm_sys \<Rightarrow> 'f sm_sys \<times> Error" where
  "sm_send env msg s = (s\<lparr>ss_sent := ss_sent s @ [msg]\<rparr>, sv_SendMessage env msg)"

definition SendNodeConfigStatus :: "'f sm_env \<Rightarrow> string \<Rightarrow> Error \<Rightarrow> 'f sm_sys \<Rightarrow> 'f sm_sys \<times> Error" where
  "SendNodeConfigStatus env version configErr s =
     (case sv_GetNodeInfo env of
        (nodeInfo, err) \<Rightarrow>
          if err \<noteq> ENone then (s, AOS_ERROR_WRAP err)
          else sm_send env (NodeConfigStatusMessage
            \<lparr>pnc_node_id = ni_mNodeID nodeInfo, pnc_node_type = ni_mNodeType nodeInfo, pnc_version = version,
             pnc_error = (if configErr \<noteq> ENone then Some (ErrorToPB (sv_codes env) configErr) else None)\<rparr>) s)"

definition SendRunStatus :: "'f sm_env \<Rightarrow> InstanceStatus list \<Rightarrow> 'f sm_sys \<Rightarrow> 'f sm_sys \<times> Error" where
  "SendRunStatus env instances s =
     sm_send env (RunInstancesStatusMessage (map (InstanceStatusToPB (sv_codes env)) instances)) s"

definition InstancesRunStatus :: "'f sm_env \<Rightarrow> InstanceStatus list \<Rightarrow> 'f sm_sys \<Rightarrow> 'f sm_sys \<times> Error" where
  "InstancesRunStatus env instances s = SendRunStatus env instances s"

definition InstancesUpdateStatus :: "'f sm_env \<Rightarrow> InstanceStatus list \<Rightarrow> 'f sm_sys \<Rightarrow> 'f sm_sys \<times> Error" where
  "InstancesUpdateStatus env instances s =
     sm_send env (UpdateInstancesStatusMessage (map (InstanceStatusToPB (sv_codes env)) instances)) s"

definition SM_SendImageContentRequest :: "'f sm_env \<Rightarrow> ImageContentRequest \<Rightarrow> 'f sm_sys \<Rightarrow> 'f sm_sys \<times> Error" where
  "SM_SendImageContentRequest env request s =
     sm_send env (ImageContentRequestMessage (ImageContentRequestToPB (sv_content_type env) request)) s"

definition SendMonitoringData :: "'f sm_env \<Rightarrow> NodeMonitoringData \<Rightarrow> 'f sm_sys \<Rightarrow> 'f sm_sys \<times> Error" where
  "SendMonitoringData env nodeMonitoring s =
     sm_send env (InstantMonitoringMessage (NodeMonitoringToPB (sv_round env) nodeMonitoring)) s"

definition SendAlert :: "'f sm_env \<Rightarrow> AlertVariant \<Rightarrow> 'f sm_sys \<Rightarrow> 'f sm_sys \<times> Error" where
  "SendAlert env alert s =
     (case AlertToPB (sv_codes env) alert pb_Alert_init of
        (pbAlert, err) \<Rightarrow> if err \<noteq> ENone then (s, AOS_ERROR_WRAP err) else sm_send env (AlertMessage pbAlert) s)"

definition SM_OnLogReceived :: "'f sm_env \<Rightarrow> PushLog \<Rightarrow> 'f sm_sys \<Rightarrow> 'f sm_sys \<times> Error" where
  "SM_OnLogReceived env pushLog s =
     sm_send env (LogDataMessage (PushLogToPB (sv_codes env) (sv_log_status env) (sv_log_data_size env) pushLog)) s"

section \<open>Subscribers and notifications\<close>

definition SM_Subscribe :: "nat \<Rightarrow> SMClient \<Rightarrow> SMClient \<times> Error" where
  "SM_Subscribe subscriber c =
     (case PushBack cMaxConnectionSubscribers (sm_mConnectionSubscribers c) subscriber of
        (subs, err) \<Rightarrow>
          if err \<noteq> ENone then (c, AOS_ERROR_WRAP err) else (c\<lparr>sm_mConnectionSubscribers := subs\<rparr>, ENone))"

definition SM_Unsubscribe :: "nat \<Rightarrow> SMClient \<Rightarrow> SMClient" where
  "SM_Unsubscribe subscriber c =
     c\<lparr>sm_mConnectionSubscribers := filter (\<lambda>x. x \<noteq> subscriber) (sm_mConnectionSubscribers c)\<rparr>"

definition SM_OnNodeStatusChanged :: "string \<Rightarrow> NodeStatus \<Rightarrow> SMClient \<Rightarrow> SMClient \<times> Error" where
  "SM_OnNodeStatusChanged nodeID status c = (c\<lparr>sm_mProvisioned := (status \<noteq> eUnprovisioned)\<rparr>, ENone)"

definition SM_OnClockSynced :: "SMClient \<Rightarrow> SMClient" where
  "SM_OnClockSynced c = c\<lparr>sm_mClockSynced := True\<rparr>"

definition SM_OnClockUnsynced :: "SMClient \<Rightarrow> SMClient" where
  "SM_OnClockUnsynced c = c\<lparr>sm_mClockSynced := False\<rparr>"

definition SM_OnCertChanged :: "SMClient \<Rightarrow> SMClient" where
  "SM_OnCertChanged c = c\<lparr>sm_mCertificateChanged := True\<rparr>"

text \<open>\<open>OnConnect\<close>: a failure only goes to the log and ends it.\<close>

definition SM_OnConnect :: "'f sm_env \<Rightarrow> 'f sm_sys \<Rightarrow> 'f sm_sys" where
  "SM_OnConnect env s =
     (case sv_GetNodeConfigVersion env of
        (version, configErr) \<Rightarrow>
          (case SendNodeConfigStatus env version configErr s of
             (s1, err) \<Rightarrow>
               if err \<noteq> ENone then s1
               else (case sv_GetCurrentRunStatus env of
                 (lastRunStatus, err) \<Rightarrow>
                   if err \<noteq> ENone then s1
                   else (case SendRunStatus env lastRunStatus s1 of
                     (s2, err) \<Rightarrow>
                       if err \<noteq> ENone then s2
                       else s2\<lparr>ss_notified := ss_notified s2 @
                         map (\<lambda>x. (x, True)) (sm_mConnectionSubscribers (ss_client s2))\<rparr>))))"

definition SM_OnDisconnect :: "'f sm_sys \<Rightarrow> 'f sm_sys" where
  "SM_OnDisconnect s = s\<lparr>ss_notified := ss_notified s @ map (\<lambda>x. (x, False)) (sm_mConnectionSubscribers (ss_client s))\<rparr>"

section \<open>Received messages\<close>

definition ProcessGetNodeConfigStatus :: "'f sm_env \<Rightarrow> 'f sm_sys \<Rightarrow> 'f sm_sys \<times> Error" where
  "ProcessGetNodeConfigStatus env s =
     (case sv_GetNodeConfigVersion env of (version, configErr) \<Rightarrow> SendNodeConfigStatus env version configErr s)"

definition ProcessCheckNodeConfig :: "'f sm_env \<Rightarrow> string \<Rightarrow> string \<Rightarrow> 'f sm_sys \<Rightarrow> 'f sm_sys \<times> Error" where
  "ProcessCheckNodeConfig env pbVersion pbConfig s =
     (let version = cstr pbVersion; configErr = sv_CheckNodeConfig env version (cstr pbConfig)
      in SendNodeConfigStatus env version configErr s)"

definition ProcessSetNodeConfig :: "'f sm_env \<Rightarrow> string \<Rightarrow> string \<Rightarrow> 'f sm_sys \<Rightarrow> 'f sm_sys \<times> Error" where
  "ProcessSetNodeConfig env pbVersion pbConfig s =
     (let version = cstr pbVersion; configErr = sv_UpdateNodeConfig env version (cstr pbConfig)
      in SendNodeConfigStatus env version configErr s)"

definition ProcessGetAverageMonitoring :: "'f sm_env \<Rightarrow> 'f sm_sys \<Rightarrow> 'f sm_sys \<times> Error" where
  "ProcessGetAverageMonitoring env s =
     (case sv_GetAverageMonitoringData env of
        (averageMonitoring, err) \<Rightarrow>
          if err \<noteq> ENone then (s, AOS_ERROR_WRAP err)
          else sm_send env (AverageMonitoringMessage (NodeMonitoringToPB (sv_round env) averageMonitoring)) s)"

definition ProcessRunInstances :: "'f sm_env \<Rightarrow> pb_RunInstances \<Rightarrow> 'f sm_sys \<Rightarrow> 'f sm_sys \<times> Error" where
  "ProcessRunInstances env pb s =
     (let request = PBToRunInstances pb; s' = s\<lparr>ss_runs := ss_runs s @ [request]\<rparr>; err = sv_RunInstances env request
      in if err \<noteq> ENone then (s', AOS_ERROR_WRAP err) else (s', ENone))"

definition ProcessSystemLogRequest :: "'f sm_env \<Rightarrow> pb_SystemLogRequest \<Rightarrow> 'f sm_sys \<Rightarrow> 'f sm_sys \<times> Error" where
  "ProcessSystemLogRequest env pb s =
     (case GetSystemLog (PBToSystemLogRequest (sv_InstanceFilter env) pb) (ss_log s) of (err, lp) \<Rightarrow> (s\<lparr>ss_log := lp\<rparr>, err))"

definition ProcessImageContentInfo :: "'f sm_env \<Rightarrow> pb_ImageContentInfo \<Rightarrow> 'f sm_sys \<Rightarrow> 'f sm_sys \<times> Error" where
  "ProcessImageContentInfo env pb s =
     (case ReceiveImageContentInfo (PBToImageContentInfo (sv_codes env) pb) (fst (ss_downloader s)) of
        (err, d) \<Rightarrow>
          (let s' = s\<lparr>ss_downloader := (d, snd (ss_downloader s))\<rparr>
           in if err \<noteq> ENone then (s', AOS_ERROR_WRAP err) else (s', ENone)))"

definition ProcessImageContent :: "'f sm_env \<Rightarrow> pb_ImageContent \<Rightarrow> 'f sm_sys \<Rightarrow> 'f sm_sys \<times> Error" where
  "ProcessImageContent env pb s =
     (case ReceiveFileChunk (sv_download env) (PBToFileChunk pb) (ss_downloader s) of
        (err, d) \<Rightarrow>
          (let s' = s\<lparr>ss_downloader := d\<rparr> in if err \<noteq> ENone then (s', AOS_ERROR_WRAP err) else (s', ENone)))"

fun ProcessMessage :: "'f sm_env \<Rightarrow> SMIncoming \<Rightarrow> 'f sm_sys \<Rightarrow> 'f sm_sys \<times> Error" where
  "ProcessMessage env GetNodeConfigStatus s = ProcessGetNodeConfigStatus env s"
| "ProcessMessage env (CheckNodeConfig v c) s = ProcessCheckNodeConfig env v c s"
| "ProcessMessage env (SetNodeConfig v c) s = ProcessSetNodeConfig env v c s"
| "ProcessMessage env GetAverageMonitoring s = ProcessGetAverageMonitoring env s"
| "ProcessMessage env (RunInstances pb) s = ProcessRunInstances env pb s"
| "ProcessMessage env (SystemLogRequest pb) s = ProcessSystemLogRequest env pb s"
| "ProcessMessage env (ImageContentInfoMessage pb) s = ProcessImageContentInfo env pb s"
| "ProcessMessage env (ImageContentMessage pb) s = ProcessImageContent env pb s"
| "ProcessMessage env (ClockSyncMessage ct) s = (s, ENone)"
| "ProcessMessage env (UnsupportedSMIncoming tag) s = (s, ENone)"

definition SM_ReceiveMessage :: "'f sm_env \<Rightarrow> byte list \<Rightarrow> 'f sm_sys \<Rightarrow> 'f sm_sys \<times> Error" where
  "SM_ReceiveMessage env data s =
     (case sv_pb_decode env data of
        None \<Rightarrow> (s, AOS_ERROR_WRAP (EEnum eRuntime))
      | Some m \<Rightarrow> ProcessMessage env m s)"

lemmas sm_process_defs = ProcessGetNodeConfigStatus_def ProcessCheckNodeConfig_def ProcessSetNodeConfig_def
  ProcessGetAverageMonitoring_def ProcessRunInstances_def ProcessSystemLogRequest_def ProcessImageContentInfo_def
  ProcessImageContent_def SendNodeConfigStatus_def sm_send_def

text \<open>Messages received one after the other.\<close>

fun SM_receive_all :: "'f sm_env \<Rightarrow> byte list list \<Rightarrow> 'f sm_sys \<Rightarrow> Error list \<times> 'f sm_sys" where
  "SM_receive_all env [] s = ([], s)"
| "SM_receive_all env (m # ms) s =
     (case SM_ReceiveMessage env m s of (s1, err) \<Rightarrow> (case SM_receive_all env ms s1 of (errs, s2) \<Rightarrow> (err # errs, s2)))"

section \<open>Properties\<close>

text \<open>The kinds of request that ask for the configuration status, with the version and the result they report.\<close>

definition config_request :: "'f sm_env \<Rightarrow> SMIncoming \<Rightarrow> (string \<times> Error) option" where
  "config_request env m = (case m of
     GetNodeConfigStatus \<Rightarrow> Some (sv_GetNodeConfigVersion env)
   | CheckNodeConfig v c \<Rightarrow> Some (cstr v, sv_CheckNodeConfig env (cstr v) (cstr c))
   | SetNodeConfig v c \<Rightarrow> Some (cstr v, sv_UpdateNodeConfig env (cstr v) (cstr c))
   | _ \<Rightarrow> None)"

text \<open>C16. Every message has its answer and nothing else: a request about the node configuration is
  answered by exactly one status message with the node's identity, the version asked about and
  an error exactly if the resource manager reported one; a request for the average
  monitoring by one message if there are data, and by none if there are not; no other message
  sends anything. No message changes the connection flags or the subscribers or notifies
  them, only image messages reach the downloader, only a log request the log provider, and
  only a run request the launcher. A message that does not decode changes nothing.\<close>

theorem sm_message_answered:
  assumes "SM_ReceiveMessage env data s = (s', err)" "sv_GetNodeInfo env = (info, ENone)"
  shows "ss_client s' = ss_client s \<and> ss_notified s' = ss_notified s \<and>
    (case sv_pb_decode env data of
       None \<Rightarrow> s' = s \<and> err = EEnum eRuntime
     | Some m \<Rightarrow>
         ss_sent s' = ss_sent s @
           (case config_request env m of
              Some (version, configErr) \<Rightarrow> [NodeConfigStatusMessage
                \<lparr>pnc_node_id = ni_mNodeID info, pnc_node_type = ni_mNodeType info, pnc_version = version,
                 pnc_error = (if configErr = ENone then None else Some (ErrorToPB (sv_codes env) configErr))\<rparr>]
            | None \<Rightarrow>
                if m = GetAverageMonitoring \<and> snd (sv_GetAverageMonitoringData env) = ENone
                then [AverageMonitoringMessage (NodeMonitoringToPB (sv_round env) (fst (sv_GetAverageMonitoringData env)))]
                else []) \<and>
         (ss_downloader s' \<noteq> ss_downloader s \<longrightarrow> (\<exists>p. m = ImageContentInfoMessage p) \<or> (\<exists>p. m = ImageContentMessage p)) \<and>
         (ss_log s' \<noteq> ss_log s \<longrightarrow> (\<exists>p. m = SystemLogRequest p)) \<and>
         ss_runs s' = ss_runs s @ (case m of RunInstances p \<Rightarrow> [PBToRunInstances p] | _ \<Rightarrow> []))"
proof (cases "sv_pb_decode env data")
  case None
  with assms(1) show ?thesis by (simp add: SM_ReceiveMessage_def)
next
  case (Some m)
  with assms show ?thesis
    by (cases m) (auto simp: SM_ReceiveMessage_def sm_process_defs config_request_def Let_def split: prod.splits if_splits)
qed

text \<open>The order of a connection: whatever fails, \<open>OnConnect\<close> sends the configuration status first,
  the run status only after it was sent, and tells the subscribers only after both were, in
  the order they subscribed; when nothing fails it does all of it.\<close>

theorem sm_connect_order:
  assumes "SM_OnConnect env s = s'"
  defines "config \<equiv> NodeConfigStatusMessage
      \<lparr>pnc_node_id = ni_mNodeID (fst (sv_GetNodeInfo env)), pnc_node_type = ni_mNodeType (fst (sv_GetNodeInfo env)),
       pnc_version = fst (sv_GetNodeConfigVersion env),
       pnc_error = (if snd (sv_GetNodeConfigVersion env) = ENone then None
                    else Some (ErrorToPB (sv_codes env) (snd (sv_GetNodeConfigVersion env))))\<rparr>"
    and "status \<equiv> RunInstancesStatusMessage (map (InstanceStatusToPB (sv_codes env)) (fst (sv_GetCurrentRunStatus env)))"
  shows "ss_client s' = ss_client s \<and>
    (if snd (sv_GetNodeInfo env) \<noteq> ENone then s' = s
     else if sv_SendMessage env config \<noteq> ENone \<or> snd (sv_GetCurrentRunStatus env) \<noteq> ENone
       then s' = s\<lparr>ss_sent := ss_sent s @ [config]\<rparr>
     else ss_sent s' = ss_sent s @ [config, status] \<and>
       ss_notified s' = ss_notified s @
         (if sv_SendMessage env status = ENone then map (\<lambda>x. (x, True)) (sm_mConnectionSubscribers (ss_client s)) else []))"
  using assms(1) unfolding config_def status_def
  by (auto simp: SM_OnConnect_def SendNodeConfigStatus_def SendRunStatus_def sm_send_def split: prod.splits if_splits)

text \<open>An environment in which every call succeeds; messages are numbers of a table.\<close>

definition demo_table :: "SMIncoming list" where
  "demo_table = [GetNodeConfigStatus,
     ImageContentInfoMessage \<lparr>pim_request_id = 1,
       pim_image_files = map (\<lambda>n. \<lparr>pif_relative_path = n, pif_sha256 = ByteArrayToPB 4 [], pif_size = 3\<rparr>) [''a'', ''b''], pim_error = None\<rparr>,
     ImageContentMessage \<lparr>pic_request_id = 1, pic_relative_path = ''a'', pic_parts_count = 2, pic_part = 1, pic_data = ByteArrayToPB 4 [1, 2]\<rparr>,
     ImageContentMessage \<lparr>pic_request_id = 1, pic_relative_path = ''b'', pic_parts_count = 1, pic_part = 1, pic_data = ByteArrayToPB 4 [9]\<rparr>,
     ImageContentMessage \<lparr>pic_request_id = 1, pic_relative_path = ''a'', pic_parts_count = 2, pic_part = 2, pic_data = ByteArrayToPB 4 [3]\<rparr>,
     SystemLogRequest \<lparr>psl_log_id = ''log'', psl_from = None, psl_till = None\<rparr>]"

definition demo_sm_env :: "nat sm_env" where
  "demo_sm_env = \<lparr>sv_codes = demo_codes, sv_SendMessage = (\<lambda>m. ENone), sv_GetNodeInfo = (np_mNodeInfo demo_np, ENone),
     sv_GetNodeConfigVersion = (''1.0.0'', EEnum eNotFound), sv_CheckNodeConfig = (\<lambda>v c. ENone), sv_UpdateNodeConfig = (\<lambda>v c. ENone),
     sv_GetCurrentRunStatus = ([], ENone), sv_RunInstances = (\<lambda>r. ENone),
     sv_GetAverageMonitoringData = (\<lparr>nm_mTimestamp = Time 0 0, nm_mMonitoringData =
        \<lparr>mo_mCPU = 0, mo_mRAM = 0, mo_mPartitions = [], mo_mDownload = 0, mo_mUpload = 0\<rparr>, nm_mServiceInstances = []\<rparr>, ENone),
     sv_download = demo_denv,
     sv_pb_decode = (\<lambda>bs. case bs of [n] \<Rightarrow> (if unat n < length demo_table then Some (demo_table ! unat n) else None) | _ \<Rightarrow> None),
     sv_round = id, sv_content_type = (\<lambda>n. ''service''), sv_log_status = (\<lambda>st. case st of LogOk \<Rightarrow> ''ok'' | LogError \<Rightarrow> ''error'' | LogEmpty \<Rightarrow> ''empty''),
     sv_log_data_size = 1024, sv_InstanceFilter = 0\<rparr>"

definition demo_sm :: "nat sm_sys" where
  "demo_sm = \<lparr>ss_client = \<lparr>sm_mClockSynced = True, sm_mProvisioned = True, sm_mCertificateChanged = False, sm_mClose = False,
       sm_mConnectionSubscribers = [1, 2]\<rparr>,
     ss_downloader = (demo_downloader, demo_world), ss_log = \<lparr>lp_mLogRequests = [], lp_mStopped = False, lp_mLogObserver = True\<rparr>,
     ss_runs = [], ss_sent = [], ss_notified = []\<rparr>"

lemma demo_sm_env_sel [simp]:
  "sv_codes demo_sm_env = demo_codes" "sv_SendMessage demo_sm_env m = ENone" "sv_GetNodeInfo demo_sm_env = (np_mNodeInfo demo_np, ENone)"
  "sv_GetNodeConfigVersion demo_sm_env = (''1.0.0'', EEnum eNotFound)" "sv_GetCurrentRunStatus demo_sm_env = ([], ENone)"
  "sv_download demo_sm_env = demo_denv"
  "unat b < length demo_table \<Longrightarrow> sv_pb_decode demo_sm_env [b] = Some (demo_table ! unat b)"
  by (simp_all add: demo_sm_env_def)

lemma demo_sm_sel [simp]:
  "ss_client demo_sm = \<lparr>sm_mClockSynced = True, sm_mProvisioned = True, sm_mCertificateChanged = False, sm_mClose = False,
     sm_mConnectionSubscribers = [1, 2]\<rparr>"
  "ss_sent demo_sm = []" "ss_notified demo_sm = []"
  by (simp_all add: demo_sm_def)

lemma sm_message_answered_witness:
  "ss_sent (fst (SM_ReceiveMessage demo_sm_env [0] demo_sm)) = [NodeConfigStatusMessage
     \<lparr>pnc_node_id = ''node'', pnc_node_type = ''t'', pnc_version = ''1.0.0'', pnc_error = Some \<lparr>pe_aos_code = 3, pe_exit_code = 0\<rparr>\<rparr>]"
proof -
  obtain s' err where r: "SM_ReceiveMessage demo_sm_env [0] demo_sm = (s', err)" by fastforce
  have d: "sv_pb_decode demo_sm_env [0] = Some GetNodeConfigStatus" by (simp add: demo_table_def)
  from sm_message_answered [OF r, of "np_mNodeInfo demo_np"] d r show ?thesis
    by (simp add: config_request_def ErrorToPB_def demo_codes_def demo_np_def)
qed

lemma sm_connect_order_witness:
  "ss_notified (SM_OnConnect demo_sm_env demo_sm) = [(1, True), (2, True)]"
  using sm_connect_order [of demo_sm_env demo_sm, OF refl] by simp

section \<open>A download by messages\<close>

lemma receive_content:
  assumes "sv_pb_decode env m = Some (ImageContentMessage pc)" "ReceiveFileChunk (sv_download env) (PBToFileChunk pc) (ss_downloader s) = (err, d)"
  shows "SM_ReceiveMessage env m s = (s\<lparr>ss_downloader := d\<rparr>, err)"
  using assms by (simp add: SM_ReceiveMessage_def ProcessImageContent_def Let_def)

text \<open>Content messages do to the downloader what their chunks do, and nothing else.\<close>

lemma receive_all_content:
  assumes "map (sv_pb_decode env) ms = map (\<lambda>pc. Some (ImageContentMessage pc)) pcs"
    and "ReceiveChunks (sv_download env) (map PBToFileChunk pcs) (ss_downloader s) = (errs, d)"
  shows "SM_receive_all env ms s = (errs, s\<lparr>ss_downloader := d\<rparr>)"
  using assms
proof (induction ms arbitrary: pcs s errs)
  case (Cons m ms)
  then obtain pc pcs' where pcs: "pcs = pc # pcs'" by (cases pcs) auto
  obtain e d1 where c: "ReceiveFileChunk (sv_download env) (PBToFileChunk pc) (ss_downloader s) = (e, d1)" by (metis prod.collapse)
  obtain es where cs: "ReceiveChunks (sv_download env) (map PBToFileChunk pcs') d1 = (es, d)" "errs = e # es"
    using Cons.prems(2) pcs c by (auto split: prod.splits)
  from Cons.IH [of pcs' "s\<lparr>ss_downloader := d1\<rparr>" es] Cons.prems(1) pcs cs receive_content [OF _ c, of m]
  show ?case by simp
qed simp

text \<open>C5. The server's messages become the files of an image: once a download waits, a message with
  the content info of its request, listing up to 32 different files, and then messages with
  chunks of those files in the order of each file are all accepted, the download waits until
  the last of them has arrived and then returns without error, each file holds the bytes of its messages one after the other, followed by
  the rest of an older, longer file, no other file has changed, and nothing was sent and no
  state of the client touched.\<close>

theorem sm_download_writes_files:
  fixes env d pinfo w path
  defines "J \<equiv> de_JoinPath (sv_download env) path" and "ps \<equiv> map (cstr \<circ> pif_relative_path) (pim_image_files pinfo)"
  assumes "Download_begin (sv_download env) url path targetType d = (None, d0)" "ss_downloader s = (d0, w)"
    and "sv_pb_decode env m = Some (ImageContentInfoMessage pinfo)" "pim_request_id pinfo = dl_mRequestID d0" "pim_error pinfo = None"
    and "map (sv_pb_decode env) ms = map (\<lambda>pc. Some (ImageContentMessage pc)) pcs"
    and "distinct ps" "ps \<noteq> []" "length ps \<le> 32" "inj_on J (set ps)"
    and "fw_faults w = []" "\<forall>q. de_MakeDirAll (sv_download env) q = ENone" "de_timer_Stop (sv_download env) = ENone"
    and "chunks_ok (set ps) (map PBToFileChunk pcs)" "open_after (set ps) (map PBToFileChunk pcs) = {}"
  shows "\<exists>d2 w2 d3. SM_receive_all env (m # ms) s = (replicate (Suc (length ms)) ENone, s\<lparr>ss_downloader := (d2, w2)\<rparr>) \<and>
    (\<forall>k\<le>length ms. Download_end (sv_download env) (ss_downloader (snd (SM_receive_all env (take k (m # ms)) s))) = None) \<and>
    Download_end (sv_download env) (d2, w2) = Some (ENone, d3, w2) \<and>
    (\<forall>p\<in>set ps. let bs = concat (map (PBToByteArray \<circ> pic_data) (filter (\<lambda>pc. cstr (pic_relative_path pc) = p) pcs)) in
       content w2 (J p) = bs @ drop (length bs) (content w (J p))) \<and>
    (\<forall>q. q \<notin> J ` set ps \<longrightarrow> fw_files w2 q = fw_files w q)"
proof -
  let ?info = "PBToImageContentInfo (sv_codes env) pinfo"
  have ps: "map fi_mRelativePath (im_mFiles ?info) = ps"
    by (simp add: ps_def PBToImageContentInfo_def comp_def)
  obtain d1 where d1: "ReceiveImageContentInfo ?info d0 = (ENone, d1)"
    using assms(6,7) by (simp add: ReceiveImageContentInfo_def PBToImageContentInfo_def)
  have first: "SM_ReceiveMessage env m s = (s\<lparr>ss_downloader := (d1, w)\<rparr>, ENone)"
    using assms(4,5) d1 by (simp add: SM_ReceiveMessage_def ProcessImageContentInfo_def Let_def)
  obtain d2 w2 d3 where r: "ReceiveChunks (sv_download env) (map PBToFileChunk pcs) (d1, w) = (replicate (length pcs) ENone, d2, w2)"
      "\<forall>k<length pcs. Download_end (sv_download env) (snd (ReceiveChunks (sv_download env) (take k (map PBToFileChunk pcs)) (d1, w))) = None"
      "Download_end (sv_download env) (d2, w2) = Some (ENone, d3, w2)"
      "\<forall>p\<in>set ps. content w2 (J p) = data_of p (map PBToFileChunk pcs) @ drop (length (data_of p (map PBToFileChunk pcs))) (content w (J p))"
      "\<forall>q. q \<notin> J ` set ps \<longrightarrow> fw_files w2 q = fw_files w q"
    using download_complete [OF assms(3) d1, unfolded ps, of w "map PBToFileChunk pcs"] assms(9-17)
    unfolding J_def by auto
  have data: "data_of p (map PBToFileChunk pcs) =
      concat (map (PBToByteArray \<circ> pic_data) (filter (\<lambda>pc. cstr (pic_relative_path pc) = p) pcs))" for p
    by (simp add: data_of_def PBToFileChunk_def filter_map comp_def)
  have len: "length ms = length pcs" using assms(8) map_eq_imp_length_eq by blast
  have waits: "Download_end (sv_download env) (ss_downloader (snd (SM_receive_all env (take k (m # ms)) s))) = None"
    if "k \<le> length ms" for k
  proof (cases k)
    case 0
    then show ?thesis using Download_begin_waits [OF assms(3)] assms(4) by simp
  next
    case (Suc j)
    have "map (sv_pb_decode env) (take j ms) = map (\<lambda>pc. Some (ImageContentMessage pc)) (take j pcs)"
      using assms(8) by (metis take_map)
    note sent = receive_all_content [OF this, of "s\<lparr>ss_downloader := (d1, w)\<rparr>"]
    obtain errs d' where e: "ReceiveChunks (sv_download env) (map PBToFileChunk (take j pcs)) (d1, w) = (errs, d')"
      by (metis prod.collapse)
    have "j < length pcs" using Suc len that by simp
    with r(2) e have "Download_end (sv_download env) d' = None" by (metis snd_conv take_map)
    moreover have "SM_receive_all env (take k (m # ms)) s = (ENone # errs, s\<lparr>ss_downloader := d'\<rparr>)"
      using sent [of errs d'] e Suc first by simp
    ultimately show ?thesis by simp
  qed
  from receive_all_content [OF assms(8), of "s\<lparr>ss_downloader := (d1, w)\<rparr>"] r first len waits show ?thesis
    by (auto simp: data Let_def)
qed

definition demo_waiting :: "nat sm_sys" where
  "demo_waiting = demo_sm\<lparr>ss_downloader := (snd (Download_begin demo_denv ''u'' ''/'' 0 demo_downloader), demo_world)\<rparr>"

lemma downloader_update_inj: "s\<lparr>ss_downloader := a\<rparr> = s\<lparr>ss_downloader := b\<rparr> \<longleftrightarrow> a = (b :: Downloader \<times> fs_world)"
  by (cases s) simp

lemma sm_download_writes_files_witness:
  "\<exists>d2 w2 d3. SM_receive_all demo_sm_env [[1], [2], [3], [4]] demo_waiting = (replicate 4 ENone, demo_waiting\<lparr>ss_downloader := (d2, w2)\<rparr>) \<and>
     Download_end demo_denv (ss_downloader (snd (SM_receive_all demo_sm_env [[1], [2], [3]] demo_waiting))) = None \<and>
     Download_end demo_denv (d2, w2) = Some (ENone, d3, w2) \<and> content w2 ''/a'' = [1, 2, 3] \<and> content w2 ''/b'' = [9, 7]"
proof -
  let ?d0 = "snd (Download_begin demo_denv ''u'' ''/'' 0 demo_downloader)"
  have d0: "Download_begin demo_denv ''u'' ''/'' 0 demo_downloader = (None, ?d0)" "dl_mRequestID ?d0 = 1"
      "ss_downloader demo_waiting = (?d0, demo_world)"
    by (simp_all add: Download_begin_def demo_denv_def demo_downloader_def demo_waiting_def Let_def)
  have tab: "sv_pb_decode demo_sm_env [1] = Some (demo_table ! 1)" "sv_pb_decode demo_sm_env [2] = Some (demo_table ! 2)"
    "sv_pb_decode demo_sm_env [3] = Some (demo_table ! 3)" "sv_pb_decode demo_sm_env [4] = Some (demo_table ! 4)"
    by (simp_all add: demo_table_def)
  obtain pinfo p1 p2 p3 where t: "demo_table ! 1 = ImageContentInfoMessage pinfo" "demo_table ! 2 = ImageContentMessage p1"
      "demo_table ! 3 = ImageContentMessage p2" "demo_table ! 4 = ImageContentMessage p3"
    by (simp add: demo_table_def)
  from sm_download_writes_files [of demo_sm_env "''u''" "''/''" 0 demo_downloader ?d0 demo_waiting demo_world "[1]" pinfo "[[2], [3], [4]]" "[p1, p2, p3]"]
  obtain d2 w2 d3 where
    "SM_receive_all demo_sm_env [[1], [2], [3], [4]] demo_waiting = (replicate 4 ENone, demo_waiting\<lparr>ss_downloader := (d2, w2)\<rparr>)"
    and waits: "\<And>k. k \<le> length [[2], [3], [4 :: byte]] \<Longrightarrow>
      Download_end demo_denv (ss_downloader (snd (SM_receive_all demo_sm_env (take k ([1] # [[2], [3], [4 :: byte]])) demo_waiting))) = None"
    and "Download_end demo_denv (d2, w2) = Some (ENone, d3, w2)" "content w2 ''/a'' = [1, 2, 3]" "content w2 ''/b'' = [9, 7]"
    using d0 tab t
    by (auto simp: demo_table_def demo_denv_def demo_world_def PBToFileChunk_def bytes_roundtrip content_def cstr_def
        insert_Diff_if eval_nat_numeral Let_def downloader_update_inj simp del: SM_receive_all.simps take_Suc_Cons)
  moreover have "Download_end demo_denv (ss_downloader (snd (SM_receive_all demo_sm_env [[1], [2], [3]] demo_waiting))) = None"
    using waits [of 3] by (simp add: eval_nat_numeral del: SM_receive_all.simps)
  ultimately show ?thesis by blast
qed

section \<open>A log request by messages\<close>

text \<open>The log provider's pushes, taken by the client one after the other.\<close>

definition push_all :: "'f sm_env \<Rightarrow> PushLog list \<Rightarrow> 'f sm_sys \<Rightarrow> 'f sm_sys" where
  "push_all env pushes s = foldl (\<lambda>s l. fst (SM_OnLogReceived env l s)) s pushes"

lemma push_all_sent:
  "push_all env pushes s = s\<lparr>ss_sent := ss_sent s @
     map (\<lambda>l. LogDataMessage (PushLogToPB (sv_codes env) (sv_log_status env) (sv_log_data_size env) l)) pushes\<rparr>"
  by (induction pushes arbitrary: s) (simp_all add: push_all_def SM_OnLogReceived_def sm_send_def)

lemma chunk_msgs_content: "concat (map pg_mContent (chunk_msgs logID n cs)) = concat cs"
  by (induction cs arbitrary: n) (simp_all add: chunk_def)

lemma chunk_msgs_id: "m \<in> set (chunk_msgs logID n cs) \<Longrightarrow> pg_mLogID m = logID \<and> pg_mErrorInfo m = ENone"
  by (induction cs arbitrary: n) (auto simp: chunk_def)

text \<open>A log request message starts one round of the log thread.\<close>

lemma sm_log_round:
  assumes "sv_pb_decode env m = Some (SystemLogRequest p)" "lp_mLogRequests (ss_log s) = []"
    and "\<not> lp_mStopped (ss_log s)" "lp_mLogObserver (ss_log s)"
    and "reader_ok renv cap" "cap < ln_cMaxContent lenv" "\<forall>l. ln_OnLogReceived lenv l = ENone"
    and "FSLogReader_Reset renv dir r = (ENone, r1)"
  defines "rq \<equiv> PBToSystemLogRequest (sv_InstanceFilter env) p"
  shows "\<exists>s1 r'. SM_ReceiveMessage env m s = (s1, ENone) \<and> ss_sent s1 = ss_sent s \<and>
    ProcessLogRequests_step (fs_log_reader renv dir) lenv (ss_log s1, [], r) =
      Some (ss_log s, chunk_msgs (cstr (psl_log_id p)) 0 (pack (ln_cMaxContent lenv) [] (kept lenv rq (all_entries renv cap dir))), r')"
proof -
  let ?s1 = "s\<lparr>ss_log := (ss_log s)\<lparr>lp_mLogRequests := [rq]\<rparr>\<rparr>"
  have "SM_ReceiveMessage env m s = (?s1, ENone)"
    using assms(1,2) by (simp add: SM_ReceiveMessage_def ProcessSystemLogRequest_def GetSystemLog_def cMaxNumLogRequests_def rq_def)
  moreover have "rq_mLogID rq = cstr (psl_log_id p)" by (simp add: rq_def PBToSystemLogRequest_def)
  moreover obtain r' where "HandleLogRequest (fs_log_reader renv dir) lenv True rq [] r = Some (ENone,
      chunk_msgs (rq_mLogID rq) 0 (pack (ln_cMaxContent lenv) [] (kept lenv rq (all_entries renv cap dir))), r')"
    using HandleLogRequest_fs [OF assms(5,6) assms(7) assms(8), of rq "[]"] by auto
  ultimately show ?thesis using assms(2-4) by (simp add: ProcessLogRequests_step_def)
qed

text \<open>The lines kept for a request message, by the times of the message.\<close>

lemma requested_lines:
  assumes "ln_InstanceFilter lenv = sv_InstanceFilter env"
  shows "concat (kept lenv (PBToSystemLogRequest (sv_InstanceFilter env) p) (all_entries renv cap dir)) =
    concat (map (sent_line (ln_cLogEntryLen lenv)) (filter
      (\<lambda>l. in_span (map_option (\<lambda>t. Time (sint (pt_seconds t)) (sint (pt_nanos t))) (psl_from p))
        (map_option (\<lambda>t. Time (sint (pt_seconds t)) (sint (pt_nanos t))) (psl_till p)) (lr_UTC renv l))
      (stored_lines renv cap dir)))"
proof -
  have "PBToTime = (\<lambda>t. Time (sint (pt_seconds t)) (sint (pt_nanos t)))" by (simp add: fun_eq_iff PBToTime_def)
  with assms show ?thesis by (simp add: kept_stored PBToSystemLogRequest_def names_instance_def)
qed

text \<open>What the client sends for the chunks of lines.\<close>

lemma push_all_lines:
  "\<exists>pbs. ss_sent (push_all env (chunk_msgs logID 0 (pack n [] ls)) s) = ss_sent s @ map LogDataMessage pbs \<and>
     (\<forall>pb\<in>set pbs. pld_log_id pb = cstr logID \<and> pld_error pb = None) \<and> concat (map log_data_text pbs) = concat ls"
proof (intro exI conjI)
  let ?pbs = "map (PushLogToPB (sv_codes env) (sv_log_status env) (sv_log_data_size env)) (chunk_msgs logID 0 (pack n [] ls))"
  show "ss_sent (push_all env (chunk_msgs logID 0 (pack n [] ls)) s) = ss_sent s @ map LogDataMessage ?pbs"
    by (simp add: push_all_sent)
  show "\<forall>pb\<in>set ?pbs. pld_log_id pb = cstr logID \<and> pld_error pb = None"
    using chunk_msgs_id [of _ logID] by (force simp: PushLogToPB_def)
  show "concat (map log_data_text ?pbs) = concat ls"
    using chunk_msgs_content by (simp add: comp_def log_data_text_roundtrip pack_concat)
qed

text \<open>C11. A log request of the server is answered by the lines of the log files: when a request message
  reaches an idle log provider whose observer is the client, the message is accepted, one round
  of the log thread ends, and the log messages the client then sends all have the request's
  identifier and no error, and their data put together are the lines of all log files, in the
  order of the file names, whose time is not before the request's \<open>from\<close> and before its
  \<open>till\<close>, each with a newline unless it fills an entry. Of a file with a line longer than an
  entry only the lines before that line are answered.\<close>

theorem sm_log_request_served:
  assumes "sv_pb_decode env m = Some (SystemLogRequest p)" "lp_mLogRequests (ss_log s) = []"
    and "\<not> lp_mStopped (ss_log s)" "lp_mLogObserver (ss_log s)"
    and "reader_ok renv cap" "cap < ln_cMaxContent lenv" "\<forall>l. snd (SM_OnLogReceived env l s) = ENone"
    and "ln_OnLogReceived lenv = (\<lambda>l. snd (SM_OnLogReceived env l s))"
    and "FSLogReader_Reset renv dir r = (ENone, r1)" "ln_InstanceFilter lenv = sv_InstanceFilter env"
  shows "\<exists>s1 pushes r' pbs. SM_ReceiveMessage env m s = (s1, ENone) \<and>
    ProcessLogRequests_step (fs_log_reader renv dir) lenv (ss_log s1, [], r) = Some (ss_log s, pushes, r') \<and>
    ss_sent (push_all env pushes s1) = ss_sent s @ map LogDataMessage pbs \<and>
    (\<forall>pb\<in>set pbs. pld_log_id pb = cstr (psl_log_id p) \<and> pld_error pb = None) \<and>
    concat (map log_data_text pbs) = concat (map (sent_line (ln_cLogEntryLen lenv)) (filter
      (\<lambda>l. in_span (map_option (\<lambda>t. Time (sint (pt_seconds t)) (sint (pt_nanos t))) (psl_from p))
        (map_option (\<lambda>t. Time (sint (pt_seconds t)) (sint (pt_nanos t))) (psl_till p)) (lr_UTC renv l))
      (stored_lines renv cap dir)))"
proof -
  define rq where "rq = PBToSystemLogRequest (sv_InstanceFilter env) p"
  note lines = requested_lines [OF assms(10), of p renv cap dir, folded rq_def]
  have "\<forall>l. ln_OnLogReceived lenv l = ENone" using assms(7,8) by simp
  from sm_log_round [OF assms(1-6) this assms(9)] obtain s1 r' where "SM_ReceiveMessage env m s = (s1, ENone)" "ss_sent s1 = ss_sent s"
    "ProcessLogRequests_step (fs_log_reader renv dir) lenv (ss_log s1, [], r) =
      Some (ss_log s, chunk_msgs (cstr (psl_log_id p)) 0 (pack (ln_cMaxContent lenv) [] (kept lenv rq (all_entries renv cap dir))), r')"
    unfolding rq_def by blast
  moreover obtain pbs where "ss_sent (push_all env (chunk_msgs (cstr (psl_log_id p)) 0 (pack (ln_cMaxContent lenv) []
      (kept lenv rq (all_entries renv cap dir)))) s1) = ss_sent s1 @ map LogDataMessage pbs"
    "\<forall>pb\<in>set pbs. pld_log_id pb = cstr (cstr (psl_log_id p)) \<and> pld_error pb = None"
    "concat (map log_data_text pbs) = concat (kept lenv rq (all_entries renv cap dir))"
    using push_all_lines [of env "cstr (psl_log_id p)" "ln_cMaxContent lenv" "kept lenv rq (all_entries renv cap dir)" s1] by blast
  moreover have "cstr (cstr (psl_log_id p)) = cstr (psl_log_id p)" by (metis cstr_no_nul no_nul_cstr)
  ultimately show ?thesis unfolding lines by auto
qed

lemma sm_log_request_served_witness:
  "\<exists>s1 pushes r' pbs. SM_ReceiveMessage demo_sm_env [5] demo_sm = (s1, ENone) \<and>
     ss_sent (push_all demo_sm_env pushes s1) = map LogDataMessage pbs \<and>
     concat (map log_data_text pbs) = ''A'' @ [CHR 0x0A] @ ''BB'' @ [CHR 0x0A] @ ''C'' @ [CHR 0x0A]"
proof -
  let ?p = "\<lparr>psl_log_id = ''log'', psl_from = None, psl_till = None\<rparr>"
  have m: "sv_pb_decode demo_sm_env [5] = Some (SystemLogRequest ?p)"
    by (simp add: demo_table_def)
  obtain r1 where reset: "FSLogReader_Reset posix_reader demo_dir demo_reader = (ENone, r1)"
    by (simp add: FSLogReader_Reset_def ReadLogFiles_def demo_dir_def posix_reader_def demo_reader_def)
  have ok: "snd (SM_OnLogReceived demo_sm_env l demo_sm) = ENone" for l
    by (simp add: SM_OnLogReceived_def sm_send_def)
  have lp: "lp_mLogRequests (ss_log demo_sm) = []" "\<not> lp_mStopped (ss_log demo_sm)" "lp_mLogObserver (ss_log demo_sm)"
    "ss_sent demo_sm = []" by (simp_all add: demo_sm_def)
  have lenv: "200 < ln_cMaxContent (demo_lenv 205)" "ln_OnLogReceived (demo_lenv 205) = (\<lambda>l. snd (SM_OnLogReceived demo_sm_env l demo_sm))"
    "ln_InstanceFilter (demo_lenv 205) = sv_InstanceFilter demo_sm_env" "ln_cLogEntryLen (demo_lenv 205) = 201"
    using ok by (simp_all add: demo_lenv_def demo_sm_env_def fun_eq_iff)
  from sm_log_request_served [OF m lp(1-3) posix_reader_ok lenv(1) _ lenv(2) reset lenv(3)] ok lp(4) show ?thesis
    unfolding lenv(4) demo_stored by (fastforce simp: in_span_def sent_line_def)
qed

end
