(* ===== verification/SMChannels.thy ===== *)
theory SMChannels
  imports SMClient OpenHandler IAMChannels
begin

text \<open>
  \<open>src/smclient/smclient.cpp\<close>, \<open>Init\<close>, \<open>Start\<close>, \<open>Stop\<close> and \<open>HandleChannel\<close>: the service manager client
  among the components it is subscribed to, and the thread that keeps its secure channel
  while the clock is synchronised and the node is provisioned. Channel links, and the record
  of the results of a step, are those of the IAM client's channels.
\<close>

section \<open>State\<close>

record sm_ports =
  gs_cOpenPort :: u32
  gs_cSecurePort :: u32

text \<open>
  \<open>sc_subscribed\<close> counts the client's subscriptions with the certificate handler that were made
  and not taken back. In the lists of subscribers the client is \<open>cSMClient\<close>.
\<close>

definition cSMClient :: nat where "cSMClient = 1"

record ('t, 'f) sm_channels =
  sc_client :: SMClient
  sc_manager :: "'t ChannelManager"
  sc_handler :: "link PBHandler"
  sc_open :: "link PBHandler"
  sc_tls :: "u32 TLSChannel"
  sc_subscribed :: nat
  sc_clock :: "nat ClockSync"
  sc_provider :: "nat NodeInfoProvider"
  sc_log :: "'f LogProvider"

section \<open>Start and stop\<close>

definition SM_Init :: "sm_ports \<Rightarrow> ('t, 'f) sm_channels \<Rightarrow> ('t, 'f) sm_channels \<times> Error" where
  "SM_Init gs s =
     (case CreateChannel (gs_cOpenPort gs) (sc_manager s) of
        (cm, err) \<Rightarrow>
          if err \<noteq> ENone then (s\<lparr>sc_manager := cm\<rparr>, AOS_ERROR_WRAP err)
          else (case OpenHandler_Init (Plain (gs_cOpenPort gs)) (sc_open s) of
            (h, err) \<Rightarrow>
              if err \<noteq> ENone then (s\<lparr>sc_manager := cm, sc_open := h\<rparr>, AOS_ERROR_WRAP err)
              else (s\<lparr>sc_manager := cm, sc_open := h\<rparr>, ENone)))"

definition SM_SendClockSyncRequest ::
  "pb_layout \<Rightarrow> (nat \<Rightarrow> SMOutgoing \<Rightarrow> byte list option) \<Rightarrow> link ChannelItf \<Rightarrow> ('t, 'f) sm_channels \<Rightarrow> ('t, 'f) sm_channels \<times> Error" where
  "SM_SendClockSyncRequest pl pb_encode ci s =
     (case SendClockSyncRequest pl pb_encode ci (sc_open s) of (h, err) \<Rightarrow> (s\<lparr>sc_open := h\<rparr>, err))"

text \<open>\<open>runOpen\<close> and \<open>run\<close> are the results of starting the two threads.\<close>

definition SM_Start :: "Error \<Rightarrow> Error \<Rightarrow> ('t, 'f) sm_channels \<Rightarrow> ('t, 'f) sm_channels \<times> Error" where
  "SM_Start runOpen run s0 =
     (case GetNodeInfo (sc_provider s0) of (nodeInfo, err) \<Rightarrow>
        if err \<noteq> ENone then (s0, AOS_ERROR_WRAP err)
        else
          (let s = s0\<lparr>sc_client := (sc_client s0)\<lparr>sm_mProvisioned := (ni_mStatus nodeInfo \<noteq> eUnprovisioned)\<rparr>\<rparr> in
           case ClockSync_Subscribe cSMClient (sc_clock s) of (ck, err) \<Rightarrow>
             if err \<noteq> ENone then (s\<lparr>sc_clock := ck\<rparr>, AOS_ERROR_WRAP err)
             else (case LogProvider_Subscribe (sc_log s) of (err, lp) \<Rightarrow>
               if err \<noteq> ENone then (s\<lparr>sc_clock := ck, sc_log := lp\<rparr>, AOS_ERROR_WRAP err)
               else (case SubscribeNodeStatusChanged cSMClient (sc_provider s) of (err, np) \<Rightarrow>
                 if err \<noteq> ENone then (s\<lparr>sc_clock := ck, sc_log := lp, sc_provider := np\<rparr>, AOS_ERROR_WRAP err)
                 else (case PBHandler_Start runOpen (sc_open s) of (h, err) \<Rightarrow>
                   (let s' = s\<lparr>sc_clock := ck, sc_log := lp, sc_provider := np, sc_open := h\<rparr> in
                    if err \<noteq> ENone then (s', AOS_ERROR_WRAP err)
                    else if run \<noteq> ENone then (s', AOS_ERROR_WRAP run) else (s', ENone)))))))"

text \<open>\<open>Stop\<close> up to the join of the thread; errors only go to the log.\<close>

definition SM_Stop :: "sm_ports \<Rightarrow> handle_env \<Rightarrow> ('t, 'f) sm_channels \<Rightarrow> ('t, 'f) sm_channels" where
  "SM_Stop gs env s =
     (let s1 = (if PBHandler_IsStarted (sc_open s)
                then s\<lparr>sc_open := fst (PBHandler_Stop (he_itf env) (he_join env) (sc_open s)),
                       sc_manager := fst (DeleteChannel (gs_cOpenPort gs) (sc_manager s))\<rparr>
                else s)
      in s1\<lparr>sc_log := snd (LogProvider_Unsubscribe (sc_log s1)),
            sc_client := (sc_client s1)\<lparr>sm_mConnectionSubscribers := [], sm_mClose := True\<rparr>\<rparr>)"

section \<open>The secure channel\<close>

definition SM_SetupChannel :: "sm_ports \<Rightarrow> handle_env \<Rightarrow> ('t, 'f) sm_channels \<Rightarrow> ('t, 'f) sm_channels \<times> Error" where
  "SM_SetupChannel gs env s =
     (case CreateChannel (gs_cSecurePort gs) (sc_manager s) of
        (cm, err) \<Rightarrow>
          if err \<noteq> ENone then (s\<lparr>sc_manager := cm\<rparr>, AOS_ERROR_WRAP err)
          else if he_SubscribeCertChanged env \<noteq> ENone then (s\<lparr>sc_manager := cm\<rparr>, AOS_ERROR_WRAP (he_SubscribeCertChanged env))
          else
            (let s1 = s\<lparr>sc_manager := cm, sc_subscribed := sc_subscribed s + 1\<rparr> in
             case TLSChannel_Init ''sm'' (gs_cSecurePort gs) (sc_tls s1) of (tls, err) \<Rightarrow>
               if err \<noteq> ENone then (s1\<lparr>sc_tls := tls\<rparr>, AOS_ERROR_WRAP err)
               else (case SetTLSConfig (he_tls env) ''sm'' tls of (tls, err) \<Rightarrow>
                 (let s2 = s1\<lparr>sc_tls := tls\<rparr> in
                  if err \<noteq> ENone then (s2, AOS_ERROR_WRAP err)
                  else (case PBHandler_Init ''SM secure'' (Secure (gs_cSecurePort gs)) (sc_handler s2) of (h, err) \<Rightarrow>
                    if err \<noteq> ENone then (s2\<lparr>sc_handler := h\<rparr>, AOS_ERROR_WRAP err)
                    else (case PBHandler_Start (he_run env) h of (h, err) \<Rightarrow>
                      if err \<noteq> ENone then (s2\<lparr>sc_handler := h\<rparr>, AOS_ERROR_WRAP err) else (s2\<lparr>sc_handler := h\<rparr>, ENone)))))))"

definition SM_ReleaseChannel :: "sm_ports \<Rightarrow> handle_env \<Rightarrow> ('t, 'f) sm_channels \<Rightarrow> ('t, 'f) sm_channels \<times> Error" where
  "SM_ReleaseChannel gs env s0 =
     (let s = s0\<lparr>sc_client := (sc_client s0)\<lparr>sm_mCertificateChanged := False\<rparr>\<rparr> in
      if \<not> PBHandler_IsStarted (sc_handler s) then (s, ENone)
      else (case PBHandler_Stop (he_itf env) (he_join env) (sc_handler s) of (h, err) \<Rightarrow>
        (let s1 = s\<lparr>sc_handler := h\<rparr> in
         if err \<noteq> ENone then (s1, AOS_ERROR_WRAP err)
         else (case DeleteChannel (gs_cSecurePort gs) (sc_manager s1) of (cm, err) \<Rightarrow>
           (let s2 = s1\<lparr>sc_manager := cm\<rparr> in
            if err \<noteq> ENone then (s2, AOS_ERROR_WRAP err)
            else if he_UnsubscribeCertChanged env \<noteq> ENone then (s2, AOS_ERROR_WRAP (he_UnsubscribeCertChanged env))
            else (s2\<lparr>sc_subscribed := sc_subscribed s2 - 1\<rparr>, ENone))))))"

section \<open>The thread\<close>

text \<open>
  \<open>SReleasing\<close>: about to release; \<open>SWaiting\<close>: waiting for the clock and the provisioning, from
  which it sets the channel up under the same lock; \<open>SRetry\<close>: in the timed wait after a failed
  setup; \<open>SConnected\<close>: waiting for a reason to reconnect. A wait that cannot end stays.
\<close>

datatype sm_phase = SReleasing | SWaiting | SRetry | SConnected | SStopped

definition reconnect_due :: "SMClient \<Rightarrow> bool" where
  "reconnect_due c \<longleftrightarrow> \<not> sm_mClockSynced c \<or> \<not> sm_mProvisioned c \<or> sm_mClose c \<or> sm_mCertificateChanged c"

definition HandleChannel_step ::
  "sm_ports \<Rightarrow> handle_env \<Rightarrow> bool \<Rightarrow> sm_phase \<times> ('t, 'f) sm_channels \<Rightarrow> sm_phase \<times> ('t, 'f) sm_channels" where
  "HandleChannel_step gs env timeout st =
     (case st of (ph, s) \<Rightarrow>
       (case ph of
          SReleasing \<Rightarrow> (SWaiting, fst (SM_ReleaseChannel gs env s))
        | SWaiting \<Rightarrow>
            if sm_mClose (sc_client s) then (SStopped, s)
            else if sm_mClockSynced (sc_client s) \<and> sm_mProvisioned (sc_client s) then
              (case SM_SetupChannel gs env s of (s', err) \<Rightarrow> (if err \<noteq> ENone then SRetry else SConnected, s'))
            else (SWaiting, s)
        | SRetry \<Rightarrow> (if sm_mClose (sc_client s) \<or> timeout then SReleasing else SRetry, s)
        | SConnected \<Rightarrow> (if reconnect_due (sc_client s) then SReleasing else SConnected, s)
        | SStopped \<Rightarrow> (SStopped, s)))"

text \<open>
  The thread starts with no secure handler running; the callbacks, \<open>Stop\<close> and the other users of
  the manager come in between, with ports of their own.
\<close>

inductive sm_reach :: "sm_ports \<Rightarrow> sm_phase \<times> ('t, 'f) sm_channels \<Rightarrow> bool" for gs where
  start: "sm_reach gs (SReleasing, s)" if "\<not> pb_mStarted (sc_handler s)"
| thread: "sm_reach gs (HandleChannel_step gs env timeout st)" if "sm_reach gs st"
| synced: "sm_reach gs (ph, s\<lparr>sc_client := SM_OnClockSynced (sc_client s)\<rparr>)" if "sm_reach gs (ph, s)"
| unsynced: "sm_reach gs (ph, s\<lparr>sc_client := SM_OnClockUnsynced (sc_client s)\<rparr>)" if "sm_reach gs (ph, s)"
| cert: "sm_reach gs (ph, s\<lparr>sc_client := SM_OnCertChanged (sc_client s)\<rparr>)" if "sm_reach gs (ph, s)"
| status: "sm_reach gs (ph, s\<lparr>sc_client := fst (SM_OnNodeStatusChanged nodeID st (sc_client s))\<rparr>)" if "sm_reach gs (ph, s)"
| create: "sm_reach gs (ph, s\<lparr>sc_manager := fst (CreateChannel port (sc_manager s))\<rparr>)"
    if "sm_reach gs (ph, s)" "port \<noteq> gs_cSecurePort gs"
| delete: "sm_reach gs (ph, s\<lparr>sc_manager := fst (DeleteChannel port (sc_manager s))\<rparr>)"
    if "sm_reach gs (ph, s)" "port \<noteq> gs_cSecurePort gs"
| stop: "sm_reach gs (ph, SM_Stop gs env s)" if "sm_reach gs (ph, s)"

section \<open>The invariant\<close>

abbreviation has_secure :: "sm_ports \<Rightarrow> ('t, 'f) sm_channels \<Rightarrow> bool" where
  "has_secure gs s \<equiv> map_of (cm_mChannels (sc_manager s)) (gs_cSecurePort gs) \<noteq> None"

definition secure_ok :: "sm_ports \<Rightarrow> ('t, 'f) sm_channels \<Rightarrow> bool" where
  "secure_ok gs s \<longleftrightarrow> has_secure gs s \<and> pb_mChannel (sc_handler s) = Secure (gs_cSecurePort gs) \<and>
     tl_mCertType (sc_tls s) \<noteq> [] \<and> 0 < sc_subscribed s"

fun sm_inv :: "sm_ports \<Rightarrow> sm_phase \<times> ('t, 'f) sm_channels \<Rightarrow> bool" where
  "sm_inv gs (ph, s) \<longleftrightarrow> (pb_mStarted (sc_handler s) \<longrightarrow> secure_ok gs s) \<and>
     (ph \<in> {SWaiting, SRetry, SStopped} \<longrightarrow> \<not> pb_mStarted (sc_handler s)) \<and>
     (ph = SConnected \<longrightarrow> pb_mStarted (sc_handler s)) \<and>
     (ph = SStopped \<longrightarrow> sm_mClose (sc_client s))"

lemma SetTLSConfig_type: "SetTLSConfig env ct t = (t', ENone) \<Longrightarrow> tl_mCertType t' = ct"
  by (auto simp: SetTLSConfig_def Let_def split: prod.splits if_splits)

lemma release_stops: "\<not> pb_mStarted (sc_handler (fst (SM_ReleaseChannel gs env s)))"
  by (auto simp: SM_ReleaseChannel_def PBHandler_IsStarted_def Let_def split: prod.split)
    (auto simp: PBHandler_Stop_def)

lemma setup_cases:
  assumes "SM_SetupChannel gs env s = (s', err)" "\<not> pb_mStarted (sc_handler s)"
  shows "sc_client s' = sc_client s \<and> sc_open s' = sc_open s \<and> pb_mStarted (sc_handler s') = (err = ENone) \<and>
    (err = ENone \<longrightarrow> secure_ok gs s')"
proof -
  obtain cm e where c: "CreateChannel (gs_cSecurePort gs) (sc_manager s) = (cm, e)" by fastforce
  obtain tls e' where t: "SetTLSConfig (he_tls env) ''sm'' (fst (TLSChannel_Init ''sm'' (gs_cSecurePort gs) (sc_tls s))) = (tls, e')"
    by fastforce
  have tls: "e' = ENone \<longrightarrow> tl_mCertType tls = ''sm''" using t SetTLSConfig_type by metis
  show ?thesis
    using assms c CreateChannel_cases [OF c] t tls
    by (auto simp: SM_SetupChannel_def TLSChannel_Init_def PBHandler_Init_def PBHandler_Start_def secure_ok_def Let_def
        split: prod.splits if_splits)
qed

lemma sm_thread_inv:
  assumes "sm_inv gs (ph, s)"
  shows "sm_inv gs (HandleChannel_step gs env timeout (ph, s))"
proof (cases ph)
  case SReleasing
  then show ?thesis using release_stops [of gs env s] by (simp add: HandleChannel_step_def)
next
  case SWaiting
  obtain s' err where s': "SM_SetupChannel gs env s = (s', err)" by fastforce
  have "\<not> pb_mStarted (sc_handler s)" using SWaiting assms by simp
  from setup_cases [OF s' this] this SWaiting s' assms show ?thesis
    by (auto simp: HandleChannel_step_def)
qed (use assms in \<open>auto simp: HandleChannel_step_def\<close>)

lemma sm_reach_inv: "sm_reach gs st \<Longrightarrow> gs_cOpenPort gs \<noteq> gs_cSecurePort gs \<Longrightarrow> sm_inv gs st"
proof (induction rule: sm_reach.induct)
  case (thread st env timeout)
  then show ?case using sm_thread_inv by (cases st) blast
next
  case (create ph s port)
  obtain cm e where "CreateChannel port (sc_manager s) = (cm, e)" by fastforce
  with CreateChannel_cases [OF this] create show ?case by (auto simp: secure_ok_def split: if_splits)
next
  case (delete ph s port)
  then show ?case by (auto simp: secure_ok_def DeleteChannel_lookup)
next
  case (stop ph s env)
  then show ?case by (auto simp: SM_Stop_def secure_ok_def DeleteChannel_lookup Let_def)
qed (auto simp: secure_ok_def SM_OnClockSynced_def SM_OnClockUnsynced_def SM_OnCertChanged_def SM_OnNodeStatusChanged_def)

lemma sm_reach_steps: "sm_reach gs st \<Longrightarrow> sm_reach gs ((HandleChannel_step gs env timeout ^^ n) st)"
  by (induction n) (simp_all add: sm_reach.thread)

section \<open>Properties\<close>

text \<open>C8. The service manager is reached securely or not at all: however the thread, the callbacks,
  \<open>Stop\<close> and the other users of the manager interleave and whatever fails, a running
  handler of the secure channel sits on a configured TLS channel over the secure port, which is
  in the manager, with the client subscribed to certificate changes; the thread starts the
  handler only while the clock is synchronised, the node provisioned and the client not
  closing; once one of these is lost, or the certificate changed, while it is connected, its next two steps
  stop the handler; and when it has ended the handler is stopped.\<close>

theorem sm_channel_secure:
  assumes "sm_reach gs (ph, s)" "gs_cOpenPort gs \<noteq> gs_cSecurePort gs"
    and "HandleChannel_step gs env timeout (ph, s) = (ph', s')"
  shows "(pb_mStarted (sc_handler s) \<longrightarrow> ph \<in> {SConnected, SReleasing} \<and>
      map_of (cm_mChannels (sc_manager s)) (gs_cSecurePort gs) \<noteq> None \<and>
      pb_mChannel (sc_handler s) = Secure (gs_cSecurePort gs) \<and> tl_mCertType (sc_tls s) \<noteq> [] \<and> 0 < sc_subscribed s) \<and>
    (\<not> pb_mStarted (sc_handler s) \<and> pb_mStarted (sc_handler s') \<longrightarrow>
      sm_mClockSynced (sc_client s) \<and> sm_mProvisioned (sc_client s) \<and> \<not> sm_mClose (sc_client s)) \<and>
    (ph = SConnected \<and> (\<not> sm_mClockSynced (sc_client s) \<or> \<not> sm_mProvisioned (sc_client s) \<or> sm_mClose (sc_client s) \<or>
        sm_mCertificateChanged (sc_client s)) \<longrightarrow>
      \<not> pb_mStarted (sc_handler (snd (HandleChannel_step gs env' timeout' (ph', s'))))) \<and>
    (ph = SStopped \<longrightarrow> \<not> pb_mStarted (sc_handler s) \<and> sm_mClose (sc_client s))"
proof -
  have inv: "sm_inv gs (ph, s)" using sm_reach_inv assms(1,2) by blast
  have starts: "sm_mClockSynced (sc_client s) \<and> sm_mProvisioned (sc_client s) \<and> \<not> sm_mClose (sc_client s)"
    if "\<not> pb_mStarted (sc_handler s)" "pb_mStarted (sc_handler s')"
    using that assms(3) release_stops [of gs env s]
    by (cases ph) (auto simp: HandleChannel_step_def split: if_splits)
  have "\<not> pb_mStarted (sc_handler (snd (HandleChannel_step gs env' timeout' (ph', s'))))"
    if "ph = SConnected" "reconnect_due (sc_client s)"
    using that assms(3) release_stops [of gs env' s] by (auto simp: HandleChannel_step_def)
  with inv starts show ?thesis by (cases ph) (auto simp: secure_ok_def reconnect_due_def)
qed

text \<open>The ports of \<open>Kconfig\<close>, and a provisioned node with its clock.\<close>

definition sm_kconfig :: sm_ports where
  "sm_kconfig = \<lparr>gs_cOpenPort = 3, gs_cSecurePort = 4\<rparr>"

definition demo_sm_channels :: "(unit, nat) sm_channels" where
  "demo_sm_channels = \<lparr>sc_client = \<lparr>sm_mClockSynced = True, sm_mProvisioned = True, sm_mCertificateChanged = False, sm_mClose = False,
       sm_mConnectionSubscribers = []\<rparr>,
     sc_manager = ChannelManager_new (),
     sc_handler = \<lparr>pb_mName = [], pb_mChannel = Plain 0, pb_mStarted = False, pb_cReceiveBufferSize = 100, pb_cSendBufferSize = 100\<rparr>,
     sc_open = \<lparr>pb_mName = [], pb_mChannel = Plain 3, pb_mStarted = False, pb_cReceiveBufferSize = 100, pb_cSendBufferSize = 100\<rparr>,
     sc_tls = \<lparr>tl_mName = [], tl_mCertType = [], tl_mKeyID = 0, tl_mPrivKey = False, tl_mChannel = 0, tl_psa = {}\<rparr>,
     sc_subscribed = 0, sc_clock = ClockSync_new\<lparr>ck_mConnectionSubscribers := [0]\<rparr>, sc_provider = demo_np,
     sc_log = \<lparr>lp_mLogRequests = [], lp_mStopped = False, lp_mLogObserver = False\<rparr>\<rparr>"

lemma demo_sm_connected:
  "fst ((HandleChannel_step sm_kconfig (demo_handle_env ENone) False ^^ 2) (SReleasing, demo_sm_channels)) = SConnected"
  by (simp add: eval_nat_numeral HandleChannel_step_def SM_ReleaseChannel_def SM_SetupChannel_def demo_sm_channels_def
      sm_kconfig_def ChannelManager_new_def CreateChannel_def map_Set_def cMaxChannels_def PBHandler_Init_def PBHandler_Start_def
      PBHandler_IsStarted_def demo_handle_env_def TLSChannel_Init_def SetTLSConfig_def SetupSSLConfig_def SetupOpaqueKey_def
      demo_tls_env_def first_failure_def)

lemma sm_channel_secure_witness:
  "pb_mChannel (sc_handler (snd ((HandleChannel_step sm_kconfig (demo_handle_env ENone) False ^^ 2) (SReleasing, demo_sm_channels)))) = Secure 4"
proof -
  let ?step = "HandleChannel_step sm_kconfig (demo_handle_env ENone) False"
  obtain s where s: "(?step ^^ 2) (SReleasing, demo_sm_channels) = (SConnected, s)"
    using demo_sm_connected by (metis prod.collapse)
  have "sm_reach sm_kconfig (SReleasing, demo_sm_channels)" by (rule sm_reach.start) (simp add: demo_sm_channels_def)
  then have r: "sm_reach sm_kconfig (SConnected, s)"
    using s sm_reach_steps by metis
  have "pb_mStarted (sc_handler s)" using sm_reach_inv [OF r] by (simp add: sm_kconfig_def)
  with sm_channel_secure [OF r _ surjective_pairing] s show ?thesis by (simp add: sm_kconfig_def)
qed

text \<open>Steps in which every call succeeds, with room for the channel.\<close>

definition step_ok :: "handle_env \<Rightarrow> bool" where
  "step_ok env \<longleftrightarrow> he_SubscribeCertChanged env = ENone \<and> he_run env = ENone \<and>
     (\<forall>t :: u32 TLSChannel. snd (SetTLSConfig (he_tls env) ''sm'' t) = ENone)"

definition room :: "sm_ports \<Rightarrow> ('t, 'f) sm_channels \<Rightarrow> bool" where
  "room gs s \<longleftrightarrow> has_secure gs s \<or> length (cm_mChannels (sc_manager s)) < cMaxChannels"

definition usable :: "SMClient \<Rightarrow> bool" where
  "usable c \<longleftrightarrow> sm_mClockSynced c \<and> sm_mProvisioned c \<and> \<not> sm_mClose c"

lemma CreateChannel_room:
  "room gs s \<Longrightarrow> \<exists>cm. CreateChannel (gs_cSecurePort gs) (sc_manager s) = (cm, ENone)"
  by (auto simp: room_def CreateChannel_def map_Set_def split: option.splits)

lemma waiting_connects:
  assumes "step_ok env" "room gs s" "usable (sc_client s)" "\<not> pb_mStarted (sc_handler s)"
  shows "\<exists>s'. HandleChannel_step gs env timeout (SWaiting, s) = (SConnected, s') \<and> pb_mStarted (sc_handler s') \<and>
    sc_client s' = sc_client s"
proof -
  obtain cm where c: "CreateChannel (gs_cSecurePort gs) (sc_manager s) = (cm, ENone)" using CreateChannel_room [OF assms(2)] by blast
  obtain tls where t: "SetTLSConfig (he_tls env) ''sm'' (fst (TLSChannel_Init ''sm'' (gs_cSecurePort gs) (sc_tls s))) = (tls, ENone)"
    using assms(1) by (metis prod.collapse step_ok_def)
  with assms c show ?thesis
    by (simp add: step_ok_def usable_def HandleChannel_step_def SM_SetupChannel_def TLSChannel_Init_def PBHandler_Init_def
        PBHandler_Start_def Let_def)
qed

lemma DeleteChannel_length: "length (cm_mChannels (fst (DeleteChannel p cm))) \<le> length (cm_mChannels cm) \<and>
    (map_of (cm_mChannels cm) p \<noteq> None \<longrightarrow> length (cm_mChannels (fst (DeleteChannel p cm))) < length (cm_mChannels cm))"
proof -
  have "map_of m p \<noteq> None \<Longrightarrow> length (AList.delete p m) < length m" for m :: "(u32 \<times> Channel) list"
    by (induction m) (auto simp: le_imp_less_Suc length_delete_less)
  then show ?thesis by (auto simp: DeleteChannel_def map_Remove_def length_delete_less)
qed

lemma release_keeps:
  "sc_client (fst (SM_ReleaseChannel gs env s)) = (sc_client s)\<lparr>sm_mCertificateChanged := False\<rparr>"
  "sc_manager (fst (SM_ReleaseChannel gs env s)) = sc_manager s \<or>
   sc_manager (fst (SM_ReleaseChannel gs env s)) = fst (DeleteChannel (gs_cSecurePort gs) (sc_manager s))"
  by (auto simp: SM_ReleaseChannel_def Let_def split: prod.split)

lemma release_room:
  assumes "room gs s" "length (cm_mChannels (sc_manager s)) \<le> cMaxChannels"
  shows "room gs (fst (SM_ReleaseChannel gs env s))"
  using assms release_keeps(2) [of gs env s] DeleteChannel_length [of "gs_cSecurePort gs" "sc_manager s"]
  by (auto simp: room_def)

lemma releasing_connects:
  assumes "step_ok env" "room gs s" "usable (sc_client s)" "length (cm_mChannels (sc_manager s)) \<le> cMaxChannels"
  shows "\<exists>s'. (HandleChannel_step gs env timeout ^^ 2) (SReleasing, s) = (SConnected, s') \<and> pb_mStarted (sc_handler s') \<and>
    \<not> reconnect_due (sc_client s')"
proof -
  have "usable (sc_client (fst (SM_ReleaseChannel gs env s)))" using assms(3) by (simp add: release_keeps(1) usable_def)
  from waiting_connects [OF assms(1) release_room [OF assms(2,4)] this release_stops] obtain s' where
    "HandleChannel_step gs env timeout (SWaiting, fst (SM_ReleaseChannel gs env s)) = (SConnected, s')" "pb_mStarted (sc_handler s')"
    "sc_client s' = (sc_client s)\<lparr>sm_mCertificateChanged := False\<rparr>" unfolding release_keeps(1) by blast
  moreover have "HandleChannel_step gs env timeout (SReleasing, s) = (SWaiting, fst (SM_ReleaseChannel gs env s))"
    by (simp add: HandleChannel_step_def)
  ultimately show ?thesis using assms(3) by (simp add: eval_nat_numeral usable_def reconnect_due_def)
qed

lemma setup_manager: "sc_manager (fst (SM_SetupChannel gs env s)) = fst (CreateChannel (gs_cSecurePort gs) (sc_manager s))"
  by (simp add: SM_SetupChannel_def Let_def split_beta)

lemma setup_length:
  "length (cm_mChannels (sc_manager s)) \<le> cMaxChannels \<Longrightarrow> length (cm_mChannels (sc_manager (fst (SM_SetupChannel gs env s)))) \<le> cMaxChannels"
  unfolding setup_manager
  using map_Set_bound [of "cm_mChannels (sc_manager s)" cMaxChannels "gs_cSecurePort gs" "Channel_new (gs_cSecurePort gs)"]
  by (auto simp: CreateChannel_def split: option.split prod.split)

text \<open>A connected client with a reconnect due is connected again after three steps.\<close>

lemma connected_reconnects:
  assumes "step_ok env" "room gs s" "usable (sc_client s)" "length (cm_mChannels (sc_manager s)) \<le> cMaxChannels" "reconnect_due (sc_client s)"
  shows "\<exists>s'. (HandleChannel_step gs env timeout ^^ 3) (SConnected, s) = (SConnected, s') \<and> pb_mStarted (sc_handler s') \<and>
    \<not> reconnect_due (sc_client s')"
proof -
  have "HandleChannel_step gs env timeout (SConnected, s) = (SReleasing, s)" using assms(5) by (simp add: HandleChannel_step_def)
  with releasing_connects [OF assms(1-4), of timeout] show ?thesis
    by (simp add: numeral_3_eq_3 numeral_2_eq_2 funpow_swap1)
qed

text \<open>C20. The client reconnects: while the clock is synchronised, the node provisioned, the client not
  closing, every call succeeds and the manager has room, the thread is connected with a
  running handler, and no reconnect due, after at most four steps from wherever it is.\<close>

theorem sm_reconnects:
  assumes "sm_reach gs (ph, s)" "gs_cOpenPort gs \<noteq> gs_cSecurePort gs"
    and "sm_mClockSynced (sc_client s)" "sm_mProvisioned (sc_client s)" "\<not> sm_mClose (sc_client s)"
    and "he_SubscribeCertChanged env = ENone" "he_run env = ENone"
    and "\<forall>t :: u32 TLSChannel. snd (SetTLSConfig (he_tls env) ''sm'' t) = ENone"
    and "length (cm_mChannels (sc_manager s)) < cMaxChannels"
  shows "\<exists>n\<le>4. \<exists>s'. (HandleChannel_step gs env True ^^ n) (ph, s) = (SConnected, s') \<and> pb_mStarted (sc_handler s') \<and>
    \<not> reconnect_due (sc_client s')"
proof -
  let ?step = "HandleChannel_step gs env True"
  have ok: "step_ok env" "room gs s" "usable (sc_client s)" "length (cm_mChannels (sc_manager s)) \<le> cMaxChannels"
    using assms by (auto simp: step_ok_def room_def usable_def)
  have inv: "sm_inv gs (ph, s)" using sm_reach_inv assms(1,2) by blast
  consider (now) "ph = SConnected" "\<not> reconnect_due (sc_client s)" | (due) "ph = SConnected" "reconnect_due (sc_client s)"
    | (rel) "ph = SReleasing" | (retry) "ph = SRetry" | (wait) "ph = SWaiting"
    using inv assms(5) by (cases ph) auto
  then show ?thesis
  proof cases
    case now
    with inv show ?thesis by (intro exI [of _ 0]) simp
  next
    case due
    with connected_reconnects [OF ok] show ?thesis by (intro exI [of _ 3]) simp
  next
    case rel
    with releasing_connects [OF ok(1-4)] show ?thesis by (intro exI [of _ 2]) simp
  next
    case retry
    then have "?step (ph, s) = (SReleasing, s)" by (simp add: HandleChannel_step_def)
    with releasing_connects [OF ok(1-4), of True] show ?thesis
      by (intro exI [of _ 3]) (simp add: numeral_3_eq_3 numeral_2_eq_2 funpow_swap1)
  next
    case wait
    with waiting_connects [OF ok(1-3), of True] inv obtain s' where s': "?step (ph, s) = (SConnected, s')"
      "pb_mStarted (sc_handler s')" "sc_client s' = sc_client s" by auto
    show ?thesis
    proof (cases "reconnect_due (sc_client s')")
      case False
      with s' show ?thesis by (intro exI [of _ 1]) simp
    next
      case True
      have "sm_inv gs (SConnected, s')" using sm_thread_inv [OF inv, of env True] s' by simp
      then have room: "room gs s'" using s'(2) by (simp add: secure_ok_def room_def)
      have "s' = fst (SM_SetupChannel gs env s)"
        using s'(1) wait ok(3) by (auto simp: HandleChannel_step_def usable_def split: prod.splits)
      then have "length (cm_mChannels (sc_manager s')) \<le> cMaxChannels" using setup_length [OF ok(4)] by simp
      from connected_reconnects [OF ok(1) room _ this True, of True] ok(3) s' show ?thesis
        by (intro exI [of _ 4]) (simp add: eval_nat_numeral funpow_swap1)
    qed
  qed
qed

lemma demo_tls_succeeds: "snd (SetTLSConfig (he_tls (demo_handle_env e)) ''sm'' t) = ENone"
  by (simp add: demo_handle_env_def SetTLSConfig_def SetupSSLConfig_def SetupOpaqueKey_def demo_tls_env_def first_failure_def Let_def)

lemma sm_reconnects_witness:
  "\<exists>n\<le>4. \<exists>s'. (HandleChannel_step sm_kconfig (demo_handle_env ENone) True ^^ n) (SReleasing, demo_sm_channels) = (SConnected, s') \<and>
     pb_mStarted (sc_handler s')"
proof -
  have "sm_reach sm_kconfig (SReleasing, demo_sm_channels)" by (rule sm_reach.start) (simp add: demo_sm_channels_def)
  from sm_reconnects [OF this, of "demo_handle_env ENone"] demo_tls_succeeds show ?thesis
    by (fastforce simp: sm_kconfig_def demo_sm_channels_def demo_handle_env_def ChannelManager_new_def cMaxChannels_def)
qed

text \<open>One round of a thread whose TLS configuration fails.\<close>

lemma failing_round:
  assumes "usable (sc_client s)" "\<not> pb_mStarted (sc_handler s)" "room gs s" "he_SubscribeCertChanged env = ENone"
    and "\<forall>t :: u32 TLSChannel. snd (SetTLSConfig (he_tls env) ''sm'' t) \<noteq> ENone"
  shows "\<exists>s'. (HandleChannel_step gs env True ^^ 3) (SWaiting, s) = (SWaiting, s') \<and> sc_subscribed s' = sc_subscribed s + 1 \<and>
    has_secure gs s' \<and> \<not> pb_mStarted (sc_handler s') \<and> usable (sc_client s') \<and> sc_open s' = sc_open s"
proof -
  obtain cm where c: "CreateChannel (gs_cSecurePort gs) (sc_manager s) = (cm, ENone)" using CreateChannel_room [OF assms(3)] by blast
  obtain tls e where t: "SetTLSConfig (he_tls env) ''sm'' (fst (TLSChannel_Init ''sm'' (gs_cSecurePort gs) (sc_tls s))) = (tls, e)" "e \<noteq> ENone"
    using assms(5) by (metis prod.collapse)
  let ?s = "s\<lparr>sc_manager := cm, sc_subscribed := sc_subscribed s + 1, sc_tls := tls\<rparr>"
  have "HandleChannel_step gs env True (SWaiting, s) = (SRetry, ?s)"
    using assms(1,4) c t by (simp add: usable_def HandleChannel_step_def SM_SetupChannel_def TLSChannel_Init_def Let_def)
  moreover have "HandleChannel_step gs env True (SRetry, ?s) = (SReleasing, ?s)"
    by (simp add: HandleChannel_step_def)
  moreover have "HandleChannel_step gs env True (SReleasing, ?s) = (SWaiting, ?s\<lparr>sc_client := (sc_client s)\<lparr>sm_mCertificateChanged := False\<rparr>\<rparr>)"
    using assms(2) by (simp add: HandleChannel_step_def SM_ReleaseChannel_def PBHandler_IsStarted_def Let_def)
  ultimately show ?thesis
    using CreateChannel_cases [OF c] assms(1,2) by (simp add: numeral_3_eq_3 usable_def)
qed

text \<open>A failed setup is not undone: while the TLS configuration of the secure channel fails, every
  retry subscribes the client to certificate changes once more without taking a
  subscription back, the channel stays in the manager, and the release before the next retry does
  nothing, because the handler never ran; a \<open>Stop\<close> at that point ends the thread with
  all of these left behind.\<close>

theorem sm_failed_setup_leaks:
  assumes "sm_mClockSynced (sc_client s)" "sm_mProvisioned (sc_client s)" "\<not> sm_mClose (sc_client s)"
    and "\<not> pb_mStarted (sc_handler s)" "gs_cOpenPort gs \<noteq> gs_cSecurePort gs"
    and "length (cm_mChannels (sc_manager s)) < cMaxChannels" "he_SubscribeCertChanged env = ENone"
    and "\<forall>t :: u32 TLSChannel. snd (SetTLSConfig (he_tls env) ''sm'' t) \<noteq> ENone"
  shows "\<exists>s'. (HandleChannel_step gs env True ^^ (3 * Suc n)) (SWaiting, s) = (SWaiting, s') \<and>
    HandleChannel_step gs env' timeout (SWaiting, SM_Stop gs env' s') = (SStopped, SM_Stop gs env' s') \<and>
    sc_subscribed (SM_Stop gs env' s') = sc_subscribed s + Suc n \<and>
    map_of (cm_mChannels (sc_manager (SM_Stop gs env' s'))) (gs_cSecurePort gs) \<noteq> None"
proof -
  have start: "usable (sc_client s)" "room gs s" using assms by (simp_all add: usable_def room_def)
  have "\<exists>s'. (HandleChannel_step gs env True ^^ (3 * Suc n)) (SWaiting, s) = (SWaiting, s') \<and> sc_subscribed s' = sc_subscribed s + Suc n \<and>
    has_secure gs s' \<and> \<not> pb_mStarted (sc_handler s') \<and> usable (sc_client s')"
  proof (induction n)
    case 0
    from failing_round [OF start(1) assms(4) start(2) assms(7,8)] show ?case by auto
  next
    case (Suc n)
    then obtain u where u: "(HandleChannel_step gs env True ^^ (3 * Suc n)) (SWaiting, s) = (SWaiting, u)" "sc_subscribed u = sc_subscribed s + Suc n"
      "has_secure gs u" "\<not> pb_mStarted (sc_handler u)" "usable (sc_client u)" by blast
    have "room gs u" using u(3) by (simp add: room_def)
    from failing_round [OF u(5,4) this assms(7,8)] obtain s' where s':
      "(HandleChannel_step gs env True ^^ 3) (SWaiting, u) = (SWaiting, s')" "sc_subscribed s' = sc_subscribed u + 1"
      "has_secure gs s'" "\<not> pb_mStarted (sc_handler s')" "usable (sc_client s')" by blast
    have "(HandleChannel_step gs env True ^^ (3 + 3 * Suc n)) (SWaiting, s) = (SWaiting, s')"
      using u(1) s'(1) by (simp only: funpow_add comp_apply)
    with s' u(2) show ?case by (intro exI [of _ s']) (simp add: add.commute)
  qed
  then obtain s' where s': "(HandleChannel_step gs env True ^^ (3 * Suc n)) (SWaiting, s) = (SWaiting, s')"
    "sc_subscribed s' = sc_subscribed s + Suc n" "has_secure gs s'" by blast
  have "HandleChannel_step gs env' timeout (SWaiting, SM_Stop gs env' s') = (SStopped, SM_Stop gs env' s')"
    by (simp add: HandleChannel_step_def SM_Stop_def Let_def)
  moreover have "sc_subscribed (SM_Stop gs env' s') = sc_subscribed s'" "has_secure gs (SM_Stop gs env' s')"
    using s'(3) assms(5) by (simp_all add: SM_Stop_def Let_def DeleteChannel_lookup)
  ultimately show ?thesis using s'(1,2) by (intro exI [of _ s']) simp
qed

definition demo_tls_broken :: handle_env where
  "demo_tls_broken = (demo_handle_env ENone)\<lparr>he_tls := demo_tls_env 5 (- 1)\<rparr>"

lemma sm_failed_setup_leaks_witness:
  "\<exists>s'. sc_subscribed (SM_Stop sm_kconfig demo_tls_broken s') = 2 \<and>
     (HandleChannel_step sm_kconfig demo_tls_broken True ^^ 6) (SWaiting, demo_sm_channels) = (SWaiting, s')"
proof -
  have "snd (SetTLSConfig (he_tls demo_tls_broken) ''sm'' t) \<noteq> ENone" for t :: "u32 TLSChannel"
    by (simp add: demo_tls_broken_def SetTLSConfig_def SetupSSLConfig_def SetupOpaqueKey_def demo_tls_env_def first_failure_def Let_def)
  moreover have "he_SubscribeCertChanged demo_tls_broken = ENone" by (simp add: demo_tls_broken_def demo_handle_env_def)
  ultimately show ?thesis
    using sm_failed_setup_leaks [of demo_sm_channels sm_kconfig demo_tls_broken 1 demo_tls_broken False]
    by (auto simp: demo_sm_channels_def sm_kconfig_def ChannelManager_new_def cMaxChannels_def)
qed

text \<open>\<open>Stop\<close> does not undo \<open>Start\<close>: after a successful \<open>Start\<close> and \<open>Stop\<close> the log provider no longer
  has the client, but the clock synchronisation and the node info provider still do; when
  the clock synchronisation has no subscription free, as with the IAM client beside this one,
  the next \<open>Start\<close> fails before the thread runs.\<close>

theorem sm_stop_keeps_subscriptions:
  assumes "SM_Start runOpen run s = (s1, ENone)"
    and "SM_Stop gs env s1 = s2"
  shows "cSMClient \<in> set (ck_mConnectionSubscribers (sc_clock s2)) \<and>
    map_of (np_mStatusChangedSubscribers (sc_provider s2)) cSMClient \<noteq> None \<and> \<not> lp_mLogObserver (sc_log s2) \<and>
    (cMaxSubscribers \<le> length (ck_mConnectionSubscribers (sc_clock s2)) \<longrightarrow> snd (SM_Start runOpen' run' s2) \<noteq> ENone)"
proof -
  have keep: "sc_clock s2 = sc_clock s1" "sc_provider s2 = sc_provider s1" "\<not> lp_mLogObserver (sc_log s2)"
    using assms(2) by (auto simp: SM_Stop_def LogProvider_Unsubscribe_def Let_def)
  have "cSMClient \<in> set (ck_mConnectionSubscribers (sc_clock s1)) \<and> map_of (np_mStatusChangedSubscribers (sc_provider s1)) cSMClient \<noteq> None"
    using assms(1)
    by (auto simp: SM_Start_def ClockSync_Subscribe_def SubscribeNodeStatusChanged_def PushBack_def map_Set_def update_conv' Let_def
        split: prod.splits if_splits)
  moreover have "snd (SM_Start runOpen' run' s2) \<noteq> ENone" if "cMaxSubscribers \<le> length (ck_mConnectionSubscribers (sc_clock s2))"
    using that by (auto simp: SM_Start_def GetNodeInfo_def ClockSync_Subscribe_def Let_def split: prod.split)
  ultimately show ?thesis using keep by simp
qed

lemma sm_stop_keeps_subscriptions_witness:
  "snd (SM_Start ENone ENone (SM_Stop sm_kconfig (demo_handle_env ENone) (fst (SM_Start ENone ENone demo_sm_channels)))) \<noteq> ENone"
proof -
  obtain s1 where s1: "SM_Start ENone ENone demo_sm_channels = (s1, ENone)" "length (ck_mConnectionSubscribers (sc_clock s1)) = 2"
    by (simp add: SM_Start_def GetNodeInfo_def demo_sm_channels_def ClockSync_Subscribe_def ClockSync_new_def cMaxSubscribers_def
        LogProvider_Subscribe_def SubscribeNodeStatusChanged_def demo_np_def map_Set_def cMaxNodeStatusSubscribers_def
        cSMClient_def PBHandler_Start_def)
  have "sc_clock (SM_Stop sm_kconfig (demo_handle_env ENone) s1) = sc_clock s1" by (simp add: SM_Stop_def Let_def)
  with sm_stop_keeps_subscriptions [OF s1(1) refl, of sm_kconfig "demo_handle_env ENone" ENone ENone] s1 show ?thesis
    by (simp add: cMaxSubscribers_def)
qed

end
