(* ===== verification/Locks.thy ===== *)
theory Locks
  imports Prelude
begin

text \<open>
  The mutexes of the components and the order in which the operations take them, across the
  components: which operations can block each other for ever, and which cannot. An operation
  is the list of its locking actions, in the order of its calls; what it does in between is
  in the theories of the components. A thread runs a list of actions, and threads interleave.
\<close>

section \<open>Locks and threads\<close>

text \<open>Channels are numbered by their ports, protobuf handlers by the ports of their channels.\<close>

datatype lock = LDownloader | LSMClient | LIAMClient | LNodeInfo | LClockSync | LLogProvider | LLogReader | LStorage
  | LManager | LWrite | LSocket | LChannel u32 | LHandler u32

text \<open>
  \<open>AwaitOpened l\<close> is a condition wait, under the mutex \<open>l\<close>, for the transport to be open, and
  \<open>ReawaitOpened l\<close> the same wait once it has given the mutex back; \<open>SetOpened\<close> opens or closes
  the transport. In the code the wait also ends when the manager is stopped, after which the
  manager reconnects no more; stopping it is not among the operations here.
\<close>

datatype act = Acquire lock | Release lock | AwaitOpened lock | ReawaitOpened lock | SetOpened bool

record lk_state =
  lk_prog :: "nat \<Rightarrow> act list"
  lk_holder :: "lock \<Rightarrow> nat option"
  lk_opened :: bool

text \<open>One action of the thread \<open>i\<close>, if it can take it. A mutex is not taken twice.\<close>

definition lk_step :: "nat \<Rightarrow> lk_state \<Rightarrow> lk_state option" where
  "lk_step i s = (case lk_prog s i of
       [] \<Rightarrow> None
     | a # p \<Rightarrow>
         (let s' = s\<lparr>lk_prog := (lk_prog s)(i := p)\<rparr> in
          case a of
            Acquire l \<Rightarrow> if lk_holder s l = None then Some (s'\<lparr>lk_holder := (lk_holder s)(l \<mapsto> i)\<rparr>) else None
          | Release l \<Rightarrow> if lk_holder s l = Some i then Some (s'\<lparr>lk_holder := (lk_holder s)(l := None)\<rparr>) else None
          | AwaitOpened l \<Rightarrow>
              if lk_opened s then Some s'
              else if lk_holder s l = Some i
                then Some (s\<lparr>lk_prog := (lk_prog s)(i := ReawaitOpened l # p), lk_holder := (lk_holder s)(l := None)\<rparr>)
              else None
          | ReawaitOpened l \<Rightarrow>
              if lk_opened s \<and> lk_holder s l = None then Some (s'\<lparr>lk_holder := (lk_holder s)(l \<mapsto> i)\<rparr>) else None
          | SetOpened b \<Rightarrow> Some (s'\<lparr>lk_opened := b\<rparr>)))"

inductive lk_reach :: "lk_state \<Rightarrow> lk_state \<Rightarrow> bool" for s0 where
  start: "lk_reach s0 s0"
| move: "lk_reach s0 s'" if "lk_reach s0 s" "lk_step i s = Some s'"

inductive_cases lk_reachE: "lk_reach s0 s"

lemma lk_reach_trans: "lk_reach s1 s2 \<Longrightarrow> lk_reach s0 s1 \<Longrightarrow> lk_reach s0 s2"
  by (induction rule: lk_reach.induct) (auto intro: lk_reach.move)

lemma lk_reach_step: "lk_step i s = Some s' \<Longrightarrow> lk_reach s s'"
  by (rule lk_reach.move [OF lk_reach.start])

lemma lk_step_other: "lk_step i s = Some s' \<Longrightarrow> k \<noteq> i \<Longrightarrow> lk_prog s' k = lk_prog s k"
  by (auto simp: lk_step_def Let_def split: list.splits act.splits if_splits)

text \<open>A held lock only leaves its holder by the holder's own step.\<close>

lemma lk_step_holder: "lk_step i s = Some s' \<Longrightarrow> lk_holder s l = Some k \<Longrightarrow> k \<noteq> i \<Longrightarrow> lk_holder s' l = Some k"
  by (auto simp: lk_step_def Let_def split: list.splits act.splits if_splits)

section \<open>The operations\<close>

definition under :: "lock \<Rightarrow> act list \<Rightarrow> act list" where
  "under l body = Acquire l # body @ [Release l]"

text \<open>Channels and their manager.\<close>

definition Manager_Write_locks :: "act list" where
  "Manager_Write_locks = under LWrite []"

definition Channel_Write_locks :: "u32 \<Rightarrow> act list" where
  "Channel_Write_locks port = under (LChannel port) Manager_Write_locks"

definition Manager_Connect_locks :: "act list" where
  "Manager_Connect_locks = under LManager (under LSocket [] @ [AwaitOpened LManager])"

definition Channel_Connect_locks :: "u32 \<Rightarrow> act list" where
  "Channel_Connect_locks port = under (LChannel port) Manager_Connect_locks"

definition Channel_Close_locks :: "u32 \<Rightarrow> act list" where
  "Channel_Close_locks port = under (LChannel port) []"

definition Manager_Map_locks :: "act list" where
  "Manager_Map_locks = under LManager []"

text \<open>One frame of one window: \<open>WaitRead\<close> and \<open>ReadDone\<close> under the manager's mutex.\<close>

definition ProcessData_locks :: "u32 \<Rightarrow> act list" where
  "ProcessData_locks port = under LManager (under (LChannel port) [] @ under (LChannel port) [])"

definition TryConnect_locks :: "act list" where
  "TryConnect_locks = under LManager (under LSocket [] @ under LSocket [SetOpened True])"

text \<open>What the manager's thread does when the transport fails: close it, close the channels, and try again.\<close>

definition Manager_lost_locks :: "u32 list \<Rightarrow> act list" where
  "Manager_lost_locks ports =
     under LSocket [SetOpened False] @ concat (map Channel_Close_locks ports) @ Manager_Map_locks @ Manager_Map_locks @ TryConnect_locks"

definition Handler_Stop_locks :: "u32 \<Rightarrow> act list" where
  "Handler_Stop_locks port = under (LHandler port) (Channel_Close_locks port)"

definition Handler_flag_locks :: "u32 \<Rightarrow> act list" where
  "Handler_flag_locks port = under (LHandler port) []"

text \<open>
  The clients, with the port of the channel they send over. The status of a message that needs
  no other component is one send under the client's mutex.
\<close>

definition SM_Send_locks :: "u32 \<Rightarrow> act list" where
  "SM_Send_locks port = under LSMClient (Channel_Write_locks port)"

definition SM_flag_locks :: "act list" where
  "SM_flag_locks = under LSMClient []"

definition SM_OnLogReceived_locks :: "u32 \<Rightarrow> act list" where
  "SM_OnLogReceived_locks port = Channel_Write_locks port"

definition SM_OnConnect_locks :: "u32 \<Rightarrow> act list" where
  "SM_OnConnect_locks port = under LSMClient (under LNodeInfo [] @ Channel_Write_locks port @ Channel_Write_locks port)"

definition SM_ReceiveConfig_locks :: "u32 \<Rightarrow> act list" where
  "SM_ReceiveConfig_locks port = under LSMClient (under LNodeInfo [] @ Channel_Write_locks port)"

definition SM_ReceiveImage_locks :: "act list" where
  "SM_ReceiveImage_locks = under LSMClient (under LDownloader [])"

definition SM_ReceiveLogRequest_locks :: "act list" where
  "SM_ReceiveLogRequest_locks = under LSMClient (under LLogProvider [])"

definition SM_SetupChannel_locks :: "u32 \<Rightarrow> act list" where
  "SM_SetupChannel_locks port = under LSMClient (Manager_Map_locks @ Handler_flag_locks port @ Handler_flag_locks port)"

definition SM_ReleaseChannel_locks :: "u32 \<Rightarrow> act list" where
  "SM_ReleaseChannel_locks port = SM_flag_locks @ Handler_flag_locks port @ Handler_Stop_locks port @ Manager_Map_locks"

definition IAM_OnConnect_locks :: "u32 \<Rightarrow> act list" where
  "IAM_OnConnect_locks port = under LIAMClient (Channel_Write_locks port)"

definition IAM_flag_locks :: "act list" where
  "IAM_flag_locks = under LIAMClient []"

definition IAM_SetupChannel_locks :: "u32 \<Rightarrow> act list" where
  "IAM_SetupChannel_locks port = under LIAMClient (Manager_Map_locks @ Handler_flag_locks port @ Handler_flag_locks port)"

text \<open>The observers of a status change: the IAM client announces the node, the service manager client takes its mutex.\<close>

definition GetNodeInfo_locks :: "act list" where
  "GetNodeInfo_locks = under LNodeInfo []"

definition SetNodeStatus_locks :: "u32 \<Rightarrow> act list" where
  "SetNodeStatus_locks iamPort = under LNodeInfo (Channel_Write_locks iamPort @ SM_flag_locks)"

definition IAM_ReceiveStatus_locks :: "u32 \<Rightarrow> act list" where
  "IAM_ReceiveStatus_locks iamPort = under LIAMClient (SetNodeStatus_locks iamPort @ Channel_Write_locks iamPort)"

text \<open>The other components.\<close>

definition Download_locks :: "u32 \<Rightarrow> act list" where
  "Download_locks smPort = under LDownloader (SM_Send_locks smPort)"

definition ClockSync_notify_locks :: "act list" where
  "ClockSync_notify_locks = under LClockSync (IAM_flag_locks @ SM_flag_locks)"

definition ClockSync_request_locks :: "u32 \<Rightarrow> act list" where
  "ClockSync_request_locks openPort = under LClockSync (Channel_Write_locks openPort)"

definition ClockSync_flag_locks :: "act list" where
  "ClockSync_flag_locks = under LClockSync []"

text \<open>
  A log request under the provider's mutex: after the reader's reset and the storage's instances,
  a sequence of calls of the reader (\<open>True\<close>) and of the observer (\<open>False\<close>).
\<close>

definition LogRequest_locks :: "u32 \<Rightarrow> bool list \<Rightarrow> act list" where
  "LogRequest_locks smPort calls =
     under LLogProvider (under LLogReader [] @ under LStorage [] @
       concat (map (\<lambda>r. if r then under LLogReader [] else SM_OnLogReceived_locks smPort) calls))"

definition Storage_locks :: "act list" where
  "Storage_locks = under LStorage []"

lemmas locks_defs = under_def Manager_Write_locks_def Channel_Write_locks_def Manager_Connect_locks_def Channel_Connect_locks_def
  Channel_Close_locks_def Manager_Map_locks_def ProcessData_locks_def TryConnect_locks_def Manager_lost_locks_def
  Handler_Stop_locks_def Handler_flag_locks_def SM_Send_locks_def SM_flag_locks_def SM_OnLogReceived_locks_def
  SM_OnConnect_locks_def SM_ReceiveConfig_locks_def SM_ReceiveImage_locks_def SM_ReceiveLogRequest_locks_def
  SM_SetupChannel_locks_def SM_ReleaseChannel_locks_def IAM_OnConnect_locks_def IAM_flag_locks_def IAM_SetupChannel_locks_def
  GetNodeInfo_locks_def SetNodeStatus_locks_def IAM_ReceiveStatus_locks_def Download_locks_def ClockSync_notify_locks_def
  ClockSync_request_locks_def ClockSync_flag_locks_def LogRequest_locks_def Storage_locks_def

section \<open>Ordered operations\<close>

text \<open>
  The interface of a lock order: operations that take locks in the order of a rank, give back
  what they took, and wait for nothing else.
\<close>

fun ordered :: "(lock \<Rightarrow> nat) \<Rightarrow> lock list \<Rightarrow> act list \<Rightarrow> bool" where
  "ordered rank held [] \<longleftrightarrow> held = []"
| "ordered rank held (Acquire l # p) \<longleftrightarrow> (\<forall>h\<in>set held. rank h < rank l) \<and> ordered rank (l # held) p"
| "ordered rank held (Release l # p) \<longleftrightarrow> (case held of [] \<Rightarrow> False | h # hs \<Rightarrow> h = l \<and> ordered rank hs p)"
| "ordered rank held (AwaitOpened l # p) \<longleftrightarrow> False"
| "ordered rank held (ReawaitOpened l # p) \<longleftrightarrow> False"
| "ordered rank held (SetOpened b # p) \<longleftrightarrow> ordered rank held p"

lemma ordered_append: "ordered rank held p \<Longrightarrow> ordered rank [] q \<Longrightarrow> ordered rank held (p @ q)"
  by (induction rank held p rule: ordered.induct) (auto split: list.splits)

lemma ordered_concat: "\<forall>p\<in>set ps. ordered rank [] p \<Longrightarrow> ordered rank [] (concat ps)"
  by (induction ps) (auto intro: ordered_append)

text \<open>The locks each thread holds, newest first, fit its remaining actions.\<close>

definition holds :: "(lock \<Rightarrow> nat) \<Rightarrow> (nat \<Rightarrow> lock list) \<Rightarrow> lk_state \<Rightarrow> bool" where
  "holds rank held s \<longleftrightarrow> (\<forall>i. ordered rank (held i) (lk_prog s i) \<and> (\<forall>l. lk_holder s l = Some i \<longleftrightarrow> l \<in> set (held i)) \<and> distinct (held i))"

lemma holds_step:
  assumes "holds rank held s" "lk_step i s = Some s'"
  shows "(\<exists>held'. holds rank held' s') \<and> lk_prog s' = (lk_prog s)(i := List.tl (lk_prog s i)) \<and> lk_prog s i \<noteq> []"
proof -
  obtain a p where p: "lk_prog s i = a # p" using assms(2) by (cases "lk_prog s i") (auto simp: lk_step_def)
  have o: "ordered rank (held i) (a # p)" using assms(1) p by (simp add: holds_def flip: p)
  show ?thesis
  proof (cases a)
    case (Acquire l)
    with assms(2) p have s': "lk_holder s l = None" "s' = s\<lparr>lk_prog := (lk_prog s)(i := p), lk_holder := (lk_holder s)(l \<mapsto> i)\<rparr>"
      by (auto simp: lk_step_def Let_def split: if_splits)
    have "l \<notin> set (held k)" for k using assms(1) s'(1) by (metis holds_def option.distinct(1))
    then have "holds rank (held(i := l # held i)) s'"
      using assms(1) s' o Acquire by (auto simp: holds_def)
    then show ?thesis using p s'(2) by auto
  next
    case (Release l)
    with assms(2) p o obtain hs where s': "s' = s\<lparr>lk_prog := (lk_prog s)(i := p), lk_holder := (lk_holder s)(l := None)\<rparr>" "held i = l # hs"
        "ordered rank hs p"
      by (auto simp: lk_step_def Let_def split: if_splits list.splits)
    have d: "l \<notin> set hs" "distinct hs" "lk_holder s l = Some i" using assms(1) s'(2) by (auto simp: holds_def dest: spec [of _ i])
    have "l \<notin> set (held k)" if "k \<noteq> i" for k using assms(1) d(3) that by (metis holds_def option.inject)
    then have "holds rank (held(i := hs)) s'"
      using assms(1) s' d by (auto simp: holds_def)
    then show ?thesis using p s'(1) by auto
  next
    case (SetOpened b)
    with assms(2) p have "s' = s\<lparr>lk_prog := (lk_prog s)(i := p), lk_opened := b\<rparr>" by (simp add: lk_step_def Let_def)
    moreover have "holds rank held s'" using assms(1) o SetOpened calculation by (auto simp: holds_def)
    ultimately show ?thesis using p by auto
  qed (use o in auto)
qed

lemma blocked_wants:
  assumes "holds rank held s" "lk_step i s = None" "lk_prog s i \<noteq> []"
  shows "\<exists>l p j. lk_prog s i = Acquire l # p \<and> lk_holder s l = Some j"
proof -
  obtain a p where p: "lk_prog s i = a # p" using assms(3) by (cases "lk_prog s i") auto
  have o: "ordered rank (held i) (a # p)" "\<forall>l. lk_holder s l = Some i \<longleftrightarrow> l \<in> set (held i)"
    using assms(1) by (simp_all add: holds_def flip: p)
  show ?thesis
  proof (cases a)
    case (Acquire l)
    with assms(2) p show ?thesis by (auto simp: lk_step_def Let_def split: if_splits)
  next
    case (Release l)
    with o assms(2) p show ?thesis by (auto simp: lk_step_def Let_def split: if_splits list.splits)
  next
    case (SetOpened b)
    with assms(2) p show ?thesis by (simp add: lk_step_def Let_def)
  qed (use o(1) in auto)
qed

text \<open>Among ordered threads one can always go on: the one that wants the highest lock.\<close>

lemma ordered_progress:
  assumes "holds rank held s" "finite {i. lk_prog s i \<noteq> []}" "lk_prog s i0 \<noteq> []"
  shows "\<exists>i s'. lk_step i s = Some s'"
proof (rule ccontr)
  assume none: "\<nexists>i s'. lk_step i s = Some s'"
  let ?U = "{i. lk_prog s i \<noteq> []}"
  have "\<forall>i\<in>?U. \<exists>l. (\<exists>p. lk_prog s i = Acquire l # p) \<and> (\<exists>j. lk_holder s l = Some j)"
    using blocked_wants [OF assms(1)] none by (metis mem_Collect_eq not_None_eq)
  then obtain want where want: "\<forall>i\<in>?U. (\<exists>p. lk_prog s i = Acquire (want i) # p) \<and> (\<exists>j. lk_holder s (want i) = Some j)"
    by metis
  let ?R = "(\<lambda>i. rank (want i)) ` ?U"
  have fin: "finite ?R" "?R \<noteq> {}" using assms(2,3) by auto
  from Max_in [OF this] obtain i where i: "i \<in> ?U" "rank (want i) = Max ?R" by auto
  obtain j where j: "lk_holder s (want i) = Some j" using want i(1) by blast
  have h: "want i \<in> set (held j)" "ordered rank (held j) (lk_prog s j)" using assms(1) j by (simp_all add: holds_def)
  then have jU: "j \<in> ?U" by (cases "lk_prog s j") auto
  then obtain p where "lk_prog s j = Acquire (want j) # p" using want by blast
  with h have "rank (want i) < rank (want j)" by auto
  moreover have "rank (want j) \<le> Max ?R" using jU by (intro Max_ge [OF fin(1)]) auto
  ultimately show False using i(2) by simp
qed

text \<open>At the start nothing is held, and the threads \<open>0\<close> to \<open>n - 1\<close> run operations.\<close>

definition runs_ops :: "nat \<Rightarrow> act list set \<Rightarrow> lk_state \<Rightarrow> bool" where
  "runs_ops n ops s \<longleftrightarrow> (\<forall>i<n. \<exists>ps. set ps \<subseteq> ops \<and> lk_prog s i = concat ps) \<and> (\<forall>i\<ge>n. lk_prog s i = []) \<and>
     lk_holder s = (\<lambda>l. None)"

locale lock_order =
  fixes rank :: "lock \<Rightarrow> nat" and ops :: "act list set"
  assumes ops_ordered: "p \<in> ops \<Longrightarrow> ordered rank [] p"
begin

lemma start_holds: "runs_ops n ops s \<Longrightarrow> holds rank (\<lambda>i. []) s"
proof -
  assume s: "runs_ops n ops s"
  have "ordered rank [] (lk_prog s i)" for i
    using s ops_ordered ordered_concat [of _ rank] by (cases "i < n") (auto simp: runs_ops_def subset_iff)
  with s show ?thesis by (simp add: holds_def runs_ops_def)
qed

lemma reach_holds:
  assumes "lk_reach s0 s" "runs_ops n ops s0"
  shows "(\<exists>held. holds rank held s) \<and> (\<forall>i\<ge>n. lk_prog s i = [])"
  using assms
proof (induction rule: lk_reach.induct)
  case start
  then show ?case using start_holds by (auto simp: runs_ops_def)
next
  case (move s i s')
  then obtain held where "holds rank held s" "\<forall>i\<ge>n. lk_prog s i = []" by blast
  with holds_step [OF _ move.hyps(2)] show ?case by auto
qed

text \<open>Every run can be finished.\<close>

lemma completes:
  assumes "holds rank held s" "\<forall>i\<ge>n. lk_prog s i = []"
  shows "\<exists>s'. lk_reach s s' \<and> (\<forall>i. lk_prog s' i = [])"
  using assms
proof (induction "\<Sum>i<n. length (lk_prog s i)" arbitrary: s held rule: less_induct)
  case less
  show ?case
  proof (cases "\<exists>i. lk_prog s i \<noteq> []")
    case False
    then show ?thesis by (auto intro: lk_reach.start)
  next
    case True
    have "{i. lk_prog s i \<noteq> []} \<subseteq> {..<n}" using less.prems(2) by (auto simp: not_le [symmetric])
    from ordered_progress [OF less.prems(1) finite_subset [OF this]] True obtain i s1 where step: "lk_step i s = Some s1" by blast
    from holds_step [OF less.prems(1) this] obtain held1 where s1: "holds rank held1 s1"
      "lk_prog s1 = (lk_prog s)(i := List.tl (lk_prog s i))" "lk_prog s i \<noteq> []" by blast
    have i: "i < n" using s1(3) less.prems(2) by (metis not_le)
    have "(\<Sum>k<n. length (lk_prog s1 k)) < (\<Sum>k<n. length (lk_prog s k))"
      using i s1(2,3) by (intro sum_strict_mono_ex1) (auto intro!: bexI [of _ i])
    moreover have "\<forall>k\<ge>n. lk_prog s1 k = []" using less.prems(2) s1(2) i by auto
    ultimately obtain s' where "lk_reach s1 s'" "\<forall>i. lk_prog s' i = []" using less.hyps s1(1) by blast
    with step show ?thesis by (meson lk_reach_step lk_reach_trans)
  qed
qed

end

section \<open>The order of the components\<close>

text \<open>The operations other than those of the inversions below.\<close>

definition safe_ops :: "act list set" where
  "safe_ops = {Manager_Write_locks, Manager_Map_locks, TryConnect_locks, SM_flag_locks, SM_ReceiveImage_locks,
       SM_ReceiveLogRequest_locks, IAM_flag_locks, GetNodeInfo_locks, ClockSync_notify_locks, ClockSync_flag_locks, Storage_locks} \<union>
     range Channel_Write_locks \<union> range Channel_Close_locks \<union> range ProcessData_locks \<union> range Manager_lost_locks \<union>
     range Handler_Stop_locks \<union> range Handler_flag_locks \<union> range SM_Send_locks \<union> range SM_OnLogReceived_locks \<union>
     range SM_OnConnect_locks \<union> range SM_ReceiveConfig_locks \<union> range SM_SetupChannel_locks \<union> range SM_ReleaseChannel_locks \<union>
     range IAM_OnConnect_locks \<union> range IAM_SetupChannel_locks \<union> range ClockSync_request_locks \<union>
     {LogRequest_locks port calls |port calls. True}"

fun lock_rank :: "lock \<Rightarrow> nat" where
  "lock_rank LClockSync = 0"
| "lock_rank LIAMClient = 1"
| "lock_rank LSMClient = 2"
| "lock_rank LDownloader = 3"
| "lock_rank LNodeInfo = 4"
| "lock_rank LLogProvider = 5"
| "lock_rank LLogReader = 6"
| "lock_rank LStorage = 7"
| "lock_rank (LHandler port) = 8"
| "lock_rank LManager = 9"
| "lock_rank (LChannel port) = 10"
| "lock_rank LWrite = 11"
| "lock_rank LSocket = 12"

lemma ordered_concat_held:
  "\<forall>p\<in>set ps. \<forall>q. ordered rank held q \<longrightarrow> ordered rank held (p @ q) \<Longrightarrow> ordered rank held q \<Longrightarrow> ordered rank held (concat ps @ q)"
  by (induction ps) auto

lemma LogRequest_ordered: "ordered lock_rank [] (LogRequest_locks port calls)"
proof -
  have "ordered lock_rank [LLogProvider]
      (concat (map (\<lambda>r. if r then under LLogReader [] else SM_OnLogReceived_locks port) calls) @ [Release LLogProvider])"
    by (rule ordered_concat_held) (auto simp: locks_defs)
  then show ?thesis by (simp add: LogRequest_locks_def under_def)
qed

lemma lost_ordered: "ordered lock_rank [] (Manager_lost_locks ports)"
proof -
  have "ordered lock_rank [] (concat (map Channel_Close_locks ports) @ Manager_Map_locks @ Manager_Map_locks @ TryConnect_locks)"
    by (rule ordered_concat_held) (auto simp: locks_defs)
  then show ?thesis by (simp add: Manager_lost_locks_def under_def)
qed

interpretation components: lock_order lock_rank safe_ops
proof
  fix p assume "p \<in> safe_ops"
  then show "ordered lock_rank [] p"
    unfolding safe_ops_def by (elim UnE insertE emptyE imageE CollectE exE conjE)
      (simp_all add: LogRequest_ordered lost_ordered, simp_all add: locks_defs)
qed

section \<open>Threads that block each other\<close>

text \<open>
  The threads of \<open>W\<close> each wait for a lock held within \<open>W\<close>, or for a transport that no thread
  outside \<open>W\<close> opens.
\<close>

definition stuck :: "nat set \<Rightarrow> lk_state \<Rightarrow> bool" where
  "stuck W s \<longleftrightarrow> (\<forall>i\<in>W. (\<exists>l p j. lk_prog s i = Acquire l # p \<and> j \<in> W \<and> lk_holder s l = Some j) \<or>
     (\<exists>l p. lk_prog s i = ReawaitOpened l # p \<and> \<not> lk_opened s \<and> (\<forall>k. k \<notin> W \<longrightarrow> SetOpened True \<notin> set (lk_prog s k))))"

lemma stuck_step:
  assumes "stuck W s" "lk_step k s = Some s'"
  shows "stuck W s' \<and> (\<forall>i\<in>W. lk_prog s' i = lk_prog s i)"
proof -
  have k: "k \<notin> W" using assms by (auto simp: stuck_def lk_step_def Let_def)
  have prog: "lk_prog s' i = lk_prog s i" if "i \<in> W" for i using lk_step_other [OF assms(2)] that k by metis
  have sub: "SetOpened True \<in> set (lk_prog s' j) \<Longrightarrow> SetOpened True \<in> set (lk_prog s j)" for j
    using assms(2) by (auto simp: lk_step_def Let_def split: list.splits act.splits if_splits)
  have closed: "\<not> lk_opened s'" if "\<not> lk_opened s" "SetOpened True \<notin> set (lk_prog s k)"
    using assms(2) that by (auto simp: lk_step_def Let_def split: list.splits act.splits if_splits)
  have "stuck W s'"
    unfolding stuck_def
  proof
    fix i assume i: "i \<in> W"
    with assms(1) consider (lock) l p j where "lk_prog s i = Acquire l # p" "j \<in> W" "lk_holder s l = Some j"
      | (wait) l p where "lk_prog s i = ReawaitOpened l # p" "\<not> lk_opened s" "\<forall>k. k \<notin> W \<longrightarrow> SetOpened True \<notin> set (lk_prog s k)"
      unfolding stuck_def by blast
    then show "(\<exists>l p j. lk_prog s' i = Acquire l # p \<and> j \<in> W \<and> lk_holder s' l = Some j) \<or>
      (\<exists>l p. lk_prog s' i = ReawaitOpened l # p \<and> \<not> lk_opened s' \<and> (\<forall>k. k \<notin> W \<longrightarrow> SetOpened True \<notin> set (lk_prog s' k)))"
    proof cases
      case lock
      with lk_step_holder [OF assms(2) lock(3)] k prog [OF i] show ?thesis by auto
    next
      case wait
      with closed k prog [OF i] sub show ?thesis by auto
    qed
  qed
  with prog show ?thesis by blast
qed

lemma stuck_forever: "lk_reach s s' \<Longrightarrow> stuck W s \<Longrightarrow> stuck W s' \<and> (\<forall>i\<in>W. lk_prog s' i = lk_prog s i)"
  by (induction rule: lk_reach.induct) (use stuck_step in \<open>fastforce+\<close>)

text \<open>Steps of given threads.\<close>

fun lk_run :: "nat list \<Rightarrow> lk_state \<Rightarrow> lk_state option" where
  "lk_run [] s = Some s"
| "lk_run (i # is) s = (case lk_step i s of None \<Rightarrow> None | Some s' \<Rightarrow> lk_run is s')"

lemma lk_run_reach: "lk_run is s = Some s' \<Longrightarrow> lk_reach s s'"
  by (induction "is" arbitrary: s) (auto intro: lk_reach.start lk_reach_trans lk_reach_step split: option.splits)

lemma crossing:
  assumes "lk_prog s i = Acquire a # Acquire b # p" "lk_prog s j = Acquire b # Acquire a # q" "i \<noteq> j" "a \<noteq> b" "lk_holder s = (\<lambda>l. None)"
  shows "\<exists>s'. lk_reach s s' \<and> (\<forall>s''. lk_reach s' s'' \<longrightarrow> lk_prog s'' i = Acquire b # p \<and> lk_prog s'' j = Acquire a # q)"
proof -
  let ?s = "s\<lparr>lk_prog := (lk_prog s)(i := Acquire b # p, j := Acquire a # q), lk_holder := [a \<mapsto> i, b \<mapsto> j]\<rparr>"
  have "lk_run [i, j] s = Some ?s" using assms by (simp add: lk_step_def Let_def)
  then have r: "lk_reach s ?s" by (rule lk_run_reach)
  have "stuck {i, j} ?s" using assms(3,4) by (auto simp: stuck_def)
  from stuck_forever [OF _ this] assms(3) r show ?thesis by (intro exI [of _ ?s]) auto
qed

section \<open>Properties\<close>


definition demo_threads :: lk_state where
  "demo_threads = \<lparr>lk_prog = (\<lambda>i. if i = 0 then SM_ReceiveImage_locks @ SM_OnConnect_locks 4
       else if i = 1 then ClockSync_notify_locks @ ProcessData_locks 4 else []),
     lk_holder = (\<lambda>l. None), lk_opened = True\<rparr>"


text \<open>C6. Three pairs of operations take their locks in opposite orders and can block each other for ever, whatever the other
  threads do: a download that sends its request and an image message being received; a change
  of the node status and a configuration message (or a connection); and a channel being
  connected and a frame arriving for it. Each pair can reach a state from which neither thread ever moves again.\<close>

theorem lock_inversions:
  assumes "i \<noteq> j" "lk_holder s = (\<lambda>l. None)"
    and "lk_prog s i = Download_locks port @ p \<and> lk_prog s j = SM_ReceiveImage_locks @ q \<or>
      lk_prog s i = SetNodeStatus_locks port @ p \<and> lk_prog s j = SM_ReceiveConfig_locks port' @ q \<or>
      lk_prog s i = SetNodeStatus_locks port @ p \<and> lk_prog s j = SM_OnConnect_locks port' @ q \<or>
      lk_prog s i = Channel_Connect_locks port @ p \<and> lk_prog s j = ProcessData_locks port @ q"
  shows "\<exists>s'. lk_reach s s' \<and> lk_prog s' i \<noteq> [] \<and> lk_prog s' j \<noteq> [] \<and>
    (\<forall>s''. lk_reach s' s'' \<longrightarrow> lk_prog s'' i = lk_prog s' i \<and> lk_prog s'' j = lk_prog s' j)"
proof -
  have cross: ?thesis
    if "lk_reach s s1" "lk_prog s1 i = Acquire a # Acquire b # p'" "lk_prog s1 j = Acquire b # Acquire a # q'" "a \<noteq> b"
      "lk_holder s1 = (\<lambda>l. None)" for a b p' q' s1
    using crossing [OF that(2,3) assms(1) that(4,5)] lk_reach_trans [OF _ that(1)] lk_reach.start by (metis list.distinct(1))
  have status: ?thesis
    if pi: "lk_prog s i = Acquire LNodeInfo # Acquire (LChannel port) # Acquire LWrite # Release LWrite # Release (LChannel port) #
        Acquire LSMClient # p'" and pj: "lk_prog s j = Acquire LSMClient # Acquire LNodeInfo # q'" for p' q'
  proof -
    let ?s = "s\<lparr>lk_prog := (lk_prog s)(i := Acquire LSMClient # p', j := Acquire LNodeInfo # q'),
      lk_holder := [LNodeInfo \<mapsto> i, LSMClient \<mapsto> j]\<rparr>"
    have "lk_run [i, i, i, i, i, j] s = Some ?s"
      using assms(1,2) pi pj by (simp add: lk_step_def Let_def fun_eq_iff)
    then have r: "lk_reach s ?s" by (rule lk_run_reach)
    have "stuck {i, j} ?s" using assms(1) by (auto simp: stuck_def)
    from stuck_forever [OF _ this] assms(1) r show ?thesis by (intro exI [of _ ?s]) auto
  qed
  from assms(3) consider
    (download) "lk_prog s i = Download_locks port @ p" "lk_prog s j = SM_ReceiveImage_locks @ q"
    | (config) "lk_prog s i = SetNodeStatus_locks port @ p"
        "lk_prog s j = SM_ReceiveConfig_locks port' @ q \<or> lk_prog s j = SM_OnConnect_locks port' @ q"
    | (connect) "lk_prog s i = Channel_Connect_locks port @ p" "lk_prog s j = ProcessData_locks port @ q"
    by blast
  then show ?thesis
  proof cases
    case download
    then have "\<exists>p'. lk_prog s i = Acquire LDownloader # Acquire LSMClient # p'" "\<exists>q'. lk_prog s j = Acquire LSMClient # Acquire LDownloader # q'"
      by (simp_all add: locks_defs)
    with cross [OF lk_reach.start _ _ _ assms(2)] show ?thesis by blast
  next
    case config
    then have "\<exists>p'. lk_prog s i = Acquire LNodeInfo # Acquire (LChannel port) # Acquire LWrite # Release LWrite # Release (LChannel port) #
        Acquire LSMClient # p'" "\<exists>q'. lk_prog s j = Acquire LSMClient # Acquire LNodeInfo # q'"
      by (auto simp: locks_defs)
    with status show ?thesis by blast
  next
    case connect
    then have "\<exists>p'. lk_prog s i = Acquire (LChannel port) # Acquire LManager # p'" "\<exists>q'. lk_prog s j = Acquire LManager # Acquire (LChannel port) # q'"
      by (simp_all add: locks_defs)
    with cross [OF lk_reach.start _ _ _ assms(2)] show ?thesis by blast
  qed
qed

lemma lock_inversions_witness:
  "\<exists>s s'. lk_prog s 0 = Download_locks 4 \<and> lk_prog s 1 = SM_ReceiveImage_locks \<and> lk_reach s s' \<and> lk_prog s' 0 \<noteq> [] \<and> lk_prog s' 1 \<noteq> [] \<and>
     (\<forall>s''. lk_reach s' s'' \<longrightarrow> lk_prog s'' 0 = lk_prog s' 0 \<and> lk_prog s'' 1 = lk_prog s' 1)"
proof -
  let ?s = "\<lparr>lk_prog = (\<lambda>i. if i = 0 then Download_locks 4 else if i = 1 then SM_ReceiveImage_locks else []),
     lk_holder = (\<lambda>l. None), lk_opened = True\<rparr>"
  from lock_inversions [of 0 1 ?s 4 "[]" "[]" 4] show ?thesis by - (rule exI [of _ ?s], simp)
qed

text \<open>C23. A lost connection can stay lost: when a handler's thread begins to connect its channel after the transport was closed and
  before the manager's thread has closed that channel, it waits for the transport with the
  channel's mutex held, and the manager's thread, the only one that opens the transport, waits for that mutex: 
  neither ever moves again, and stopping the handler then blocks as well.\<close>

theorem reconnect_deadlock:
  assumes "i \<noteq> j" "j \<noteq> k" "i \<noteq> k" "lk_holder s = (\<lambda>l. None)" "\<forall>m. m \<noteq> j \<longrightarrow> SetOpened True \<notin> set (lk_prog s m)"
    and "lk_prog s i = Channel_Connect_locks port @ p" "lk_prog s j = Manager_lost_locks (port # ports) @ q"
    and "lk_prog s k = Handler_Stop_locks port @ r"
  shows "\<exists>s'. lk_reach s s' \<and> lk_prog s' i \<noteq> [] \<and> lk_prog s' j \<noteq> [] \<and> lk_prog s' k \<noteq> [] \<and>
    (\<forall>s''. lk_reach s' s'' \<longrightarrow> \<not> lk_opened s'' \<and>
      lk_prog s'' i = lk_prog s' i \<and> lk_prog s'' j = lk_prog s' j \<and> lk_prog s'' k = lk_prog s' k)"
proof -
  let ?p = "[Release LManager, Release (LChannel port)] @ p"
  let ?q = "[Acquire (LChannel port), Release (LChannel port)] @ concat (map Channel_Close_locks ports) @ Manager_Map_locks @
    Manager_Map_locks @ TryConnect_locks @ q"
  let ?r = "[Acquire (LChannel port), Release (LChannel port), Release (LHandler port)] @ r"
  let ?s = "s\<lparr>lk_prog := (lk_prog s)(i := ReawaitOpened LManager # ?p, j := ?q, k := ?r),
    lk_holder := [LChannel port \<mapsto> i, LHandler port \<mapsto> k], lk_opened := False\<rparr>"
  have "lk_run [j, j, j, i, i, i, i, i, k] s = Some ?s"
    using assms(1-4,6-8) by (simp add: lk_step_def locks_defs Let_def fun_eq_iff)
  then have reach: "lk_reach s ?s" by (rule lk_run_reach)
  have "stuck {i, j, k} ?s" using assms(1-3,5) by (auto simp: stuck_def)
  note stuck = stuck_forever [OF _ this]
  have progs: "lk_prog ?s i = ReawaitOpened LManager # ?p" "lk_prog ?s j = ?q" "lk_prog ?s k = ?r" using assms(1-3) by simp_all
  have "\<not> lk_opened s''" if "lk_reach ?s s''" for s''
    using stuck [OF that] progs(1) by (auto simp: stuck_def)
  with stuck reach progs show ?thesis by (intro exI [of _ ?s]) auto
qed

lemma reconnect_deadlock_witness:
  "\<exists>s s'. lk_prog s 0 = Channel_Connect_locks 4 \<and> lk_prog s 1 = Manager_lost_locks [4] \<and> lk_reach s s' \<and> lk_prog s' 1 \<noteq> [] \<and>
     (\<forall>s''. lk_reach s' s'' \<longrightarrow> \<not> lk_opened s'' \<and> lk_prog s'' 1 = lk_prog s' 1)"
proof -
  let ?s = "\<lparr>lk_prog = (\<lambda>i. if i = 0 then Channel_Connect_locks 4 else if i = 1 then Manager_lost_locks [4]
     else if i = 2 then Handler_Stop_locks 4 else []), lk_holder = (\<lambda>l. None), lk_opened = True\<rparr>"
  have "\<forall>m. m \<noteq> 1 \<longrightarrow> SetOpened True \<notin> set (lk_prog ?s m)" by (auto simp: locks_defs)
  from reconnect_deadlock [of 0 1 2 ?s, OF _ _ _ _ this, of 4 "[]" "[]" "[]" "[]"] show ?thesis
    by - (rule exI [of _ ?s], auto)
qed

end
