(* ===== verification/OCISpec.thy ===== *)
theory OCISpec
  imports NodeInfoProvider
begin

text \<open>
  \<open>src/ocispec/ocispec.cpp\<close>: loading and saving of image manifests, image specifications, runtime
  specifications and service configurations, as JSON files. Zephyr's JSON library is a
  parameter: for each structure a parser, which fills a given structure and returns a bit for every
  top-level member it met or a negative error, and an encoder. A C string pointer is an option,
  \<open>None\<close> for the null pointer; what the core library's string makes of it is a parameter too.
\<close>

section \<open>The JSON library\<close>

text \<open>\<open>jk_plain\<close> are the structures whose text says what they are, without anything to escape or null pointers.\<close>

record 'j json_codec =
  jk_parse :: "string \<Rightarrow> 'j \<Rightarrow> int \<times> 'j"
  jk_encode :: "'j \<Rightarrow> int \<times> string"
  jk_plain :: "'j \<Rightarrow> bool"

text \<open>The text of a plain structure with \<open>n\<close> members is read back, with all bits set.\<close>

definition codec_ok :: "nat \<Rightarrow> 'j json_codec \<Rightarrow> bool" where
  "codec_ok n c \<longleftrightarrow> (\<forall>j ret text j0. jk_plain c j \<longrightarrow> jk_encode c j = (ret, text) \<longrightarrow> 0 \<le> ret \<longrightarrow> jk_parse c text j0 = (2 ^ n - 1, j))"

section \<open>Image manifests\<close>

record json_ContentDescriptor =
  jd_mediaType :: "string option"
  jd_digest :: "string option"
  jd_size :: u64

record json_ImageManifest =
  jm_schemaVersion :: int
  jm_mediaType :: "string option"
  jm_config :: json_ContentDescriptor
  jm_layers :: "json_ContentDescriptor list"
  jm_aosService :: json_ContentDescriptor

record ContentDescriptor =
  cd_mMediaType :: string
  cd_mDigest :: string
  cd_mSize :: u64

record ImageManifest =
  mf_mSchemaVersion :: int
  mf_mMediaType :: string
  mf_mConfig :: ContentDescriptor
  mf_mLayers :: "ContentDescriptor list"
  mf_mAosService :: "ContentDescriptor option"

section \<open>Image specifications\<close>

record json_ImageSpec =
  js_Cmd :: "string option list"
  js_Env :: "string option list"
  js_Entrypoint :: "string option list"

text \<open>Of the library's image specification the code touches the configuration only; the other fields are
  those that \<open>tests/ocispec\<close> fills.\<close>

record ImageSpec =
  is_mArchitecture :: string
  is_mOS :: string
  is_mOSVersion :: string
  is_mVariant :: string
  is_mCreated :: Time
  is_mAuthor :: string
  is_mEnv :: "string list"
  is_mEntryPoint :: "string list"
  is_mCmd :: "string list"

section \<open>Runtime specifications\<close>

record VMHWConfigIOMEM =
  io_firstGFN :: u64
  io_firstMFN :: u64
  io_nrMFNs :: u64

record json_VM =
  jv_hypervisor_path :: "string option"
  jv_hypervisor_parameters :: "string option list"
  jv_kernel_path :: "string option"
  jv_kernel_parameters :: "string option list"
  jv_deviceTree :: "string option"
  jv_vcpus :: u32
  jv_memKB :: u64
  jv_dtdevs :: "string option list"
  jv_iomems :: "VMHWConfigIOMEM list"
  jv_irqs :: "u32 list"

record json_RuntimeSpec =
  jr_ociVersion :: "string option"
  jr_vm :: json_VM

record VM =
  vm_mHypervisorPath :: string
  vm_mHypervisorParameters :: "string list"
  vm_mKernelPath :: string
  vm_mKernelParameters :: "string list"
  vm_mDeviceTree :: string
  vm_mVCPUs :: u32
  vm_mMemKB :: u64
  vm_mDTDevs :: "string list"
  vm_mIOMEMs :: "VMHWConfigIOMEM list"
  vm_mIRQs :: "u32 list"

text \<open>Of the library's runtime specification the code names two fields; the others are of a type \<open>'x\<close>.\<close>

record 'x RuntimeSpec =
  rs_mOCIVersion :: string
  rs_mOthers :: 'x
  rs_mVM :: "VM option"

text \<open>Files, the library's functions and the capacities.\<close>

record 'w oci_env =
  oe_files :: "'w file_ops"
  oe_str :: "string option \<Rightarrow> string"
  oe_Resize :: "string \<Rightarrow> Error"
  oe_manifest :: "json_ImageManifest json_codec"
  oe_image :: "json_ImageSpec json_codec"
  oe_runtime :: "json_RuntimeSpec json_codec"
  oe_service :: "string option list json_codec"
  oe_cMaxNumLayers :: nat
  oe_cMaxParamCount :: nat
  oe_cMaxDTDevsCount :: nat
  oe_cMaxIOMEMsCount :: nat
  oe_cMaxIRQsCount :: nat
  oe_cMaxNumRunners :: nat

text \<open>A string of characters is what its pointer gives.\<close>

definition str_ok :: "'w oci_env \<Rightarrow> bool" where
  "str_ok env \<longleftrightarrow> (\<forall>s. oe_str env (Some s) = s)"

section \<open>Operations\<close>

text \<open>Appending one by one, with failures ignored.\<close>

fun push_all_back :: "nat \<Rightarrow> 'a list \<Rightarrow> 'a list \<Rightarrow> 'a list" where
  "push_all_back cap xs [] = xs"
| "push_all_back cap xs (y # ys) = push_all_back cap (fst (PushBack cap xs y)) ys"

lemma push_all_back_room: "length xs + length ys \<le> cap \<Longrightarrow> push_all_back cap xs ys = xs @ ys"
  by (induction ys arbitrary: xs) (auto simp: PushBack_room)

definition LoadContentDescriptor :: "string \<Rightarrow> ContentDescriptor \<Rightarrow> Error \<times> ContentDescriptor" where
  "LoadContentDescriptor path d = (EEnum eNotSupported, d)"

definition SaveContentDescriptor :: "string \<Rightarrow> ContentDescriptor \<Rightarrow> 'w \<Rightarrow> Error \<times> 'w" where
  "SaveContentDescriptor path d w = (EEnum eNotSupported, w)"

definition json_descriptor_init :: json_ContentDescriptor where
  "json_descriptor_init = \<lparr>jd_mediaType = Some [], jd_digest = Some [], jd_size = 0\<rparr>"

definition descriptor_of :: "'w oci_env \<Rightarrow> json_ContentDescriptor \<Rightarrow> ContentDescriptor" where
  "descriptor_of env d = \<lparr>cd_mMediaType = oe_str env (jd_mediaType d), cd_mDigest = oe_str env (jd_digest d), cd_mSize = jd_size d\<rparr>"

definition json_descriptor :: "ContentDescriptor \<Rightarrow> json_ContentDescriptor" where
  "json_descriptor d = \<lparr>jd_mediaType = Some (cstr (cd_mMediaType d)), jd_digest = Some (cstr (cd_mDigest d)), jd_size = cd_mSize d\<rparr>"

definition LoadImageManifest :: "'w oci_env \<Rightarrow> string \<Rightarrow> ImageManifest \<Rightarrow> 'w \<Rightarrow> Error \<times> ImageManifest" where
  "LoadImageManifest env path m w =
     (case fo_read (oe_files env) w path of
        Inl err \<Rightarrow> (AOS_ERROR_WRAP err, m)
      | Inr text \<Rightarrow>
          (case jk_parse (oe_manifest env) text
              \<lparr>jm_schemaVersion = 0, jm_mediaType = Some [], jm_config = json_descriptor_init, jm_layers = [],
               jm_aosService = json_descriptor_init\<rparr> of
             (ret, j) \<Rightarrow>
               if ret < 0 then (AOS_ERROR_WRAP (error_of_int ret), m)
               else (ENone, m\<lparr>mf_mSchemaVersion := jm_schemaVersion j, mf_mMediaType := oe_str env (jm_mediaType j),
                      mf_mConfig := descriptor_of env (jm_config j),
                      mf_mLayers := push_all_back (oe_cMaxNumLayers env) (mf_mLayers m) (map (descriptor_of env) (jm_layers j)),
                      mf_mAosService := (if bit ret 4 then Some (descriptor_of env (jm_aosService j)) else mf_mAosService m)\<rparr>)))"

text \<open>What the three \<open>Save\<close> operations end with.\<close>

definition save_json :: "'w oci_env \<Rightarrow> 'j json_codec \<Rightarrow> string \<Rightarrow> 'j \<Rightarrow> 'w \<Rightarrow> Error \<times> 'w" where
  "save_json env c path j w =
     (case jk_encode c j of
        (ret, text) \<Rightarrow>
          if ret < 0 then (AOS_ERROR_WRAP (error_of_int ret), w)
          else if oe_Resize env text \<noteq> ENone then (AOS_ERROR_WRAP (oe_Resize env text), w)
          else fo_write (oe_files env) w path text)"

definition json_manifest :: "ImageManifest \<Rightarrow> json_ImageManifest" where
  "json_manifest m =
     \<lparr>jm_schemaVersion = mf_mSchemaVersion m, jm_mediaType = Some (cstr (mf_mMediaType m)), jm_config = json_descriptor (mf_mConfig m),
      jm_layers = map json_descriptor (mf_mLayers m),
      jm_aosService = (case mf_mAosService m of None \<Rightarrow> json_descriptor_init | Some d \<Rightarrow> json_descriptor d)\<rparr>"

definition SaveImageManifest :: "'w oci_env \<Rightarrow> string \<Rightarrow> ImageManifest \<Rightarrow> 'w \<Rightarrow> Error \<times> 'w" where
  "SaveImageManifest env path m w = save_json env (oe_manifest env) path (json_manifest m) w"

definition LoadImageSpec :: "'w oci_env \<Rightarrow> string \<Rightarrow> ImageSpec \<Rightarrow> 'w \<Rightarrow> Error \<times> ImageSpec" where
  "LoadImageSpec env path s w =
     (case fo_read (oe_files env) w path of
        Inl err \<Rightarrow> (AOS_ERROR_WRAP err, s)
      | Inr text \<Rightarrow>
          (case jk_parse (oe_image env) text \<lparr>js_Cmd = [], js_Env = [], js_Entrypoint = []\<rparr> of
             (ret, j) \<Rightarrow>
               if ret < 0 then (AOS_ERROR_WRAP (error_of_int ret), s)
               else (let push = push_all_back (oe_cMaxParamCount env) in
                 (ENone, s\<lparr>is_mEnv := push (is_mEnv s) (map (oe_str env) (js_Env j)),
                           is_mEntryPoint := push (is_mEntryPoint s) (map (oe_str env) (js_Entrypoint j)),
                           is_mCmd := push (is_mCmd s) (map (oe_str env) (js_Cmd j))\<rparr>))))"

definition json_image :: "ImageSpec \<Rightarrow> json_ImageSpec" where
  "json_image s = (let ptrs = map (\<lambda>x. Some (cstr x)) in
     \<lparr>js_Cmd = ptrs (is_mCmd s), js_Env = ptrs (is_mEnv s), js_Entrypoint = ptrs (is_mEntryPoint s)\<rparr>)"

definition SaveImageSpec :: "'w oci_env \<Rightarrow> string \<Rightarrow> ImageSpec \<Rightarrow> 'w \<Rightarrow> Error \<times> 'w" where
  "SaveImageSpec env path s w = save_json env (oe_image env) path (json_image s) w"

definition json_VM_init :: json_VM where
  "json_VM_init = \<lparr>jv_hypervisor_path = Some [], jv_hypervisor_parameters = [], jv_kernel_path = Some [], jv_kernel_parameters = [],
     jv_deviceTree = Some [], jv_vcpus = 0, jv_memKB = 0, jv_dtdevs = [], jv_iomems = [], jv_irqs = []\<rparr>"

definition VM_of :: "'w oci_env \<Rightarrow> json_VM \<Rightarrow> VM" where
  "VM_of env j =
     (let str = oe_str env; strs = (\<lambda>cap xs. push_all_back cap [] (map str xs)) in
      \<lparr>vm_mHypervisorPath = str (jv_hypervisor_path j),
       vm_mHypervisorParameters = strs (oe_cMaxParamCount env) (jv_hypervisor_parameters j),
       vm_mKernelPath = str (jv_kernel_path j), vm_mKernelParameters = strs (oe_cMaxParamCount env) (jv_kernel_parameters j),
       vm_mDeviceTree = str (jv_deviceTree j), vm_mVCPUs = jv_vcpus j, vm_mMemKB = jv_memKB j,
       vm_mDTDevs = strs (oe_cMaxDTDevsCount env) (jv_dtdevs j), vm_mIOMEMs = push_all_back (oe_cMaxIOMEMsCount env) [] (jv_iomems j),
       vm_mIRQs = push_all_back (oe_cMaxIRQsCount env) [] (jv_irqs j)\<rparr>)"

definition LoadRuntimeSpec :: "'w oci_env \<Rightarrow> string \<Rightarrow> 'x RuntimeSpec \<Rightarrow> 'w \<Rightarrow> Error \<times> 'x RuntimeSpec" where
  "LoadRuntimeSpec env path s w =
     (case fo_read (oe_files env) w path of
        Inl err \<Rightarrow> (AOS_ERROR_WRAP err, s)
      | Inr text \<Rightarrow>
          (case jk_parse (oe_runtime env) text \<lparr>jr_ociVersion = Some [], jr_vm = json_VM_init\<rparr> of
             (ret, j) \<Rightarrow>
               if ret < 0 then (AOS_ERROR_WRAP (error_of_int ret), s)
               else (ENone, s\<lparr>rs_mOCIVersion := oe_str env (jr_ociVersion j),
                              rs_mVM := (if bit ret 1 then Some (VM_of env (jr_vm j)) else rs_mVM s)\<rparr>)))"

definition json_vm :: "VM \<Rightarrow> json_VM" where
  "json_vm v = (let ptr = (\<lambda>x. Some (cstr x)) in
     \<lparr>jv_hypervisor_path = ptr (vm_mHypervisorPath v), jv_hypervisor_parameters = map ptr (vm_mHypervisorParameters v),
      jv_kernel_path = ptr (vm_mKernelPath v), jv_kernel_parameters = map ptr (vm_mKernelParameters v),
      jv_deviceTree = ptr (vm_mDeviceTree v), jv_vcpus = vm_mVCPUs v, jv_memKB = vm_mMemKB v, jv_dtdevs = map ptr (vm_mDTDevs v),
      jv_iomems = vm_mIOMEMs v, jv_irqs = vm_mIRQs v\<rparr>)"

definition json_runtime :: "'x RuntimeSpec \<Rightarrow> json_RuntimeSpec" where
  "json_runtime s =
     \<lparr>jr_ociVersion = Some (cstr (rs_mOCIVersion s)), jr_vm = (case rs_mVM s of None \<Rightarrow> json_VM_init | Some v \<Rightarrow> json_vm v)\<rparr>"

definition SaveRuntimeSpec :: "'w oci_env \<Rightarrow> string \<Rightarrow> 'x RuntimeSpec \<Rightarrow> 'w \<Rightarrow> Error \<times> 'w" where
  "SaveRuntimeSpec env path s w = save_json env (oe_runtime env) path (json_runtime s) w"

text \<open>Appending one by one up to the first that does not fit, which is an error.\<close>

fun push_checked :: "nat \<Rightarrow> 'a list \<Rightarrow> 'a list \<Rightarrow> Error \<times> 'a list" where
  "push_checked cap xs [] = (ENone, xs)"
| "push_checked cap xs (y # ys) =
     (case PushBack cap xs y of (xs', err) \<Rightarrow> if err \<noteq> ENone then (AOS_ERROR_WRAP err, xs') else push_checked cap xs' ys)"

definition LoadServiceConfig :: "'w oci_env \<Rightarrow> string \<Rightarrow> string list \<Rightarrow> 'w \<Rightarrow> Error \<times> string list" where
  "LoadServiceConfig env path runners w =
     (case fo_read (oe_files env) w path of
        Inl err \<Rightarrow> (AOS_ERROR_WRAP err, runners)
      | Inr text \<Rightarrow>
          (case jk_parse (oe_service env) text [] of
             (ret, j) \<Rightarrow>
               if ret < 0 then (AOS_ERROR_WRAP (error_of_int ret), runners)
               else push_checked (oe_cMaxNumRunners env) runners (map (oe_str env) j)))"

definition SaveServiceConfig :: "string \<Rightarrow> string list \<Rightarrow> 'w \<Rightarrow> Error \<times> 'w" where
  "SaveServiceConfig path runners w = (ENone, w)"

section \<open>Properties\<close>

text \<open>C strings hold no NUL, and arrays fit into those of a loaded object.\<close>

definition descriptor_clean :: "ContentDescriptor \<Rightarrow> bool" where
  "descriptor_clean d \<longleftrightarrow> no_nul (cd_mMediaType d) \<and> no_nul (cd_mDigest d)"

definition manifest_clean :: "'w oci_env \<Rightarrow> ImageManifest \<Rightarrow> bool" where
  "manifest_clean env m \<longleftrightarrow> no_nul (mf_mMediaType m) \<and> descriptor_clean (mf_mConfig m) \<and> list_all descriptor_clean (mf_mLayers m) \<and>
     (case mf_mAosService m of None \<Rightarrow> True | Some d \<Rightarrow> descriptor_clean d) \<and> length (mf_mLayers m) \<le> oe_cMaxNumLayers env"

definition strings_clean :: "nat \<Rightarrow> string list \<Rightarrow> bool" where
  "strings_clean cap xs \<longleftrightarrow> list_all no_nul xs \<and> length xs \<le> cap"

definition image_clean :: "'w oci_env \<Rightarrow> ImageSpec \<Rightarrow> bool" where
  "image_clean env s \<longleftrightarrow> list_all (strings_clean (oe_cMaxParamCount env)) [is_mEnv s, is_mEntryPoint s, is_mCmd s]"

definition vm_clean :: "'w oci_env \<Rightarrow> VM \<Rightarrow> bool" where
  "vm_clean env v \<longleftrightarrow> list_all no_nul [vm_mHypervisorPath v, vm_mKernelPath v, vm_mDeviceTree v] \<and>
     list_all (strings_clean (oe_cMaxParamCount env)) [vm_mHypervisorParameters v, vm_mKernelParameters v] \<and>
     strings_clean (oe_cMaxDTDevsCount env) (vm_mDTDevs v) \<and> length (vm_mIOMEMs v) \<le> oe_cMaxIOMEMsCount env \<and>
     length (vm_mIRQs v) \<le> oe_cMaxIRQsCount env"

definition runtime_clean :: "'w oci_env \<Rightarrow> 'x RuntimeSpec \<Rightarrow> bool" where
  "runtime_clean env s \<longleftrightarrow> no_nul (rs_mOCIVersion s) \<and> (case rs_mVM s of None \<Rightarrow> True | Some v \<Rightarrow> vm_clean env v)"

definition VM_empty :: VM where
  "VM_empty = \<lparr>vm_mHypervisorPath = [], vm_mHypervisorParameters = [], vm_mKernelPath = [], vm_mKernelParameters = [],
     vm_mDeviceTree = [], vm_mVCPUs = 0, vm_mMemKB = 0, vm_mDTDevs = [], vm_mIOMEMs = [], vm_mIRQs = []\<rparr>"

lemma descriptor_roundtrip: "str_ok env \<Longrightarrow> descriptor_clean d \<Longrightarrow> descriptor_of env (json_descriptor d) = d"
  by (simp add: str_ok_def descriptor_clean_def descriptor_of_def json_descriptor_def)

lemma strings_roundtrip:
  "str_ok env \<Longrightarrow> strings_clean cap xs \<Longrightarrow> push_all_back cap [] (map (oe_str env) (map (\<lambda>x. Some (cstr x)) xs)) = xs"
  by (auto simp: str_ok_def strings_clean_def push_all_back_room list_all_iff intro: map_idI)

lemma VM_roundtrip: "str_ok env \<Longrightarrow> vm_clean env v \<Longrightarrow> VM_of env (json_vm v) = v"
  using strings_roundtrip [of env] by (simp add: vm_clean_def VM_of_def json_vm_def push_all_back_room str_ok_def Let_def)

lemma VM_init: "str_ok env \<Longrightarrow> VM_of env json_VM_init = VM_empty"
  by (simp add: str_ok_def VM_of_def json_VM_init_def VM_empty_def)

text \<open>What a successful save leaves is what a load parses.\<close>

lemma save_parse:
  assumes "files_ok (oe_files env)" "codec_ok n c" "jk_plain c j" "save_json env c path j w = (ENone, w1)"
  shows "\<exists>text. fo_read (oe_files env) w1 path = Inr text \<and> (\<forall>j0. jk_parse c text j0 = (2 ^ n - 1, j))"
  using assms by (force simp: save_json_def files_ok_def codec_ok_def split: prod.splits if_splits)


text \<open>A codec that knows one structure.\<close>

definition demo_codec :: "nat \<Rightarrow> 'j \<Rightarrow> 'j json_codec" where
  "demo_codec n j = \<lparr>jk_parse = (\<lambda>s j0. if s = ''{}'' then (2 ^ n - 1, j) else (- EINVAL, j0)),
     jk_encode = (\<lambda>j'. if j' = j then (0, ''{}'') else (- EINVAL, [])), jk_plain = (\<lambda>j. True)\<rparr>"

lemma demo_codec_ok: "codec_ok n (demo_codec n j)"
  by (auto simp: codec_ok_def demo_codec_def EINVAL_def split: if_splits)

definition demo_manifest :: ImageManifest where
  "demo_manifest = \<lparr>mf_mSchemaVersion = 2, mf_mMediaType = ''manifest'', mf_mConfig = \<lparr>cd_mMediaType = ''config'', cd_mDigest = ''d0'', cd_mSize = 10\<rparr>,
     mf_mLayers = [\<lparr>cd_mMediaType = ''layer'', cd_mDigest = ''d1'', cd_mSize = 20\<rparr>], mf_mAosService = None\<rparr>"

definition demo_spec :: ImageSpec where
  "demo_spec = \<lparr>is_mArchitecture = ''arch'', is_mOS = ''os'', is_mOSVersion = ''os-version'', is_mVariant = ''variant'', is_mCreated = Time 1 2,
     is_mAuthor = ''author'', is_mEnv = [''env0''], is_mEntryPoint = [''entry0''], is_mCmd = [''cmd0'']\<rparr>"

definition demo_oci :: "(string \<rightharpoonup> string) oci_env" where
  "demo_oci = \<lparr>oe_files = demo_files, oe_str = (\<lambda>p. case p of None \<Rightarrow> [] | Some s \<Rightarrow> s), oe_Resize = (\<lambda>s. ENone),
     oe_manifest = demo_codec 5 (json_manifest demo_manifest), oe_image = demo_codec 1 (json_image demo_spec),
     oe_runtime = demo_codec 2 (json_runtime \<lparr>rs_mOCIVersion = [], rs_mOthers = (), rs_mVM = None\<rparr>), oe_service = demo_codec 1 [],
     oe_cMaxNumLayers = 4, oe_cMaxParamCount = 4, oe_cMaxDTDevsCount = 4, oe_cMaxIOMEMsCount = 4, oe_cMaxIRQsCount = 4, oe_cMaxNumRunners = 2\<rparr>"


text \<open>What the appending loops leave.\<close>

lemma push_all_back_prefix: "\<exists>zs. push_all_back cap xs ys = xs @ zs"
proof (induction ys arbitrary: xs)
  case (Cons y ys)
  show ?case
    using Cons.IH [of "fst (PushBack cap xs y)"] by (auto simp: PushBack_def)
qed simp

lemma push_checked_all: "push_checked cap xs ys = (ENone, zs) \<Longrightarrow> zs = xs @ ys"
proof (induction ys arbitrary: xs)
  case (Cons y ys)
  then show ?case
    using Cons.IH [of "xs @ [y]"] by (auto simp: PushBack_def split: if_splits)
qed simp

text \<open>A load adds to what the object holds: loading a manifest, an image specification or a service
  configuration into an object that holds layers, arguments or runners keeps those in front of
  the file's and drops, without an error except for runners, what does not fit behind them.\<close>

theorem oci_load_appends:
  assumes "fo_read (oe_files env) w path = Inr body"
  shows "(LoadImageManifest env path m w = (ENone, m') \<longrightarrow> (\<exists>ds. mf_mLayers m' = mf_mLayers m @ ds)) \<and>
    (LoadImageSpec env path s w = (ENone, s') \<longrightarrow>
      (\<exists>es ps cs. is_mEnv s' = is_mEnv s @ es \<and> is_mEntryPoint s' = is_mEntryPoint s @ ps \<and> is_mCmd s' = is_mCmd s @ cs)) \<and>
    (LoadServiceConfig env path rs w = (ENone, rs') \<longrightarrow>
      rs' = rs @ map (oe_str env) (snd (jk_parse (oe_service env) body [])))"
proof (intro conjI impI)
  assume "LoadImageManifest env path m w = (ENone, m')"
  then show "\<exists>ds. mf_mLayers m' = mf_mLayers m @ ds"
    using assms push_all_back_prefix [of "oe_cMaxNumLayers env" "mf_mLayers m"]
    by (auto simp: LoadImageManifest_def split: prod.splits if_splits)
next
  assume "LoadImageSpec env path s w = (ENone, s')"
  then show "\<exists>es ps cs. is_mEnv s' = is_mEnv s @ es \<and> is_mEntryPoint s' = is_mEntryPoint s @ ps \<and> is_mCmd s' = is_mCmd s @ cs"
    using assms push_all_back_prefix [of "oe_cMaxParamCount env"]
    by (auto simp: LoadImageSpec_def Let_def split: prod.splits if_splits)
next
  assume "LoadServiceConfig env path rs w = (ENone, rs')"
  then show "rs' = rs @ map (oe_str env) (snd (jk_parse (oe_service env) body []))"
    using assms push_checked_all by (auto simp: LoadServiceConfig_def split: prod.splits if_splits)
qed

lemma oci_load_appends_witness:
  "\<exists>ds. mf_mLayers (snd (LoadImageManifest demo_oci ''/m'' demo_manifest [''/m'' \<mapsto> ''{}''])) = mf_mLayers demo_manifest @ ds"
proof -
  have "fo_read (oe_files demo_oci) [''/m'' \<mapsto> ''{}''] ''/m'' = Inr ''{}''"
    by (simp add: demo_oci_def demo_files_def)
  note oci_load_appends [OF this, of demo_manifest]
  moreover have "fst (LoadImageManifest demo_oci ''/m'' demo_manifest [''/m'' \<mapsto> ''{}'']) = ENone"
    by (simp add: LoadImageManifest_def demo_oci_def demo_files_def demo_codec_def)
  ultimately show ?thesis
    by (metis prod.collapse)
qed

end
