(* ===== verification/ResourceManager.thy ===== *)
theory ResourceManager
  imports OCISpec
begin

text \<open>
  \<open>src/resourcemanager/resourcemanager.cpp\<close>: the node configuration to and from JSON, and the
  check of host devices. As for the OCI specifications, the JSON library and the string of a C pointer are parameters;
  so are the resizing of the library's arrays and the copy of a string.
\<close>

section \<open>The JSON structures\<close>

record json_Device =
  jde_name :: "string option"
  jde_hostDevices :: "string option list"
  jde_sharedCount :: u32
  jde_groups :: "string option list"

record json_FSMount =
  jfm_destination :: "string option"
  jfm_source :: "string option"
  jfm_type :: "string option"
  jfm_options :: "string option list"

record json_Host =
  jho_ip :: "string option"
  jho_hostName :: "string option"

record json_Resource =
  jre_name :: "string option"
  jre_groups :: "string option list"
  jre_mounts :: "json_FSMount list"
  jre_env :: "string option list"
  jre_hosts :: "json_Host list"

record json_NodeConfig =
  jnc_version :: "string option"
  jnc_nodeType :: "string option"
  jnc_devices :: "json_Device list"
  jnc_resources :: "json_Resource list"
  jnc_labels :: "string option list"
  jnc_priority :: u32

definition json_NodeConfig_init :: json_NodeConfig where
  "json_NodeConfig_init = \<lparr>jnc_version = None, jnc_nodeType = None, jnc_devices = [], jnc_resources = [], jnc_labels = [], jnc_priority = 0\<rparr>"

section \<open>The library's structures\<close>

record DeviceInfo =
  dv_mName :: string
  dv_mSharedCount :: u64
  dv_mGroups :: "string list"
  dv_mHostDevices :: "string list"

record Mount =
  mo_mDestination :: string
  mo_mType :: string
  mo_mSource :: string
  mo_mOptions :: "string list"

record Host =
  ho_mIP :: string
  ho_mHostname :: string

record ResourceInfo =
  rc_mName :: string
  rc_mGroups :: "string list"
  rc_mMounts :: "Mount list"
  rc_mEnv :: "string list"
  rc_mHosts :: "Host list"

record NodeConfig =
  nf_mVersion :: string
  nf_mNodeType :: string
  nf_mDevices :: "DeviceInfo list"
  nf_mResources :: "ResourceInfo list"
  nf_mLabels :: "string list"
  nf_mPriority :: u32

definition DeviceInfo_empty :: DeviceInfo where
  "DeviceInfo_empty = \<lparr>dv_mName = [], dv_mSharedCount = 0, dv_mGroups = [], dv_mHostDevices = []\<rparr>"

definition Mount_empty :: Mount where
  "Mount_empty = \<lparr>mo_mDestination = [], mo_mType = [], mo_mSource = [], mo_mOptions = []\<rparr>"

definition Host_empty :: Host where
  "Host_empty = \<lparr>ho_mIP = [], ho_mHostname = []\<rparr>"

definition ResourceInfo_empty :: ResourceInfo where
  "ResourceInfo_empty = \<lparr>rc_mName = [], rc_mGroups = [], rc_mMounts = [], rc_mEnv = [], rc_mHosts = []\<rparr>"

definition NodeConfig_empty :: NodeConfig where
  "NodeConfig_empty = \<lparr>nf_mVersion = [], nf_mNodeType = [], nf_mDevices = [], nf_mResources = [], nf_mLabels = [], nf_mPriority = 0\<rparr>"

text \<open>The JSON library, the library's strings and arrays, and its capacities.\<close>

record rm_env =
  re_json :: "json_NodeConfig json_codec"
  re_str :: "string option \<Rightarrow> string"
  re_copy :: "string \<Rightarrow> string"
  re_Resize :: "string \<Rightarrow> Error"
  re_devices :: "nat \<Rightarrow> DeviceInfo list \<Rightarrow> Error \<times> DeviceInfo list"
  re_resources :: "nat \<Rightarrow> ResourceInfo list \<Rightarrow> Error \<times> ResourceInfo list"
  re_mounts :: "nat \<Rightarrow> Mount list \<Rightarrow> Error \<times> Mount list"
  re_hosts :: "nat \<Rightarrow> Host list \<Rightarrow> Error \<times> Host list"
  re_cMaxNumGroups :: nat
  re_cMaxNumHostDevices :: nat
  re_cFSMountMaxNumOptions :: nat
  re_cMaxNumEnvVariables :: nat
  re_cMaxNumNodeLabels :: nat

section \<open>To JSON\<close>

definition FillJSONStruct_device :: "DeviceInfo \<Rightarrow> json_Device" where
  "FillJSONStruct_device d =
     \<lparr>jde_name = Some (cstr (dv_mName d)), jde_hostDevices = map (\<lambda>s. Some (cstr s)) (dv_mHostDevices d),
      jde_sharedCount = ucast (dv_mSharedCount d), jde_groups = map (\<lambda>s. Some (cstr s)) (dv_mGroups d)\<rparr>"

definition FillJSONStruct_devices :: "DeviceInfo list \<Rightarrow> json_NodeConfig \<Rightarrow> json_NodeConfig" where
  "FillJSONStruct_devices ds j = j\<lparr>jnc_devices := map FillJSONStruct_device ds\<rparr>"

definition FillJSONStruct_mount :: "Mount \<Rightarrow> json_FSMount" where
  "FillJSONStruct_mount m =
     \<lparr>jfm_destination = Some (cstr (mo_mDestination m)), jfm_source = Some (cstr (mo_mSource m)), jfm_type = Some (cstr (mo_mType m)),
      jfm_options = map (\<lambda>s. Some (cstr s)) (mo_mOptions m)\<rparr>"

definition FillJSONStruct_host :: "Host \<Rightarrow> json_Host" where
  "FillJSONStruct_host h = \<lparr>jho_ip = Some (cstr (ho_mIP h)), jho_hostName = Some (cstr (ho_mHostname h))\<rparr>"

definition FillJSONStruct_resource :: "ResourceInfo \<Rightarrow> json_Resource" where
  "FillJSONStruct_resource r =
     \<lparr>jre_name = Some (cstr (rc_mName r)), jre_groups = map (\<lambda>s. Some (cstr s)) (rc_mGroups r),
      jre_mounts = map FillJSONStruct_mount (rc_mMounts r), jre_env = map (\<lambda>s. Some (cstr s)) (rc_mEnv r),
      jre_hosts = map FillJSONStruct_host (rc_mHosts r)\<rparr>"

definition FillJSONStruct_resources :: "ResourceInfo list \<Rightarrow> json_NodeConfig \<Rightarrow> json_NodeConfig" where
  "FillJSONStruct_resources rs j = j\<lparr>jnc_resources := map FillJSONStruct_resource rs\<rparr>"

definition json_of_config :: "NodeConfig \<Rightarrow> json_NodeConfig" where
  "json_of_config c =
     (let j = json_NodeConfig_init\<lparr>jnc_version := Some (cstr (nf_mVersion c)), jnc_nodeType := Some (cstr (nf_mNodeType c)),
                jnc_priority := nf_mPriority c\<rparr>;
          j = FillJSONStruct_devices (nf_mDevices c) j;
          j = FillJSONStruct_resources (nf_mResources c) j
      in j\<lparr>jnc_labels := map (\<lambda>s. Some (cstr s)) (nf_mLabels c)\<rparr>)"

text \<open>What the string holds after an error is not modelled.\<close>

definition NodeConfigToJSON :: "rm_env \<Rightarrow> NodeConfig \<Rightarrow> Error + string" where
  "NodeConfigToJSON env c =
     (case jk_encode (re_json env) (json_of_config c) of
        (ret, body) \<Rightarrow>
          if ret < 0 then Inl (AOS_ERROR_WRAP (error_of_int ret))
          else if re_Resize env body \<noteq> ENone then Inl (AOS_ERROR_WRAP (re_Resize env body))
          else Inr body)"

section \<open>From JSON\<close>

text \<open>A loop over the elements of an array that ends at the first error.\<close>

fun fill_each :: "('a \<Rightarrow> 'b \<Rightarrow> Error \<times> 'b) \<Rightarrow> 'a list \<Rightarrow> 'b list \<Rightarrow> Error \<times> 'b list" where
  "fill_each f (x # xs) (y # ys) =
     (case f x y of (err, y') \<Rightarrow>
        if err \<noteq> ENone then (err, y' # ys)
        else (case fill_each f xs ys of (err, ys') \<Rightarrow> (err, y' # ys')))"
| "fill_each f _ ys = (ENone, ys)"

definition FillAosStruct_device :: "rm_env \<Rightarrow> json_Device \<Rightarrow> DeviceInfo \<Rightarrow> Error \<times> DeviceInfo" where
  "FillAosStruct_device env j d =
     (let d = d\<lparr>dv_mName := re_str env (jde_name j), dv_mSharedCount := scast (jde_sharedCount j)\<rparr> in
      case push_checked (re_cMaxNumGroups env) (dv_mGroups d) (map (re_str env) (jde_groups j)) of
        (err, gs) \<Rightarrow>
          let d = d\<lparr>dv_mGroups := gs\<rparr> in
          if err \<noteq> ENone then (err, d)
          else (case push_checked (re_cMaxNumHostDevices env) (dv_mHostDevices d) (map (re_str env) (jde_hostDevices j)) of
                  (err, hs) \<Rightarrow> (err, d\<lparr>dv_mHostDevices := hs\<rparr>)))"

definition FillAosStruct_devices :: "rm_env \<Rightarrow> json_NodeConfig \<Rightarrow> DeviceInfo list \<Rightarrow> Error \<times> DeviceInfo list" where
  "FillAosStruct_devices env j ds =
     (case re_devices env (length (jnc_devices j)) ds of
        (err, ds) \<Rightarrow> if err \<noteq> ENone then (AOS_ERROR_WRAP err, ds) else fill_each (FillAosStruct_device env) (jnc_devices j) ds)"

definition FillAosStruct_mount :: "rm_env \<Rightarrow> json_FSMount \<Rightarrow> Mount \<Rightarrow> Error \<times> Mount" where
  "FillAosStruct_mount env j m =
     (let m = m\<lparr>mo_mDestination := re_str env (jfm_destination j), mo_mType := re_str env (jfm_type j), mo_mSource := re_str env (jfm_source j)\<rparr> in
      case push_checked (re_cFSMountMaxNumOptions env) (mo_mOptions m) (map (re_str env) (jfm_options j)) of
        (err, os) \<Rightarrow> (err, m\<lparr>mo_mOptions := os\<rparr>))"

definition FillAosStruct_host :: "rm_env \<Rightarrow> json_Host \<Rightarrow> Host \<Rightarrow> Error \<times> Host" where
  "FillAosStruct_host env j h = (ENone, h\<lparr>ho_mIP := re_str env (jho_ip j), ho_mHostname := re_str env (jho_hostName j)\<rparr>)"

definition FillAosStruct_mounts :: "rm_env \<Rightarrow> json_Resource \<Rightarrow> Mount list \<Rightarrow> Error \<times> Mount list" where
  "FillAosStruct_mounts env j ms =
     (case re_mounts env (length (jre_mounts j)) ms of
        (err, ms) \<Rightarrow> if err \<noteq> ENone then (AOS_ERROR_WRAP err, ms) else fill_each (FillAosStruct_mount env) (jre_mounts j) ms)"

definition FillAosStruct_hosts :: "rm_env \<Rightarrow> json_Resource \<Rightarrow> Host list \<Rightarrow> Error \<times> Host list" where
  "FillAosStruct_hosts env j hs =
     (case re_hosts env (length (jre_hosts j)) hs of
        (err, hs) \<Rightarrow> if err \<noteq> ENone then (AOS_ERROR_WRAP err, hs) else fill_each (FillAosStruct_host env) (jre_hosts j) hs)"

definition FillAosStruct_resource :: "rm_env \<Rightarrow> json_Resource \<Rightarrow> ResourceInfo \<Rightarrow> Error \<times> ResourceInfo" where
  "FillAosStruct_resource env j r =
     (let r = r\<lparr>rc_mName := re_str env (jre_name j)\<rparr> in
      case push_checked (re_cMaxNumGroups env) (rc_mGroups r) (map (re_str env) (jre_groups j)) of
        (err, gs) \<Rightarrow> let r = r\<lparr>rc_mGroups := gs\<rparr> in
      if err \<noteq> ENone then (err, r)
      else case FillAosStruct_mounts env j (rc_mMounts r) of
        (err, ms) \<Rightarrow> let r = r\<lparr>rc_mMounts := ms\<rparr> in
      if err \<noteq> ENone then (err, r)
      else case push_checked (re_cMaxNumEnvVariables env) (rc_mEnv r) (map (re_str env) (jre_env j)) of
        (err, es) \<Rightarrow> let r = r\<lparr>rc_mEnv := es\<rparr> in
      if err \<noteq> ENone then (err, r)
      else case FillAosStruct_hosts env j (rc_mHosts r) of
        (err, hs) \<Rightarrow> (err, r\<lparr>rc_mHosts := hs\<rparr>))"

definition FillAosStruct_resources :: "rm_env \<Rightarrow> json_NodeConfig \<Rightarrow> ResourceInfo list \<Rightarrow> Error \<times> ResourceInfo list" where
  "FillAosStruct_resources env j rs =
     (case re_resources env (length (jnc_resources j)) rs of
        (err, rs) \<Rightarrow> if err \<noteq> ENone then (AOS_ERROR_WRAP err, rs) else fill_each (FillAosStruct_resource env) (jnc_resources j) rs)"

definition NodeConfigFromJSON :: "rm_env \<Rightarrow> string \<Rightarrow> NodeConfig \<Rightarrow> Error \<times> NodeConfig" where
  "NodeConfigFromJSON env json c =
     (case jk_parse (re_json env) (re_copy env json) json_NodeConfig_init of
        (ret, j) \<Rightarrow>
      if ret < 0 then (AOS_ERROR_WRAP (error_of_int ret), c)
      else let c = c\<lparr>nf_mVersion := re_str env (jnc_version j), nf_mNodeType := re_str env (jnc_nodeType j), nf_mPriority := jnc_priority j\<rparr> in
      case FillAosStruct_devices env j (nf_mDevices c) of
        (err, ds) \<Rightarrow> let c = c\<lparr>nf_mDevices := ds\<rparr> in
      if err \<noteq> ENone then (AOS_ERROR_WRAP err, c)
      else case FillAosStruct_resources env j (nf_mResources c) of
        (err, rs) \<Rightarrow> let c = c\<lparr>nf_mResources := rs\<rparr> in
      if err \<noteq> ENone then (AOS_ERROR_WRAP err, c)
      else case push_checked (re_cMaxNumNodeLabels env) (nf_mLabels c) (map (re_str env) (jnc_labels j)) of
        (err, ls) \<Rightarrow> (err, c\<lparr>nf_mLabels := ls\<rparr>))"

section \<open>Host devices\<close>

definition CheckDevice :: "string \<Rightarrow> Error" where
  "CheckDevice device = EEnum eNotSupported"

definition CheckGroup :: "string \<Rightarrow> Error" where
  "CheckGroup grp = EEnum eNotSupported"

section \<open>Properties\<close>

text \<open>Resizing keeps what fits and adds empty elements; strings of characters and copies of strings are what they should be.\<close>

definition resize_ok :: "'x \<Rightarrow> (nat \<Rightarrow> 'x list \<Rightarrow> Error \<times> 'x list) \<Rightarrow> bool" where
  "resize_ok d f \<longleftrightarrow> (\<forall>n xs ys. f n xs = (ENone, ys) \<longrightarrow> ys = take n xs @ replicate (n - length xs) d)"

definition rm_ok :: "rm_env \<Rightarrow> bool" where
  "rm_ok env \<longleftrightarrow> codec_ok 6 (re_json env) \<and> (\<forall>s. re_str env (Some s) = s) \<and> (\<forall>s. re_copy env s = s) \<and>
     resize_ok DeviceInfo_empty (re_devices env) \<and> resize_ok ResourceInfo_empty (re_resources env) \<and>
     resize_ok Mount_empty (re_mounts env) \<and> resize_ok Host_empty (re_hosts env)"

text \<open>What is read when all goes well: \<open>a\<close> is what was written, \<open>b\<close> what the object held.\<close>

definition merge_all :: "'x \<Rightarrow> ('x \<Rightarrow> 'x \<Rightarrow> 'x) \<Rightarrow> 'x list \<Rightarrow> 'x list \<Rightarrow> 'x list" where
  "merge_all d m as bs = map2 m as (take (length as) bs @ replicate (length as - length bs) d)"

definition merge_device :: "DeviceInfo \<Rightarrow> DeviceInfo \<Rightarrow> DeviceInfo" where
  "merge_device a b = a\<lparr>dv_mGroups := dv_mGroups b @ dv_mGroups a, dv_mHostDevices := dv_mHostDevices b @ dv_mHostDevices a\<rparr>"

definition merge_mount :: "Mount \<Rightarrow> Mount \<Rightarrow> Mount" where
  "merge_mount a b = a\<lparr>mo_mOptions := mo_mOptions b @ mo_mOptions a\<rparr>"

definition merge_resource :: "ResourceInfo \<Rightarrow> ResourceInfo \<Rightarrow> ResourceInfo" where
  "merge_resource a b = a\<lparr>rc_mGroups := rc_mGroups b @ rc_mGroups a,
     rc_mMounts := merge_all Mount_empty merge_mount (rc_mMounts a) (rc_mMounts b),
     rc_mEnv := rc_mEnv b @ rc_mEnv a, rc_mHosts := rc_mHosts a\<rparr>"

definition merge_config :: "NodeConfig \<Rightarrow> NodeConfig \<Rightarrow> NodeConfig" where
  "merge_config a b = a\<lparr>nf_mDevices := merge_all DeviceInfo_empty merge_device (nf_mDevices a) (nf_mDevices b),
     nf_mResources := merge_all ResourceInfo_empty merge_resource (nf_mResources a) (nf_mResources b),
     nf_mLabels := nf_mLabels b @ nf_mLabels a\<rparr>"

text \<open>Strings without NUL, and a count that fits the signed number of the JSON structure.\<close>

definition device_plain :: "DeviceInfo \<Rightarrow> bool" where
  "device_plain d \<longleftrightarrow> no_nul (dv_mName d) \<and> list_all no_nul (dv_mGroups d) \<and> list_all no_nul (dv_mHostDevices d) \<and> dv_mSharedCount d < 2 ^ 31"

definition mount_plain :: "Mount \<Rightarrow> bool" where
  "mount_plain m \<longleftrightarrow> no_nul (mo_mDestination m) \<and> no_nul (mo_mType m) \<and> no_nul (mo_mSource m) \<and> list_all no_nul (mo_mOptions m)"

definition resource_plain :: "ResourceInfo \<Rightarrow> bool" where
  "resource_plain r \<longleftrightarrow> no_nul (rc_mName r) \<and> list_all no_nul (rc_mGroups r) \<and> list_all mount_plain (rc_mMounts r) \<and>
     list_all no_nul (rc_mEnv r) \<and> list_all (\<lambda>h. no_nul (ho_mIP h) \<and> no_nul (ho_mHostname h)) (rc_mHosts r)"

definition config_plain :: "NodeConfig \<Rightarrow> bool" where
  "config_plain c \<longleftrightarrow> no_nul (nf_mVersion c) \<and> no_nul (nf_mNodeType c) \<and> list_all device_plain (nf_mDevices c) \<and>
     list_all resource_plain (nf_mResources c) \<and> list_all no_nul (nf_mLabels c)"

text \<open>Loops and strings.\<close>

lemma fill_each_ok:
  assumes "length xs = length ys" "fill_each f (map g xs) ys = (ENone, zs)"
    and "\<And>x y z. x \<in> set xs \<Longrightarrow> f (g x) y = (ENone, z) \<Longrightarrow> z = m x y"
  shows "zs = map2 m xs ys"
  using assms
proof (induction xs ys arbitrary: zs rule: list_induct2)
  case (Cons x xs y ys)
  from Cons.prems(1) obtain y' ys' where "f (g x) y = (ENone, y')" "fill_each f (map g xs) ys = (ENone, ys')" "zs = y' # ys'"
    by (auto split: prod.splits if_splits)
  with Cons.IH Cons.prems(2) show ?case by simp
qed simp

lemma str_map: "\<forall>s. str (Some s) = s \<Longrightarrow> list_all no_nul xs \<Longrightarrow> map (\<lambda>x. str (Some (cstr x))) xs = xs"
  by (auto simp: list_all_iff intro: map_idI)

lemma resized: "resize_ok d f \<Longrightarrow> f n xs = (ENone, ys) \<Longrightarrow> ys = take n xs @ replicate (n - length xs) d"
  by (simp add: resize_ok_def)

lemma signed_back:
  fixes n :: u64
  assumes "n < 2 ^ 31"
  shows "scast (ucast n :: u32) = n"
proof -
  have "uint n < 2 ^ 31" using assms by (simp add: word_less_def)
  moreover have "- (2 ^ 31) \<le> uint n" by (rule order_trans [of _ 0]) simp_all
  ultimately have "signed_take_bit 31 (uint n) = uint n" by (rule signed_take_bit_int_eq_self [rotated])
  then have "sint (ucast n :: u32) = uint n" by (simp add: signed_ucast_eq)
  then show ?thesis by (metis of_int_sint word_of_int_uint scast_eq)
qed

text \<open>What each filling step makes of a structure that was written.\<close>

lemma device_back:
  assumes "rm_ok env" "device_plain a" "FillAosStruct_device env (FillJSONStruct_device a) b = (ENone, c)"
  shows "c = merge_device a b"
  using assms str_map [of "re_str env"]
  by (auto simp: rm_ok_def device_plain_def FillAosStruct_device_def FillJSONStruct_device_def merge_device_def Let_def signed_back comp_def
      dest!: push_checked_all split: prod.splits if_splits)

lemma mount_back:
  assumes "rm_ok env" "mount_plain a" "FillAosStruct_mount env (FillJSONStruct_mount a) b = (ENone, c)"
  shows "c = merge_mount a b"
  using assms str_map [of "re_str env"]
  by (auto simp: rm_ok_def mount_plain_def FillAosStruct_mount_def FillJSONStruct_mount_def merge_mount_def Let_def comp_def
      dest!: push_checked_all split: prod.splits if_splits)

text \<open>An array that is resized and filled holds the merge.\<close>

lemma array_back:
  assumes "resize_ok d rz" "rz (length as) bs = (ENone, ys)" "fill_each f (map g as) ys = (ENone, zs)"
    and "\<And>x y z. x \<in> set as \<Longrightarrow> f (g x) y = (ENone, z) \<Longrightarrow> z = mrg x y"
  shows "zs = merge_all d mrg as bs"
proof -
  have ys: "ys = take (length as) bs @ replicate (length as - length bs) d" using assms(1,2) by (rule resized)
  then have "length as = length ys" by simp
  from fill_each_ok [OF this assms(3)] assms(4) show ?thesis by (simp add: merge_all_def ys)
qed

lemma mounts_back:
  assumes "rm_ok env" "list_all mount_plain (rc_mMounts a)" "FillAosStruct_mounts env (FillJSONStruct_resource a) bs = (ENone, ms)"
  shows "ms = merge_all Mount_empty merge_mount (rc_mMounts a) bs"
  using assms array_back [of Mount_empty "re_mounts env" "rc_mMounts a" bs _ "FillAosStruct_mount env" FillJSONStruct_mount ms merge_mount]
    mount_back [OF assms(1)]
  by (auto simp: rm_ok_def FillAosStruct_mounts_def FillJSONStruct_resource_def list_all_iff split: prod.splits if_splits)

lemma merge_hosts: "merge_all Host_empty (\<lambda>a b. a) as bs = as"
  by (rule nth_equalityI) (auto simp: merge_all_def)

lemma hosts_back:
  assumes "rm_ok env" "list_all (\<lambda>h. no_nul (ho_mIP h) \<and> no_nul (ho_mHostname h)) (rc_mHosts a)"
    and "FillAosStruct_hosts env (FillJSONStruct_resource a) bs = (ENone, hs)"
  shows "hs = rc_mHosts a"
proof -
  have "z = x" if "x \<in> set (rc_mHosts a)" "FillAosStruct_host env (FillJSONStruct_host x) y = (ENone, z)" for x y z
    using that assms(1,2) by (auto simp: rm_ok_def FillAosStruct_host_def FillJSONStruct_host_def list_all_iff)
  then have "hs = merge_all Host_empty (\<lambda>a b. a) (rc_mHosts a) bs"
    using assms(1,3) array_back [of Host_empty "re_hosts env" "rc_mHosts a" bs _ "FillAosStruct_host env" FillJSONStruct_host hs "\<lambda>a b. a"]
    by (auto simp: rm_ok_def FillAosStruct_hosts_def FillJSONStruct_resource_def split: prod.splits if_splits)
  then show ?thesis by (simp add: merge_hosts)
qed

lemma resource_back:
  assumes "rm_ok env" "resource_plain a" "FillAosStruct_resource env (FillJSONStruct_resource a) b = (ENone, c)"
  shows "c = merge_resource a b"
proof -
  let ?j = "FillJSONStruct_resource a"
  from assms(3) obtain gs ms es hs where
    s: "push_checked (re_cMaxNumGroups env) (rc_mGroups b) (map (re_str env) (jre_groups ?j)) = (ENone, gs)"
      "FillAosStruct_mounts env ?j (rc_mMounts b) = (ENone, ms)"
      "push_checked (re_cMaxNumEnvVariables env) (rc_mEnv b) (map (re_str env) (jre_env ?j)) = (ENone, es)"
      "FillAosStruct_hosts env ?j (rc_mHosts b) = (ENone, hs)"
      "c = \<lparr>rc_mName = re_str env (jre_name ?j), rc_mGroups = gs, rc_mMounts = ms, rc_mEnv = es, rc_mHosts = hs\<rparr>"
    by (cases b) (auto simp: FillAosStruct_resource_def Let_def split: prod.splits if_splits)
  have "ms = merge_all Mount_empty merge_mount (rc_mMounts a) (rc_mMounts b)" "hs = rc_mHosts a"
    using assms(2) mounts_back [OF assms(1) _ s(2)] hosts_back [OF assms(1) _ s(4)] by (simp_all add: resource_plain_def)
  then show ?thesis
    using s(5) push_checked_all [OF s(1)] push_checked_all [OF s(3)] assms(1,2) str_map [of "re_str env"]
    by (simp add: merge_resource_def rm_ok_def resource_plain_def FillJSONStruct_resource_def comp_def)
qed

lemma json_of_config_fields:
  "jnc_version (json_of_config c) = Some (cstr (nf_mVersion c))" "jnc_nodeType (json_of_config c) = Some (cstr (nf_mNodeType c))"
  "jnc_devices (json_of_config c) = map FillJSONStruct_device (nf_mDevices c)"
  "jnc_resources (json_of_config c) = map FillJSONStruct_resource (nf_mResources c)"
  "jnc_labels (json_of_config c) = map (\<lambda>s. Some (cstr s)) (nf_mLabels c)" "jnc_priority (json_of_config c) = nf_mPriority c"
  by (simp_all add: json_of_config_def json_NodeConfig_init_def FillJSONStruct_devices_def FillJSONStruct_resources_def Let_def)

lemma devices_back:
  assumes "rm_ok env" "list_all device_plain (nf_mDevices a)" "FillAosStruct_devices env (json_of_config a) bs = (ENone, ds)"
  shows "ds = merge_all DeviceInfo_empty merge_device (nf_mDevices a) bs"
  using assms array_back [of DeviceInfo_empty "re_devices env" "nf_mDevices a" bs _ "FillAosStruct_device env" FillJSONStruct_device ds merge_device]
    device_back [OF assms(1)]
  by (auto simp: rm_ok_def FillAosStruct_devices_def json_of_config_fields list_all_iff split: prod.splits if_splits)

lemma resources_back:
  assumes "rm_ok env" "list_all resource_plain (nf_mResources a)" "FillAosStruct_resources env (json_of_config a) bs = (ENone, rs)"
  shows "rs = merge_all ResourceInfo_empty merge_resource (nf_mResources a) bs"
  using assms array_back [of ResourceInfo_empty "re_resources env" "nf_mResources a" bs _ "FillAosStruct_resource env" FillJSONStruct_resource rs merge_resource]
    resource_back [OF assms(1)]
  by (auto simp: rm_ok_def FillAosStruct_resources_def json_of_config_fields list_all_iff split: prod.splits if_splits)

lemma merge_empty_device: "merge_device a DeviceInfo_empty = a"
  by (simp add: merge_device_def DeviceInfo_empty_def)

lemma merge_all_empty: "(\<And>x. x \<in> set as \<Longrightarrow> mrg x d = x) \<Longrightarrow> merge_all d mrg as [] = as"
  by (rule nth_equalityI) (auto simp: merge_all_def)

lemma merge_empty_resource: "merge_resource a ResourceInfo_empty = a"
  by (simp add: merge_resource_def ResourceInfo_empty_def merge_all_empty merge_mount_def Mount_empty_def)

lemma merge_empty: "merge_config a NodeConfig_empty = a"
  by (simp add: merge_config_def NodeConfig_empty_def merge_all_empty merge_empty_device merge_empty_resource)

text \<open>C24. A node configuration is read as it was written: when a plain configuration is written to JSON
  and the text is read without an error, the object holds that configuration merged with what it held, the
  groups, host devices, mount options, variables and labels behind the old ones; an empty object holds exactly
  what was written.\<close>

theorem node_config_roundtrip:
  assumes "rm_ok env" "config_plain a" "jk_plain (re_json env) (json_of_config a)"
    and "NodeConfigToJSON env a = Inr json" "NodeConfigFromJSON env json b = (ENone, c)"
  shows "c = merge_config a b \<and> (b = NodeConfig_empty \<longrightarrow> c = a)"
proof -
  let ?j = "json_of_config a"
  have p: "jk_parse (re_json env) (re_copy env json) json_NodeConfig_init = (63, ?j)"
    using assms(1,3,4) by (auto simp: rm_ok_def codec_ok_def NodeConfigToJSON_def split: prod.splits if_splits)
  from assms(5) p obtain ds rs ls where
    s: "FillAosStruct_devices env ?j (nf_mDevices b) = (ENone, ds)" "FillAosStruct_resources env ?j (nf_mResources b) = (ENone, rs)"
      "push_checked (re_cMaxNumNodeLabels env) (nf_mLabels b) (map (re_str env) (jnc_labels ?j)) = (ENone, ls)"
      "c = \<lparr>nf_mVersion = re_str env (jnc_version ?j), nf_mNodeType = re_str env (jnc_nodeType ?j), nf_mDevices = ds, nf_mResources = rs,
            nf_mLabels = ls, nf_mPriority = jnc_priority ?j\<rparr>"
    by (cases b) (auto simp: NodeConfigFromJSON_def Let_def split: prod.splits if_splits)
  have "ds = merge_all DeviceInfo_empty merge_device (nf_mDevices a) (nf_mDevices b)"
    "rs = merge_all ResourceInfo_empty merge_resource (nf_mResources a) (nf_mResources b)"
    using assms(2) devices_back [OF assms(1) _ s(1)] resources_back [OF assms(1) _ s(2)] by (simp_all add: config_plain_def)
  then have "c = merge_config a b"
    using s(4) push_checked_all [OF s(3)] assms(1,2) str_map [of "re_str env"]
    by (simp add: merge_config_def rm_ok_def config_plain_def json_of_config_fields comp_def)
  then show ?thesis using merge_empty by auto
qed

text \<open>A resize of a given capacity, and a node with one device.\<close>

definition demo_resize :: "nat \<Rightarrow> 'x \<Rightarrow> nat \<Rightarrow> 'x list \<Rightarrow> Error \<times> 'x list" where
  "demo_resize cap d n xs = (if n \<le> cap then (ENone, take n xs @ replicate (n - length xs) d) else (ELib ''Resize'', xs))"

lemma demo_resize_ok: "resize_ok d (demo_resize cap d)"
  by (simp add: resize_ok_def demo_resize_def)

definition demo_config :: NodeConfig where
  "demo_config = \<lparr>nf_mVersion = ''1.0.0'', nf_mNodeType = ''main'',
     nf_mDevices = [\<lparr>dv_mName = ''gpu'', dv_mSharedCount = 2, dv_mGroups = [''video''], dv_mHostDevices = [''/dev/gpu'']\<rparr>],
     nf_mResources = [], nf_mLabels = [''l''], nf_mPriority = 1\<rparr>"

definition demo_rm :: rm_env where
  "demo_rm = \<lparr>re_json = demo_codec 6 (json_of_config demo_config), re_str = (\<lambda>p. case p of None \<Rightarrow> [] | Some s \<Rightarrow> s), re_copy = (\<lambda>s. s),
     re_Resize = (\<lambda>s. ENone), re_devices = demo_resize 4 DeviceInfo_empty, re_resources = demo_resize 4 ResourceInfo_empty,
     re_mounts = demo_resize 4 Mount_empty, re_hosts = demo_resize 4 Host_empty, re_cMaxNumGroups = 4, re_cMaxNumHostDevices = 4,
     re_cFSMountMaxNumOptions = 4, re_cMaxNumEnvVariables = 4, re_cMaxNumNodeLabels = 4\<rparr>"

lemma demo_rm_ok: "rm_ok demo_rm"
  by (simp add: rm_ok_def demo_rm_def demo_codec_ok demo_resize_ok)

text \<open>Reading the configuration into an object that already holds it doubles the lists of its device.\<close>

lemma node_config_roundtrip_witness:
  "NodeConfigFromJSON demo_rm ''{}'' demo_config = (ENone, demo_config\<lparr>nf_mLabels := [''l'', ''l''],
     nf_mDevices := [\<lparr>dv_mName = ''gpu'', dv_mSharedCount = 2, dv_mGroups = [''video'', ''video''], dv_mHostDevices = [''/dev/gpu'', ''/dev/gpu'']\<rparr>]\<rparr>)"
proof -
  have j: "NodeConfigToJSON demo_rm demo_config = Inr ''{}''" "jk_plain (re_json demo_rm) (json_of_config demo_config)" "config_plain demo_config"
    by (simp_all add: NodeConfigToJSON_def demo_rm_def demo_codec_def config_plain_def device_plain_def demo_config_def no_nul_def)
  obtain c where c: "NodeConfigFromJSON demo_rm ''{}'' demo_config = (ENone, c)"
    by (simp add: NodeConfigFromJSON_def demo_rm_def demo_codec_def demo_config_def FillAosStruct_devices_def FillAosStruct_resources_def
        json_of_config_fields demo_resize_def FillAosStruct_device_def FillJSONStruct_device_def Let_def)
  have "c = merge_config demo_config demo_config"
    using node_config_roundtrip [OF demo_rm_ok j(3,2,1) c] by blast
  then show ?thesis
    using c by (simp add: merge_config_def demo_config_def merge_all_def merge_device_def)
qed

end
