(* ===== verification/Runner.thy ===== *)
theory Runner
  imports Prelude
begin

text \<open>
  \<open>src/runner/runner.cpp\<close> and \<open>src/runner/consolereader.cpp\<close>: starting and stopping instances as
  Xen domains, and the reader that logs their consoles line by line. The hypervisor's libraries
  are parameters on a state \<open>'h\<close>. The pointer that a callback is registered with is the number of the handler's
  place in the array of handlers.
\<close>

section \<open>Parameters and state\<close>

record ConsoleHandler =
  ch_mInstanceID :: string
  ch_mBuffer :: string

text \<open>
  \<open>find_domain_by_name\<close>, \<open>get_domain\<close> with the domain's name, \<open>set_console_feed_cb\<close> and the
  place that is registered for a domain; \<open>xrun_run\<close> and \<open>xrun_kill\<close>; of the library, the trimming of a string, and the removal of
  an array's element with the lines that destructors log meanwhile.
\<close>

record 'h runner_env =
  ru_find :: "'h \<Rightarrow> string \<Rightarrow> nat"
  ru_get :: "'h \<Rightarrow> nat \<Rightarrow> string option"
  ru_set_cb :: "'h \<Rightarrow> nat \<Rightarrow> nat option \<Rightarrow> int \<times> 'h"
  ru_feed :: "'h \<Rightarrow> nat \<Rightarrow> nat option"
  ru_run :: "'h \<Rightarrow> string \<Rightarrow> nat \<Rightarrow> string \<Rightarrow> int \<times> 'h"
  ru_kill :: "'h \<Rightarrow> string \<Rightarrow> int \<times> 'h"
  ru_Trim :: "string \<Rightarrow> string"
  ru_Erase :: "nat \<Rightarrow> ConsoleHandler list \<Rightarrow> ConsoleHandler list \<times> (string \<times> string) list"
  ru_cMaxLineLen :: nat
  ru_cMaxNumInstances :: nat

text \<open>The handlers, the hypervisor, and the lines logged with the instance they are logged for.\<close>

record 'h console_sys =
  cs_mHandlers :: "ConsoleHandler list"
  cs_hv :: 'h
  cs_log :: "(string \<times> string) list"

section \<open>The handler of a console\<close>

definition is_end :: "char \<Rightarrow> bool" where
  "is_end c \<longleftrightarrow> c = CHR 0x0A \<or> c = CHR 0x00"

definition Handler_Log :: "'h runner_env \<Rightarrow> ConsoleHandler \<Rightarrow> ConsoleHandler \<times> (string \<times> string) list" where
  "Handler_Log env h = (h\<lparr>ch_mBuffer := []\<rparr>, [(ch_mInstanceID h, ru_Trim env (ch_mBuffer h))])"

definition Handler_OnConsoleFeed :: "'h runner_env \<Rightarrow> char \<Rightarrow> ConsoleHandler \<Rightarrow> ConsoleHandler \<times> (string \<times> string) list" where
  "Handler_OnConsoleFeed env c h =
     (let (h, l1) = (if length (ch_mBuffer h) = ru_cMaxLineLen env then Handler_Log env h else (h, []));
          (h, l2) = (if is_end c then Handler_Log env h else (h\<lparr>ch_mBuffer := ch_mBuffer h @ [c]\<rparr>, []))
      in (h, l1 @ l2))"

fun Handler_feeds :: "'h runner_env \<Rightarrow> string \<Rightarrow> ConsoleHandler \<Rightarrow> ConsoleHandler \<times> (string \<times> string) list" where
  "Handler_feeds env [] h = (h, [])"
| "Handler_feeds env (c # cs) h =
     (case Handler_OnConsoleFeed env c h of (h, l1) \<Rightarrow> case Handler_feeds env cs h of (h, l2) \<Rightarrow> (h, l1 @ l2))"

section \<open>The console reader\<close>

definition DomainByInstanceID :: "'h runner_env \<Rightarrow> 'h \<Rightarrow> string \<Rightarrow> Error + nat \<times> string" where
  "DomainByInstanceID env hv i =
     (let d = ru_find env hv (cstr i) in
      if d = 0 then Inl (AOS_ERROR_WRAP (EEnum eNotFound))
      else case ru_get env hv d of None \<Rightarrow> Inl (AOS_ERROR_WRAP (EEnum eNotFound)) | Some n \<Rightarrow> Inr (d, n))"

text \<open>The place of the first handler of an instance.\<close>

fun handler_index :: "string \<Rightarrow> ConsoleHandler list \<Rightarrow> nat option" where
  "handler_index i [] = None"
| "handler_index i (h # hs) = (if ch_mInstanceID h = i then Some 0 else map_option Suc (handler_index i hs))"

definition Subscribe :: "'h runner_env \<Rightarrow> string \<Rightarrow> 'h console_sys \<Rightarrow> Error \<times> 'h console_sys" where
  "Subscribe env i s =
     (case DomainByInstanceID env (cs_hv s) i of
        Inl err \<Rightarrow> (AOS_ERROR_WRAP err, s)
      | Inr (d, n) \<Rightarrow>
          if handler_index i (cs_mHandlers s) \<noteq> None then (AOS_ERROR_WRAP (EEnum eAlreadyExist), s)
          else (case PushBack (ru_cMaxNumInstances env) (cs_mHandlers s) \<lparr>ch_mInstanceID = n, ch_mBuffer = []\<rparr> of
                  (hs, err) \<Rightarrow>
                    if err \<noteq> ENone then (AOS_ERROR_WRAP err, s)
                    else (case ru_set_cb env (cs_hv s) d (Some (length hs - 1)) of
                            (ret, hv) \<Rightarrow> ((if ret \<noteq> 0 then AOS_ERROR_WRAP (error_of_int (- ret)) else ENone),
                              s\<lparr>cs_mHandlers := hs, cs_hv := hv\<rparr>))))"

definition Unsubscribe :: "'h runner_env \<Rightarrow> string \<Rightarrow> 'h console_sys \<Rightarrow> Error \<times> 'h console_sys" where
  "Unsubscribe env i s =
     (case DomainByInstanceID env (cs_hv s) i of
        Inl err \<Rightarrow> (AOS_ERROR_WRAP err, s)
      | Inr (d, n) \<Rightarrow>
          let s = s\<lparr>cs_hv := snd (ru_set_cb env (cs_hv s) d None)\<rparr> in
          case handler_index i (cs_mHandlers s) of
            None \<Rightarrow> (AOS_ERROR_WRAP (EEnum eNotFound), s)
          | Some k \<Rightarrow>
              (case ru_Erase env k (cs_mHandlers s) of
                 (hs, ls) \<Rightarrow> (ENone, s\<lparr>cs_mHandlers := hs, cs_log := cs_log s @ ls\<rparr>)))"

text \<open>
  The hypervisor calls the registered function with the registered pointer; \<open>None\<close> when the
  pointer is past the handlers, to one that has been destroyed.
\<close>

definition OnConsoleFeed :: "'h runner_env \<Rightarrow> nat \<Rightarrow> char \<Rightarrow> 'h console_sys \<Rightarrow> 'h console_sys option" where
  "OnConsoleFeed env d c s =
     (case ru_feed env (cs_hv s) d of
        None \<Rightarrow> Some s
      | Some k \<Rightarrow>
          if k < length (cs_mHandlers s)
          then (case Handler_OnConsoleFeed env c (cs_mHandlers s ! k) of
                  (h, ls) \<Rightarrow> Some (s\<lparr>cs_mHandlers := (cs_mHandlers s)[k := h], cs_log := cs_log s @ ls\<rparr>))
          else None)"

fun console_output :: "'h runner_env \<Rightarrow> nat \<Rightarrow> string \<Rightarrow> 'h console_sys \<Rightarrow> 'h console_sys option" where
  "console_output env d [] s = Some s"
| "console_output env d (c # cs) s = (case OnConsoleFeed env d c s of None \<Rightarrow> None | Some s \<Rightarrow> console_output env d cs s)"

section \<open>The runner\<close>

datatype InstanceRunState = eRunActive | eRunFailed

record RunStatus =
  rt_mInstanceID :: string
  rt_mState :: InstanceRunState
  rt_mError :: Error

definition StartInstance :: "'h runner_env \<Rightarrow> string \<Rightarrow> string \<Rightarrow> 'h console_sys \<Rightarrow> RunStatus \<times> 'h console_sys" where
  "StartInstance env i dir s =
     (let st = \<lparr>rt_mInstanceID = i, rt_mState = eRunActive, rt_mError = ENone\<rparr>;
          (ret, hv) = ru_run env (cs_hv s) (cstr dir) 0 (cstr i);
          st = (if ret \<noteq> 0 then st\<lparr>rt_mState := eRunFailed, rt_mError := AOS_ERROR_WRAP (error_of_int ret)\<rparr> else st);
          (err, s) = Subscribe env i (s\<lparr>cs_hv := hv\<rparr>)
      in (st, s))"

definition StopInstance :: "'h runner_env \<Rightarrow> string \<Rightarrow> 'h console_sys \<Rightarrow> Error \<times> 'h console_sys" where
  "StopInstance env i s =
     (let (err, s) = Unsubscribe env i s;
          (ret, hv) = ru_kill env (cs_hv s) (cstr i);
          s = s\<lparr>cs_hv := hv\<rparr>
      in if ret \<noteq> 0 then (AOS_ERROR_WRAP (error_of_int ret), s) else (ENone, s))"

section \<open>The lines of a console\<close>

text \<open>A line is logged in pieces of the buffer's size and a shorter last one, which may be empty.\<close>

function pieces :: "nat \<Rightarrow> string \<Rightarrow> string list" where
  "pieces cap l = (if cap = 0 \<or> length l < cap then [l] else take cap l # pieces cap (drop cap l))"
  by pat_completeness auto
termination by (relation "measure (\<lambda>(cap, l). length l)") auto

declare pieces.simps [simp del]

text \<open>Of a line that has not ended, what has been logged and what is in the buffer.\<close>

function pending_line :: "nat \<Rightarrow> string \<Rightarrow> string list \<times> string" where
  "pending_line cap l = (if cap = 0 \<or> length l \<le> cap then ([], l)
     else (case pending_line cap (drop cap l) of (ls, b) \<Rightarrow> (take cap l # ls, b)))"
  by pat_completeness auto
termination by (relation "measure (\<lambda>(cap, l). length l)") auto

declare pending_line.simps [simp del]

text \<open>The pieces that a text is logged in, and the buffer after it.\<close>

function console_pieces :: "nat \<Rightarrow> string \<Rightarrow> string list \<times> string" where
  "console_pieces cap cs =
     (case dropWhile (\<lambda>c. \<not> is_end c) cs of
        [] \<Rightarrow> pending_line cap cs
      | _ # rest \<Rightarrow> (case console_pieces cap rest of (ls, b) \<Rightarrow> (pieces cap (takeWhile (\<lambda>c. \<not> is_end c) cs) @ ls, b)))"
  by pat_completeness auto
termination
proof (relation "measure (\<lambda>(cap, cs). length cs)")
  fix cap :: nat and cs rest :: string and c
  assume "dropWhile (\<lambda>c. \<not> is_end c) cs = c # rest"
  then have "length (c # rest) \<le> length cs" by (metis length_dropWhile_le)
  then show "((cap, rest), (cap, cs)) \<in> measure (\<lambda>(cap, cs). length cs)" by simp
qed simp

declare console_pieces.simps [simp del]

lemma feed_line:
  assumes "0 < cap" "cap = ru_cMaxLineLen env" "length (ch_mBuffer h) \<le> cap" "\<forall>c \<in> set l. \<not> is_end c"
  shows "Handler_feeds env l h = (h\<lparr>ch_mBuffer := snd (pending_line cap (ch_mBuffer h @ l))\<rparr>,
      map (\<lambda>p. (ch_mInstanceID h, ru_Trim env p)) (fst (pending_line cap (ch_mBuffer h @ l))))"
  using assms(3,4)
proof (induction l arbitrary: h)
  case Nil
  then show ?case by (simp add: pending_line.simps [of cap])
next
  case (Cons c l)
  show ?case
  proof (cases "length (ch_mBuffer h) = cap")
    case True
    let ?h = "h\<lparr>ch_mBuffer := [c]\<rparr>"
    have "pending_line cap (ch_mBuffer h @ c # l) = (ch_mBuffer h # fst (pending_line cap (c # l)), snd (pending_line cap (c # l)))"
      using True assms(1) by (subst pending_line.simps) (simp add: split_beta)
    then show ?thesis
      using True Cons.prems Cons.IH [of ?h] assms(1,2)
      by (simp add: Handler_OnConsoleFeed_def Handler_Log_def Let_def)
  next
    case False
    then show ?thesis
      using Cons.prems Cons.IH [of "h\<lparr>ch_mBuffer := ch_mBuffer h @ [c]\<rparr>"] assms(2)
      by (simp add: Handler_OnConsoleFeed_def Let_def)
  qed
qed

lemma pending_bound: "0 < cap \<Longrightarrow> length (snd (pending_line cap l)) \<le> cap"
  by (induction cap l rule: pending_line.induct) (subst pending_line.simps, auto simp: split_beta)

lemma pieces_pending:
  "0 < cap \<Longrightarrow> pieces cap l = fst (pending_line cap l) @ (if length (snd (pending_line cap l)) = cap then [snd (pending_line cap l), []] else [snd (pending_line cap l)])"
proof (induction cap l rule: pending_line.induct)
  case (1 cap l)
  then show ?case
    by (subst pieces.simps, subst (1 2 3 4) pending_line.simps) (auto simp: split_beta pieces.simps [of cap "[]"])
qed

lemma Handler_feeds_append:
  "Handler_feeds env (xs @ ys) h =
     (case Handler_feeds env xs h of (h, l1) \<Rightarrow> case Handler_feeds env ys h of (h, l2) \<Rightarrow> (h, l1 @ l2))"
  by (induction xs arbitrary: h) (auto split: prod.splits)

lemma console_pieces_line: "\<forall>c \<in> set cs. \<not> is_end c \<Longrightarrow> console_pieces cap cs = pending_line cap cs"
  by (subst console_pieces.simps) (simp add: dropWhile_eq_Nil_conv [THEN iffD2])

lemma console_pieces_end:
  "\<forall>c \<in> set l. \<not> is_end c \<Longrightarrow> is_end c \<Longrightarrow> console_pieces cap (l @ c # rest) = (pieces cap l @ fst (console_pieces cap rest), snd (console_pieces cap rest))"
  by (subst console_pieces.simps) (simp add: split_beta)

text \<open>A handler logs exactly the pieces of the text and keeps the unfinished piece in its buffer.\<close>

lemma handler_lines:
  assumes "0 < ru_cMaxLineLen env" "ch_mBuffer h = []"
  shows "Handler_feeds env cs h = (h\<lparr>ch_mBuffer := snd (console_pieces (ru_cMaxLineLen env) cs)\<rparr>,
      map (\<lambda>p. (ch_mInstanceID h, ru_Trim env p)) (fst (console_pieces (ru_cMaxLineLen env) cs))) \<and>
    length (snd (console_pieces (ru_cMaxLineLen env) cs)) \<le> ru_cMaxLineLen env"
proof -
  let ?cap = "ru_cMaxLineLen env"
  have "Handler_feeds env cs h = (h\<lparr>ch_mBuffer := snd (console_pieces ?cap cs)\<rparr>,
      map (\<lambda>p. (ch_mInstanceID h, ru_Trim env p)) (fst (console_pieces ?cap cs))) \<and> length (snd (console_pieces ?cap cs)) \<le> ?cap"
    using assms(2)
  proof (induction cs arbitrary: h rule: length_induct)
    case (1 cs)
    show ?case
    proof (cases "\<forall>c \<in> set cs. \<not> is_end c")
      case True
      then show ?thesis
        using feed_line [OF assms(1) refl, of h cs] 1(2) pending_bound [OF assms(1)] by (simp add: console_pieces_line)
    next
      case False
      then obtain l c rest where cs: "cs = l @ c # rest" and l: "\<forall>c \<in> set l. \<not> is_end c" and c: "is_end c"
        using split_list_first_prop [of cs is_end] by auto
      then have "length rest < length cs" by simp
      note IH = 1(1) [rule_format, OF this, of "h\<lparr>ch_mBuffer := []\<rparr>"]
      then show ?thesis
        using feed_line [OF assms(1) refl, of h l] l c 1(2)
        by (simp add: cs console_pieces_end pieces_pending [OF assms(1)] Handler_feeds_append split_beta Handler_OnConsoleFeed_def
            Handler_Log_def Let_def)
    qed
  qed
  then show ?thesis .
qed

section \<open>The hypervisor and the array of handlers\<close>

text \<open>
  Registering changes what is registered for the domain and nothing else, or nothing when it
  fails; a domain that is found by a name has it, and names are unique. Removing an element of an array moves the later ones
  down by one place.
\<close>

definition hv_ok :: "'h runner_env \<Rightarrow> bool" where
  "hv_ok env \<longleftrightarrow>
     (\<forall>hv d p ret hv'. ru_set_cb env hv d p = (ret, hv') \<longrightarrow> ru_find env hv' = ru_find env hv \<and> ru_get env hv' = ru_get env hv \<and>
        ru_feed env hv' = (if ret = 0 then (ru_feed env hv)(d := p) else ru_feed env hv)) \<and>
     (\<forall>hv d d' n. ru_get env hv d = Some n \<longrightarrow> ru_get env hv d' = Some n \<longrightarrow> d = d')"

definition erase_ok :: "'h runner_env \<Rightarrow> bool" where
  "erase_ok env \<longleftrightarrow> (\<forall>k hs. fst (ru_Erase env k hs) = take k hs @ drop (Suc k) hs)"

text \<open>Every registered pointer is to the handler of its domain.\<close>

definition feeds_ok :: "'h runner_env \<Rightarrow> 'h console_sys \<Rightarrow> bool" where
  "feeds_ok env s \<longleftrightarrow> (\<forall>d k. ru_feed env (cs_hv s) d = Some k \<longrightarrow>
     k < length (cs_mHandlers s) \<and> ru_get env (cs_hv s) d = Some (ch_mInstanceID (cs_mHandlers s ! k)))"

lemma set_cb_effect:
  assumes "hv_ok env" "ru_set_cb env hv d p = (ret, hv')"
  shows "ru_find env hv' = ru_find env hv" "ru_get env hv' = ru_get env hv"
    "ru_feed env hv' = (if ret = 0 then (ru_feed env hv)(d := p) else ru_feed env hv)"
  using assms unfolding hv_ok_def by blast+

lemma domain_found: "DomainByInstanceID env hv i = Inr (d, n) \<longleftrightarrow> d = ru_find env hv (cstr i) \<and> d \<noteq> 0 \<and> ru_get env hv d = Some n"
  by (auto simp: DomainByInstanceID_def Let_def split: option.split)

lemma domain_unique: "hv_ok env \<Longrightarrow> ru_get env hv d = Some n \<Longrightarrow> ru_get env hv d' = Some n \<Longrightarrow> d = d'"
  unfolding hv_ok_def by blast

lemma handler_index_Some: "handler_index i hs = Some k \<Longrightarrow> k < length hs \<and> ch_mInstanceID (hs ! k) = i"
  by (induction hs arbitrary: k) (auto split: if_splits)

lemma Subscribe_feeds_ok:
  assumes "hv_ok env" "feeds_ok env s"
  shows "feeds_ok env (snd (Subscribe env i s))"
proof (cases "DomainByInstanceID env (cs_hv s) i")
  case (Inr dn)
  obtain d n where dn: "dn = (d, n)" by (cases dn)
  then have d: "ru_get env (cs_hv s) d = Some n" using Inr by (auto simp: domain_found)
  obtain ret hv where cb: "ru_set_cb env (cs_hv s) d (Some (length (cs_mHandlers s))) = (ret, hv)" by fastforce
  show ?thesis
    using assms(2) Inr dn d set_cb_effect [OF assms(1) cb]
    by (auto simp: Subscribe_def cb feeds_ok_def PushBack_def nth_append intro: less_SucI split: if_splits)
qed (use assms(2) in \<open>simp add: Subscribe_def\<close>)

text \<open>A hypervisor whose domain \<open>d\<close> has a name of \<open>d\<close> letters, and three running instances.\<close>

definition demo_ru :: "((nat \<Rightarrow> bool) \<times> (nat \<rightharpoonup> nat)) runner_env" where
  "demo_ru = \<lparr>ru_find = (\<lambda>(up, f) n. if up (length n) \<and> n = replicate (length n) CHR ''i'' then length n else 0),
     ru_get = (\<lambda>(up, f) d. if up d then Some (replicate d CHR ''i'') else None), ru_set_cb = (\<lambda>(up, f) d p. (0, (up, f(d := p)))),
     ru_feed = snd, ru_run = (\<lambda>(up, f) dir c n. (0, (up(length n := True), f))),
     ru_kill = (\<lambda>(up, f) n. if up (length n) then (0, (up(length n := False), f(length n := None))) else (- 3, (up, f))),
     ru_Trim = (\<lambda>l. l), ru_Erase = (\<lambda>k hs. (take k hs @ drop (Suc k) hs, [])), ru_cMaxLineLen = 4, ru_cMaxNumInstances = 4\<rparr>"

definition demo_cs :: "((nat \<Rightarrow> bool) \<times> (nat \<rightharpoonup> nat)) console_sys" where
  "demo_cs = \<lparr>cs_mHandlers = [\<lparr>ch_mInstanceID = ''i'', ch_mBuffer = []\<rparr>, \<lparr>ch_mInstanceID = ''ii'', ch_mBuffer = []\<rparr>,
     \<lparr>ch_mInstanceID = ''iii'', ch_mBuffer = []\<rparr>], cs_hv = ((\<lambda>d. d \<in> {1, 2, 3}), [1 \<mapsto> 0, 2 \<mapsto> 1, 3 \<mapsto> 2]), cs_log = []\<rparr>"

lemma demo_ru_sel [simp]:
  "ru_find demo_ru (up, f) n = (if up (length n) \<and> n = replicate (length n) CHR ''i'' then length n else 0)"
  "ru_get demo_ru (up, f) d = (if up d then Some (replicate d CHR ''i'') else None)"
  "ru_set_cb demo_ru (up, f) d p = (0, (up, f(d := p)))" "ru_feed demo_ru (up, f) = f"
  "ru_run demo_ru (up, f) dir c n = (0, (up(length n := True), f))"
  "ru_kill demo_ru (up, f) n = (if up (length n) then (0, (up(length n := False), f(length n := None))) else (- 3, (up, f)))"
  "ru_Trim demo_ru l = l" "ru_cMaxLineLen demo_ru = 4" "ru_cMaxNumInstances demo_ru = 4"
  "ru_Erase demo_ru k hs = (take k hs @ drop (Suc k) hs, [])"
  by (simp_all add: demo_ru_def)

lemma demo_ru_ok: "hv_ok demo_ru" "erase_ok demo_ru" "feeds_ok demo_ru demo_cs"
proof -
  show "hv_ok demo_ru"
    unfolding hv_ok_def by (auto simp: fun_eq_iff split: if_splits)
  show "erase_ok demo_ru" by (simp add: erase_ok_def)
  show "feeds_ok demo_ru demo_cs"
    by (auto simp: feeds_ok_def demo_cs_def numeral_eq_Suc split: if_splits)
qed

lemma demo_no_nul [simp]: "cstr ''i'' = ''i''" "cstr ''ii'' = ''ii''" "cstr ''iii'' = ''iii''"
  by (simp_all add: cstr_def)

text \<open>The consoles' callbacks stay attached to the right handlers as long as instances end in the reverse order of
  their starts: subscribing keeps every registered pointer to the handler of its own domain,
  whatever its result, and so does unsubscribing the instance that subscribed last.\<close>

theorem console_feeds_kept:
  assumes "hv_ok env" "erase_ok env" "feeds_ok env s"
  shows "feeds_ok env (snd (Subscribe env i s)) \<and>
    (handler_index j (cs_mHandlers s) = Some (length (cs_mHandlers s) - 1) \<longrightarrow> DomainByInstanceID env (cs_hv s) j = Inr (d, j) \<longrightarrow>
       fst (ru_set_cb env (cs_hv s) d None) = 0 \<longrightarrow> feeds_ok env (snd (Unsubscribe env j s)))"
proof (intro conjI impI)
  show "feeds_ok env (snd (Subscribe env i s))" using assms(1,3) by (rule Subscribe_feeds_ok)
next
  let ?hs = "cs_mHandlers s"
  assume last: "handler_index j ?hs = Some (length ?hs - 1)" and d: "DomainByInstanceID env (cs_hv s) j = Inr (d, j)"
    and cb: "fst (ru_set_cb env (cs_hv s) d None) = 0"
  obtain hv where hv: "ru_set_cb env (cs_hv s) d None = (0, hv)" using cb by (metis prod.collapse)
  have i: "?hs \<noteq> []" "ch_mInstanceID (?hs ! (length ?hs - 1)) = j" using handler_index_Some [OF last] by auto
  have other: "k < length ?hs - 1 \<and> ru_get env (cs_hv s) d' = Some (ch_mInstanceID (?hs ! k))"
    if "d' \<noteq> d" "ru_feed env (cs_hv s) d' = Some k" for d' k
  proof -
    have k: "k < length ?hs" "ru_get env (cs_hv s) d' = Some (ch_mInstanceID (?hs ! k))" using assms(3) that(2) by (auto simp: feeds_ok_def)
    moreover have "k \<noteq> length ?hs - 1"
    proof
      assume "k = length ?hs - 1"
      then have "ru_get env (cs_hv s) d' = Some j" using k i by simp
      moreover have "ru_get env (cs_hv s) d = Some j" using d by (auto simp: domain_found)
      ultimately show False using domain_unique [OF assms(1)] that(1) by metis
    qed
    ultimately show ?thesis by simp
  qed
  have "cs_mHandlers (snd (Unsubscribe env j s)) = take (length ?hs - 1) ?hs" "cs_hv (snd (Unsubscribe env j s)) = hv"
    using assms(2) i(1) by (simp_all add: Unsubscribe_def d last hv erase_ok_def Let_def split_beta)
  then show "feeds_ok env (snd (Unsubscribe env j s))"
    using other set_cb_effect [OF assms(1) hv] by (auto simp: feeds_ok_def split: if_splits)
qed

lemma console_feeds_kept_witness: "feeds_ok demo_ru (snd (Unsubscribe demo_ru ''iii'' demo_cs))"
  using console_feeds_kept [OF demo_ru_ok, of "''i''" "''iii''" 3]
  by (simp add: demo_cs_def DomainByInstanceID_def numeral_eq_Suc)

text \<open>C27. Ending an instance that did not start last misdirects the consoles of those that started after it: the handlers
  move down by one place and the registered pointers do not, so that each such domain's output goes to the handler of
  the next instance, and that of the last to a handler that has been destroyed.\<close>

theorem console_stale_pointers:
  assumes "hv_ok env" "erase_ok env" "feeds_ok env s"
    and "handler_index j (cs_mHandlers s) = Some k0" "DomainByInstanceID env (cs_hv s) j = Inr (dj, n)"
    and "d \<noteq> dj" "ru_feed env (cs_hv s) d = Some k" "k0 < k"
  shows "(Suc k < length (cs_mHandlers s) \<longrightarrow> ru_feed env (cs_hv (snd (Unsubscribe env j s))) d = Some k \<and>
      cs_mHandlers (snd (Unsubscribe env j s)) ! k = cs_mHandlers s ! Suc k) \<and>
    (Suc k = length (cs_mHandlers s) \<longrightarrow> OnConsoleFeed env d c (snd (Unsubscribe env j s)) = None)"
proof -
  let ?hs = "cs_mHandlers s" and ?s = "snd (Unsubscribe env j s)"
  obtain ret hv where hv: "ru_set_cb env (cs_hv s) dj None = (ret, hv)" by fastforce
  have hs: "cs_mHandlers ?s = take k0 ?hs @ drop (Suc k0) ?hs" "cs_hv ?s = hv"
    using assms(2,4,5) hv by (simp_all add: Unsubscribe_def erase_ok_def Let_def split_beta)
  have feed: "ru_feed env (cs_hv ?s) d = Some k" using set_cb_effect [OF assms(1) hv] hs assms(6,7) by simp
  have k0: "k0 < length ?hs" using handler_index_Some [OF assms(4)] by simp
  then have "Suc k < length ?hs \<Longrightarrow> cs_mHandlers ?s ! k = ?hs ! Suc k" using assms(8) hs(1) by (simp add: nth_append)
  moreover have "length (cs_mHandlers ?s) = length ?hs - 1" using hs(1) k0 by simp
  then have "Suc k = length ?hs \<Longrightarrow> \<not> k < length (cs_mHandlers ?s)" by simp
  then have "Suc k = length ?hs \<Longrightarrow> OnConsoleFeed env d c ?s = None" using feed by (simp add: OnConsoleFeed_def)
  ultimately show ?thesis using feed by simp
qed

lemma console_stale_pointers_witness:
  "cs_mHandlers (snd (Unsubscribe demo_ru ''i'' demo_cs)) ! 1 = \<lparr>ch_mInstanceID = ''iii'', ch_mBuffer = []\<rparr>"
  using console_stale_pointers [OF demo_ru_ok, of "''i''" 0 1 "''i''" 2 1]
  by (simp add: demo_cs_def DomainByInstanceID_def)

text \<open>The console of an instance whose domain ended by itself is lost when it is started again: unsubscribing finds no domain and keeps the
  handler, so that the next start cannot subscribe, reports an active instance all the same, and nothing the new
  domain prints is logged.\<close>

theorem console_lost_after_crash:
  assumes "handler_index i (cs_mHandlers s) = Some k" "ru_find env (cs_hv s) (cstr i) = 0" "ru_kill env (cs_hv s) (cstr i) = (ret, cs_hv s)"
    and "ru_run env (cs_hv s) (cstr dir) 0 (cstr i) = (0, hv)" "DomainByInstanceID env hv i = Inr (d, i)" "ru_feed env hv d = None"
  shows "Unsubscribe env i s = (EEnum eNotFound, s) \<and> snd (StopInstance env i s) = s \<and>
    StartInstance env i dir s = (\<lparr>rt_mInstanceID = i, rt_mState = eRunActive, rt_mError = ENone\<rparr>, s\<lparr>cs_hv := hv\<rparr>) \<and>
    console_output env d cs (s\<lparr>cs_hv := hv\<rparr>) = Some (s\<lparr>cs_hv := hv\<rparr>)"
proof -
  have u: "Unsubscribe env i s = (EEnum eNotFound, s)" using assms(2) by (simp add: Unsubscribe_def DomainByInstanceID_def)
  moreover have "snd (StopInstance env i s) = s" using u assms(3) by (simp add: StopInstance_def)
  moreover have "StartInstance env i dir s = (\<lparr>rt_mInstanceID = i, rt_mState = eRunActive, rt_mError = ENone\<rparr>, s\<lparr>cs_hv := hv\<rparr>)"
    using assms(1,4,5) by (simp add: StartInstance_def Subscribe_def)
  moreover have "console_output env d cs (s\<lparr>cs_hv := hv\<rparr>) = Some (s\<lparr>cs_hv := hv\<rparr>)"
    using assms(6) by (induction cs) (simp_all add: OnConsoleFeed_def)
  ultimately show ?thesis by blast
qed

lemma console_lost_after_crash_witness:
  "rt_mState (fst (StartInstance demo_ru ''i'' ''/i'' (demo_cs\<lparr>cs_hv := (\<lambda>d. d = 2, [2 \<mapsto> 1])\<rparr>))) = eRunActive"
  using console_lost_after_crash [of "''i''" "demo_cs\<lparr>cs_hv := (\<lambda>d. d = 2, [2 \<mapsto> 1])\<rparr>" 0 demo_ru "- 3" "''/i''"
      "((\<lambda>d. d = 2)(1 := True), [2 \<mapsto> 1])" 1 "''x''"]
  by (simp add: demo_cs_def DomainByInstanceID_def)

text \<open>The output of a domain goes to the handler of its place alone.\<close>

lemma console_output_handler:
  "ru_feed env (cs_hv s) d = Some k \<Longrightarrow> k < length (cs_mHandlers s) \<Longrightarrow>
   console_output env d cs s = Some (s\<lparr>cs_mHandlers := (cs_mHandlers s)[k := fst (Handler_feeds env cs (cs_mHandlers s ! k))],
     cs_log := cs_log s @ snd (Handler_feeds env cs (cs_mHandlers s ! k))\<rparr>)"
  by (induction cs arbitrary: s) (simp_all add: OnConsoleFeed_def split_beta)

text \<open>C14. What a started domain prints is logged under its instance, completely and in order: once an instance has been started and its
  console subscribed, any text from the domain is logged line by line, each line cut into pieces of the
  buffer's size and a shorter last one, and the buffer never holds more than fits.\<close>

theorem started_console_logged:
  assumes "hv_ok env" "0 < ru_cMaxLineLen env" "ru_run env (cs_hv s) (cstr dir) 0 (cstr i) = (0, hv)"
    and "DomainByInstanceID env hv i = Inr (d, i)" "handler_index i (cs_mHandlers s) = None"
    and "length (cs_mHandlers s) < ru_cMaxNumInstances env" "fst (ru_set_cb env hv d (Some (length (cs_mHandlers s)))) = 0"
    and "StartInstance env i dir s = (st, s1)"
  shows "st = \<lparr>rt_mInstanceID = i, rt_mState = eRunActive, rt_mError = ENone\<rparr> \<and>
    (\<exists>s2. console_output env d cs s1 = Some s2 \<and>
       cs_log s2 = cs_log s @ map (\<lambda>p. (i, ru_Trim env p)) (fst (console_pieces (ru_cMaxLineLen env) cs)) \<and>
       cs_mHandlers s2 = cs_mHandlers s @ [\<lparr>ch_mInstanceID = i, ch_mBuffer = snd (console_pieces (ru_cMaxLineLen env) cs)\<rparr>] \<and>
       length (snd (console_pieces (ru_cMaxLineLen env) cs)) \<le> ru_cMaxLineLen env)"
proof -
  let ?hs = "cs_mHandlers s" and ?h = "\<lparr>ch_mInstanceID = i, ch_mBuffer = []\<rparr>" and ?cap = "ru_cMaxLineLen env"
  obtain hv2 where cb: "ru_set_cb env hv d (Some (length ?hs)) = (0, hv2)" using assms(7) by (metis prod.collapse)
  have s1: "s1 = s\<lparr>cs_mHandlers := ?hs @ [?h], cs_hv := hv2\<rparr>" and st: "st = \<lparr>rt_mInstanceID = i, rt_mState = eRunActive, rt_mError = ENone\<rparr>"
    using assms(3-6,8) cb by (simp_all add: StartInstance_def Subscribe_def)
  have feed: "ru_feed env (cs_hv s1) d = Some (length ?hs)" "length ?hs < length (cs_mHandlers s1)" "cs_mHandlers s1 ! length ?hs = ?h"
    using set_cb_effect [OF assms(1) cb] s1 by simp_all
  have lines: "Handler_feeds env cs ?h = (?h\<lparr>ch_mBuffer := snd (console_pieces ?cap cs)\<rparr>, map (\<lambda>p. (i, ru_Trim env p)) (fst (console_pieces ?cap cs)))"
    "length (snd (console_pieces ?cap cs)) \<le> ?cap"
    using handler_lines [OF assms(2), of ?h cs] by simp_all
  show ?thesis
    using console_output_handler [OF feed(1,2), of cs] feed(3) lines st by (simp add: s1)
qed

lemma started_console_logged_witness:
  "\<exists>s2. console_output demo_ru 1 ''hello'' (snd (StartInstance demo_ru ''i'' ''/i'' \<lparr>cs_mHandlers = [], cs_hv = (\<lambda>d. False, Map.empty), cs_log = []\<rparr>)) = Some s2 \<and>
     cs_log s2 = [(''i'', ''hell'')]"
proof -
  let ?s = "\<lparr>cs_mHandlers = [], cs_hv = (\<lambda>d. False, Map.empty), cs_log = []\<rparr> :: ((nat \<Rightarrow> bool) \<times> (nat \<rightharpoonup> nat)) console_sys"
  have "fst (console_pieces 4 ''hello'') = [''hell'']"
    by (simp add: console_pieces_line is_end_def pending_line.simps)
  moreover obtain st s1 where "StartInstance demo_ru ''i'' ''/i'' ?s = (st, s1)" by fastforce
  moreover note started_console_logged [OF demo_ru_ok(1) _ _ _ _ _ _ this, of "((\<lambda>d. False)(1 := True), Map.empty)" 1 "''hello''"]
  ultimately show ?thesis by (auto simp: DomainByInstanceID_def)
qed

end
