(* ===== verification/Monitoring.thy ===== *)
theory Monitoring
  imports Complex_Main Prelude
begin

text \<open>
  \<open>src/monitoring/resourceusageprovider.cpp\<close>: memory, processor load and disk use of the node and of
  instances. The hypervisor's statistics, the clock and the file system's statistics are parameters. Processor times are 64-bit counters that wrap;
  loads are computed in exact rationals, so that the rounding of \<open>double\<close> is not modelled, and \<open>None\<close>
  is the infinity or NaN of a division by zero.
\<close>

section \<open>Parameters and state\<close>

record xenstat_domain =
  xd_id :: nat
  xd_name :: string
  xd_cpu_ns :: u64
  xd_cur_mem :: u64

record timeval =
  tm_sec :: int
  tm_usec :: int

record fs_statvfs =
  sf_blocks :: u64
  sf_bfree :: u64
  sf_frsize :: u64

text \<open>\<open>xstat_getdominfo\<close> for one domain from a 16-bit number on, \<open>gettimeofday\<close> and \<open>statvfs\<close>.\<close>

record usage_env =
  ue_getdominfo :: "nat \<Rightarrow> int \<times> xenstat_domain"
  ue_now :: timeval
  ue_statvfs :: "string \<Rightarrow> int \<times> fs_statvfs"
  ue_cMaxNumInstances :: nat

record PartitionUsage =
  pu_mName :: string
  pu_mPath :: string
  pu_mUsedSize :: u64

record UsageData =
  ud_mCPU :: "rat option"
  ud_mRAM :: u64
  ud_mPartitions :: "PartitionUsage list"

record InstanceCPUData =
  ic_mInstanceCPUTime :: u64
  ic_mInstanceID :: string
  ic_mInstancePrevTime :: timeval

record ResourceUsageProvider =
  up_mPrevNodeCPUTime :: u64
  up_mPrevTime :: timeval
  up_mPrevInstanceCPUTime :: "InstanceCPUData list"

definition cDom0ID :: nat where
  "cDom0ID = 0"

definition Usage_Init :: Error where
  "Usage_Init = ENone"

section \<open>The node\<close>

definition us_elapsed :: "timeval \<Rightarrow> timeval \<Rightarrow> rat" where
  "us_elapsed cur prev = of_int (tm_sec cur - tm_sec prev) * 1000000 + of_int (tm_usec cur - tm_usec prev)"

definition divide_double :: "rat \<Rightarrow> rat \<Rightarrow> rat option" where
  "divide_double a b = (if b = 0 then None else Some (a / b))"

definition node_load :: "u64 \<Rightarrow> u64 \<Rightarrow> timeval \<Rightarrow> timeval \<Rightarrow> rat option" where
  "node_load cpu prev_cpu cur prev = divide_double (of_nat (unat (cpu - prev_cpu)) * 100 / 1000) (us_elapsed cur prev)"

fun partitions_usage :: "usage_env \<Rightarrow> PartitionUsage list \<Rightarrow> Error \<times> PartitionUsage list" where
  "partitions_usage env [] = (ENone, [])"
| "partitions_usage env (p # ps) =
     (case ue_statvfs env (cstr (pu_mPath p)) of
        (ret, sb) \<Rightarrow>
          if ret \<noteq> 0 then (AOS_ERROR_WRAP (error_of_int ret), p # ps)
          else (case partitions_usage env ps of
                  (err, ps') \<Rightarrow> (err, p\<lparr>pu_mUsedSize := (sf_blocks sb - sf_bfree sb) * sf_frsize sb\<rparr> # ps')))"

definition GetNodeMonitoringData ::
    "usage_env \<Rightarrow> ResourceUsageProvider \<Rightarrow> UsageData \<Rightarrow> Error \<times> ResourceUsageProvider \<times> UsageData" where
  "GetNodeMonitoringData env s md =
     (case ue_getdominfo env cDom0ID of
        (ret, domn) \<Rightarrow>
      if ret < 0 then (AOS_ERROR_WRAP (error_of_int ret), s, md)
      else let md = md\<lparr>ud_mRAM := xd_cur_mem domn, ud_mCPU := Some 0\<rparr>;
               md = (if up_mPrevNodeCPUTime s \<noteq> 0
                     then md\<lparr>ud_mCPU := node_load (xd_cpu_ns domn) (up_mPrevNodeCPUTime s) (ue_now env) (up_mPrevTime s)\<rparr> else md);
               s = s\<lparr>up_mPrevNodeCPUTime := xd_cpu_ns domn, up_mPrevTime := ue_now env\<rparr>;
               (err, ps) = partitions_usage env (ud_mPartitions md)
           in (err, s, md\<lparr>ud_mPartitions := ps\<rparr>))"

section \<open>Instances\<close>

text \<open>
  The loop over the domains up to the one of the instance: an error, no such domain, or the domain.
  The next domain is asked for by a 16-bit number.
\<close>

partial_function (option) search_domain :: "(nat \<Rightarrow> int \<times> xenstat_domain) \<Rightarrow> string \<Rightarrow> nat \<Rightarrow> (Error + xenstat_domain option) option" where
  "search_domain getdominfo i max_domid =
     (case getdominfo (max_domid mod 2 ^ 16) of
        (ret, domn) \<Rightarrow>
          if ret < 0 then Some (Inl (AOS_ERROR_WRAP (error_of_int ret)))
          else if ret = 0 then Some (Inr None)
          else let max_domid = (if xd_id domn + 1 > max_domid then xd_id domn + 1 else max_domid) in
               if i \<noteq> xd_name domn then search_domain getdominfo i max_domid
               else Some (Inr (Some domn)))"

fun cpu_index :: "string \<Rightarrow> InstanceCPUData list \<Rightarrow> nat option" where
  "cpu_index i [] = None"
| "cpu_index i (c # cs) = (if ic_mInstanceID c = i then Some 0 else map_option Suc (cpu_index i cs))"

definition instance_load :: "u64 \<Rightarrow> u64 \<Rightarrow> timeval \<Rightarrow> timeval \<Rightarrow> rat option" where
  "instance_load cpu prev_cpu cur prev = divide_double (of_nat (unat (cpu - prev_cpu)) / 10) (us_elapsed cur prev)"

definition domain_usage ::
    "usage_env \<Rightarrow> string \<Rightarrow> xenstat_domain \<Rightarrow> ResourceUsageProvider \<Rightarrow> UsageData \<Rightarrow> Error \<times> ResourceUsageProvider \<times> UsageData" where
  "domain_usage env i domn s md =
     (let md = md\<lparr>ud_mRAM := xd_cur_mem domn\<rparr>; cs = up_mPrevInstanceCPUTime s; now = ue_now env in
      case cpu_index i cs of
        None \<Rightarrow>
          (case PushBack (ue_cMaxNumInstances env) cs \<lparr>ic_mInstanceCPUTime = xd_cpu_ns domn, ic_mInstanceID = i, ic_mInstancePrevTime = now\<rparr> of
             (cs', err) \<Rightarrow>
               if err \<noteq> ENone then (err, s, md)
               else (ENone, s\<lparr>up_mPrevInstanceCPUTime := cs'\<rparr>, md\<lparr>ud_mCPU := Some 0\<rparr>))
      | Some k \<Rightarrow>
          (ENone, s\<lparr>up_mPrevInstanceCPUTime := cs[k := (cs ! k)\<lparr>ic_mInstanceCPUTime := xd_cpu_ns domn, ic_mInstancePrevTime := now\<rparr>]\<rparr>,
           md\<lparr>ud_mCPU := instance_load (xd_cpu_ns domn) (ic_mInstanceCPUTime (cs ! k)) now (ic_mInstancePrevTime (cs ! k))\<rparr>))"

definition GetInstanceMonitoringData ::
    "usage_env \<Rightarrow> string \<Rightarrow> ResourceUsageProvider \<Rightarrow> UsageData \<Rightarrow> (Error \<times> ResourceUsageProvider \<times> UsageData) option" where
  "GetInstanceMonitoringData env i s md =
     (case search_domain (ue_getdominfo env) i 0 of
        None \<Rightarrow> None
      | Some (Inl err) \<Rightarrow> Some (err, s, md)
      | Some (Inr None) \<Rightarrow> Some (ENone, s, md)
      | Some (Inr (Some domn)) \<Rightarrow> Some (domain_usage env i domn s md))"

section \<open>Properties\<close>

text \<open>The hypervisor answers with the domain of the least number from the given one on; its numbers do not use up the 16 bits.\<close>

definition xen_ok :: "xenstat_domain list \<Rightarrow> (nat \<Rightarrow> int \<times> xenstat_domain) \<Rightarrow> bool" where
  "xen_ok doms q \<longleftrightarrow> sorted_wrt (\<lambda>a b. xd_id a < xd_id b) doms \<and> (\<forall>d \<in> set doms. xd_id d < 2 ^ 16 - 1) \<and>
     (\<forall>n. case find (\<lambda>d. n \<le> xd_id d) doms of None \<Rightarrow> fst (q n) = 0 | Some d \<Rightarrow> q n = (1, d))"

lemma find_from: "\<forall>d \<in> set pre. \<not> P d \<Longrightarrow> find P (pre @ suf) = find P suf"
  by (induction pre) auto

lemma xen_ok_D:
  assumes "xen_ok doms q"
  shows "find (\<lambda>d. n \<le> xd_id d) doms = None \<Longrightarrow> fst (q n) = 0" "find (\<lambda>d. n \<le> xd_id d) doms = Some d \<Longrightarrow> q n = (1, d)"
  using assms by (auto simp: xen_ok_def dest!: spec [of _ n])

lemma search_domain_suffix:
  assumes "xen_ok (pre @ suf) q" "\<forall>d \<in> set pre. xd_id d < m" "\<forall>d \<in> set suf. m \<le> xd_id d" "m < 2 ^ 16"
  shows "search_domain q i m = Some (Inr (find (\<lambda>d. xd_name d = i) suf))"
  using assms
proof (induction suf arbitrary: pre m)
  case Nil
  have "find (\<lambda>d. m \<le> xd_id d) pre = None" using Nil.prems(2) by (auto simp: find_None_iff)
  then have "fst (q m) = 0" using xen_ok_D(1) [OF Nil.prems(1)] by simp
  then show ?case using Nil.prems(4) by (subst search_domain.simps) (simp add: split_beta)
next
  case (Cons d suf)
  have "find (\<lambda>d. m \<le> xd_id d) (pre @ d # suf) = Some d" using Cons.prems(2,3) by (subst find_from) auto
  then have q: "q m = (1, d)" by (rule xen_ok_D(2) [OF Cons.prems(1)])
  have "search_domain q i (xd_id d + 1) = Some (Inr (find (\<lambda>d. xd_name d = i) suf))"
  proof (rule Cons.IH)
    show "xen_ok ((pre @ [d]) @ suf) q" using Cons.prems(1) by simp
    show "\<forall>e \<in> set (pre @ [d]). xd_id e < xd_id d + 1" "\<forall>e \<in> set suf. xd_id d + 1 \<le> xd_id e" "xd_id d + 1 < 2 ^ 16"
      using Cons.prems(1,2,3) by (force simp: xen_ok_def sorted_wrt_append)+
  qed
  moreover have "m mod 2 ^ 16 = m" "max m (xd_id d + 1) = xd_id d + 1" using Cons.prems(3,4) by simp_all
  then have "search_domain q i m = (if i \<noteq> xd_name d then search_domain q i (xd_id d + 1) else Some (Inr (Some d)))"
    using q Cons.prems(3) by (subst search_domain.simps) (simp add: Let_def)
  ultimately show ?case by auto
qed

lemma search_domain_finds: "xen_ok doms q \<Longrightarrow> search_domain q i 0 = Some (Inr (find (\<lambda>d. xd_name d = i) doms))"
  using search_domain_suffix [of "[]" doms q 0 i] by simp

text \<open>C31. Asking for an instance's use always returns: the loop over the domains ends, at the domain with the least
  number that has the instance's name, whose memory is reported; when there is none the call succeeds
  all the same and leaves the caller's data as they were.\<close>

theorem instance_usage_returns:
  assumes "xen_ok doms (ue_getdominfo env)"
  shows "case find (\<lambda>d. xd_name d = i) doms of
      None \<Rightarrow> GetInstanceMonitoringData env i s md = Some (ENone, s, md)
    | Some d \<Rightarrow> \<exists>err s' md'. GetInstanceMonitoringData env i s md = Some (err, s', md') \<and> ud_mRAM md' = xd_cur_mem d \<and>
        (err = ENone \<longleftrightarrow> cpu_index i (up_mPrevInstanceCPUTime s) \<noteq> None \<or> length (up_mPrevInstanceCPUTime s) < ue_cMaxNumInstances env)"
  using search_domain_finds [OF assms, of i]
  by (auto simp: GetInstanceMonitoringData_def domain_usage_def Let_def PushBack_def split: option.split)

definition demo_dom :: xenstat_domain where
  "demo_dom = \<lparr>xd_id = 3, xd_name = ''i'', xd_cpu_ns = 500, xd_cur_mem = 4096\<rparr>"

definition demo_ue :: usage_env where
  "demo_ue = \<lparr>ue_getdominfo = (\<lambda>n. if n \<le> 3 then (1, demo_dom) else (0, demo_dom)), ue_now = \<lparr>tm_sec = 10, tm_usec = 0\<rparr>,
     ue_statvfs = (\<lambda>p. (0, \<lparr>sf_blocks = 10, sf_bfree = 4, sf_frsize = 512\<rparr>)), ue_cMaxNumInstances = 2\<rparr>"

definition demo_up :: ResourceUsageProvider where
  "demo_up = \<lparr>up_mPrevNodeCPUTime = 0, up_mPrevTime = \<lparr>tm_sec = 0, tm_usec = 0\<rparr>,
     up_mPrevInstanceCPUTime = [\<lparr>ic_mInstanceCPUTime = 1000, ic_mInstanceID = ''i'', ic_mInstancePrevTime = \<lparr>tm_sec = 9, tm_usec = 0\<rparr>\<rparr>]\<rparr>"

definition demo_ud :: UsageData where
  "demo_ud = \<lparr>ud_mCPU = Some 7, ud_mRAM = 8, ud_mPartitions = []\<rparr>"

lemma demo_xen_ok: "xen_ok [demo_dom] (ue_getdominfo demo_ue)"
  by (simp add: xen_ok_def demo_ue_def demo_dom_def)

lemma instance_usage_returns_witness: "GetInstanceMonitoringData demo_ue ''j'' demo_up demo_ud = Some (ENone, demo_up, demo_ud)"
  using instance_usage_returns [OF demo_xen_ok, of "''j''" demo_up demo_ud] by (simp add: demo_dom_def)

text \<open>The difference of two readings of a counter that has not been reset, and of one that has.\<close>

lemma counter_forward: "(b :: u64) \<le> a \<Longrightarrow> unat (a - b) = unat a - unat b"
  by (rule unat_sub)

lemma counter_reset: "(a :: u64) < b \<Longrightarrow> unat (a - b) = 2 ^ 64 - (unat b - unat a)"
  by (simp add: unat_sub_if' word_less_nat_alt)

lemma cpu_index_Some: "cpu_index i cs = Some k \<Longrightarrow> k < length cs \<and> ic_mInstanceID (cs ! k) = i"
  by (induction cs arbitrary: k) (auto split: if_splits)

text \<open>
  What a load must be, in whole numbers: the counter advanced from \<open>old\<close> to \<open>new\<close> nanoseconds within \<open>us\<close> microseconds.
  A percentage of one processor is the advance per elapsed nanosecond times hundred; a counter that went back counts
  as if it had advanced through \<open>2 ^ 64\<close>.
\<close>

definition load_of :: "nat \<Rightarrow> nat \<Rightarrow> int \<Rightarrow> rat \<Rightarrow> bool" where
  "load_of old new us l \<longleftrightarrow>
     l * of_int (us * 1000) = 100 * of_nat (if old \<le> new then new - old else 2 ^ 64 - (old - new)) \<and>
     (\<forall>n. old \<le> new \<and> int (new - old) \<le> int n * (us * 1000) \<longrightarrow> 0 \<le> l \<and> l \<le> 100 * of_nat n)"

lemma load_of_exact:
  assumes "us_elapsed cur prev = of_int us" "0 < us"
  shows "\<exists>l. instance_load cpu prev_cpu cur prev = Some l \<and> load_of (unat prev_cpu) (unat cpu) us l"
    "node_load cpu prev_cpu cur prev = instance_load cpu prev_cpu cur prev"
proof -
  let ?adv = "if unat prev_cpu \<le> unat cpu then unat cpu - unat prev_cpu else 2 ^ 64 - (unat prev_cpu - unat cpu)"
  let ?l = "rat_of_nat (unat (cpu - prev_cpu)) / 10 / of_int us"
  have adv: "unat (cpu - prev_cpu) = ?adv"
    using counter_forward [of prev_cpu cpu] counter_reset [of cpu prev_cpu] by (auto simp: word_le_nat_alt word_less_nat_alt)
  have l: "?l * of_int (us * 1000) = 100 * rat_of_nat ?adv" using assms(2) unfolding adv by simp
  have "\<forall>n. unat prev_cpu \<le> unat cpu \<and> int (unat cpu - unat prev_cpu) \<le> int n * (us * 1000) \<longrightarrow> 0 \<le> ?l \<and> ?l \<le> 100 * of_nat n"
  proof (intro allI impI)
    fix n
    assume "unat prev_cpu \<le> unat cpu \<and> int (unat cpu - unat prev_cpu) \<le> int n * (us * 1000)"
    then have "int ?adv \<le> int n * (us * 1000)" by (simp only: if_True simp_thms)
    then have "rat_of_int (int ?adv) \<le> rat_of_int (int n * (us * 1000))" by (simp only: of_int_le_iff)
    then have "rat_of_nat ?adv \<le> of_nat n * (of_int us * 1000)" by simp
    with assms(2) show "0 \<le> ?l \<and> ?l \<le> 100 * of_nat n" unfolding adv by (simp add: pos_divide_le_eq)
  qed
  with l have "load_of (unat prev_cpu) (unat cpu) us ?l" unfolding load_of_def by (rule conjI)
  then show "\<exists>l. instance_load cpu prev_cpu cur prev = Some l \<and> load_of (unat prev_cpu) (unat cpu) us l"
    using assms by (simp add: instance_load_def divide_double_def)
  show "node_load cpu prev_cpu cur prev = instance_load cpu prev_cpu cur prev"
    by (simp add: node_load_def instance_load_def divide_double_def)
qed

text \<open>C33. The loads of the node and of an instance are percentages of one processor: when the time moved on between the reading
  before and this one, each is the counter's advance per elapsed time, so that it lies between 0 and \<open>n\<close>
  hundred when the counter advanced by at most \<open>n\<close> processors' time. When the counter went back, as it does
  when a domain is started again, the load is that of nearly \<open>2 ^ 64\<close> nanoseconds.\<close>

theorem load_bounds:
  fixes env s md
  defines "us \<equiv> \<lambda>t. tm_sec t * 1000000 + tm_usec t"
  assumes "xen_ok doms (ue_getdominfo env)"
  shows "(\<forall>ret domn. ue_getdominfo env 0 = (ret, domn) \<and> 0 \<le> ret \<and> up_mPrevNodeCPUTime s \<noteq> 0 \<and> us (up_mPrevTime s) < us (ue_now env) \<longrightarrow>
      (\<exists>l. ud_mCPU (snd (snd (GetNodeMonitoringData env s md))) = Some l \<and>
        load_of (unat (up_mPrevNodeCPUTime s)) (unat (xd_cpu_ns domn)) (us (ue_now env) - us (up_mPrevTime s)) l)) \<and>
    (\<forall>domn k. find (\<lambda>d. xd_name d = i) doms = Some domn \<and> cpu_index i (up_mPrevInstanceCPUTime s) = Some k \<and>
        us (ic_mInstancePrevTime (up_mPrevInstanceCPUTime s ! k)) < us (ue_now env) \<longrightarrow>
      (\<exists>s' md' l. GetInstanceMonitoringData env i s md = Some (ENone, s', md') \<and> ud_mCPU md' = Some l \<and>
        load_of (unat (ic_mInstanceCPUTime (up_mPrevInstanceCPUTime s ! k))) (unat (xd_cpu_ns domn))
          (us (ue_now env) - us (ic_mInstancePrevTime (up_mPrevInstanceCPUTime s ! k))) l))"
proof -
  have us: "us_elapsed cur prev = of_int (us cur - us prev)" for cur prev
    by (simp add: us_elapsed_def us_def algebra_simps)
  have load: "\<exists>l. instance_load cpu prev_cpu cur prev = Some l \<and> load_of (unat prev_cpu) (unat cpu) (us cur - us prev) l"
    "node_load cpu prev_cpu cur prev = instance_load cpu prev_cpu cur prev" if "us prev < us cur" for cpu prev_cpu cur prev
    using load_of_exact [OF us [of cur prev]] that by simp_all
  show ?thesis
  proof (intro conjI allI impI)
    fix ret domn
    assume h: "ue_getdominfo env 0 = (ret, domn) \<and> 0 \<le> ret \<and> up_mPrevNodeCPUTime s \<noteq> 0 \<and> us (up_mPrevTime s) < us (ue_now env)"
    then have "ud_mCPU (snd (snd (GetNodeMonitoringData env s md))) =
        node_load (xd_cpu_ns domn) (up_mPrevNodeCPUTime s) (ue_now env) (up_mPrevTime s)"
      by (simp add: GetNodeMonitoringData_def cDom0ID_def Let_def split_beta)
    with load h show "\<exists>l. ud_mCPU (snd (snd (GetNodeMonitoringData env s md))) = Some l \<and>
        load_of (unat (up_mPrevNodeCPUTime s)) (unat (xd_cpu_ns domn)) (us (ue_now env) - us (up_mPrevTime s)) l" by simp
  next
    fix domn k
    let ?c = "up_mPrevInstanceCPUTime s ! k"
    assume h: "find (\<lambda>d. xd_name d = i) doms = Some domn \<and> cpu_index i (up_mPrevInstanceCPUTime s) = Some k \<and>
        us (ic_mInstancePrevTime ?c) < us (ue_now env)"
    then obtain s' md' where "GetInstanceMonitoringData env i s md = Some (ENone, s', md')"
      "ud_mCPU md' = instance_load (xd_cpu_ns domn) (ic_mInstanceCPUTime ?c) (ue_now env) (ic_mInstancePrevTime ?c)"
      using search_domain_finds [OF assms(2), of i] by (simp add: GetInstanceMonitoringData_def domain_usage_def Let_def)
    with load(1) h show "\<exists>s' md' l. GetInstanceMonitoringData env i s md = Some (ENone, s', md') \<and> ud_mCPU md' = Some l \<and>
        load_of (unat (ic_mInstanceCPUTime ?c)) (unat (xd_cpu_ns domn)) (us (ue_now env) - us (ic_mInstancePrevTime ?c)) l" by metis
  qed
qed

text \<open>A domain that used 1000 nanoseconds, was started again and used 500 in one second.\<close>

lemma load_bounds_witness:
  "\<exists>s' md' l. GetInstanceMonitoringData demo_ue ''i'' demo_up demo_ud = Some (ENone, s', md') \<and> ud_mCPU md' = Some l \<and>
     l * 1000000000 = 100 * (2 ^ 64 - 500)"
proof -
  have "\<exists>s' md' l. GetInstanceMonitoringData demo_ue ''i'' demo_up demo_ud = Some (ENone, s', md') \<and> ud_mCPU md' = Some l \<and>
      load_of 1000 500 1000000 l"
    using conjunct2 [OF load_bounds [OF demo_xen_ok, of demo_up demo_ud "''i''"]] by (simp add: demo_dom_def demo_up_def demo_ue_def)
  then show ?thesis by (auto simp: load_of_def)
qed

text \<open>The table of the instances' counters: one entry per instance, within its capacity.\<close>

definition cpu_table_ok :: "usage_env \<Rightarrow> ResourceUsageProvider \<Rightarrow> bool" where
  "cpu_table_ok env s \<longleftrightarrow> distinct (map ic_mInstanceID (up_mPrevInstanceCPUTime s)) \<and> length (up_mPrevInstanceCPUTime s) \<le> ue_cMaxNumInstances env"

lemma cpu_index_None: "cpu_index i cs = None \<longleftrightarrow> i \<notin> ic_mInstanceID ` set cs"
  by (induction cs) auto

lemma table_update: "k < length cs \<Longrightarrow> ic_mInstanceID x = ic_mInstanceID (cs ! k) \<Longrightarrow> map ic_mInstanceID (cs[k := x]) = map ic_mInstanceID cs"
  by (simp add: map_update list_update_same_conv)

text \<open>The table of the instances' counters only grows: no call removes an entry, each keeps one entry per
  instance within the capacity, and once it is full an instance that was never asked for is refused for ever.\<close>

theorem cpu_table_grows:
  assumes "cpu_table_ok env s" "GetInstanceMonitoringData env i s md = Some (err, s', md')"
  shows "cpu_table_ok env s' \<and> (\<exists>is. map ic_mInstanceID (up_mPrevInstanceCPUTime s') = map ic_mInstanceID (up_mPrevInstanceCPUTime s) @ is) \<and>
    (length (up_mPrevInstanceCPUTime s) = ue_cMaxNumInstances env \<longrightarrow> cpu_index i (up_mPrevInstanceCPUTime s) = None \<longrightarrow> s' = s)"
proof -
  let ?cs = "up_mPrevInstanceCPUTime s"
  have "s' = s \<or> (\<exists>d. domain_usage env i d s md = (err, s', md'))"
    using assms(2) by (auto simp: GetInstanceMonitoringData_def split: option.splits sum.splits)
  then show ?thesis
  proof (elim disjE exE)
    assume "s' = s"
    then show ?thesis using assms(1) by simp
  next
    fix d
    assume u: "domain_usage env i d s md = (err, s', md')"
    show ?thesis
    proof (cases "cpu_index i ?cs")
      case None
      then have "s' = s \<or> length ?cs < ue_cMaxNumInstances env \<and> (\<exists>c. ic_mInstanceID c = i \<and> up_mPrevInstanceCPUTime s' = ?cs @ [c])"
        using u by (auto simp: domain_usage_def Let_def PushBack_def split: if_splits)
      then show ?thesis using None assms(1) by (auto simp: cpu_table_ok_def cpu_index_None)
    next
      case (Some k)
      let ?c = "(?cs ! k)\<lparr>ic_mInstanceCPUTime := xd_cpu_ns d, ic_mInstancePrevTime := ue_now env\<rparr>"
      from Some have "ic_mInstanceID ?c = ic_mInstanceID (?cs ! k) \<and> up_mPrevInstanceCPUTime s' = ?cs[k := ?c]"
        using u by (auto simp: domain_usage_def Let_def)
      then show ?thesis using assms(1) Some cpu_index_Some [OF Some] table_update [of k ?cs] by (auto simp: cpu_table_ok_def)
    qed
  qed
qed

lemma cpu_table_grows_witness: "\<exists>s' md'. GetInstanceMonitoringData demo_ue ''i'' demo_up demo_ud = Some (ENone, s', md') \<and> cpu_table_ok demo_ue s'"
proof -
  have ok: "cpu_table_ok demo_ue demo_up" by (simp add: cpu_table_ok_def demo_up_def demo_ue_def)
  obtain s' md' where r: "GetInstanceMonitoringData demo_ue ''i'' demo_up demo_ud = Some (ENone, s', md')"
    using search_domain_finds [OF demo_xen_ok, of "''i''"]
    by (simp add: GetInstanceMonitoringData_def domain_usage_def demo_up_def demo_dom_def Let_def)
  from cpu_table_grows [OF ok r] r show ?thesis by blast
qed

text \<open>The node's use is that of the control domain: its memory, no load at the first call and later the load since the call before,
  and for every partition the used blocks in bytes, up to the first whose statistics fail.\<close>

theorem node_usage:
  assumes "ue_getdominfo env 0 = (ret, domn)" "0 \<le> ret" "GetNodeMonitoringData env s md = (err, s', md')"
  shows "ud_mRAM md' = xd_cur_mem domn \<and> up_mPrevNodeCPUTime s' = xd_cpu_ns domn \<and> up_mPrevTime s' = ue_now env \<and>
    ud_mCPU md' = (if up_mPrevNodeCPUTime s = 0 then Some 0 else node_load (xd_cpu_ns domn) (up_mPrevNodeCPUTime s) (ue_now env) (up_mPrevTime s)) \<and>
    (err = ENone \<longleftrightarrow> (\<forall>p \<in> set (ud_mPartitions md). fst (ue_statvfs env (cstr (pu_mPath p))) = 0)) \<and>
    (err = ENone \<longrightarrow> ud_mPartitions md' = map (\<lambda>p. let sb = snd (ue_statvfs env (cstr (pu_mPath p)))
       in p\<lparr>pu_mUsedSize := (sf_blocks sb - sf_bfree sb) * sf_frsize sb\<rparr>) (ud_mPartitions md))"
proof -
  have parts: "(fst (partitions_usage env ps) = ENone \<longleftrightarrow> (\<forall>p \<in> set ps. fst (ue_statvfs env (cstr (pu_mPath p))) = 0)) \<and>
      (fst (partitions_usage env ps) = ENone \<longrightarrow> snd (partitions_usage env ps) = map (\<lambda>p. let sb = snd (ue_statvfs env (cstr (pu_mPath p)))
       in p\<lparr>pu_mUsedSize := (sf_blocks sb - sf_bfree sb) * sf_frsize sb\<rparr>) ps)" for ps
    by (induction ps) (auto simp: split_beta Let_def)
  then show ?thesis
    using assms parts [of "ud_mPartitions md"]
    by (auto simp: GetNodeMonitoringData_def cDom0ID_def Let_def split_beta)
qed

lemma node_usage_witness: "ud_mRAM (snd (snd (GetNodeMonitoringData demo_ue demo_up demo_ud))) = 4096"
proof -
  have "ue_getdominfo demo_ue 0 = (1, demo_dom)" by (simp add: demo_ue_def)
  from node_usage [OF this, of demo_up demo_ud] show ?thesis
    by (metis prod.collapse demo_dom_def xenstat_domain.select_convs(4) zero_le_one)
qed

end
