(* ===== verification/Platform.thy ===== *)
theory Platform
  imports Monitoring
begin

text \<open>
  Smaller parts of the program: the installation of images (\<open>src/image/imagehandler.cpp\<close>), sizes of file systems
  (\<open>src/utils/fsplatform.cpp\<close>), provisioning (\<open>src/provisionmanager/\<close>), the routing of log
  messages (\<open>src/logger/logger.cpp\<close>), mounting and rebooting (\<open>src/bsp/\<close>), and the parts of the
  launcher and the network manager that have nothing to do here (\<open>src/launcher/\<close>, \<open>src/networkmanager/\<close>).
\<close>

section \<open>Images\<close>

text \<open>\<open>fs::JoinPath\<close>, \<open>fs::Rename\<close>, \<open>fs::CalculateSize\<close> and the allocator of service space; paths fit into the library's strings.\<close>

record ('w, 'sp) image_env =
  ie_JoinPath :: "string \<Rightarrow> string \<Rightarrow> string"
  ie_Rename :: "'w \<Rightarrow> string \<Rightarrow> string \<Rightarrow> Error \<times> 'w"
  ie_CalculateSize :: "'w \<Rightarrow> string \<Rightarrow> nat \<times> Error"
  ie_AllocateSpace :: "'w \<Rightarrow> nat \<Rightarrow> ('sp option \<times> Error) \<times> 'w"

definition InstallLayer :: "string \<Rightarrow> string \<Rightarrow> string \<times> Error" where
  "InstallLayer archivePath installBasePath = ([], EEnum eNotSupported)"

definition install_path :: "('w, 'sp) image_env \<Rightarrow> string \<Rightarrow> string \<Rightarrow> string \<Rightarrow> string" where
  "install_path env base sid ver = ie_JoinPath env base sid @ ''-v'' @ ver"

text \<open>The result is the path with the error, the space handed back, and the world.\<close>

definition InstallService ::
    "('w, 'sp) image_env \<Rightarrow> string \<Rightarrow> string \<Rightarrow> string \<Rightarrow> string \<Rightarrow> 'sp option \<Rightarrow> 'w \<Rightarrow> (string \<times> Error) \<times> 'sp option \<times> 'w" where
  "InstallService env archivePath installBasePath serviceID version space w =
     (let installedPath = install_path env installBasePath serviceID version in
      case ie_Rename env w archivePath installedPath of
        (err, w) \<Rightarrow>
      if err \<noteq> ENone then (([], AOS_ERROR_WRAP err), space, w)
      else case ie_CalculateSize env w installedPath of
        (serviceSize, err) \<Rightarrow>
      if err \<noteq> ENone then ((installedPath, err), space, w)
      else case ie_AllocateSpace env w serviceSize of
        ((space, err), w) \<Rightarrow>
      if err \<noteq> ENone then ((installedPath, err), space, w)
      else ((installedPath, ENone), space, w))"

definition ValidateService :: "string \<Rightarrow> Error" where
  "ValidateService path = ENone"

definition CalculateDigest :: "string \<Rightarrow> string \<times> Error" where
  "CalculateDigest path = ([], ENone)"

text \<open>What renaming and allocating do to the files at paths.\<close>

definition rename_ok :: "('w \<Rightarrow> string \<Rightarrow> 'f option) \<Rightarrow> ('w, 'sp) image_env \<Rightarrow> bool" where
  "rename_ok file env \<longleftrightarrow> (\<forall>w p q err w'. ie_Rename env w p q = (err, w') \<longrightarrow>
     (if err = ENone then file w' = (file w)(p := None, q := file w p) else file w' = file w))"

definition allocate_ok :: "('w \<Rightarrow> string \<Rightarrow> 'f option) \<Rightarrow> ('w, 'sp) image_env \<Rightarrow> bool" where
  "allocate_ok file env \<longleftrightarrow> (\<forall>w n. file (snd (ie_AllocateSpace env w n)) = file w)"

text \<open>Installing a service moves its archive: on success the archive is at the path made of the service and its version, that path is the
  result and the space handed back was allocated for the size at that path. On any error after the move the archive stays
  at the new path, although the service is not installed; only when the move itself fails is everything as before.\<close>

theorem install_service_moves:
  assumes "rename_ok file env" "allocate_ok file env"
    and "InstallService env a base sid ver space w = ((p, err), space', w')" "a \<noteq> install_path env base sid ver"
  shows "(err = ENone \<longrightarrow> p = install_path env base sid ver \<and> file w' = (file w)(a := None, p := file w a) \<and>
      (\<exists>w1. fst (ie_AllocateSpace env w1 (fst (ie_CalculateSize env w1 p))) = (space', ENone))) \<and>
    (err \<noteq> ENone \<longrightarrow> (if fst (ie_Rename env w a (install_path env base sid ver)) = ENone
      then p = install_path env base sid ver \<and> file w' a = None \<and> file w' p = file w a
      else p = [] \<and> space' = space \<and> file w' = file w))"
proof -
  let ?q = "install_path env base sid ver"
  obtain e1 w1 where r: "ie_Rename env w a ?q = (e1, w1)" by fastforce
  have f1: "file w1 = (if e1 = ENone then (file w)(a := None, ?q := file w a) else file w)"
    using assms(1) r unfolding rename_ok_def by metis
  obtain n e2 where c: "ie_CalculateSize env w1 ?q = (n, e2)" by fastforce
  obtain sp e3 w2 where al: "ie_AllocateSpace env w1 n = ((sp, e3), w2)" by (metis prod.collapse)
  have f2: "file w2 = file w1" using assms(2) al unfolding allocate_ok_def by (metis snd_conv)
  have run: "InstallService env a base sid ver space w =
      (if e1 \<noteq> ENone then (([], e1), space, w1) else if e2 \<noteq> ENone then ((?q, e2), space, w1) else ((?q, e3), sp, w2))"
    by (simp add: InstallService_def Let_def r c al)
  show ?thesis
  proof (cases "e1 = ENone")
    case False
    then have "p = []" "err = e1" "space' = space" "w' = w1" using assms(3) run by simp_all
    then show ?thesis using False f1 by (simp add: r)
  next
    case True
    then have moved: "file w1 = (file w)(a := None, ?q := file w a)" using f1 by simp
    have res: "p = ?q" "(if e2 \<noteq> ENone then err = e2 \<and> w' = w1 else err = e3 \<and> space' = sp \<and> w' = w2)"
      using assms(3) run True by (simp_all split: if_splits)
    then have "file w' = (file w)(a := None, ?q := file w a)" using moved f2 by (simp split: if_splits)
    moreover have "err = ENone \<Longrightarrow> fst (ie_AllocateSpace env w1 (fst (ie_CalculateSize env w1 p))) = (space', ENone)"
      using res c al by (simp split: if_splits)
    ultimately show ?thesis using True res(1) assms(4) by (auto simp: r)
  qed
qed

definition demo_ie :: "(string \<rightharpoonup> nat, nat) image_env" where
  "demo_ie = \<lparr>ie_JoinPath = (\<lambda>a b. a @ ''/'' @ b),
     ie_Rename = (\<lambda>w p q. case w p of None \<Rightarrow> (EErrno (- 2), w) | Some n \<Rightarrow> (ENone, w(p := None, q := Some n))),
     ie_CalculateSize = (\<lambda>w p. case w p of None \<Rightarrow> (0, EErrno (- 2)) | Some n \<Rightarrow> (n, ENone)),
     ie_AllocateSpace = (\<lambda>w n. if n \<le> 100 then ((Some n, ENone), w) else ((None, ELib ''space''), w))\<rparr>"

lemma demo_ie_ok: "rename_ok (\<lambda>w. w) demo_ie" "allocate_ok (\<lambda>w. w) demo_ie"
  by (auto simp: rename_ok_def allocate_ok_def demo_ie_def split: option.splits)

lemma install_service_moves_witness:
  "\<exists>p w. InstallService demo_ie ''/a'' ''/s'' ''x'' ''1'' None [''/a'' \<mapsto> 200] = ((p, ELib ''space''), None, w) \<and> w ''/a'' = None \<and> w p = Some 200"
proof -
  let ?q = "install_path demo_ie ''/s'' ''x'' ''1''"
  have "''/a'' \<noteq> ?q" by (simp add: install_path_def demo_ie_def)
  moreover have "InstallService demo_ie ''/a'' ''/s'' ''x'' ''1'' None [''/a'' \<mapsto> 200] = ((?q, ELib ''space''), None, [?q \<mapsto> 200])"
    by (simp add: InstallService_def Let_def) (simp add: demo_ie_def)
  moreover have "fst (ie_Rename demo_ie [''/a'' \<mapsto> 200] ''/a'' ?q) = ENone" by (simp add: demo_ie_def)
  ultimately show ?thesis using install_service_moves [OF demo_ie_ok, of "''/a''" "''/s''" "''x''" "''1''" None "[''/a'' \<mapsto> 200]"] by auto
qed

section \<open>Sizes of file systems\<close>

definition GetMountPoint :: "string \<Rightarrow> string \<Rightarrow> string \<times> Error" where
  "GetMountPoint mount_point dir = (mount_point, ENone)"

definition GetTotalSize :: "(string \<Rightarrow> int \<times> fs_statvfs) \<Rightarrow> string \<Rightarrow> u64 \<times> Error" where
  "GetTotalSize statvfs dir =
     (case statvfs (cstr dir) of (ret, sbuf) \<Rightarrow>
        if ret \<noteq> 0 then (0, AOS_ERROR_WRAP (error_of_int ret)) else (sf_frsize sbuf * sf_blocks sbuf, ENone))"

definition GetDirSize :: "(string \<Rightarrow> u64 \<times> Error) \<Rightarrow> string \<Rightarrow> u64 \<times> Error" where
  "GetDirSize calculate dir = calculate dir"

definition GetAvailableSize :: "(string \<Rightarrow> int \<times> fs_statvfs) \<Rightarrow> string \<Rightarrow> u64 \<times> Error" where
  "GetAvailableSize statvfs dir =
     (case statvfs (cstr dir) of (ret, sbuf) \<Rightarrow>
        if ret \<noteq> 0 then (0, AOS_ERROR_WRAP (error_of_int ret)) else (sf_frsize sbuf * sf_bfree sbuf, ENone))"

lemma unat_mult_fits: "unat a * unat b < 2 ^ 64 \<Longrightarrow> unat (a * b :: u64) = unat a * unat b"
  by (simp add: unat_word_ariths)

text \<open>Sizes are exact and consistent as long as the size of the file system fits into 64 bits: the available size is at most the
  total size, and the use that the monitoring reports for the same statistics is their difference.\<close>

theorem fs_sizes_consistent:
  assumes "ue_statvfs env (cstr dir) = (0, sb)" "sf_bfree sb \<le> sf_blocks sb" "unat (sf_frsize sb) * unat (sf_blocks sb) < 2 ^ 64"
  shows "\<exists>total avail. GetTotalSize (ue_statvfs env) dir = (total, ENone) \<and> GetAvailableSize (ue_statvfs env) dir = (avail, ENone) \<and>
    unat total = unat (sf_frsize sb) * unat (sf_blocks sb) \<and> avail \<le> total \<and>
    partitions_usage env [\<lparr>pu_mName = name, pu_mPath = dir, pu_mUsedSize = u\<rparr>] =
      (ENone, [\<lparr>pu_mName = name, pu_mPath = dir, pu_mUsedSize = total - avail\<rparr>])"
proof -
  have le: "unat (sf_bfree sb) \<le> unat (sf_blocks sb)" using assms(2) by (simp add: word_le_nat_alt)
  then have free: "unat (sf_frsize sb) * unat (sf_bfree sb) \<le> unat (sf_frsize sb) * unat (sf_blocks sb)" by (rule mult_le_mono2)
  then have "unat (sf_frsize sb) * unat (sf_bfree sb) < 2 ^ 64" using assms(3) by linarith
  note exact = unat_mult_fits [OF assms(3)] unat_mult_fits [OF this]
  have "sf_frsize sb * sf_bfree sb \<le> sf_frsize sb * sf_blocks sb" using free by (simp only: word_le_nat_alt exact)
  then show ?thesis
    using assms(1) exact(1) by (simp add: GetTotalSize_def GetAvailableSize_def algebra_simps)
qed

lemma fs_sizes_consistent_witness: "snd (GetAvailableSize (ue_statvfs demo_ue) ''/d'') = ENone"
proof -
  have "ue_statvfs demo_ue (cstr ''/d'') = (0, \<lparr>sf_blocks = 10, sf_bfree = 4, sf_frsize = 512\<rparr>)" by (simp add: demo_ue_def)
  from fs_sizes_consistent [OF this, of "''p''" 0] obtain avail where "GetAvailableSize (ue_statvfs demo_ue) ''/d'' = (avail, ENone)" by auto
  then show ?thesis by simp
qed

section \<open>Provisioning\<close>

definition OnStartProvisioning :: "string \<Rightarrow> Error" where
  "OnStartProvisioning password = ENone"

definition OnFinishProvisioning :: "string \<Rightarrow> Error" where
  "OnFinishProvisioning password = ENone"

text \<open>\<open>clear_dir\<close> is \<open>fs::ClearDir\<close>.\<close>

definition OnDeprovision :: "('w \<Rightarrow> string \<Rightarrow> Error \<times> 'w) \<Rightarrow> string \<Rightarrow> string \<Rightarrow> 'w \<Rightarrow> Error \<times> 'w" where
  "OnDeprovision clear_dir hsm_dir password w =
     (case clear_dir w hsm_dir of (err, w) \<Rightarrow> if err \<noteq> ENone then (AOS_ERROR_WRAP err, w) else (ENone, w))"

definition OnEncryptDisk :: "string \<Rightarrow> Error" where
  "OnEncryptDisk password = ENone"

section \<open>The text of an error\<close>

text \<open>The one buffer for the text of errors, overwritten by each call; \<open>convert\<close> is the library's conversion.\<close>

definition ErrorToCStr :: "(Error \<Rightarrow> string) \<Rightarrow> Error \<Rightarrow> string \<Rightarrow> string" where
  "ErrorToCStr convert err sErrorStr = convert err"

section \<open>The routing of log messages\<close>

text \<open>The library's levels, \<open>LogOther\<close> standing for a value outside of them with its name; Zephyr's levels.\<close>

datatype LogLevel = LogDebug | LogInfo | LogWarning | LogErr | LogOther string

datatype ZephyrLevel = Z_DBG | Z_INF | Z_WRN | Z_ERR

text \<open>A message logged for a Zephyr module, or printed.\<close>

datatype LogOutput = ZephyrLog string ZephyrLevel string | Printk string string string

definition level_name :: "LogLevel \<Rightarrow> string" where
  "level_name l = (case l of LogDebug \<Rightarrow> ''debug'' | LogInfo \<Rightarrow> ''info'' | LogWarning \<Rightarrow> ''warning'' | LogErr \<Rightarrow> ''error'' | LogOther n \<Rightarrow> n)"

text \<open>The callback that the macro \<open>LOG_CALLBACK\<close> defines for a name.\<close>

definition LOG_CALLBACK :: "string \<Rightarrow> LogLevel \<Rightarrow> string \<Rightarrow> LogOutput" where
  "LOG_CALLBACK name level message =
     (case level of
        LogDebug \<Rightarrow> ZephyrLog name Z_DBG (cstr message)
      | LogInfo \<Rightarrow> ZephyrLog name Z_INF (cstr message)
      | LogWarning \<Rightarrow> ZephyrLog name Z_WRN (cstr message)
      | LogErr \<Rightarrow> ZephyrLog name Z_ERR (cstr message)
      | LogOther n \<Rightarrow> ZephyrLog name Z_ERR (''Unknown log level received: '' @ cstr n))"

definition cMaxLogModules :: nat where
  "cMaxLogModules = 32"

text \<open>The names with which \<open>Logger::Init\<close> fills the table, in its order.\<close>

definition callback_names :: "string list" where
  "callback_names = [''app'', ''certhandler'', ''clocksync'', ''communication'', ''crypto'', ''downloader'', ''iamclient'', ''launcher'',
     ''monitoring'', ''nodeinfoprovider'', ''ocispec'', ''pkcs11'', ''provisionmanager'', ''resourcemanager'', ''runner'', ''servicemanager'',
     ''layermanager'', ''smclient'', ''storage'', ''image'', ''logprovider'']"

type_synonym log_callbacks = "(string \<times> (LogLevel \<Rightarrow> string \<Rightarrow> LogOutput)) list"

definition set_callbacks :: "log_callbacks" where
  "set_callbacks = foldl (\<lambda>cbs n. fst (map_Set cMaxLogModules n (LOG_CALLBACK n) cbs)) [] callback_names"

text \<open>Zephyr's runtime filters: source numbers, the backends with whether they are active, and setting a filter.\<close>

record 'z log_ctrl =
  lc_source_id_get :: "string \<Rightarrow> int"
  lc_backend_is_active :: "bool list"
  lc_filter_set :: "'z \<Rightarrow> nat \<Rightarrow> int \<Rightarrow> nat \<Rightarrow> int \<times> 'z"

fun set_filters :: "'z log_ctrl \<Rightarrow> int \<Rightarrow> nat \<Rightarrow> bool list \<Rightarrow> nat \<Rightarrow> 'z \<Rightarrow> Error \<times> 'z" where
  "set_filters lc sourceID level [] i z = (ENone, z)"
| "set_filters lc sourceID level (active # bs) i z =
     (if \<not> active then set_filters lc sourceID level bs (Suc i) z
      else (case lc_filter_set lc z i sourceID level of
              (ret, z) \<Rightarrow> if ret < 0 then (AOS_ERROR_WRAP (error_of_int ret), z) else set_filters lc sourceID level bs (Suc i) z))"

definition SetLogLevel :: "'z log_ctrl \<Rightarrow> string \<Rightarrow> nat \<Rightarrow> 'z \<Rightarrow> Error \<times> 'z" where
  "SetLogLevel lc modul level z =
     (let sourceID = lc_source_id_get lc (cstr modul) in
      if sourceID < 0 then (AOS_ERROR_WRAP (EEnum eNotFound), z)
      else set_filters lc sourceID level (lc_backend_is_active lc) 0 z)"

fun set_levels :: "'z log_ctrl \<Rightarrow> nat \<Rightarrow> string list \<Rightarrow> 'z \<Rightarrow> Error \<times> 'z" where
  "set_levels lc level [] z = (ENone, z)"
| "set_levels lc level (m # ms) z =
     (case SetLogLevel lc m level z of (err, z) \<Rightarrow> if err \<noteq> ENone then (err, z) else set_levels lc level ms z)"

text \<open>\<open>filtering\<close> is the build's \<open>CONFIG_LOG_RUNTIME_FILTERING\<close> with the level.\<close>

definition Logger_Init :: "'z log_ctrl \<Rightarrow> nat option \<Rightarrow> 'z \<Rightarrow> Error \<times> log_callbacks \<times> 'z" where
  "Logger_Init lc filtering z =
     (let cbs = set_callbacks in
      case filtering of
        None \<Rightarrow> (ENone, cbs, z)
      | Some level \<Rightarrow> (case set_levels lc level (map fst cbs) z of (err, z) \<Rightarrow> (err, cbs, z)))"

definition Logger_LogCallback :: "log_callbacks \<Rightarrow> string \<Rightarrow> LogLevel \<Rightarrow> string \<Rightarrow> LogOutput" where
  "Logger_LogCallback cbs modul level message =
     (case map_of cbs modul of
        None \<Rightarrow> Printk (cstr modul) (level_name level) (cstr message)
      | Some cb \<Rightarrow> cb level message)"

text \<open>The names that the program's \<open>log.hpp\<close> headers log under.\<close>

definition log_modules :: "string list" where
  "log_modules = [''app'', ''clocksync'', ''communication'', ''downloader'', ''iamclient'', ''image'', ''logprovider'', ''monitoring'',
     ''nodeinfoprovider'', ''ocispec'', ''provisionmanager'', ''resourcemanager'', ''runner'', ''smclient'', ''storage'']"

lemma set_callbacks_room:
  "length cbs + length ns \<le> cap \<Longrightarrow> distinct (map fst cbs @ ns) \<Longrightarrow>
   foldl (\<lambda>cbs n. fst (map_Set cap n (f n) cbs)) cbs ns = cbs @ map (\<lambda>n. (n, f n)) ns"
proof (induction ns arbitrary: cbs)
  case (Cons n ns)
  have "map_of cbs n = None" using Cons.prems(2) by (auto simp: map_of_eq_None_iff)
  moreover have "AList.update n v cbs = cbs @ [(n, v)]" if "n \<notin> fst ` set cbs" for v using that by (induction cbs) auto
  ultimately have "fst (map_Set cap n (f n) cbs) = cbs @ [(n, f n)]" using Cons.prems by (auto simp: map_Set_def)
  then show ?case using Cons.IH [of "cbs @ [(n, f n)]"] Cons.prems by simp
qed simp

lemma distinct_callback_names: "distinct callback_names" "list_all (\<lambda>m. m \<in> set callback_names) log_modules"
  by code_simp+

lemma set_callbacks_table: "set_callbacks = map (\<lambda>n. (n, LOG_CALLBACK n)) callback_names"
proof -
  have "length callback_names \<le> cMaxLogModules" by (simp add: cMaxLogModules_def callback_names_def)
  then show ?thesis
    using set_callbacks_room [of "[]" callback_names cMaxLogModules LOG_CALLBACK] distinct_callback_names by (simp add: set_callbacks_def)
qed

lemma map_of_names: "map_of (map (\<lambda>n. (n, f n)) ns) m = (if m \<in> set ns then Some (f m) else None)"
  by (induction ns) auto

text \<open>After the logger's initialisation every message of the program is logged under its own module's name at its own level: the table of
  callbacks holds all names of the log headers, whatever the filters' setting returns; messages
  of modules that are not in the table are printed and never lost.\<close>

theorem logger_routes:
  assumes "Logger_Init lc filtering z = (err, cbs, z')"
  shows "set log_modules \<subseteq> set callback_names \<and>
    (m \<in> set callback_names \<longrightarrow> Logger_LogCallback cbs m LogDebug t = ZephyrLog m Z_DBG (cstr t) \<and>
       Logger_LogCallback cbs m LogInfo t = ZephyrLog m Z_INF (cstr t) \<and> Logger_LogCallback cbs m LogWarning t = ZephyrLog m Z_WRN (cstr t) \<and>
       Logger_LogCallback cbs m LogErr t = ZephyrLog m Z_ERR (cstr t)) \<and>
    (m \<notin> set callback_names \<longrightarrow> Logger_LogCallback cbs m l t = Printk (cstr m) (level_name l) (cstr t))"
proof -
  have "cbs = set_callbacks" using assms by (auto simp: Logger_Init_def Let_def split: option.splits prod.splits)
  moreover have "set log_modules \<subseteq> set callback_names" using distinct_callback_names(2) by (auto simp: list_all_iff)
  ultimately show ?thesis by (simp add: Logger_LogCallback_def set_callbacks_table map_of_names LOG_CALLBACK_def)
qed

lemma logger_routes_witness:
  "Logger_LogCallback (fst (snd (Logger_Init \<lparr>lc_source_id_get = (\<lambda>m. 1), lc_backend_is_active = [], lc_filter_set = (\<lambda>z i s l. (0, z))\<rparr> None ())))
     ''storage'' LogErr ''bad'' = ZephyrLog ''storage'' Z_ERR ''bad''"
proof -
  have "''storage'' \<in> set callback_names" "cstr ''bad'' = ''bad''" by (simp_all add: callback_names_def cstr_def)
  then show ?thesis
    using logger_routes [of "\<lparr>lc_source_id_get = (\<lambda>m. 1), lc_backend_is_active = [], lc_filter_set = (\<lambda>z i s l. (0, z))\<rparr>" None "()" ENone
        set_callbacks "()" "''storage''" "''bad''"]
    by (simp add: Logger_Init_def Let_def)
qed

section \<open>Mounting and rebooting\<close>

datatype FSChoice = LittleFS | FatFS | NoFS

datatype BSPCall = DiskAccessInit | MountAos | MountTmp | MkdirTmp

text \<open>Calls that return an integer, up to the first that is not zero.\<close>

fun run_ints :: "('w \<Rightarrow> BSPCall \<Rightarrow> int \<times> 'w) \<Rightarrow> BSPCall list \<Rightarrow> 'w \<Rightarrow> int \<times> 'w" where
  "run_ints call [] w = (0, w)"
| "run_ints call (c # cs) w = (case call w c of (ret, w) \<Rightarrow> if ret \<noteq> 0 then (ret, w) else run_ints call cs w)"

definition fatfs_mount :: "('w \<Rightarrow> BSPCall \<Rightarrow> int \<times> 'w) \<Rightarrow> 'w \<Rightarrow> int \<times> 'w" where
  "fatfs_mount call = run_ints call [DiskAccessInit, MountAos, MountTmp, MkdirTmp]"

definition littlefs_mount :: "('w \<Rightarrow> BSPCall \<Rightarrow> int \<times> 'w) \<Rightarrow> 'w \<Rightarrow> int \<times> 'w" where
  "littlefs_mount call w = call w MountAos"

definition mount_fs :: "FSChoice \<Rightarrow> ('w \<Rightarrow> BSPCall \<Rightarrow> int \<times> 'w) \<Rightarrow> 'w \<Rightarrow> int \<times> 'w" where
  "mount_fs choice call w = (case choice of LittleFS \<Rightarrow> littlefs_mount call w | FatFS \<Rightarrow> fatfs_mount call w | NoFS \<Rightarrow> (0, w))"

text \<open>Whether the timer's work resets the system, from what \<open>xss_read_integer\<close> returns.\<close>

definition perform_system_reboot :: "int \<Rightarrow> int \<Rightarrow> bool" where
  "perform_system_reboot rc val = (if rc \<noteq> 0 then False else if val \<noteq> 2 then False else True)"

section \<open>Operations without effect\<close>

text \<open>The launcher's runtime.\<close>

definition CreateHostFSWhiteouts :: "string \<Rightarrow> string list \<Rightarrow> Error" where
  "CreateHostFSWhiteouts path hostBinds = ENone"

definition CreateMountPoints :: "string \<Rightarrow> 'm list \<Rightarrow> Error" where
  "CreateMountPoints mountPointDir mounts = ENone"

definition MountServiceRootFS :: "string \<Rightarrow> string list \<Rightarrow> Error" where
  "MountServiceRootFS rootfsPath layers = ENone"

definition UmountServiceRootFS :: "string \<Rightarrow> Error" where
  "UmountServiceRootFS rootfsPath = ENone"

definition PrepareServiceStorage :: "string \<Rightarrow> u32 \<Rightarrow> u32 \<Rightarrow> Error" where
  "PrepareServiceStorage path uid gid = ENone"

definition PrepareServiceState :: "string \<Rightarrow> u32 \<Rightarrow> u32 \<Rightarrow> Error" where
  "PrepareServiceState path uid gid = ENone"

definition PrepareNetworkDir :: "string \<Rightarrow> Error" where
  "PrepareNetworkDir path = ENone"

definition GetAbsPath :: "string \<Rightarrow> string \<times> Error" where
  "GetAbsPath path = (path, ENone)"

definition GetGIDByName :: "string \<Rightarrow> u32 \<times> Error" where
  "GetGIDByName groupName = (0, ENone)"

definition PopulateHostDevices :: "string \<Rightarrow> 'd list \<Rightarrow> Error \<times> 'd list" where
  "PopulateHostDevices devicePath devices = (ENone, devices)"

text \<open>The network manager; what the caller hands over for a result is left as it was.\<close>

definition GetNetnsPath :: "string \<Rightarrow> string \<times> Error" where
  "GetNetnsPath instanceID = ([], ENone)"

definition UpdateNetworks :: "'n list \<Rightarrow> Error" where
  "UpdateNetworks networks = ENone"

definition AddInstanceToNetwork :: "string \<Rightarrow> string \<Rightarrow> 'p \<Rightarrow> Error" where
  "AddInstanceToNetwork instanceID networkID instanceNetworkParameters = ENone"

definition RemoveInstanceFromNetwork :: "string \<Rightarrow> string \<Rightarrow> Error" where
  "RemoveInstanceFromNetwork instanceID networkID = ENone"

definition GetInstanceIP :: "string \<Rightarrow> string \<Rightarrow> string \<Rightarrow> Error \<times> string" where
  "GetInstanceIP instanceID networkID ip = (ENone, ip)"

definition GetInstanceTraffic :: "string \<Rightarrow> u64 \<times> u64 \<Rightarrow> Error \<times> u64 \<times> u64" where
  "GetInstanceTraffic instanceID traffic = (ENone, traffic)"

definition GetSystemTraffic :: "u64 \<times> u64 \<Rightarrow> Error \<times> u64 \<times> u64" where
  "GetSystemTraffic traffic = (ENone, traffic)"

definition SetTrafficPeriod :: "'t \<Rightarrow> Error" where
  "SetTrafficPeriod period = ENone"

end
