(* ===== verification/App.thy ===== *)
theory App
  imports NodeInfoProvider
begin

text \<open>
  \<open>src/app/app.cpp\<close> and \<open>src/main.cpp\<close>: the order in which the parts of the application are initialised,
  started and stopped. What a call does to its component is a parameter; the calls, their
  arguments among the application's members, their order and the handling of their errors are the code's.
\<close>

section \<open>Calls\<close>

text \<open>The members of the application.\<close>

datatype Component = mCryptoProvider | mCertLoader | mResourceMonitor | mPKCS11Manager | mCertHandler | mIAMCertModule | mSMCertModule
  | mIAMHSMModule | mSMHSMModule | mProvisionManager | mPermHandler | mLauncher | mResourceManager | mServiceManager | mLayerManager
  | mNetworkManager | mClockSync | mChannelManager | mTransport | mDownloader | mIAMClient | mResourceUsageProvider | mNodeInfoProvider
  | mJsonOciSpec | mProvisionManagerCallback | mHostDeviceManager | mResourceManagerJSONProvider | mRunner | mSMClient | mStorage | mRuntime
  | mFSPlatform | mServiceSpaceAllocator | mLayerSpaceAllocator | mDownloadSpaceAllocator | mImageHandler | mLogReader | mLogProvider

datatype AppDir = cAosDiskMountPoint | cHSMDir

text \<open>\<open>Init\<close> with the members handed over, \<open>Start\<close>, \<open>Stop\<close>, and the calls to others.\<close>

datatype AppCall = CallInit Component "Component list" | CallStart Component | CallStop Component
  | CallRegisterModule Component | CallMakeDirAll AppDir | CallSetEnv

text \<open>Calls up to the first that fails.\<close>

fun run_calls :: "('w \<Rightarrow> AppCall \<Rightarrow> Error \<times> 'w) \<Rightarrow> AppCall list \<Rightarrow> 'w \<Rightarrow> Error \<times> 'w" where
  "run_calls call [] w = (ENone, w)"
| "run_calls call (c # cs) w =
     (case call w c of (err, w) \<Rightarrow> if err \<noteq> ENone then (AOS_ERROR_WRAP err, w) else run_calls call cs w)"

fun in_order :: "('w \<Rightarrow> Error \<times> 'w) list \<Rightarrow> 'w \<Rightarrow> Error \<times> 'w" where
  "in_order [] w = (ENone, w)"
| "in_order (f # fs) w = (case f w of (err, w) \<Rightarrow> if err \<noteq> ENone then (err, w) else in_order fs w)"

section \<open>Initialisation\<close>

definition zephyr_calls :: "bool \<Rightarrow> AppCall list" where
  "zephyr_calls native = (if native then [CallMakeDirAll cAosDiskMountPoint] else []) @
     [CallInit mStorage [], CallInit mNodeInfoProvider [mCryptoProvider], CallInit mClockSync [mSMClient], CallInit mDownloader [mSMClient],
      CallInit mResourceUsageProvider [], CallInit mRunner [mLauncher], CallInit mLogProvider [mLogReader, mStorage]]"

definition common_calls :: "AppCall list" where
  "common_calls =
     [CallInit mCryptoProvider [], CallInit mCertLoader [mCryptoProvider, mPKCS11Manager],
      CallInit mResourceMonitor [mNodeInfoProvider, mResourceManager, mResourceUsageProvider, mSMClient, mSMClient, mSMClient]]"

definition iam_calls :: "bool \<Rightarrow> AppCall list" where
  "iam_calls native = (if native then [CallSetEnv, CallMakeDirAll cHSMDir] else []) @
     [CallInit mIAMHSMModule [mPKCS11Manager, mCryptoProvider], CallInit mIAMCertModule [mCryptoProvider, mIAMHSMModule, mStorage],
      CallRegisterModule mIAMCertModule,
      CallInit mSMHSMModule [mPKCS11Manager, mCryptoProvider], CallInit mSMCertModule [mCryptoProvider, mSMHSMModule, mStorage],
      CallRegisterModule mSMCertModule,
      CallInit mProvisionManager [mProvisionManagerCallback, mCertHandler]]"

definition allocator_calls :: "AppCall list" where
  "allocator_calls =
     [CallInit mDownloadSpaceAllocator [mFSPlatform], CallInit mLayerSpaceAllocator [mFSPlatform, mLayerManager],
      CallInit mServiceSpaceAllocator [mFSPlatform, mServiceManager]]"

definition sm_calls :: "AppCall list" where
  "sm_calls =
     [CallInit mPermHandler [mCryptoProvider],
      CallInit mLauncher [mNodeInfoProvider, mServiceManager, mLayerManager, mResourceManager, mNetworkManager, mPermHandler, mRunner, mRuntime,
        mResourceMonitor, mJsonOciSpec, mSMClient, mSMClient, mStorage, mCryptoProvider],
      CallInit mResourceManager [mResourceManagerJSONProvider, mHostDeviceManager],
      CallInit mImageHandler [mLayerSpaceAllocator, mServiceSpaceAllocator],
      CallInit mServiceManager [mJsonOciSpec, mDownloader, mStorage, mServiceSpaceAllocator, mDownloadSpaceAllocator, mImageHandler],
      CallInit mLayerManager [mLayerSpaceAllocator, mDownloadSpaceAllocator, mStorage, mDownloader, mImageHandler]]"

definition communication_calls :: "AppCall list" where
  "communication_calls =
     [CallInit mTransport [], CallInit mChannelManager [mTransport],
      CallInit mIAMClient [mClockSync, mNodeInfoProvider, mProvisionManager, mChannelManager, mCertHandler, mCertLoader],
      CallInit mSMClient [mNodeInfoProvider, mLauncher, mResourceManager, mResourceMonitor, mDownloader, mClockSync, mChannelManager,
        mCertHandler, mCertLoader, mLogProvider]]"

definition InitZephyr :: "('w \<Rightarrow> AppCall \<Rightarrow> Error \<times> 'w) \<Rightarrow> bool \<Rightarrow> 'w \<Rightarrow> Error \<times> 'w" where
  "InitZephyr call native = run_calls call (zephyr_calls native)"

definition InitCommon :: "('w \<Rightarrow> AppCall \<Rightarrow> Error \<times> 'w) \<Rightarrow> 'w \<Rightarrow> Error \<times> 'w" where
  "InitCommon call = run_calls call common_calls"

definition InitIAM :: "('w \<Rightarrow> AppCall \<Rightarrow> Error \<times> 'w) \<Rightarrow> bool \<Rightarrow> 'w \<Rightarrow> Error \<times> 'w" where
  "InitIAM call native = run_calls call (iam_calls native)"

definition InitSpaceAllocators :: "('w \<Rightarrow> AppCall \<Rightarrow> Error \<times> 'w) \<Rightarrow> 'w \<Rightarrow> Error \<times> 'w" where
  "InitSpaceAllocators call = run_calls call allocator_calls"

definition InitSM :: "('w \<Rightarrow> AppCall \<Rightarrow> Error \<times> 'w) \<Rightarrow> 'w \<Rightarrow> Error \<times> 'w" where
  "InitSM call = run_calls call sm_calls"

definition InitCommunication :: "('w \<Rightarrow> AppCall \<Rightarrow> Error \<times> 'w) \<Rightarrow> 'w \<Rightarrow> Error \<times> 'w" where
  "InitCommunication call = run_calls call communication_calls"

definition App_Init :: "('w \<Rightarrow> AppCall \<Rightarrow> Error \<times> 'w) \<Rightarrow> bool \<Rightarrow> 'w \<Rightarrow> Error \<times> 'w" where
  "App_Init call native =
     in_order [InitZephyr call native, InitCommon call, InitIAM call native, InitSpaceAllocators call, InitSM call, InitCommunication call]"

section \<open>Start and stop\<close>

definition App_Start :: "('w \<Rightarrow> AppCall \<Rightarrow> Error \<times> 'w) \<Rightarrow> 'w \<Rightarrow> Error \<times> 'w" where
  "App_Start call = run_calls call
     [CallStart mLogProvider, CallStart mLauncher, CallStart mResourceMonitor, CallStart mChannelManager, CallStart mIAMClient, CallStart mSMClient]"

text \<open>Errors are logged only.\<close>

fun stop_all :: "('w \<Rightarrow> AppCall \<Rightarrow> Error \<times> 'w) \<Rightarrow> Component list \<Rightarrow> 'w \<Rightarrow> 'w" where
  "stop_all call [] w = w"
| "stop_all call (c # cs) w = stop_all call cs (snd (call w (CallStop c)))"

definition App_Stop :: "('w \<Rightarrow> AppCall \<Rightarrow> Error \<times> 'w) \<Rightarrow> 'w \<Rightarrow> Error \<times> 'w" where
  "App_Stop call w =
     (ENone, stop_all call [mLogProvider, mLauncher, mResourceMonitor, mClockSync, mChannelManager, mIAMClient, mSMClient] w)"

section \<open>The main function\<close>

text \<open>
  The application part of \<open>main\<close>: the first failed assertion ends the run; \<open>atexit\<close> stops the
  application in any case. The result tells whether the application is running.
\<close>

definition main_app :: "('w \<Rightarrow> AppCall \<Rightarrow> Error \<times> 'w) \<Rightarrow> bool \<Rightarrow> 'w \<Rightarrow> bool \<times> 'w" where
  "main_app call native w =
     (case App_Init call native w of (err, w) \<Rightarrow>
        if err \<noteq> ENone then (False, w)
        else (case App_Start call w of (err, w) \<Rightarrow> (err = ENone, w)))"

section \<open>Properties\<close>

text \<open>The same calls with a record of them and their results.\<close>

definition traced :: "('w \<Rightarrow> AppCall \<Rightarrow> Error \<times> 'w) \<Rightarrow> 'w \<times> (AppCall \<times> Error) list \<Rightarrow> AppCall \<Rightarrow> Error \<times> 'w \<times> (AppCall \<times> Error) list" where
  "traced call wt c = (case call (fst wt) c of (err, w) \<Rightarrow> (err, w, snd wt @ [(c, err)]))"

lemma traced_step: "traced call (w, tr) c = (case call w c of (err, w) \<Rightarrow> (err, w, tr @ [(c, err)]))"
  by (simp add: traced_def)

definition init_calls :: "bool \<Rightarrow> AppCall list" where
  "init_calls native = zephyr_calls native @ common_calls @ iam_calls native @ allocator_calls @ sm_calls @ communication_calls"

definition start_calls :: "AppCall list" where
  "start_calls = map CallStart [mLogProvider, mLauncher, mResourceMonitor, mChannelManager, mIAMClient, mSMClient]"

lemma run_calls_append:
  "run_calls call (xs @ ys) w = (case run_calls call xs w of (err, w) \<Rightarrow> if err \<noteq> ENone then (err, w) else run_calls call ys w)"
  by (induction xs arbitrary: w) (auto split: prod.split)

lemma in_order_run_calls: "in_order (map (run_calls call) css) w = run_calls call (concat css) w"
  by (induction css arbitrary: w) (simp_all add: run_calls_append split_beta)

lemma App_Init_calls: "App_Init call native = run_calls call (init_calls native)"
proof
  fix w
  let ?css = "[zephyr_calls native, common_calls, iam_calls native, allocator_calls, sm_calls, communication_calls]"
  have "App_Init call native w = in_order (map (run_calls call) ?css) w"
    by (simp only: App_Init_def InitZephyr_def InitCommon_def InitIAM_def InitSpaceAllocators_def InitSM_def InitCommunication_def list.map)
  then show "App_Init call native w = run_calls call (init_calls native) w"
    by (simp only: in_order_run_calls) (simp add: init_calls_def)
qed

text \<open>The calls made are the first ones of the list, all but the last without an error.\<close>

definition prefix_of_calls :: "AppCall list \<Rightarrow> Error \<Rightarrow> (AppCall \<times> Error) list \<Rightarrow> bool" where
  "prefix_of_calls cs err tr \<longleftrightarrow> map fst tr = take (length tr) cs \<and> (\<forall>e \<in> set (butlast tr). snd e = ENone) \<and>
     (if err = ENone then length tr = length cs \<and> (\<forall>e \<in> set tr. snd e = ENone) else tr \<noteq> [] \<and> snd (last tr) = err)"

lemma run_calls_trace:
  "run_calls (traced call) cs (w, tr0) = (err, w', tr) \<Longrightarrow> \<exists>tr1. tr = tr0 @ tr1 \<and> prefix_of_calls cs err tr1"
proof (induction cs arbitrary: w tr0)
  case Nil
  then show ?case by (simp add: prefix_of_calls_def)
next
  case (Cons c cs)
  obtain e w1 where c: "call w c = (e, w1)" by fastforce
  show ?case
  proof (cases "e = ENone")
    case False
    then show ?thesis using Cons.prems c by (auto simp: traced_step prefix_of_calls_def)
  next
    case True
    then have "run_calls (traced call) cs (w1, tr0 @ [(c, e)]) = (err, w', tr)" using Cons.prems c by (simp add: traced_step)
    from Cons.IH [OF this] obtain tr1 where tr1: "tr = tr0 @ (c, e) # tr1" "prefix_of_calls cs err tr1" by auto
    then have "prefix_of_calls (c # cs) err ((c, e) # tr1)" using True by (auto simp: prefix_of_calls_def split: if_splits)
    then show ?thesis using tr1(1) by blast
  qed
qed

lemma stop_all_trace:
  "stop_all (traced call) cs (w, tr0) = (w', tr) \<Longrightarrow> \<exists>tr1. tr = tr0 @ tr1 \<and> map fst tr1 = map CallStop cs"
proof (induction cs arbitrary: w tr0)
  case (Cons c cs)
  obtain e w1 where c: "call w (CallStop c) = (e, w1)" by fastforce
  then have "stop_all (traced call) cs (w1, tr0 @ [(CallStop c, e)]) = (w', tr)" using Cons.prems by (simp add: traced_step)
  from Cons.IH [OF this] show ?case by auto
qed simp

text \<open>C21. The application starts in order and to the first error: initialisation makes the listed calls, with the
  listed members handed over, one after the other up to the first that fails, whose error it returns; the start
  calls follow only when every initialisation succeeded, in the order log provider, launcher, resource monitor,
  channel manager and the two clients, again up to the first that fails; the application runs just when all of
  them succeeded, each exactly once.\<close>

theorem app_boot_order:
  assumes "main_app (traced call) native (w, []) = (ok, w', tr)"
  defines "boot \<equiv> (if native then [CallMakeDirAll cAosDiskMountPoint] else []) @
      [CallInit mStorage [], CallInit mNodeInfoProvider [mCryptoProvider], CallInit mClockSync [mSMClient], CallInit mDownloader [mSMClient],
       CallInit mResourceUsageProvider [], CallInit mRunner [mLauncher], CallInit mLogProvider [mLogReader, mStorage],
       CallInit mCryptoProvider [], CallInit mCertLoader [mCryptoProvider, mPKCS11Manager],
       CallInit mResourceMonitor [mNodeInfoProvider, mResourceManager, mResourceUsageProvider, mSMClient, mSMClient, mSMClient]] @
      (if native then [CallSetEnv, CallMakeDirAll cHSMDir] else []) @
      [CallInit mIAMHSMModule [mPKCS11Manager, mCryptoProvider], CallInit mIAMCertModule [mCryptoProvider, mIAMHSMModule, mStorage],
       CallRegisterModule mIAMCertModule,
       CallInit mSMHSMModule [mPKCS11Manager, mCryptoProvider], CallInit mSMCertModule [mCryptoProvider, mSMHSMModule, mStorage],
       CallRegisterModule mSMCertModule,
       CallInit mProvisionManager [mProvisionManagerCallback, mCertHandler],
       CallInit mDownloadSpaceAllocator [mFSPlatform], CallInit mLayerSpaceAllocator [mFSPlatform, mLayerManager],
       CallInit mServiceSpaceAllocator [mFSPlatform, mServiceManager],
       CallInit mPermHandler [mCryptoProvider],
       CallInit mLauncher [mNodeInfoProvider, mServiceManager, mLayerManager, mResourceManager, mNetworkManager, mPermHandler, mRunner, mRuntime,
         mResourceMonitor, mJsonOciSpec, mSMClient, mSMClient, mStorage, mCryptoProvider],
       CallInit mResourceManager [mResourceManagerJSONProvider, mHostDeviceManager],
       CallInit mImageHandler [mLayerSpaceAllocator, mServiceSpaceAllocator],
       CallInit mServiceManager [mJsonOciSpec, mDownloader, mStorage, mServiceSpaceAllocator, mDownloadSpaceAllocator, mImageHandler],
       CallInit mLayerManager [mLayerSpaceAllocator, mDownloadSpaceAllocator, mStorage, mDownloader, mImageHandler],
       CallInit mTransport [], CallInit mChannelManager [mTransport],
       CallInit mIAMClient [mClockSync, mNodeInfoProvider, mProvisionManager, mChannelManager, mCertHandler, mCertLoader],
       CallInit mSMClient [mNodeInfoProvider, mLauncher, mResourceManager, mResourceMonitor, mDownloader, mClockSync, mChannelManager,
         mCertHandler, mCertLoader, mLogProvider]]"
    and "start \<equiv> [CallStart mLogProvider, CallStart mLauncher, CallStart mResourceMonitor, CallStart mChannelManager, CallStart mIAMClient,
      CallStart mSMClient]"
  shows "\<exists>err tr1 tr2. tr = tr1 @ tr2 \<and> (\<exists>w1. App_Init (traced call) native (w, []) = (err, w1, tr1)) \<and> prefix_of_calls boot err tr1 \<and>
    (if err = ENone then (\<exists>err2. prefix_of_calls start err2 tr2 \<and> ok = (err2 = ENone)) else tr2 = [] \<and> \<not> ok) \<and>
    (ok \<longleftrightarrow> map fst tr = boot @ start \<and> (\<forall>e \<in> set tr. snd e = ENone))"
proof -
  have boot: "boot = init_calls native" "start = start_calls"
    unfolding boot_def start_def
    by (simp_all add: init_calls_def zephyr_calls_def common_calls_def iam_calls_def allocator_calls_def sm_calls_def
        communication_calls_def start_calls_def)
  obtain err w1 tr1 where i: "App_Init (traced call) native (w, []) = (err, w1, tr1)" by (metis prod_cases3)
  from run_calls_trace [OF i [unfolded App_Init_calls]] have p1: "prefix_of_calls (init_calls native) err tr1" by simp
  show ?thesis
  proof (cases "err = ENone")
    case False
    then have "tr = tr1" "\<not> ok" using assms i by (simp_all add: main_app_def)
    moreover have "\<exists>e \<in> set tr1. snd e \<noteq> ENone" using p1 False by (auto simp: prefix_of_calls_def intro!: bexI [of _ "last tr1"])
    ultimately show ?thesis unfolding boot using p1 False i by (intro exI [of _ err] exI [of _ tr1] exI [of _ "[]"]) auto
  next
    case True
    obtain err2 w2 where s: "App_Start (traced call) (w1, tr1) = (err2, w2, tr)" "ok = (err2 = ENone)"
      using assms i True by (auto simp: main_app_def split: prod.splits)
    from run_calls_trace [OF s(1) [unfolded App_Start_def]] obtain tr2
      where tr: "tr = tr1 @ tr2" and p2: "prefix_of_calls start_calls err2 tr2" by (auto simp: start_calls_def)
    have "err2 \<noteq> ENone \<Longrightarrow> \<exists>e \<in> set tr2. snd e \<noteq> ENone"
      using p2 by (auto simp: prefix_of_calls_def intro!: bexI [of _ "last tr2"])
    moreover have "map fst tr1 = init_calls native" "\<forall>e \<in> set tr1. snd e = ENone" using p1 True by (auto simp: prefix_of_calls_def)
    moreover have "err2 = ENone \<Longrightarrow> map fst tr2 = start_calls \<and> (\<forall>e \<in> set tr2. snd e = ENone)" using p2 by (auto simp: prefix_of_calls_def)
    ultimately have "ok \<longleftrightarrow> map fst tr = init_calls native @ start_calls \<and> (\<forall>e \<in> set tr. snd e = ENone)"
      unfolding s(2) tr by auto
    moreover have "\<exists>err2. prefix_of_calls start_calls err2 tr2 \<and> ok = (err2 = ENone)" using p2 s(2) by metis
    ultimately show ?thesis unfolding boot
      using p1 i by - (rule exI [of _ err], rule exI [of _ tr1], rule exI [of _ tr2], simp add: tr True)
  qed
qed

text \<open>A world where the storage cannot be initialised, and one where the channel manager does not start.\<close>

definition demo_call :: "AppCall \<Rightarrow> unit \<Rightarrow> AppCall \<Rightarrow> Error \<times> unit" where
  "demo_call bad w c = (if c = bad then (EEnum eFailed, ()) else (ENone, ()))"

lemma app_boot_order_witness: "main_app (traced (demo_call (CallInit mStorage []))) False ((), []) = (False, (), [(CallInit mStorage [], EEnum eFailed)])"
proof -
  have init: "init_calls False = CallInit mStorage [] # List.tl (zephyr_calls False) @ common_calls @ iam_calls False @ allocator_calls @ sm_calls @ communication_calls"
    by (simp add: init_calls_def zephyr_calls_def)
  have i: "App_Init (traced (demo_call (CallInit mStorage []))) False ((), []) = (EEnum eFailed, (), [(CallInit mStorage [], EEnum eFailed)])"
    unfolding App_Init_calls init by (simp only: run_calls.simps traced_step demo_call_def) simp
  obtain ok w' tr where r: "main_app (traced (demo_call (CallInit mStorage []))) False ((), []) = (ok, w', tr)" by (metis prod_cases3)
  then have "tr = [(CallInit mStorage [], EEnum eFailed)]" by (simp add: main_app_def i)
  then have "\<not> ok" using app_boot_order [OF r] by auto
  then show ?thesis using r \<open>tr = _\<close> by simp
qed

text \<open>Stopping stops all: whatever the start did and whichever stops fail, a stop afterwards makes every stop call once in its
  order, so that every component whose start was called is stopped, and reports no error.\<close>

theorem app_stop_all:
  assumes "App_Start (traced call) (w, []) = (err, w1, tr1)" "App_Stop (traced call) (w1, []) = (err', w2, tr2)"
  shows "err' = ENone \<and> map fst tr2 = map CallStop [mLogProvider, mLauncher, mResourceMonitor, mClockSync, mChannelManager, mIAMClient, mSMClient] \<and>
    (\<forall>c. CallStart c \<in> fst ` set tr1 \<longrightarrow> CallStop c \<in> fst ` set tr2)"
proof -
  have "prefix_of_calls start_calls err tr1"
    using run_calls_trace [OF assms(1) [unfolded App_Start_def]] by (simp add: start_calls_def)
  then have "fst ` set tr1 \<subseteq> set start_calls" by (metis list.set_map prefix_of_calls_def set_take_subset)
  moreover have st: "stop_all (traced call) [mLogProvider, mLauncher, mResourceMonitor, mClockSync, mChannelManager, mIAMClient, mSMClient] (w1, []) = (w2, tr2)"
    and "err' = ENone"
    using assms(2) by (simp_all only: App_Stop_def prod.inject)
  moreover have tr2: "map fst tr2 = map CallStop [mLogProvider, mLauncher, mResourceMonitor, mClockSync, mChannelManager, mIAMClient, mSMClient]"
    using stop_all_trace [OF st] by auto
  moreover have "fst ` set tr2 = CallStop ` {mLogProvider, mLauncher, mResourceMonitor, mClockSync, mChannelManager, mIAMClient, mSMClient}"
    using arg_cong [OF tr2, of set] by (simp only: set_map image_set [symmetric] list.set)
  ultimately show ?thesis by (auto simp: start_calls_def)
qed

lemma app_stop_all_witness: "CallStop mLogProvider \<in> fst ` set (snd (snd (App_Stop (traced (demo_call (CallStart mChannelManager))) ((), []))))"
proof -
  obtain err w1 tr1 where s: "App_Start (traced (demo_call (CallStart mChannelManager))) ((), []) = (err, w1, tr1)" by (metis prod_cases3)
  obtain err' w2 tr2 where t: "App_Stop (traced (demo_call (CallStart mChannelManager))) (w1, []) = (err', w2, tr2)" by (metis prod_cases3)
  have "CallStart mLogProvider \<in> fst ` set tr1" using s by (auto simp: App_Start_def traced_step demo_call_def)
  then show ?thesis using app_stop_all [OF s t] t by simp
qed

text \<open>Which members are handed to an initialisation that comes before their own.\<close>

fun inits :: "AppCall list \<Rightarrow> Component list" where
  "inits [] = []"
| "inits (CallInit c ds # cs) = c # inits cs"
| "inits (_ # cs) = inits cs"

fun early_uses :: "AppCall list \<Rightarrow> (Component \<times> Component) list" where
  "early_uses [] = []"
| "early_uses (CallInit c ds # cs) = map (Pair c) (filter (\<lambda>d. d \<in> set (inits cs)) ds) @ early_uses cs"
| "early_uses (_ # cs) = early_uses cs"

text \<open>Every member that an initialisation gets has been initialised before, or has no initialisation of its own,
  but for these: the provider of random identifiers reaches the node's information provider
  uninitialised, the service manager client its four users, and the managers of resources, services and layers theirs.\<close>

theorem app_init_dependencies:
  "set (early_uses (init_calls native)) =
     {(mNodeInfoProvider, mCryptoProvider), (mClockSync, mSMClient), (mDownloader, mSMClient), (mResourceMonitor, mSMClient), (mLauncher, mSMClient),
      (mRunner, mLauncher), (mResourceMonitor, mResourceManager), (mLauncher, mResourceManager), (mLauncher, mServiceManager), (mLauncher, mLayerManager),
      (mLayerSpaceAllocator, mLayerManager), (mServiceSpaceAllocator, mServiceManager)} \<and>
   distinct (inits (init_calls native))"
  by (auto simp: init_calls_def zephyr_calls_def common_calls_def iam_calls_def allocator_calls_def sm_calls_def communication_calls_def)

end
