(* ===== verification/Domains.thy ===== *)
theory Domains
  imports Prelude
begin

text \<open>
  \<open>src/domains/\<close>: the configurations of the domains that run beside the program on the three supported boards, and
  their creation. The hypervisor's library is a parameter. The tables are those of the code; images and device trees, which the linker
  places in the program, are left out.
\<close>

section \<open>Configurations\<close>

record xen_domain_iomem =
  xi_first_mfn :: int
  xi_first_gfn :: int
  xi_nr_mfns :: int

definition iomem :: "int \<Rightarrow> int \<Rightarrow> xen_domain_iomem" where
  "iomem first nr = \<lparr>xi_first_mfn = first, xi_first_gfn = 0, xi_nr_mfns = nr\<rparr>"

datatype gic_version = GIC_V2 | GIC_V3

datatype tee_type = TEE_NONE | TEE_OPTEE

datatype domctl_flag = CDF_hvm | CDF_hap | CDF_iommu

text \<open>\<open>'b\<close> is the library's configuration of backends.\<close>

record 'b xen_domain_cfg =
  dc_machine_dt_compat :: "string list"
  dc_mem_kb :: nat
  dc_flags :: "domctl_flag list"
  dc_max_evtchns :: nat
  dc_max_vcpus :: nat
  dc_gnt_frames :: nat
  dc_max_maptrack_frames :: nat
  dc_iomems :: "xen_domain_iomem list"
  dc_irqs :: "int list"
  dc_gic_version :: gic_version
  dc_tee_type :: tee_type
  dc_dtdevs :: "string list"
  dc_dt_passthrough :: "string list"
  dc_cmdline :: string
  dc_back_cfg :: 'b

section \<open>The driver domain on H3ULCB\<close>

definition h3ulcb_dtdevs :: "string list" where
  "h3ulcb_dtdevs = [
     ''/soc/dma-controller@e6460000'', ''/soc/dma-controller@e6470000'', ''/soc/dma-controller@e6700000'', ''/soc/dma-controller@e7300000'',
     ''/soc/dma-controller@e7310000'', ''/soc/dma-controller@ec700000'', ''/soc/dma-controller@ec720000'', ''/soc/ethernet@e6800000'',
     ''/soc/dma-controller@e65a0000'', ''/soc/dma-controller@e65b0000'', ''/soc/mmc@ee100000'', ''/soc/usb@ee0a0100'', ''/soc/usb@ee0a0000'',
     ''/soc/imr-lx4@fe860000'', ''/soc/imr-lx4@fe870000'', ''/soc/imr-lx4@fe880000'', ''/soc/imr-lx4@fe890000'', ''/soc/vspm@fe920000'',
     ''/soc/vspm@fe960000'', ''/soc/vspm@fe9a0000'', ''/soc/vspm@fe9b0000'', ''/soc/fcp@fea27000'', ''/soc/fcp@fea2f000'', ''/soc/fcp@fea37000'',
     ''/soc/fdpm@fe940000'', ''/soc/fdpm@fe944000'', ''/soc/hdmi@fead0000'', ''/soc/gsx_pv0_domd'', ''/soc/gsx_pv1_domd'', ''/soc/gsx_pv2_domd'',
     ''/soc/gsx_pv3_domd'', ''/soc/fcpcs_vc0'', ''/soc/fcpcs_vc1'', ''/soc/impdm0'', ''/soc/dma-controller@ffc10000'',
     ''/soc/dma-controller@ffc20000'']"

definition h3ulcb_dt_passthrough_nodes :: "string list" where
  "h3ulcb_dt_passthrough_nodes = [
     ''/audio_clk_a'', ''/audio_clk_b'', ''/audio_clk_c'', ''/can'', ''/extal'', ''/extalr'', ''/gsx_opp_table0'', ''/gsx_opp_table1'',
     ''/gsx_opp_table2'', ''/gsx_opp_table3'', ''/gsx_opp_table4'', ''/gsx_opp_table5'', ''/gsx_opp_table6'', ''/gsx_opp_table7'',
     ''/msiof-ref-clock'', ''/pcie_bus'', ''/scif'', ''/soc'', ''/usb3s0'', ''/usb_extal'', ''/audio-clkout'', ''/avb-mch'', ''/hdmi0-out'',
     ''/keyboard'', ''/leds'', ''/regulator0'', ''/regulator1'', ''/sound'', ''/regulator-vcc-sdhi0'', ''/regulator-vccq-sdhi0'', ''/x12'',
     ''/x23-clock'', ''/versaclk-3'', ''/versaclk-4'', ''/reserved-memory'', ''/mmngr'', ''/mmngrbuf'', ''/vspm_if'']"

definition h3ulcb_iomems :: "xen_domain_iomem list" where
  "h3ulcb_iomems = [
     \<lparr>xi_first_mfn = 0x47fd7, xi_first_gfn = 0xe0000, xi_nr_mfns = 0x1\<rparr>, iomem 0xe6260 0x1, iomem 0xe6020 0x1, iomem 0xe6050 0x1,
     iomem 0xe6051 0x1, iomem 0xe6052 0x1, iomem 0xe6053 0x1, iomem 0xe6054 0x1, iomem 0xe6055 0x1, iomem 0xe6060 0x1, iomem 0xe60a0 0x1,
     iomem 0xe6150 0x1, iomem 0xe6160 0x1, iomem 0xe6180 0x1, iomem 0xe6198 0x1, iomem 0xe61a0 0x1, iomem 0xe61a8 0x1, iomem 0xe61c0 0x1,
     iomem 0xe6510 0x1, iomem 0xe66d8 0x1, iomem 0xe60b0 0x1, iomem 0xe65a0 0x1, iomem 0xe65b0 0x1, iomem 0xe6460 0x1, iomem 0xe6470 0x1,
     iomem 0xe6601 0x1, iomem 0xe6700 0x10, iomem 0xe7300 0x10, iomem 0xe7310 0x10, iomem 0xe67e0 0x11, iomem 0xe6800 0x1, iomem 0xe6a00 0x10,
     iomem 0xec500 0x1, iomem 0xec5a0 0x1, iomem 0xec540 0x1, iomem 0xec541 0x1, iomem 0xec760 0x1, iomem 0xec000 0x1, iomem 0xec008 0x1,
     iomem 0xec700 0x10, iomem 0xec720 0x10, iomem 0xee0a0 0x1, iomem 0xee100 0x2, iomem 0xfd000 0x40, iomem 0xfe860 0x2, iomem 0xfe870 0x2,
     iomem 0xfe880 0x2, iomem 0xfe890 0x2, iomem 0xfe90f 0x1, iomem 0xfe8d0 0x1, iomem 0xfe910 0x1, iomem 0xfe900 0x1, iomem 0xfe940 0x3,
     iomem 0xfe950 0x1, iomem 0xfe944 0x3, iomem 0xfe951 0x1, iomem 0xfea27 0x1, iomem 0xfea2f 0x1, iomem 0xfea37 0x1, iomem 0xfe960 0x8,
     iomem 0xfe96f 0x1, iomem 0xfe920 0x8, iomem 0xfe92f 0x1, iomem 0xfea20 0x5, iomem 0xfea28 0x5, iomem 0xfea30 0x5, iomem 0xfe9a0 0x8,
     iomem 0xfe9af 0x1, iomem 0xfe9b0 0x8, iomem 0xfe9bf 0x1, iomem 0xfead0 0x10, iomem 0xfeb00 0x80, iomem 0xfff00 0x1, iomem 0xffa00 0x4,
     iomem 0xff900 0x20, iomem 0xff920 0x20, iomem 0xff940 0x20, iomem 0xff960 0x20, iomem 0xff980 0x10, iomem 0xff990 0x10, iomem 0xff9c0 0x10,
     iomem 0xffa10 0x4, iomem 0xffa40 0x20, iomem 0xff8d0 0x1, iomem 0x54000 0x3000, iomem 0xffc10 0x10, iomem 0xffc20 0x10, iomem 0xfea40 0x1,
     iomem 0xfea50 0x1, iomem 0xfea60 0x1, iomem 0xfea70 0x1]"

definition h3ulcb_irqs_first :: "int list" where
  "h3ulcb_irqs_first = [
     36, 37, 38, 39, 40, 42, 43, 99, 100, 101, 32, 33, 34, 35, 193, 50, 318, 51, 205, 141, 142, 66, 67, 103, 231, 232, 233, 234, 235, 236, 237, 238,
     239, 240, 241, 242, 243, 244, 245, 246, 247, 251, 345, 252, 346, 248, 340, 341, 342, 343, 344, 249, 250, 347, 348, 349, 350, 351, 448, 449, 450,
     451, 452, 453, 454, 455, 456, 457, 458, 459, 460, 461, 462, 463, 429, 71, 72, 73, 74, 75, 76, 77, 78, 79, 80, 81, 82, 83, 84, 85, 86, 87, 88,
     89, 90, 91, 92, 93, 94, 95, 384, 385, 386, 387, 388, 389, 390, 391]"

definition h3ulcb_irqs_rest :: "int list" where
  "h3ulcb_irqs_rest = [
     392, 393, 402, 403, 404, 405, 406, 407, 408, 409, 410, 411, 352, 353, 354, 355, 356, 357, 358, 359, 360, 361, 362, 363, 364, 365, 366, 367, 382,
     383, 368, 369, 370, 371, 372, 373, 374, 375, 376, 377, 378, 379, 380, 381, 414, 415, 144, 197, 151, 224, 225, 226, 227, 412, 413, 255, 292, 293,
     272, 273, 294, 295, 298, 497, 498, 499, 500, 476, 477, 421, 288, 300, 301, 302, 471, 425, 480, 481, 482, 483, 484, 485, 486, 487, 488, 501, 489,
     490, 491, 492, 493, 494, 495, 496]"

definition h3ulcb_irqs :: "int list" where
  "h3ulcb_irqs = h3ulcb_irqs_first @ h3ulcb_irqs_rest"

definition h3ulcb_domd_cfg :: "'b \<Rightarrow> 'b xen_domain_cfg" where
  "h3ulcb_domd_cfg back =
     \<lparr>dc_machine_dt_compat = [], dc_mem_kb = 0x200000, dc_flags = [CDF_hvm, CDF_hap, CDF_iommu], dc_max_evtchns = 10, dc_max_vcpus = 4,
      dc_gnt_frames = 32, dc_max_maptrack_frames = 1, dc_iomems = h3ulcb_iomems, dc_irqs = h3ulcb_irqs,
      dc_gic_version = GIC_V2, dc_tee_type = TEE_OPTEE, dc_dtdevs = h3ulcb_dtdevs, dc_dt_passthrough = h3ulcb_dt_passthrough_nodes,
      dc_cmdline = ''root=/dev/mmcblk1p4 ro rootwait console=hvc0 clk_ignore_unused pci=pcie_bus_perf cgroup_no_v1=all '' @
        ''systemd.unified_cgroup_hierarchy=1 vardir.disk=/dev/mmcblk1p5 opendisk.target=/dev/mmcblk1p6 '' @
        ''opendisk.pkcs11=optee aosupdate.disk=/dev/aosvg/workdirs aosupdate.path=um/update_rootfs '' @
        ''aosupdate.selinux_module=/usr/share/selinux/aos/base.pp'',
      dc_back_cfg = back\<rparr>"

section \<open>The driver domain on Salvator-XS\<close>

definition salvator_xs_dtdevs :: "string list" where
  "salvator_xs_dtdevs = [
     ''/soc/ethernet@e6800000'', ''/soc/dma-controller@e6700000'', ''/soc/dma-controller@e7300000'', ''/soc/dma-controller@e7310000'',
     ''/soc/dma-controller@ec700000'', ''/soc/dma-controller@ec720000'', ''/soc/dma-controller@e65a0000'', ''/soc/dma-controller@e65b0000'',
     ''/soc/usb@ee000000'', ''/soc/usb@ee080000'', ''/soc/usb@ee080100'', ''/soc/usb@ee0a0000'', ''/soc/usb@ee0a0100'', ''/soc/mmc@ee100000'',
     ''/soc/mmc@ee160000'', ''/soc/fdpm@fe940000'', ''/soc/vspm@fe960000'', ''/soc/vspm@fe9a0000'', ''/soc/fcp@fea27000'', ''/soc/fcp@fea2f000'',
     ''/soc/fcp@fea37000'', ''/soc/hdmi@fead0000'', ''/soc/vcp4@fe90f000'', ''/soc/gsx_pv0_domd'', ''/soc/gsx_pv1_domd'', ''/soc/pcie@fe000000'',
     ''/soc/pcie@ee800000'', ''/soc/dma-controller@ffc10000'', ''/soc/video@e6ef0000'', ''/soc/video@e6ef1000'', ''/soc/video@e6ef2000'',
     ''/soc/video@e6ef3000'', ''/soc/video@e6ef4000'', ''/soc/video@e6ef5000'', ''/soc/video@e6ef6000'', ''/soc/video@e6ef7000'']"

definition salvator_xs_dt_passthrough_nodes :: "string list" where
  "salvator_xs_dt_passthrough_nodes = [
     ''/gsx_opp_table0'', ''/gsx_opp_table1'', ''/gsx_opp_table2'', ''/gsx_opp_table3'', ''/gsx_opp_table4'', ''/gsx_opp_table5'',
     ''/gsx_opp_table6'', ''/gsx_opp_table7'', ''/extal'', ''/extalr'', ''/audio_clk_a'', ''/audio_clk_b'', ''/audio_clk_c'', ''/can'', ''/scif'',
     ''/pcie_bus'', ''/soc'', ''/audio-clkout'', ''/avb-mch@ec5a0100'', ''/backlight'', ''/cvbs-in'', ''/hdmi-in'', ''/regulator0'', ''/regulator1'',
     ''/regulator2'', ''/sound'', ''/regulator-vbus0-usb2'', ''/regulator-vcc-sdhi0'', ''/regulator-vccq-sdhi0'', ''/regulator-vcc-sdhi3'',
     ''/regulator-vccq-sdhi3'', ''/hdmi0-out'', ''/hdmi1-out'', ''/vga'', ''/vga-encoder'', ''/lvds'', ''/x12'', ''/x21-clock'', ''/x22-clock'',
     ''/x23-clock'', ''/vspm_if'', ''/usb3s0'', ''/usb_extal'', ''/reserved-memory'', ''/mmngr'', ''/mmngrbuf'', ''/__symbols__'']"

definition salvator_xs_iomems :: "xen_domain_iomem list" where
  "salvator_xs_iomems = [
     iomem 0x54000 0x3000, iomem 0xe6020 0x1, iomem 0xe6050 0x1, iomem 0xe6051 0x1, iomem 0xe6052 0x1, iomem 0xe6053 0x1, iomem 0xe6054 0x1,
     iomem 0xe6055 0x1, iomem 0xe6260 0x1, iomem 0xe6060 0x1, iomem 0xe6150 0x1, iomem 0xe6160 0x1, iomem 0xfff00 0x1, iomem 0xe6180 0x1,
     iomem 0xe61c0 0x1, iomem 0xe6e31 0x1, iomem 0xe6e32 0x1, iomem 0xe6510 0x1, iomem 0xe66d8 0x1, iomem 0xe65ee 0x1, iomem 0xe6601 0x1,
     iomem 0xe6800 0x1, iomem 0xe6a00 0x10, iomem 0xe6e68 0x1, iomem 0xfea80 0x10, iomem 0xfeaa0 0x10, iomem 0xe6ef0 0x1, iomem 0xe6ef1 0x1,
     iomem 0xe6ef2 0x1, iomem 0xe6ef3 0x1, iomem 0xe6ef4 0x1, iomem 0xe6ef5 0x1, iomem 0xe6ef6 0x1, iomem 0xe6ef7 0x1, iomem 0xe6700 0x10,
     iomem 0xe7300 0x10, iomem 0xe7310 0x10, iomem 0xec700 0x10, iomem 0xec720 0x10, iomem 0xe65a0 0x1, iomem 0xe65b0 0x1, iomem 0xe6590 0x1,
     iomem 0xee000 0x1, iomem 0xee020 0x1, iomem 0xee080 0x1, iomem 0xee0a0 0x1, iomem 0xee100 0x2, iomem 0xee160 0x2, iomem 0xec500 0x1,
     iomem 0xec5a0 0x1, iomem 0xec540 0x1, iomem 0xec541 0x1, iomem 0xec760 0x1, iomem 0xec000 0x1, iomem 0xec008 0x1, iomem 0xfe000 0x80,
     iomem 0xee800 0x80, iomem 0xe67e0 0x11, iomem 0xfd000 0x40, iomem 0xfe900 0x1, iomem 0xfe910 0x1, iomem 0xfe8d0 0x1, iomem 0xfe90f 0x1,
     iomem 0xfe940 0x3, iomem 0xfe950 0x1, iomem 0xfe960 0x8, iomem 0xfe96f 0x1, iomem 0xfe9a0 0x8, iomem 0xfe9af 0x1, iomem 0xfea20 0x5,
     iomem 0xfea27 0x1, iomem 0xfea28 0x5, iomem 0xfea2f 0x1, iomem 0xfea30 0x5, iomem 0xfea37 0x1, iomem 0xfead0 0x10, iomem 0xfeb00 0x70,
     iomem 0xfeb90 0x1, iomem 0xe6198 0x1, iomem 0xe61a0 0x1, iomem 0xe61a8 0x1, iomem 0xe60b0 0x1, iomem 0xe60a0 0x1, iomem 0xffc10 0x10,
     iomem 0xe6550 0x1]"

definition salvator_xs_irqs_first :: "int list" where
  "salvator_xs_irqs_first = [
     36, 37, 38, 39, 40, 41, 42, 43, 32, 33, 34, 35, 193, 50, 318, 51, 103, 71, 72, 73, 74, 75, 76, 77, 78, 79, 80, 81, 82, 83, 84, 85, 86, 87, 88,
     89, 90, 91, 92, 93, 94, 95, 185, 216, 278, 220, 221, 222, 223, 206, 207, 208, 203, 231, 232, 233, 234, 235, 236, 237, 238, 239, 240, 241, 242,
     243, 244, 245, 246, 247, 251, 345, 252, 346, 248, 340, 341, 342, 343, 344, 249, 250, 347, 348, 349, 350, 351, 448, 449, 450, 451, 452, 453, 454,
     455, 456, 457, 458, 459, 460, 461, 462, 463, 429, 352, 353, 354, 355, 356, 357, 358, 359, 360, 361, 362, 363, 364, 365, 366, 367, 382]"

definition salvator_xs_irqs_rest :: "int list" where
  "salvator_xs_irqs_rest = [
     383, 368, 369, 370, 371, 372, 373, 374, 375, 376, 377, 378, 379, 380, 381, 414, 415, 141, 142, 139, 134, 136, 140, 144, 197, 200, 384, 385, 386,
     387, 388, 389, 390, 391, 392, 393, 402, 403, 404, 405, 406, 407, 408, 409, 410, 411, 148, 149, 150, 180, 181, 182, 151, 292, 293, 272, 273, 412,
     413, 255, 294, 298, 476, 498, 499, 500, 421, 288, 300, 301, 99, 100, 101, 205, 480, 481, 482, 483, 484, 485, 486, 487, 488, 489, 490, 491, 492,
     493, 494, 495, 496, 187]"

definition salvator_xs_irqs :: "int list" where
  "salvator_xs_irqs = salvator_xs_irqs_first @ salvator_xs_irqs_rest"

definition salvator_xs_domd_cfg :: "'b \<Rightarrow> 'b xen_domain_cfg" where
  "salvator_xs_domd_cfg back =
     \<lparr>dc_machine_dt_compat = [], dc_mem_kb = 0x200000, dc_flags = [CDF_hvm, CDF_hap, CDF_iommu], dc_max_evtchns = 10, dc_max_vcpus = 4,
      dc_gnt_frames = 32, dc_max_maptrack_frames = 1, dc_iomems = salvator_xs_iomems, dc_irqs = salvator_xs_irqs,
      dc_gic_version = GIC_V2, dc_tee_type = TEE_OPTEE, dc_dtdevs = salvator_xs_dtdevs, dc_dt_passthrough = salvator_xs_dt_passthrough_nodes,
      dc_cmdline = ''root=/dev/mmcblk1p4 ro rootwait console=hvc0 clk_ignore_unused pci=pcie_bus_perf cgroup_no_v1=all '' @
        ''systemd.unified_cgroup_hierarchy=1 vardir.disk=/dev/mmcblk1p5 opendisk.target=/dev/mmcblk1p6 '' @
        ''opendisk.pkcs11=optee aosupdate.disk=/dev/aosvg/workdirs aosupdate.path=um/update_rootfs '' @
        ''aosupdate.selinux_module=/usr/share/selinux/aos/base.pp'',
      dc_back_cfg = back\<rparr>"

section \<open>The driver domain on Spider\<close>

definition spider_dtdevs :: "string list" where
  "spider_dtdevs = [
     ''/soc/dma-controller@e7350000'', ''/soc/dma-controller@e7351000'', ''/soc/ethernet@e68c0000'', ''/soc/pcie@e65d0000'', ''/soc/scsi@e6860000'']"

definition spider_dt_passthrough_nodes :: "string list" where
  "spider_dt_passthrough_nodes = [
     ''/extal'', ''/extalr'', ''/pcie_bus'', ''/scif'', ''/soc'', ''/ufs30_refclk_v'', ''/regulator-1p8v'', ''/regulator-3p3v'',
     ''/regulator-vcc-sdhi'', ''/reserved-memory'']"

definition spider_iomems :: "xen_domain_iomem list" where
  "spider_iomems = [
     iomem 0xe6020 0x1, iomem 0xe6050 0x1, iomem 0xe6051 0x1, iomem 0xe6150 0x4, iomem 0xe6160 0x4, iomem 0xe6180 0x4, iomem 0xe6500 0x1,
     iomem 0xe66d8 0x1, iomem 0xe6860 0x1, iomem 0xe68c0 0x20, iomem 0xe6444 0x3, iomem 0xe6550 0x1, iomem 0xe6e60 0x1, iomem 0xe7350 0x1,
     iomem 0xe7300 0x10, iomem 0xe7351 0x1, iomem 0xe7310 0x10, iomem 0xfff00 0x1, iomem 0xffd60 0x1, iomem 0xffc10 0x10, iomem 0xffd61 0x1,
     iomem 0xffc20 0x10, iomem 0xffd62 0x1, iomem 0xffd70 0x10, iomem 0xffd63 0x1, iomem 0xffd80 0x10, iomem 0xe65d3 0x2, iomem 0xe65d5 0x2,
     iomem 0xe65d6 0x1, iomem 0xe65d7 0x1, iomem 0xe6198 0x1, iomem 0xe61a0 0x1, iomem 0xe61a0 0x1, iomem 0xe61b0 0x1, iomem 0xe6260 0x10,
     iomem 0xdfd91 0x1, iomem 0xe6078 0x1]"

definition spider_irqs_first :: "int list" where
  "spider_irqs_first = [
     854, 858, 948, 952, 267, 270, 274, 278, 281, 133, 134, 135, 136, 137, 138, 139, 140, 141, 142, 143, 144, 145, 146, 147, 148, 149, 151, 158, 157,
     152, 179, 180, 181, 182, 183, 184, 185, 186, 155, 156, 154, 153, 159, 64, 65, 66, 67, 68, 69, 70, 71, 72, 73, 74, 75, 76, 77, 61, 62, 63, 79,
     80, 81, 82, 83, 84, 85, 86, 87, 88, 89, 90, 91, 92, 93, 94, 95, 97, 98, 99, 100, 101, 102, 103, 104, 105, 106, 107, 108, 109, 110, 111, 112, 113]"

definition spider_irqs_rest :: "int list" where
  "spider_irqs_rest = [
     128, 129, 130, 131, 115, 116, 117, 118, 119, 120, 121, 122, 123, 124, 125, 126, 127, 448, 449, 450, 451, 452, 453, 454, 352, 354, 356, 358, 360,
     362, 364, 366, 386, 388, 390, 392, 394, 396, 398, 400, 312, 313, 314, 315, 316, 317, 318, 319, 320, 321, 322, 323, 324, 325, 326, 327, 328, 329,
     330, 331]"

definition spider_irqs :: "int list" where
  "spider_irqs = spider_irqs_first @ spider_irqs_rest"

definition spider_domd_cfg :: "'b \<Rightarrow> 'b xen_domain_cfg" where
  "spider_domd_cfg back =
     \<lparr>dc_machine_dt_compat = [''renesas,r8a779f0''], dc_mem_kb = 0x100000, dc_flags = [CDF_hvm, CDF_hap, CDF_iommu], dc_max_evtchns = 10, dc_max_vcpus = 4,
      dc_gnt_frames = 32, dc_max_maptrack_frames = 1, dc_iomems = spider_iomems, dc_irqs = spider_irqs,
      dc_gic_version = GIC_V3, dc_tee_type = TEE_OPTEE, dc_dtdevs = spider_dtdevs, dc_dt_passthrough = spider_dt_passthrough_nodes,
      dc_cmdline = ''root=/dev/sda4 ro rootwait console=hvc0 clk_ignore_unused pci=pcie_bus_perf cgroup_no_v1=all '' @
        ''systemd.unified_cgroup_hierarchy=1 vardir.disk=/dev/sda5 opendisk.target=/dev/sda6 opendisk.pkcs11=optee '' @
        ''aosupdate.disk=/dev/aosvg/workdirs aosupdate.path=um/update_rootfs '' @
        ''aosupdate.selinux_module=/usr/share/selinux/aos/base.pp'',
      dc_back_cfg = back\<rparr>"

section \<open>The user domain\<close>

definition domu_backend_configs :: "string list" where
  "domu_backend_configs = [
     ''disk=['' @ [CHR 0x27] @ ''backend=1, vdev=xvda, access=rw, target=/dev/sda7'' @ [CHR 0x27] @ '']'',
     ''vif=['' @ [CHR 0x27] @ ''backend=1,bridge=xenbr0,mac=08:00:27:ff:cb:ce,ip=172.44.0.2 255.255.255.0 172.44.0.1'' @ [CHR 0x27] @ '']'']"

text \<open>\<open>gic_v3\<close> is the build's \<open>CONFIG_GIC_V3\<close>.\<close>

definition domu_cfg :: "bool \<Rightarrow> 'b \<Rightarrow> 'b xen_domain_cfg" where
  "domu_cfg gic_v3 back =
     \<lparr>dc_machine_dt_compat = [], dc_mem_kb = 0x40000, dc_flags = [CDF_hvm, CDF_hap, CDF_iommu], dc_max_evtchns = 10, dc_max_vcpus = 1,
      dc_gnt_frames = 32, dc_max_maptrack_frames = 1, dc_iomems = [], dc_irqs = [],
      dc_gic_version = (if gic_v3 then GIC_V3 else GIC_V2), dc_tee_type = TEE_NONE, dc_dtdevs = [], dc_dt_passthrough = [],
      dc_cmdline = ''console=hvc0 clk_ignore_unused root=/dev/xvda rw rootwait ignore_loglevel'', dc_back_cfg = back\<rparr>"

text \<open>The hypervisor's library: \<open>parse_one_record_and_fill_cfg\<close>, \<open>domain_create\<close> and \<open>domain_post_create\<close>.\<close>

record ('b, 'w) domains_env =
  de_parse :: "string \<Rightarrow> 'b \<Rightarrow> int \<times> 'b"
  de_create :: "'w \<Rightarrow> 'b xen_domain_cfg \<Rightarrow> nat \<Rightarrow> int \<times> 'w"
  de_post_create :: "'w \<Rightarrow> 'b xen_domain_cfg \<Rightarrow> int \<Rightarrow> int \<times> 'w"

text \<open>The loop over the backends' records; \<open>rc\<close> is the last result.\<close>

fun parse_records :: "('b, 'w) domains_env \<Rightarrow> string list \<Rightarrow> int \<Rightarrow> 'b \<Rightarrow> int \<times> 'b" where
  "parse_records env [] rc back = (rc, back)"
| "parse_records env (r # rs) rc back =
     (case de_parse env r back of (rc, back) \<Rightarrow> if rc \<noteq> 0 then (rc, back) else parse_records env rs rc back)"

definition domu_start :: "('b, 'w) domains_env \<Rightarrow> bool \<Rightarrow> 'b \<Rightarrow> 'w \<Rightarrow> int \<times> 'w" where
  "domu_start env gic_v3 back w =
     (case parse_records env domu_backend_configs 0 back of
        (rc, back) \<Rightarrow>
      if rc \<noteq> 0 then (rc, w)
      else case de_create env w (domu_cfg gic_v3 back) 0 of
        (domid, w) \<Rightarrow>
      if domid < 0 then (rc, w)
      else case de_post_create env w (domu_cfg gic_v3 back) domid of
        (rc, w) \<Rightarrow> if rc \<noteq> 0 then (rc, w) else (0, w))"

definition DOMID_DOMD :: nat where
  "DOMID_DOMD = 1"

text \<open>\<open>domd\<close> is the board's configuration if the build has a driver domain, \<open>domu\<close> tells whether it has a user domain.\<close>

definition create_domains ::
    "('b, 'w) domains_env \<Rightarrow> 'b xen_domain_cfg option \<Rightarrow> bool \<Rightarrow> bool \<Rightarrow> 'b \<Rightarrow> 'w \<Rightarrow> int \<times> 'w" where
  "create_domains env domd domu gic_v3 back w =
     (let user = (\<lambda>w. if domu then (case domu_start env gic_v3 back w of (rc, w) \<Rightarrow> if rc < 0 then (rc, w) else (0, w)) else (0, w)) in
      case domd of
        None \<Rightarrow> user w
      | Some cfg \<Rightarrow>
          (case de_create env w cfg DOMID_DOMD of
             (rc, w) \<Rightarrow>
               if rc < 0 then (rc, w)
               else if rc \<noteq> int DOMID_DOMD then (rc, w)
               else user w))"

section \<open>Properties\<close>

text \<open>Two ranges of pages that share one, and the pairs of ranges of a table that do.\<close>

definition iomem_overlap :: "xen_domain_iomem \<Rightarrow> xen_domain_iomem \<Rightarrow> bool" where
  "iomem_overlap a b \<longleftrightarrow> xi_first_mfn a < xi_first_mfn b + xi_nr_mfns b \<and> xi_first_mfn b < xi_first_mfn a + xi_nr_mfns a"

fun overlaps :: "xen_domain_iomem list \<Rightarrow> (int \<times> int) list" where
  "overlaps [] = []"
| "overlaps (a # as) = map (\<lambda>b. (xi_first_mfn a, xi_first_mfn b)) (filter (iomem_overlap a) as) @ overlaps as"

text \<open>No page is given twice when there are no such pairs.\<close>

definition pages :: "xen_domain_iomem \<Rightarrow> int set" where
  "pages a = {xi_first_mfn a ..< xi_first_mfn a + xi_nr_mfns a}"

lemma overlap_pages: "iomem_overlap a b \<or> pages a \<inter> pages b = {}"
  by (auto simp: iomem_overlap_def pages_def)

lemma no_overlaps: "overlaps as = [] \<Longrightarrow> sorted_wrt (\<lambda>a b. pages a \<inter> pages b = {}) as"
proof (induction as)
  case (Cons a as)
  then show ?case using overlap_pages [of a] by (auto simp: filter_empty_conv)
qed simp

text \<open>The tables, evaluated.\<close>

lemma tables_checked:
  "overlaps h3ulcb_iomems = []" "overlaps salvator_xs_iomems = []"
  "overlaps spider_iomems = [(0xe65d5, 0xe65d6), (0xe61a0, 0xe61a0)]"
  by code_simp+

lemma irqs_checked:
  "distinct h3ulcb_irqs" "distinct salvator_xs_irqs" "distinct spider_irqs"
  "list_all (\<lambda>i. 32 \<le> i \<and> i < 1020) (h3ulcb_irqs @ salvator_xs_irqs @ spider_irqs)"
  by code_simp+

lemma devices_checked: "distinct h3ulcb_dtdevs" "distinct salvator_xs_dtdevs" "distinct spider_dtdevs"
  by code_simp+

text \<open>The driver domain of each board is given its devices once: on H3ULCB and Salvator-XS no two ranges of its table share a page, and on
  Spider just two pairs do; no interrupt and no device is listed twice, and every interrupt is a
  shared peripheral one of the interrupt controller.\<close>

theorem domd_assignments:
  "sorted_wrt (\<lambda>a b. pages a \<inter> pages b = {}) (dc_iomems (h3ulcb_domd_cfg back)) \<and>
   sorted_wrt (\<lambda>a b. pages a \<inter> pages b = {}) (dc_iomems (salvator_xs_domd_cfg back)) \<and>
   overlaps (dc_iomems (spider_domd_cfg back)) = [(0xe65d5, 0xe65d6), (0xe61a0, 0xe61a0)] \<and>
   list_all (\<lambda>c. distinct (dc_irqs c) \<and> list_all (\<lambda>i. 32 \<le> i \<and> i < 1020) (dc_irqs c) \<and> distinct (dc_dtdevs c))
     [h3ulcb_domd_cfg back, salvator_xs_domd_cfg back, spider_domd_cfg back]"
  using irqs_checked devices_checked
  by (simp add: h3ulcb_domd_cfg_def salvator_xs_domd_cfg_def spider_domd_cfg_def tables_checked no_overlaps)

text \<open>C36. The creation of the domains reports success exactly in these cases: the driver domain gets number one, and for the user
  domain the backends' records are read and its backends are set up without a negative
  result, or a record gives a positive result, or its own creation fails. A driver domain
  that gets number zero is a success too, without a user domain.\<close>

theorem create_domains_success:
  "fst (create_domains env (Some cfg) True gic_v3 back w) = 0 \<longleftrightarrow>
     (let (r1, w1) = de_create env w cfg DOMID_DOMD;
          (rp, back1) = parse_records env domu_backend_configs 0 back;
          (r2, w2) = de_create env w1 (domu_cfg gic_v3 back1) 0;
          (r3, w3) = de_post_create env w2 (domu_cfg gic_v3 back1) r2
      in r1 = 0 \<or> r1 = 1 \<and> (0 < rp \<or> rp = 0 \<and> (r2 < 0 \<or> 0 \<le> r3)))"
proof -
  obtain r1 w1 where 1: "de_create env w cfg DOMID_DOMD = (r1, w1)" by fastforce
  obtain rp back1 where p: "parse_records env domu_backend_configs 0 back = (rp, back1)" by fastforce
  obtain r2 w2 where 2: "de_create env w1 (domu_cfg gic_v3 back1) 0 = (r2, w2)" by fastforce
  obtain r3 w3 where 3: "de_post_create env w2 (domu_cfg gic_v3 back1) r2 = (r3, w3)" by fastforce
  have "domu_start env gic_v3 back w1 = (if rp \<noteq> 0 then (rp, w1) else if r2 < 0 then (0, w2) else if r3 \<noteq> 0 then (r3, w3) else (0, w3))"
    by (simp add: domu_start_def p 2 3)
  moreover have "int DOMID_DOMD = 1" by (simp add: DOMID_DOMD_def)
  ultimately have "fst (create_domains env (Some cfg) True gic_v3 back w) = (if r1 < 0 \<or> r1 \<noteq> 1 then r1
      else if rp \<noteq> 0 then min rp 0 else if r2 < 0 then 0 else min r3 0)"
    by (simp add: create_domains_def 1 min_def)
  then show ?thesis by (simp add: 1 p 2 3 min_def)
qed

end
