(* ===== verification/CStructs.thy ===== *)
theory CStructs
  imports Storage Downloader
begin

text \<open>
  The memory of C structures: the character arrays of the stored records with what lies behind their terminator
  (\<open>src/storage/storage.hpp\<close>), how the conversions of \<open>src/storage/storage.cpp\<close> fill them, and
  their comparison; the views of C arrays as strings (\<open>src/utils/utils.hpp\<close>); and the comparison of the
  downloader's messages (\<open>src/downloader/downloader.hpp\<close>). The theory of the storage works on
  strings; here is what makes this right. A character array is the list of all its characters.
\<close>

section \<open>C functions on arrays\<close>

text \<open>Behind the end of an array nothing is compared: it counts as a terminator.\<close>

fun strcmp :: "string \<Rightarrow> string \<Rightarrow> int" where
  "strcmp [] [] = 0"
| "strcmp (a # s) [] = int (of_char a)"
| "strcmp [] (b # t) = - int (of_char b)"
| "strcmp (a # s) (b # t) = (if a \<noteq> b then int (of_char a) - int (of_char b) else if a = CHR 0x00 then 0 else strcmp s t)"

fun memcmp :: "byte list \<Rightarrow> byte list \<Rightarrow> nat \<Rightarrow> int" where
  "memcmp (a # s) (b # t) (Suc n) = (if a \<noteq> b then uint a - uint b else memcmp s t n)"
| "memcmp s t n = 0"

text \<open>\<open>strcpy\<close> into an array that is long enough, and \<open>memcpy\<close>.\<close>

definition strcpy :: "string \<Rightarrow> string \<Rightarrow> string" where
  "strcpy dst src = cstr src @ CHR 0x00 # drop (Suc (length (cstr src))) dst"

definition memcpy :: "byte list \<Rightarrow> byte list \<Rightarrow> byte list" where
  "memcpy dst src = src @ drop (length src) dst"

lemma of_char_0 [simp]: "(of_char c :: nat) = 0 \<longleftrightarrow> c = CHR 0x00"
proof
  assume "(of_char c :: nat) = 0"
  then have "c = char_of (0 :: nat)" by (metis char_of_char)
  then show "c = CHR 0x00" by (simp add: char_of_def)
qed simp

lemma strcmp_cstr: "strcmp s t = 0 \<longleftrightarrow> cstr s = cstr t"
  by (induction s t rule: strcmp.induct) (auto simp: cstr_def)

lemma memcmp_take: "n \<le> length s \<Longrightarrow> n \<le> length t \<Longrightarrow> memcmp s t n = 0 \<longleftrightarrow> take n s = take n t"
  by (induction s t n rule: memcmp.induct) (auto simp: word_uint_eq_iff)

lemma cstr_nul: "no_nul s \<Longrightarrow> cstr (s @ CHR 0x00 # t) = s"
  by (induction s) (auto simp: cstr_def no_nul_def)

lemma cstr_shorter: "\<not> no_nul s \<Longrightarrow> length (cstr s) < length s"
  by (induction s) (auto simp: cstr_def no_nul_def)

lemma cstr_strcpy [simp]: "cstr (strcpy dst src) = cstr src"
  by (simp add: strcpy_def cstr_nul)

lemma length_strcpy: "length (cstr src) < length dst \<Longrightarrow> length (strcpy dst src) = length dst"
  by (simp add: strcpy_def)

section \<open>Views of C arrays\<close>

text \<open>
  \<open>StringFromCStr\<close> of an array that can be written: the last character is made a terminator, the string is what
  precedes the first one. The result is the string with the array.
\<close>

definition StringFromCStr :: "string \<Rightarrow> string \<times> string" where
  "StringFromCStr cStr = (let arr = butlast cStr @ [CHR 0x00] in (cstr arr, arr))"

text \<open>Of a constant array: a length beyond the string's capacity is refused and the string stays as long as it can be.\<close>

definition StringFromCStr_const :: "string \<Rightarrow> string" where
  "StringFromCStr_const cStr = (if length (cstr cStr) > length cStr - 1 then take (length cStr - 1) cStr else cstr cStr)"

definition ToArray :: "'a list \<Rightarrow> 'a list" where
  "ToArray arr = arr"

lemma cstr_butlast: "arr \<noteq> [] \<Longrightarrow> cstr (butlast arr @ [CHR 0x00]) = (if no_nul arr then butlast arr else cstr arr)"
proof (induction arr)
  case (Cons a s)
  then show ?case by (cases "s = []") (auto simp: cstr_def no_nul_def)
qed simp

section \<open>Stored records\<close>

text \<open>The stored records, with arrays in the place of strings.\<close>

definition eq_InstanceIdent :: "InstanceIdent \<Rightarrow> InstanceIdent \<Rightarrow> bool" where
  "eq_InstanceIdent a b \<longleftrightarrow> strcmp (ii_mServiceID a) (ii_mServiceID b) = 0 \<and> strcmp (ii_mSubjectID a) (ii_mSubjectID b) = 0 \<and>
     ii_mInstance a = ii_mInstance b"

definition eq_InstanceData :: "InstanceData \<Rightarrow> InstanceData \<Rightarrow> bool" where
  "eq_InstanceData a b \<longleftrightarrow> strcmp (in_mInstanceID a) (in_mInstanceID b) = 0 \<and> eq_InstanceIdent (in_mInstanceIdent a) (in_mInstanceIdent b) \<and>
     in_mPriority a = in_mPriority b \<and> in_mUID a = in_mUID b \<and> strcmp (in_mStoragePath a) (in_mStoragePath b) = 0 \<and>
     strcmp (in_mStatePath a) (in_mStatePath b) = 0"

definition eq_ServiceData :: "db_ServiceData \<Rightarrow> db_ServiceData \<Rightarrow> bool" where
  "eq_ServiceData a b \<longleftrightarrow> strcmp (sv_mServiceID a) (sv_mServiceID b) = 0 \<and> strcmp (sv_mProviderID a) (sv_mProviderID b) = 0 \<and>
     strcmp (sv_mVersion a) (sv_mVersion b) = 0 \<and> strcmp (sv_mImagePath a) (sv_mImagePath b) = 0 \<and>
     strcmp (sv_mManifestDigest a) (sv_mManifestDigest b) = 0 \<and> tv_sec (sv_mTimestamp a) = tv_sec (sv_mTimestamp b) \<and>
     tv_nsec (sv_mTimestamp a) = tv_nsec (sv_mTimestamp b) \<and> strcmp (sv_mState a) (sv_mState b) = 0 \<and> sv_mSize a = sv_mSize b \<and>
     sv_mGID a = sv_mGID b"

definition eq_LayerData :: "db_LayerData \<Rightarrow> db_LayerData \<Rightarrow> bool" where
  "eq_LayerData a b \<longleftrightarrow> strcmp (ly_mLayerDigest a) (ly_mLayerDigest b) = 0 \<and>
     strcmp (ly_mUnpackedLayerDigest a) (ly_mUnpackedLayerDigest b) = 0 \<and> strcmp (ly_mLayerID a) (ly_mLayerID b) = 0 \<and>
     strcmp (ly_mVersion a) (ly_mVersion b) = 0 \<and> strcmp (ly_mPath a) (ly_mPath b) = 0 \<and>
     strcmp (ly_mOSVersion a) (ly_mOSVersion b) = 0 \<and> tv_sec (ly_mTimestamp a) = tv_sec (ly_mTimestamp b) \<and>
     tv_nsec (ly_mTimestamp a) = tv_nsec (ly_mTimestamp b) \<and> strcmp (ly_mState a) (ly_mState b) = 0 \<and> ly_mSize a = ly_mSize b"

text \<open>The certificate's arrays of bytes with the sizes used.\<close>

record mem_CertInfo =
  mc_mIssuer :: "byte list"
  mc_mIssuerSize :: nat
  mc_mSerial :: "byte list"
  mc_mSerialSize :: nat
  mc_mCertURL :: string
  mc_mKeyURL :: string
  mc_mCertType :: string
  mc_mNotAfter :: Time

definition eq_CertInfo :: "mem_CertInfo \<Rightarrow> mem_CertInfo \<Rightarrow> bool" where
  "eq_CertInfo a b \<longleftrightarrow> mc_mIssuerSize a = mc_mIssuerSize b \<and> mc_mSerialSize a = mc_mSerialSize b \<and>
     memcmp (mc_mIssuer a) (mc_mIssuer b) (mc_mIssuerSize a) = 0 \<and> memcmp (mc_mSerial a) (mc_mSerial b) (mc_mSerialSize a) = 0 \<and>
     strcmp (mc_mCertURL a) (mc_mCertURL b) = 0 \<and> strcmp (mc_mKeyURL a) (mc_mKeyURL b) = 0 \<and>
     strcmp (mc_mCertType a) (mc_mCertType b) = 0 \<and> tv_sec (mc_mNotAfter a) = tv_sec (mc_mNotAfter b) \<and>
     tv_nsec (mc_mNotAfter a) = tv_nsec (mc_mNotAfter b)"

text \<open>The conversions fill memory \<open>m\<close> of any content.\<close>

definition mem_ConvertInstanceData :: "InstanceData \<Rightarrow> InstanceData \<Rightarrow> InstanceData" where
  "mem_ConvertInstanceData m i = m
     \<lparr>in_mInstanceID := strcpy (in_mInstanceID m) (in_mInstanceID i),
      in_mInstanceIdent :=
        \<lparr>ii_mServiceID = strcpy (ii_mServiceID (in_mInstanceIdent m)) (ii_mServiceID (in_mInstanceIdent i)),
         ii_mSubjectID = strcpy (ii_mSubjectID (in_mInstanceIdent m)) (ii_mSubjectID (in_mInstanceIdent i)),
         ii_mInstance = ii_mInstance (in_mInstanceIdent i)\<rparr>,
      in_mPriority := in_mPriority i, in_mStatePath := strcpy (in_mStatePath m) (in_mStatePath i),
      in_mStoragePath := strcpy (in_mStoragePath m) (in_mStoragePath i), in_mUID := in_mUID i\<rparr>"

definition mem_ConvertServiceData :: "'st enum_names \<Rightarrow> db_ServiceData \<Rightarrow> 'st ServiceData \<Rightarrow> db_ServiceData" where
  "mem_ConvertServiceData en m s = m
     \<lparr>sv_mServiceID := strcpy (sv_mServiceID m) (sv_mServiceID s), sv_mProviderID := strcpy (sv_mProviderID m) (sv_mProviderID s),
      sv_mVersion := strcpy (sv_mVersion m) (sv_mVersion s), sv_mImagePath := strcpy (sv_mImagePath m) (sv_mImagePath s),
      sv_mManifestDigest := strcpy (sv_mManifestDigest m) (sv_mManifestDigest s), sv_mTimestamp := sv_mTimestamp s,
      sv_mState := strcpy (sv_mState m) (en_ToString en (sv_mState s)), sv_mSize := sv_mSize s, sv_mGID := sv_mGID s\<rparr>"

definition mem_ConvertLayerData :: "'st enum_names \<Rightarrow> db_LayerData \<Rightarrow> 'st LayerData \<Rightarrow> db_LayerData" where
  "mem_ConvertLayerData en m l = m
     \<lparr>ly_mLayerDigest := strcpy (ly_mLayerDigest m) (ly_mLayerDigest l),
      ly_mUnpackedLayerDigest := strcpy (ly_mUnpackedLayerDigest m) (ly_mUnpackedLayerDigest l),
      ly_mLayerID := strcpy (ly_mLayerID m) (ly_mLayerID l), ly_mVersion := strcpy (ly_mVersion m) (ly_mVersion l),
      ly_mPath := strcpy (ly_mPath m) (ly_mPath l), ly_mOSVersion := strcpy (ly_mOSVersion m) (ly_mOSVersion l),
      ly_mTimestamp := ly_mTimestamp l, ly_mState := strcpy (ly_mState m) (en_ToString en (ly_mState l)), ly_mSize := ly_mSize l\<rparr>"

definition mem_ConvertCertInfo :: "mem_CertInfo \<Rightarrow> string \<Rightarrow> CertInfo \<Rightarrow> mem_CertInfo" where
  "mem_ConvertCertInfo m certType c = m
     \<lparr>mc_mIssuer := memcpy (mc_mIssuer m) (ce_mIssuer c), mc_mSerial := memcpy (mc_mSerial m) (ce_mSerial c),
      mc_mCertURL := strcpy (mc_mCertURL m) (ce_mCertURL c), mc_mKeyURL := strcpy (mc_mKeyURL m) (ce_mKeyURL c),
      mc_mCertType := strcpy (mc_mCertType m) certType, mc_mNotAfter := ce_mNotAfter c,
      mc_mIssuerSize := length (ce_mIssuer c), mc_mSerialSize := length (ce_mSerial c)\<rparr>"

section \<open>Messages of the downloader\<close>

definition eq_ImageContentRequest :: "ImageContentRequest \<Rightarrow> ImageContentRequest \<Rightarrow> bool" where
  "eq_ImageContentRequest a b \<longleftrightarrow> ir_mURL a = ir_mURL b \<and> ir_mRequestID a = ir_mRequestID b \<and> ir_mContentType a = ir_mContentType b"

definition eq_FileInfo :: "FileInfo \<Rightarrow> FileInfo \<Rightarrow> bool" where
  "eq_FileInfo a b \<longleftrightarrow> fi_mRelativePath a = fi_mRelativePath b \<and> fi_mSHA256 a = fi_mSHA256 b \<and> fi_mSize a = fi_mSize b"

definition eq_ImageContentInfo :: "ImageContentInfo \<Rightarrow> ImageContentInfo \<Rightarrow> bool" where
  "eq_ImageContentInfo a b \<longleftrightarrow> im_mRequestID a = im_mRequestID b \<and> list_all2 eq_FileInfo (im_mFiles a) (im_mFiles b) \<and> im_mError a = im_mError b"

definition eq_FileChunk :: "FileChunk \<Rightarrow> FileChunk \<Rightarrow> bool" where
  "eq_FileChunk a b \<longleftrightarrow> fc_mRequestID a = fc_mRequestID b \<and> fc_mRelativePath a = fc_mRelativePath b \<and>
     fc_mPartsCount a = fc_mPartsCount b \<and> fc_mPart a = fc_mPart b \<and> fc_mData a = fc_mData b"

lemma eq_FileInfo: "eq_FileInfo = (=)"
  by (intro ext) (auto simp: eq_FileInfo_def)

lemma downloader_equal:
  "eq_ImageContentRequest = (=)" "eq_ImageContentInfo = (=)" "eq_FileChunk = (=)"
  by (intro ext; auto simp: eq_ImageContentRequest_def eq_ImageContentInfo_def eq_FileChunk_def eq_FileInfo list.rel_eq)+

section \<open>Properties\<close>

lemmas eq_stored_defs = eq_InstanceData_def eq_InstanceIdent_def eq_ServiceData_def eq_LayerData_def eq_CertInfo_def strcmp_cstr

lemmas mem_Convert_defs = mem_ConvertInstanceData_def mem_ConvertServiceData_def mem_ConvertLayerData_def mem_ConvertCertInfo_def

lemma memcmp_memcpy: "length s = length t \<Longrightarrow> memcmp (memcpy m s) (memcpy m' t) (length t) = 0 \<longleftrightarrow> s = t"
  by (simp add: memcmp_take memcpy_def)

text \<open>C34. Comparing stored records compares what was stored: two instances, services, layers or certificates that are
  converted into memory of any former content are equal as C structures just when the storage's
  conversions of them are equal; what lies behind the terminators and the used bytes never matters.\<close>

theorem stored_records_equal:
  "(eq_InstanceData (mem_ConvertInstanceData m1 i) (mem_ConvertInstanceData m2 j) \<longleftrightarrow> ConvertInstanceData i = ConvertInstanceData j) \<and>
   (eq_ServiceData (mem_ConvertServiceData en n1 s) (mem_ConvertServiceData en n2 t) \<longleftrightarrow> ConvertServiceData en s = ConvertServiceData en t) \<and>
   (eq_LayerData (mem_ConvertLayerData en l1 k) (mem_ConvertLayerData en l2 l) \<longleftrightarrow> ConvertLayerData en k = ConvertLayerData en l) \<and>
   (eq_CertInfo (mem_ConvertCertInfo c1 ty1 c) (mem_ConvertCertInfo c2 ty2 d) \<longleftrightarrow> ConvertCertInfo ty1 c = ConvertCertInfo ty2 d)"
proof (intro conjI)
  show "eq_InstanceData (mem_ConvertInstanceData m1 i) (mem_ConvertInstanceData m2 j) \<longleftrightarrow> ConvertInstanceData i = ConvertInstanceData j"
    by (auto simp: eq_stored_defs mem_Convert_defs ConvertInstanceData_def)
  show "eq_ServiceData (mem_ConvertServiceData en n1 s) (mem_ConvertServiceData en n2 t) \<longleftrightarrow> ConvertServiceData en s = ConvertServiceData en t"
    by (auto simp: eq_stored_defs mem_Convert_defs ConvertServiceData_def intro: Time.expand)
  show "eq_LayerData (mem_ConvertLayerData en l1 k) (mem_ConvertLayerData en l2 l) \<longleftrightarrow> ConvertLayerData en k = ConvertLayerData en l"
    by (auto simp: eq_stored_defs mem_Convert_defs ConvertLayerData_def intro: Time.expand)
  show "eq_CertInfo (mem_ConvertCertInfo c1 ty1 c) (mem_ConvertCertInfo c2 ty2 d) \<longleftrightarrow> ConvertCertInfo ty1 c = ConvertCertInfo ty2 d"
    by (auto simp: eq_stored_defs mem_Convert_defs ConvertCertInfo_def memcmp_memcpy intro: Time.expand)
qed

text \<open>The two views of a C array agree, stay within the array, and read back what was copied into it.\<close>

lemma StringFromCStr_views:
  assumes "cStr \<noteq> []"
  shows "fst (StringFromCStr cStr) = StringFromCStr_const cStr" "length (snd (StringFromCStr cStr)) = length cStr"
    "length (cstr src) < length cStr \<Longrightarrow> StringFromCStr_const (strcpy cStr src) = cstr src"
proof -
  have "no_nul cStr \<Longrightarrow> length (cstr cStr) > length cStr - 1" "\<not> no_nul cStr \<Longrightarrow> length (cstr cStr) \<le> length cStr - 1"
    using assms cstr_shorter [of cStr] by auto
  then show "fst (StringFromCStr cStr) = StringFromCStr_const cStr"
    using cstr_butlast [OF assms] by (auto simp: StringFromCStr_def StringFromCStr_const_def Let_def butlast_conv_take split: if_splits)
  show "length (snd (StringFromCStr cStr)) = length cStr" using assms by (simp add: StringFromCStr_def Let_def)
  show "length (cstr src) < length cStr \<Longrightarrow> StringFromCStr_const (strcpy cStr src) = cstr src"
    by (auto simp: StringFromCStr_const_def length_strcpy)
qed

end
