(* ===== verification/JsonTables.thy ===== *)
theory JsonTables
  imports OCISpec ResourceManager
begin

text \<open>
  The tables that tell Zephyr's JSON library where the members of a structure are
  (\<open>src/ocispec/ocispec.cpp\<close>, \<open>src/resourcemanager/resourcemanager.cpp\<close>), and the structures they
  describe. The library trusts the tables: an array is filled up to the length that its
  descriptor gives, and the bit of a member in the result is its place in the table. Lengths are named
  constants of the core library, whose values are the parameter \<open>K\<close>.
\<close>

section \<open>Structures\<close>

datatype c_type = CString | CInt | CU32 | CU64 | CSize | CStruct string | CArray c_type string

type_synonym members = "(string \<times> c_type) list"

definition strings_member :: "string \<Rightarrow> string \<Rightarrow> string \<Rightarrow> members" where
  "strings_member n len cap = [(n, CArray CString cap), (len, CSize)]"

definition structs_member :: "string \<Rightarrow> string \<Rightarrow> string \<Rightarrow> string \<Rightarrow> members" where
  "structs_member n s len cap = [(n, CArray (CStruct s) cap), (len, CSize)]"

definition oci_structs :: "(string \<times> members) list" where
  "oci_structs =
    [(''ContentDescriptor'', [(''mediaType'', CString), (''digest'', CString), (''size'', CU64)]),
     (''ImageManifest'', [(''schemaVersion'', CInt), (''mediaType'', CString), (''config'', CStruct ''ContentDescriptor'')] @
        structs_member ''layers'' ''ContentDescriptor'' ''layersLen'' ''cMaxNumLayers'' @ [(''aosService'', CStruct ''ContentDescriptor'')]),
     (''ImageConfig'', strings_member ''Cmd'' ''cmdLen'' ''cMaxParamCount'' @ strings_member ''Env'' ''envLen'' ''cMaxParamCount'' @
        strings_member ''Entrypoint'' ''entrypointLen'' ''cMaxParamCount''),
     (''ImageSpec'', [(''config'', CStruct ''ImageConfig'')]),
     (''VMHypervisor'', (''path'', CString) # strings_member ''parameters'' ''parametersLen'' ''cMaxParamCount''),
     (''VMKernel'', (''path'', CString) # strings_member ''parameters'' ''parametersLen'' ''cMaxParamCount''),
     (''VMHWConfigIOMEM'', [(''firstGFN'', CU64), (''firstMFN'', CU64), (''nrMFNs'', CU64)]),
     (''VMHWConfig'', [(''deviceTree'', CString), (''vcpus'', CU32), (''memKB'', CU64)] @ strings_member ''dtdevs'' ''dtdevsLen'' ''cMaxDTDevsCount'' @
        structs_member ''iomems'' ''VMHWConfigIOMEM'' ''iomemsLen'' ''cMaxIOMEMsCount'' @
        [(''irqs'', CArray CU32 ''cMaxIRQsCount''), (''irqsLen'', CSize)]),
     (''VM'', [(''hypervisor'', CStruct ''VMHypervisor''), (''kernel'', CStruct ''VMKernel''), (''hwConfig'', CStruct ''VMHWConfig'')]),
     (''RuntimeSpec'', [(''ociVersion'', CString), (''vm'', CStruct ''VM'')]),
     (''ServiceConfig'', strings_member ''runners'' ''runnersLen'' ''cRunnerNameLen'')]"

definition node_structs :: "(string \<times> members) list" where
  "node_structs =
    [(''Device'', (''name'', CString) # strings_member ''hostDevices'' ''hostDevicesLen'' ''cMaxNumHostDevices'' @
        (''sharedCount'', CInt) # strings_member ''groups'' ''groupsLen'' ''cMaxNumGroups''),
     (''FSMount'', [(''destination'', CString), (''source'', CString), (''type'', CString)] @
        strings_member ''options'' ''optionsLen'' ''cFSMountMaxNumOptions''),
     (''Host'', [(''ip'', CString), (''hostName'', CString)]),
     (''Resource'', (''name'', CString) # strings_member ''groups'' ''groupsLen'' ''cMaxNumGroups'' @
        structs_member ''mounts'' ''FSMount'' ''mountsLen'' ''cMaxNumFSMounts'' @ strings_member ''env'' ''envLen'' ''cMaxNumEnvVariables'' @
        structs_member ''hosts'' ''Host'' ''hostsLen'' ''cMaxNumHosts''),
     (''NodeConfig'', [(''version'', CString), (''nodeType'', CString)] @
        structs_member ''devices'' ''Device'' ''devicesLen'' ''cMaxNumNodeDevices'' @
        structs_member ''resources'' ''Resource'' ''resourcesLen'' ''cMaxNumNodeResources'' @
        strings_member ''labels'' ''labelsLen'' ''cMaxNumNodeLabels'' @ [(''priority'', CU32)])]"

section \<open>Tables\<close>

datatype json_tok = JSON_TOK_STRING | JSON_TOK_NUMBER | JSON_TOK_UINT64

text \<open>
  The macros' descriptors: a member's name and token, or its table; for an array the name, the length, the member
  for the number of elements, and the elements.
\<close>

datatype json_descr = DPrim string json_tok | DArray string string string json_tok
  | DObject string "json_descr list" | DObjArray string string string "json_descr list"

definition ContentDescriptorDescr :: "json_descr list" where
  "ContentDescriptorDescr = [DPrim ''mediaType'' JSON_TOK_STRING, DPrim ''digest'' JSON_TOK_STRING, DPrim ''size'' JSON_TOK_UINT64]"

definition ImageManifestDescr :: "json_descr list" where
  "ImageManifestDescr =
    [DPrim ''schemaVersion'' JSON_TOK_NUMBER, DPrim ''mediaType'' JSON_TOK_STRING, DObject ''config'' ContentDescriptorDescr,
     DObjArray ''layers'' ''cMaxNumLayers'' ''layersLen'' ContentDescriptorDescr, DObject ''aosService'' ContentDescriptorDescr]"

definition ImageConfigDescr :: "json_descr list" where
  "ImageConfigDescr =
    [DArray ''Env'' ''cMaxParamCount'' ''envLen'' JSON_TOK_STRING, DArray ''Entrypoint'' ''cMaxParamCount'' ''entrypointLen'' JSON_TOK_STRING,
     DArray ''Cmd'' ''cMaxParamCount'' ''cmdLen'' JSON_TOK_STRING]"

definition ImageSpecDescr :: "json_descr list" where
  "ImageSpecDescr = [DObject ''config'' ImageConfigDescr]"

definition VMHypervisorDescr :: "json_descr list" where
  "VMHypervisorDescr = [DPrim ''path'' JSON_TOK_STRING, DArray ''parameters'' ''cMaxParamCount'' ''parametersLen'' JSON_TOK_STRING]"

definition VMKernelDescr :: "json_descr list" where
  "VMKernelDescr = [DPrim ''path'' JSON_TOK_STRING, DArray ''parameters'' ''cMaxParamCount'' ''parametersLen'' JSON_TOK_STRING]"

definition VMHWConfigIOMEMDescr :: "json_descr list" where
  "VMHWConfigIOMEMDescr = [DPrim ''firstGFN'' JSON_TOK_UINT64, DPrim ''firstMFN'' JSON_TOK_UINT64, DPrim ''nrMFNs'' JSON_TOK_UINT64]"

definition VMHWConfigDescr :: "json_descr list" where
  "VMHWConfigDescr =
    [DPrim ''deviceTree'' JSON_TOK_STRING, DPrim ''vcpus'' JSON_TOK_NUMBER, DPrim ''memKB'' JSON_TOK_UINT64,
     DArray ''dtdevs'' ''cMaxDTDevsCount'' ''dtdevsLen'' JSON_TOK_STRING,
     DObjArray ''iomems'' ''cMaxIOMEMsCount'' ''iomemsLen'' VMHWConfigIOMEMDescr, DArray ''irqs'' ''cMaxIRQsCount'' ''irqsLen'' JSON_TOK_NUMBER]"

definition VMDescr :: "json_descr list" where
  "VMDescr = [DObject ''hypervisor'' VMHypervisorDescr, DObject ''kernel'' VMKernelDescr, DObject ''hwConfig'' VMHWConfigDescr]"

definition RuntimeSpecDescr :: "json_descr list" where
  "RuntimeSpecDescr = [DPrim ''ociVersion'' JSON_TOK_STRING, DObject ''vm'' VMDescr]"

definition ServiceConfigDescr :: "json_descr list" where
  "ServiceConfigDescr = [DArray ''runners'' ''cMaxNumRunners'' ''runnersLen'' JSON_TOK_STRING]"

definition cDeviceDescr :: "json_descr list" where
  "cDeviceDescr =
    [DPrim ''name'' JSON_TOK_STRING, DArray ''hostDevices'' ''cMaxNumHostDevices'' ''hostDevicesLen'' JSON_TOK_STRING,
     DPrim ''sharedCount'' JSON_TOK_NUMBER, DArray ''groups'' ''cMaxNumGroups'' ''groupsLen'' JSON_TOK_STRING]"

definition cFSMountDescr :: "json_descr list" where
  "cFSMountDescr =
    [DPrim ''destination'' JSON_TOK_STRING, DPrim ''source'' JSON_TOK_STRING, DPrim ''type'' JSON_TOK_STRING,
     DArray ''options'' ''cFSMountMaxNumOptions'' ''optionsLen'' JSON_TOK_STRING]"

definition cHostDescr :: "json_descr list" where
  "cHostDescr = [DPrim ''ip'' JSON_TOK_STRING, DPrim ''hostName'' JSON_TOK_STRING]"

definition cResourceDescr :: "json_descr list" where
  "cResourceDescr =
    [DPrim ''name'' JSON_TOK_STRING, DArray ''groups'' ''cMaxNumGroups'' ''groupsLen'' JSON_TOK_STRING,
     DObjArray ''mounts'' ''cMaxNumFSMounts'' ''mountsLen'' cFSMountDescr, DArray ''env'' ''cMaxNumEnvVariables'' ''envLen'' JSON_TOK_STRING,
     DObjArray ''hosts'' ''cMaxNumHosts'' ''hostsLen'' cHostDescr]"

definition cNodeConfigDescr :: "json_descr list" where
  "cNodeConfigDescr =
    [DPrim ''version'' JSON_TOK_STRING, DPrim ''nodeType'' JSON_TOK_STRING,
     DObjArray ''devices'' ''cMaxNumHostDevices'' ''devicesLen'' cDeviceDescr,
     DObjArray ''resources'' ''cMaxNumNodeResources'' ''resourcesLen'' cResourceDescr,
     DArray ''labels'' ''cMaxNumNodeLabels'' ''labelsLen'' JSON_TOK_STRING, DPrim ''priority'' JSON_TOK_NUMBER]"

lemmas oci_tables = ContentDescriptorDescr_def ImageManifestDescr_def ImageConfigDescr_def ImageSpecDescr_def VMHypervisorDescr_def
  VMKernelDescr_def VMHWConfigIOMEMDescr_def VMHWConfigDescr_def VMDescr_def RuntimeSpecDescr_def ServiceConfigDescr_def

lemmas node_tables = cDeviceDescr_def cFSMountDescr_def cHostDescr_def cResourceDescr_def cNodeConfigDescr_def

text \<open>The bits that the loads test.\<close>

definition ImageManifestFields :: "(string \<times> nat) list" where
  "ImageManifestFields = [(''schemaVersion'', 2 ^ 0), (''mediaType'', 2 ^ 1), (''config'', 2 ^ 2), (''layers'', 2 ^ 3), (''aosService'', 2 ^ 4)]"

definition RuntimeSpecFields :: "(string \<times> nat) list" where
  "RuntimeSpecFields = [(''ociVersion'', 2 ^ 0), (''vm'', 2 ^ 1)]"

section \<open>What the parser writes\<close>

text \<open>A member's type, and the token that a place takes; the number of elements of an array goes to a size.\<close>

definition struct_member :: "(string \<times> members) list \<Rightarrow> c_type \<Rightarrow> string \<Rightarrow> c_type option" where
  "struct_member S ty n = (case ty of CStruct s \<Rightarrow> (case map_of S s of None \<Rightarrow> None | Some ms \<Rightarrow> map_of ms n) | _ \<Rightarrow> None)"

definition takes :: "json_tok option \<Rightarrow> c_type \<Rightarrow> bool" where
  "takes t ty \<longleftrightarrow> (case t of None \<Rightarrow> ty = CSize | Some JSON_TOK_STRING \<Rightarrow> ty = CString
     | Some JSON_TOK_NUMBER \<Rightarrow> ty = CInt \<or> ty = CU32 | Some JSON_TOK_UINT64 \<Rightarrow> ty = CU64)"

type_synonym place = "(string \<times> nat) list \<times> json_tok option"

text \<open>
  The places that the parser may write for a descriptor: an element of an array for every index below the descriptor's length, and the number of
  elements. A place is a path of members with indices.
\<close>

fun places :: "(string \<Rightarrow> nat) \<Rightarrow> json_descr \<Rightarrow> place list" where
  "places K (DPrim n t) = [([(n, 0)], Some t)]"
| "places K (DArray n cap len t) = ([(len, 0)], None) # map (\<lambda>i. ([(n, i)], Some t)) [0..<K cap]"
| "places K (DObject n ds) = map (\<lambda>(p, t). ((n, 0) # p, t)) (concat (map (places K) ds))"
| "places K (DObjArray n cap len ds) =
     ([(len, 0)], None) # concat (map (\<lambda>i. map (\<lambda>(p, t). ((n, i) # p, t)) (concat (map (places K) ds))) [0..<K cap])"

text \<open>A place is inside of a structure.\<close>

fun inside :: "(string \<Rightarrow> nat) \<Rightarrow> (string \<times> members) list \<Rightarrow> c_type \<Rightarrow> (string \<times> nat) list \<Rightarrow> json_tok option \<Rightarrow> bool" where
  "inside K S ty [] t \<longleftrightarrow> takes t ty"
| "inside K S ty ((n, i) # p) t \<longleftrightarrow>
     (case struct_member S ty n of
        None \<Rightarrow> False
      | Some e \<Rightarrow> (case e of CArray e' cap \<Rightarrow> i < K cap \<and> inside K S e' p t | _ \<Rightarrow> i = 0 \<and> inside K S e p t))"

definition table_safe :: "(string \<Rightarrow> nat) \<Rightarrow> (string \<times> members) list \<Rightarrow> string \<Rightarrow> json_descr list \<Rightarrow> bool" where
  "table_safe K S s ds \<longleftrightarrow> list_all (\<lambda>(p, t). inside K S (CStruct s) p t) (concat (map (places K) ds))"

text \<open>The check of a table against its structure.\<close>

fun fits :: "(string \<Rightarrow> nat) \<Rightarrow> (string \<times> members) list \<Rightarrow> c_type \<Rightarrow> json_descr \<Rightarrow> bool" where
  "fits K S ty (DPrim n t) \<longleftrightarrow> (case struct_member S ty n of None \<Rightarrow> False | Some e \<Rightarrow> takes (Some t) e)"
| "fits K S ty (DArray n cap len t) \<longleftrightarrow> struct_member S ty len = Some CSize \<and>
     (case struct_member S ty n of Some (CArray e c) \<Rightarrow> K cap \<le> K c \<and> takes (Some t) e | _ \<Rightarrow> False)"
| "fits K S ty (DObject n ds) \<longleftrightarrow> (case struct_member S ty n of Some (CStruct s) \<Rightarrow> list_all (fits K S (CStruct s)) ds | _ \<Rightarrow> False)"
| "fits K S ty (DObjArray n cap len ds) \<longleftrightarrow> struct_member S ty len = Some CSize \<and>
     (case struct_member S ty n of Some (CArray e c) \<Rightarrow> K cap \<le> K c \<and> list_all (fits K S e) ds | _ \<Rightarrow> False)"

lemma takes_flat [simp]: "takes t (CArray e c) \<longleftrightarrow> False" "takes t (CStruct s) \<longleftrightarrow> False"
  by (auto simp: takes_def split: option.splits json_tok.splits)

lemma fits_inside: "fits K S ty d \<Longrightarrow> (p, t) \<in> set (places K d) \<Longrightarrow> inside K S ty p t"
proof (induction d arbitrary: ty p t)
  case (DPrim n tok)
  then show ?case by (auto split: option.splits c_type.splits)
next
  case (DArray n cap len tok)
  then show ?case by (auto simp: takes_def [of None] split: option.splits c_type.splits)
next
  case (DObject n ds)
  then obtain s where s: "struct_member S ty n = Some (CStruct s)" "list_all (fits K S (CStruct s)) ds" by (auto split: option.splits c_type.splits)
  from DObject.prems(2) obtain q d where q: "p = (n, 0) # q" "d \<in> set ds" "(q, t) \<in> set (places K d)" by auto
  with s(2) have "inside K S (CStruct s) q t" using DObject.IH by (auto simp: list_all_iff)
  with s(1) q(1) show ?case by simp
next
  case (DObjArray n cap len ds)
  then obtain e c where e: "struct_member S ty len = Some CSize" "struct_member S ty n = Some (CArray e c)" "K cap \<le> K c" "list_all (fits K S e) ds"
    by (auto split: option.splits c_type.splits)
  show ?case
  proof (cases "p = [(len, 0)] \<and> t = None")
    case True
    with e(1) show ?thesis by (simp add: takes_def)
  next
    case False
    with DObjArray.prems(2) have "(p, t) \<in> set (concat (map (\<lambda>i. map (\<lambda>(p, t). ((n, i) # p, t)) (concat (map (places K) ds))) [0..<K cap]))"
      by simp
    then obtain i q d where q: "p = (n, i) # q" "i < K cap" "d \<in> set ds" "(q, t) \<in> set (places K d)" by auto
    with e(4) have "inside K S e q t" using DObjArray.IH by (auto simp: list_all_iff)
    with e(2,3) q(1,2) show ?thesis by simp
  qed
qed

lemma fits_safe: "list_all (fits K S (CStruct s)) ds \<Longrightarrow> table_safe K S s ds"
  using fits_inside by (fastforce simp: table_safe_def list_all_iff)

lemma safe_inside: "table_safe K S s ds \<Longrightarrow> (p, t) \<in> set (concat (map (places K) ds)) \<Longrightarrow> inside K S (CStruct s) p t"
  unfolding table_safe_def list_all_iff by blast

text \<open>An array whose descriptor is longer than its member is written behind its end.\<close>

lemma array_unsafe:
  assumes "table_safe K S s ds" "DArray n cap len t \<in> set ds" "struct_member S (CStruct s) n = Some (CArray e c)"
  shows "K cap \<le> K c"
proof (rule ccontr)
  assume "\<not> K cap \<le> K c"
  then have "([(n, K c)], Some t) \<in> set (concat (map (places K) ds))" using assms(2) by force
  from safe_inside [OF assms(1) this] show False using assms(3) by simp
qed

lemma obj_array_unsafe:
  assumes "table_safe K S s ds" "DObjArray n cap len ds' \<in> set ds" "struct_member S (CStruct s) n = Some (CArray e c)" "DPrim m t \<in> set ds'"
  shows "K cap \<le> K c"
proof (rule ccontr)
  assume "\<not> K cap \<le> K c"
  moreover have "([(m, 0)], Some t) \<in> set (concat (map (places K) ds'))" using assms(4) by force
  ultimately have "([(n, K c), (m, 0)], Some t) \<in> set (concat (map (places K) ds))" using assms(2) by force
  from safe_inside [OF assms(1) this] show False using assms(3) by simp
qed

lemmas structs_defs = oci_structs_def node_structs_def strings_member_def structs_member_def struct_member_def takes_def

lemma oci_fits:
  "list_all (fits K oci_structs (CStruct ''ImageManifest'')) ImageManifestDescr"
  "list_all (fits K oci_structs (CStruct ''ImageSpec'')) ImageSpecDescr"
  "list_all (fits K oci_structs (CStruct ''RuntimeSpec'')) RuntimeSpecDescr"
  by (simp_all add: oci_tables structs_defs)

text \<open>C25. The parser never writes outside of a structure, but for two: whatever the library's constants are, every place that the tables
  of image manifests, image specifications and runtime specifications let it write is inside of the structure and of the right type; the
  table of the service configuration does so just when there are no more runners than a runner's name has characters, and the one
  of the node configuration just when there are no more host devices of a device than devices of a node, because
  its array of devices is declared with one length and described with another.\<close>

theorem json_tables_safe:
  "table_safe K oci_structs ''ImageManifest'' ImageManifestDescr \<and> table_safe K oci_structs ''ImageSpec'' ImageSpecDescr \<and>
   table_safe K oci_structs ''RuntimeSpec'' RuntimeSpecDescr \<and>
   (table_safe K oci_structs ''ServiceConfig'' ServiceConfigDescr \<longleftrightarrow> K ''cMaxNumRunners'' \<le> K ''cRunnerNameLen'') \<and>
   (table_safe K node_structs ''NodeConfig'' cNodeConfigDescr \<longleftrightarrow> K ''cMaxNumHostDevices'' \<le> K ''cMaxNumNodeDevices'')"
proof (intro conjI iffI fits_safe oci_fits)
  show "K ''cMaxNumRunners'' \<le> K ''cRunnerNameLen''" if "table_safe K oci_structs ''ServiceConfig'' ServiceConfigDescr"
    by (rule array_unsafe [OF that, of "''runners''" _ "''runnersLen''" JSON_TOK_STRING CString])
      (simp_all add: ServiceConfigDescr_def structs_defs)
  show "K ''cMaxNumHostDevices'' \<le> K ''cMaxNumNodeDevices''" if "table_safe K node_structs ''NodeConfig'' cNodeConfigDescr"
    by (rule obj_array_unsafe [OF that, of "''devices''" _ "''devicesLen''" cDeviceDescr "CStruct ''Device''" _ "''name''" JSON_TOK_STRING])
      (simp_all add: cNodeConfigDescr_def cDeviceDescr_def structs_defs)
qed (simp_all add: oci_tables node_tables structs_defs)

section \<open>Members and bits\<close>

definition descr_name :: "json_descr \<Rightarrow> string" where
  "descr_name d = (case d of DPrim n t \<Rightarrow> n | DArray n cap len t \<Rightarrow> n | DObject n ds \<Rightarrow> n | DObjArray n cap len ds \<Rightarrow> n)"

definition descr_members :: "json_descr \<Rightarrow> string list" where
  "descr_members d = (case d of DPrim n t \<Rightarrow> [n] | DArray n cap len t \<Rightarrow> [n, len] | DObject n ds \<Rightarrow> [n] | DObjArray n cap len ds \<Rightarrow> [n, len])"

definition all_tables :: "(string \<times> json_descr list) list" where
  "all_tables =
    [(''ContentDescriptor'', ContentDescriptorDescr), (''ImageManifest'', ImageManifestDescr), (''ImageConfig'', ImageConfigDescr),
     (''ImageSpec'', ImageSpecDescr), (''VMHypervisor'', VMHypervisorDescr), (''VMKernel'', VMKernelDescr), (''VMHWConfigIOMEM'', VMHWConfigIOMEMDescr),
     (''VMHWConfig'', VMHWConfigDescr), (''VM'', VMDescr), (''RuntimeSpec'', RuntimeSpecDescr), (''ServiceConfig'', ServiceConfigDescr),
     (''Device'', cDeviceDescr), (''FSMount'', cFSMountDescr), (''Host'', cHostDescr), (''Resource'', cResourceDescr), (''NodeConfig'', cNodeConfigDescr)]"

text \<open>Every table describes every member of its structure exactly once, and the bit that a load tests for a member is the one the parser sets
  for it: the power of two of its place in the table.\<close>

theorem json_tables_complete:
  "list_all2 (\<lambda>(s, ds) (s', ms). s = s' \<and> mset (concat (map descr_members ds)) = mset (map fst ms)) all_tables (oci_structs @ node_structs) \<and>
   ImageManifestFields = map (\<lambda>(i, d). (descr_name d, 2 ^ i)) (enumerate 0 ImageManifestDescr) \<and>
   RuntimeSpecFields = map (\<lambda>(i, d). (descr_name d, 2 ^ i)) (enumerate 0 RuntimeSpecDescr)"
  by (simp add: all_tables_def oci_tables node_tables descr_members_def descr_name_def ImageManifestFields_def RuntimeSpecFields_def
      oci_structs_def node_structs_def strings_member_def structs_member_def)

end
