(* ===== verification/LogBackend.thy ===== *)
theory LogBackend
  imports FSBackend
begin

text \<open>
  The part of \<open>src/logger/fsbackend.cpp\<close> that faces Zephyr's logging: the backend's four functions, its
  activation, the output function that Zephyr's formatters call, and the timestamp. The formatters and printers of
  Zephyr are parameters that get this output function.
\<close>

section \<open>State\<close>

text \<open>Whether Zephyr hands messages to the backend, the format in use, and the one object of the class.\<close>

record log_glue =
  lg_active :: bool
  lg_sCurrentLogFormat :: u32
  lg_sLogBackend :: FSBackend

datatype log_flag = LOG_OUTPUT_FLAG_LEVEL | LOG_OUTPUT_FLAG_TIMESTAMP | LOG_OUTPUT_FLAG_FORMAT_TIMESTAMP

definition cLogFlags :: "log_flag list" where
  "cLogFlags = [LOG_OUTPUT_FLAG_LEVEL, LOG_OUTPUT_FLAG_TIMESTAMP, LOG_OUTPUT_FLAG_FORMAT_TIMESTAMP]"

text \<open>
  Zephyr's formatter for a format, and its two reports of dropped messages; each gets the output function.
\<close>

record 'm zephyr_log =
  zl_format :: "u32 \<Rightarrow> (string \<Rightarrow> FSBackend \<Rightarrow> int \<times> FSBackend) \<Rightarrow> 'm \<Rightarrow> log_flag list \<Rightarrow> FSBackend \<Rightarrow> FSBackend"
  zl_dict_dropped :: "(string \<Rightarrow> FSBackend \<Rightarrow> int \<times> FSBackend) \<Rightarrow> u32 \<Rightarrow> FSBackend \<Rightarrow> FSBackend"
  zl_std_dropped :: "(string \<Rightarrow> FSBackend \<Rightarrow> int \<times> FSBackend) \<Rightarrow> u32 \<Rightarrow> FSBackend \<Rightarrow> FSBackend"

section \<open>Operations\<close>

definition ActivateBackend :: "log_glue \<Rightarrow> log_glue" where
  "ActivateBackend g = g\<lparr>lg_active := True\<rparr>"

definition DeactivateBackend :: "log_glue \<Rightarrow> log_glue" where
  "DeactivateBackend g = g\<lparr>lg_active := False\<rparr>"

text \<open>The output function that is registered: the bytes taken as an \<open>int\<close>.\<close>

definition HandleLog_output :: "backend_config \<Rightarrow> string \<Rightarrow> FSBackend \<Rightarrow> int \<times> FSBackend" where
  "HandleLog_output bc data b = (case HandleLog bc data b of (n, b') \<Rightarrow> (int n, b'))"

definition Log_Panic :: "log_glue \<Rightarrow> log_glue" where
  "Log_Panic g = DeactivateBackend g"

definition Log_Dropped :: "'m zephyr_log \<Rightarrow> backend_config \<Rightarrow> bool \<Rightarrow> u32 \<Rightarrow> log_glue \<Rightarrow> log_glue" where
  "Log_Dropped zl bc dictionary cnt g =
     (if dictionary then g\<lparr>lg_sLogBackend := zl_dict_dropped zl (HandleLog_output bc) cnt (lg_sLogBackend g)\<rparr>
      else g\<lparr>lg_sLogBackend := zl_std_dropped zl (HandleLog_output bc) cnt (lg_sLogBackend g)\<rparr>)"

definition Log_Process :: "'m zephyr_log \<Rightarrow> backend_config \<Rightarrow> 'm \<Rightarrow> log_glue \<Rightarrow> log_glue" where
  "Log_Process zl bc msg g =
     g\<lparr>lg_sLogBackend := zl_format zl (lg_sCurrentLogFormat g) (HandleLog_output bc) msg cLogFlags (lg_sLogBackend g)\<rparr>"

definition SetFormat :: "u32 \<Rightarrow> log_glue \<Rightarrow> int \<times> log_glue" where
  "SetFormat log_type g = (0, g\<lparr>lg_sCurrentLogFormat := log_type\<rparr>)"

text \<open>The timestamp: the time as text or the text of the error, given to Zephyr's printer.\<close>

definition PrintUTCTime :: "string \<times> Error \<Rightarrow> (Error \<Rightarrow> string) \<Rightarrow> (string \<Rightarrow> int) \<Rightarrow> int" where
  "PrintUTCTime utcTime error_text printer =
     (case utcTime of (utcTimeStr, err) \<Rightarrow> if err \<noteq> ENone then printer (error_text err) else printer utcTimeStr)"

text \<open>Whether Zephyr is given the timestamp function, with the build's \<open>CONFIG_LOG_OUTPUT_FORMAT_CUSTOM_TIMESTAMP\<close>.\<close>

definition SetCustomTimestamp :: "bool \<Rightarrow> 'p \<Rightarrow> 'p option \<Rightarrow> 'p option" where
  "SetCustomTimestamp custom print_utc timestamp = (if custom then Some print_utc else timestamp)"

text \<open>\<open>Init\<close> with the deferred activation, and the destructor.\<close>

definition Glue_Init :: "backend_config \<Rightarrow> Error \<Rightarrow> (string \<times> bool) list \<Rightarrow> log_glue \<Rightarrow> Error \<times> log_glue" where
  "Glue_Init bc mkdir listing g =
     (case FSBackend_Init bc mkdir listing (lg_sLogBackend g) of
        (ret, activate, b) \<Rightarrow> (ret, if activate then ActivateBackend (g\<lparr>lg_sLogBackend := b\<rparr>) else g\<lparr>lg_sLogBackend := b\<rparr>))"

definition FSBackend_destroy :: "log_glue \<Rightarrow> log_glue" where
  "FSBackend_destroy g =
     (let g1 = DeactivateBackend g; b = lg_sLogBackend g1 in
      if bk_mFD b \<noteq> None then g1\<lparr>lg_sLogBackend := snd (log_close b)\<rparr> else g1)"

section \<open>Properties\<close>

lemma HandleLog_closed:
  assumes "bk_mFD b = None" "log \<noteq> []" "last log = CHR 0x0A"
  shows "\<exists>b'. HandleLog bc log b = (0, b') \<and> bk_mFD b' = None \<and> bk_files b' = bk_files b"
proof -
  let ?n = "min (length log) (bc_cLogEntryLen bc - length (bk_mLogBuffer b))"
  have "length (bk_mLogBuffer b @ take ?n log) \<ge> bc_cLogEntryLen bc \<or>
      (bk_mLogBuffer b @ take ?n log \<noteq> [] \<and> last (bk_mLogBuffer b @ take ?n log) = CHR 0x0A)"
    using assms(2,3) by (cases "length log \<le> bc_cLogEntryLen bc - length (bk_mLogBuffer b)") auto
  then show ?thesis using assms(1) by (auto simp: HandleLog_def FillLogBuffer_def WriteToFile_def Let_def)
qed

text \<open>Repeating the output of a message, with what each call reported.\<close>

fun repeat_output :: "backend_config \<Rightarrow> nat \<Rightarrow> string \<Rightarrow> FSBackend \<Rightarrow> int list \<times> FSBackend" where
  "repeat_output bc 0 log b = ([], b)"
| "repeat_output bc (Suc k) log b =
     (case HandleLog_output bc log b of (n, b1) \<Rightarrow> (case repeat_output bc k log b1 of (ns, b2) \<Rightarrow> (n # ns, b2)))"

text \<open>C38. A message that cannot be written is never accepted: once the log file is closed, every repetition of the output of a
  line reports that nothing was taken, however often it is repeated. Zephyr asks the output function to report bytes
  it drops as taken, so a caller that goes on until everything is taken does not return.\<close>

theorem output_never_accepted:
  assumes "bk_mFD b = None" "log \<noteq> []" "last log = CHR 0x0A" "repeat_output bc k log b = (ns, b')"
  shows "ns = replicate k 0 \<and> bk_files b' = bk_files b \<and> bk_mFD b' = None"
  using assms(1,4)
proof (induction k arbitrary: b ns)
  case (Suc k)
  obtain b1 where b1: "HandleLog bc log b = (0, b1)" "bk_mFD b1 = None" "bk_files b1 = bk_files b"
    using HandleLog_closed [OF Suc.prems(1) assms(2,3)] by blast
  obtain ns1 where "repeat_output bc k log b1 = (ns1, b')" "ns = 0 # ns1"
    using Suc.prems(2) b1(1) by (auto simp: HandleLog_output_def split: prod.splits)
  with Suc.IH [OF b1(2)] b1(3) show ?case by simp
qed simp

lemma output_never_accepted_witness: "fst (repeat_output (demo_bc 2) 100 [CHR ''x'', CHR 0x0A] demo_backend) = replicate 100 0"
proof -
  have "bk_mFD demo_backend = None" by (simp add: demo_backend_def)
  then show ?thesis
    using output_never_accepted [of demo_backend "[CHR ''x'', CHR 0x0A]" "demo_bc 2" 100] by (metis last_ConsL last_ConsR list.distinct(1) prod.collapse)
qed

text \<open>The state of the logging after an initialisation does not tell whether it succeeded: the backend is activated just when its directory
  could be made and its files restored, although it may have no open file then; and a recovery that succeeds leaves
  it inactive.\<close>

theorem activation_by_restore:
  "\<not> lg_active g \<Longrightarrow> lg_active (snd (Glue_Init bc mkdir listing g)) \<longleftrightarrow>
     mkdir = ENone \<and> fst (RestoreLogFiles bc listing (lg_sLogBackend g)) = ENone"
  by (auto simp: Glue_Init_def FSBackend_Init_def ActivateBackend_def Let_def split: prod.splits)

end
