(* ===== verification/LogPipeline.thy ===== *)
theory LogPipeline
  imports SMClient FSBackend
begin

text \<open>
  The way of a log line: the backend of \<open>src/logger/fsbackend.cpp\<close> writes it into its files, the reader of
  \<open>src/logprovider/fslogreader.cpp\<close> lists and reads these files, the log provider packs the lines
  into chunks, and the client sends them to the server. The theory connects the models of the four, over
  the same directory.
\<close>

section \<open>The directory both sides see\<close>

text \<open>The backend's files with their listing, in whatever order the directory gives it.\<close>

definition backend_dir :: "string list \<Rightarrow> FSBackend \<Rightarrow> log_dir" where
  "backend_dir names b = \<lparr>ld_entries = map (\<lambda>n. (n, False)) names, ld_files = map_option (map byte_of) \<circ> bk_files b\<rparr>"

definition listing_ok :: "backend_config \<Rightarrow> string list \<Rightarrow> FSBackend \<Rightarrow> bool" where
  "listing_ok bc names b \<longleftrightarrow> distinct names \<and> (\<lambda>n. bc_cLogDir bc @ ''/'' @ n) ` set names = dom (bk_files b)"

text \<open>Reader and backend are built with the same directory, prefix and number of files.\<close>

definition reader_of :: "backend_config \<Rightarrow> reader_env \<Rightarrow> bool" where
  "reader_of bc renv \<longleftrightarrow> (\<forall>n. lr_AppendPath renv n = bc_cLogDir bc @ ''/'' @ n) \<and>
     (\<forall>n. lr_prefixed renv n \<longleftrightarrow> prefix (bc_cLogPrefix bc) n) \<and> lr_cMaxLogFiles renv = bc_cMaxLogFiles bc"

section \<open>Lines in files\<close>

text \<open>A line is not empty and has no line end in it; Zephyr ends lines by CR and LF, or by LF alone.\<close>

definition log_line :: "nat \<Rightarrow> string \<Rightarrow> bool" where
  "log_line n l \<longleftrightarrow> l \<noteq> [] \<and> length l \<le> n \<and> CHR 0x0A \<notin> set l \<and> CHR 0x0D \<notin> set l"

definition line_end :: "string \<Rightarrow> bool" where
  "line_end e \<longleftrightarrow> e = [CHR 0x0A] \<or> e = [CHR 0x0D, CHR 0x0A]"

definition lines_text :: "string \<Rightarrow> string list \<Rightarrow> string" where
  "lines_text e ls = concat (map (\<lambda>l. l @ e) ls)"

lemma byte_of_inj [simp]: "byte_of c = byte_of d \<longleftrightarrow> c = d"
  by (metis char_of_byte_of)

lemma byte_of_ends [simp]: "byte_of c = 13 \<longleftrightarrow> c = CHR 0x0D" "byte_of c = 10 \<longleftrightarrow> c = CHR 0x0A"
  using byte_of_inj [of c "CHR 0x0D"] byte_of_inj [of c "CHR 0x0A"] by (simp_all add: byte_of_def [of "CHR 0x0D"] byte_of_def [of "CHR 0x0A"])

lemma line_of_shift: "line_of (pre @ bs) (length pre + p) = line_of bs p"
  by (simp add: line_of_def)

lemma lines_from_shift: "lines_from cap (pre @ bs) (length pre + p) = lines_from cap bs p"
proof (induction cap bs p rule: lines_from.induct)
  case (1 cap bs p)
  then show ?case
    using lines_from.simps [of cap "pre @ bs" "length pre + p"] lines_from.simps [of cap bs p]
    by (simp add: line_of_shift add.assoc)
qed

lemma line_of_line:
  assumes "log_line cap l" "line_end e"
  shows "line_of (map byte_of (l @ e) @ bs) 0 = l"
proof -
  obtain x xs where x: "map byte_of e @ bs = x # xs" "x = 13 \<or> x = 10" using assms(2) by (auto simp: line_end_def)
  then have "takeWhile (\<lambda>b. b \<noteq> 13 \<and> b \<noteq> 10) (map byte_of l @ x # xs) = map byte_of l"
    using assms(1) by (subst takeWhile_append2) (auto simp: log_line_def)
  with x(1) show ?thesis by (simp add: line_of_def comp_def)
qed

text \<open>Read back, what lines leave between CR and LF are empty lines.\<close>

lemma lines_from_line:
  assumes "log_line cap l" "line_end e"
  shows "filter (\<lambda>l. l \<noteq> []) (lines_from cap (map byte_of (l @ e) @ bs) 0) = l # filter (\<lambda>l. l \<noteq> []) (lines_from cap bs 0)"
proof -
  let ?bs = "map byte_of (l @ e) @ bs"
  have "lines_from cap ?bs 0 = l # lines_from cap ?bs (length l + 1)"
    using line_of_line [OF assms, of bs] assms lines_from.simps [of cap ?bs 0] by (simp add: log_line_def)
  moreover have "filter (\<lambda>l. l \<noteq> []) (lines_from cap ?bs (length l + 1)) = filter (\<lambda>l. l \<noteq> []) (lines_from cap bs 0)"
  proof (cases "e = [CHR 0x0A]")
    case True
    then show ?thesis using lines_from_shift [of cap "map byte_of (l @ e)" bs 0] by simp
  next
    case False
    then have e: "e = [CHR 0x0D, CHR 0x0A]" using assms(2) by (simp add: line_end_def)
    let ?lf = "byte_of (CHR 0x0A)"
    have "?bs = map byte_of (l @ [CHR 0x0D]) @ ?lf # bs" by (simp add: e)
    then have "lines_from cap ?bs (length l + 1) = lines_from cap (?lf # bs) 0"
      using lines_from_shift [of cap "map byte_of (l @ [CHR 0x0D])" "?lf # bs" 0] by simp
    also have "\<dots> = [] # lines_from cap bs 0"
      using lines_from.simps [of cap "?lf # bs" 0] lines_from_shift [of cap "[?lf]" bs 0] by (simp add: line_of_def)
    finally show ?thesis by simp
  qed
  ultimately show ?thesis using assms(1) by (simp add: log_line_def)
qed

lemma lines_from_lines:
  "list_all (log_line cap) ls \<Longrightarrow> line_end e \<Longrightarrow> filter (\<lambda>l. l \<noteq> []) (lines_from cap (map byte_of (lines_text e ls)) 0) = ls"
proof (induction ls)
  case Nil
  then show ?case by (simp add: lines_text_def lines_from.simps)
next
  case (Cons l ls)
  then have "filter (\<lambda>l. l \<noteq> []) (lines_from cap (map byte_of (l @ e) @ map byte_of (lines_text e ls)) 0) = l # ls"
    using lines_from_line [of cap l e "map byte_of (lines_text e ls)"] by simp
  then show ?case by (simp add: lines_text_def)
qed

section \<open>Files in order\<close>

lemma append_less [simp]: "(p @ s :: 'a::order list) < p @ t \<longleftrightarrow> s < t"
  by (induction p) simp_all

lemma digit_less: "d < 10 \<Longrightarrow> e < 10 \<Longrightarrow> digit d < digit e \<longleftrightarrow> d < e"
  by (simp add: digit_def less_char_def)

lemma GetFileName_less: "m < n \<Longrightarrow> n < 10 \<Longrightarrow> GetFileName bc m < GetFileName bc n"
  by (simp add: GetFileName_def dec.simps [of m] dec.simps [of n] digit_less)

lemma sorted_names:
  assumes "sorted_wrt (<) ns" "\<forall>n\<in>set ns. n < 10"
  shows "sorted_wrt (<) (map (GetFileName bc) ns)"
  using assms by (induction ns) (auto simp: GetFileName_less)

lemma listed_paths:
  assumes "reader_of bc renv" "listing_ok bc names b" "logs_ok bc b"
  shows "map (lr_AppendPath renv \<circ> fst) (filter (\<lambda>(name, isDir). \<not> isDir \<and> lr_prefixed renv name) (ld_entries (backend_dir names b))) =
      map (\<lambda>n. bc_cLogDir bc @ ''/'' @ n) names"
    and "distinct (map (\<lambda>n. bc_cLogDir bc @ ''/'' @ n) names)" "set (map (\<lambda>n. bc_cLogDir bc @ ''/'' @ n) names) = set (bk_mLogFiles b)"
proof -
  from assms(3) obtain ns where ns: "bk_mLogFiles b = map (GetFileName bc) ns" "dom (bk_files b) = set (bk_mLogFiles b)"
    by (auto simp: logs_ok_def)
  have "prefix (bc_cLogPrefix bc) n" if "n \<in> set names" for n
  proof -
    have "bc_cLogDir bc @ ''/'' @ n \<in> dom (bk_files b)" using that assms(2) by (auto simp: listing_ok_def)
    then show ?thesis using ns by (auto simp: GetFileName_def)
  qed
  then have "filter (\<lambda>(name, isDir). \<not> isDir \<and> lr_prefixed renv name) (map (\<lambda>n. (n, False)) names) = map (\<lambda>n. (n, False)) names"
    using assms(1) by (auto simp: reader_of_def filter_id_conv)
  then show "map (lr_AppendPath renv \<circ> fst) (filter (\<lambda>(name, isDir). \<not> isDir \<and> lr_prefixed renv name) (ld_entries (backend_dir names b))) =
      map (\<lambda>n. bc_cLogDir bc @ ''/'' @ n) names"
    using assms(1) by (simp add: backend_dir_def reader_of_def comp_def)
  show "distinct (map (\<lambda>n. bc_cLogDir bc @ ''/'' @ n) names)" "set (map (\<lambda>n. bc_cLogDir bc @ ''/'' @ n) names) = set (bk_mLogFiles b)"
    using assms(2) ns(2) by (auto simp: listing_ok_def distinct_map inj_on_def)
qed

text \<open>As long as the files' numbers have one digit, the reader lists the files in the backend's order.\<close>

lemma log_files_backend:
  assumes "reader_of bc renv" "listing_ok bc names b" "logs_ok bc b" "bk_mCurrentLogFileNumeral b \<le> 10"
  shows "log_files renv (backend_dir names b) = bk_mLogFiles b"
proof -
  from assms(3) obtain ns where ns: "bk_mLogFiles b = map (GetFileName bc) ns" "sorted_wrt (<) ns" "\<forall>n\<in>set ns. n < bk_mCurrentLogFileNumeral b"
    by (auto simp: logs_ok_def)
  then have "sorted_wrt (<) (bk_mLogFiles b)" using sorted_names [of ns bc] assms(4) by fastforce
  then have "sorted (bk_mLogFiles b)" "distinct (bk_mLogFiles b)" by (simp_all add: strict_sorted_iff)
  then show ?thesis
    using listed_paths [OF assms(1-3)] by (auto simp: log_files_def intro: sorted_distinct_set_unique)
qed

text \<open>Listing succeeds, because there are never more files than the reader takes.\<close>

lemma collect_logs_fits:
  "length fs + length (filter (\<lambda>(name, isDir). \<not> isDir \<and> lr_prefixed env name) es) \<le> lr_cMaxLogFiles env \<Longrightarrow>
   fst (collect_logs env es fs) = ENone"
  by (induction env es fs rule: collect_logs.induct) (auto split: if_splits)

lemma Reset_backend:
  assumes "reader_of bc renv" "listing_ok bc names b" "logs_ok bc b"
  shows "\<exists>r1. FSLogReader_Reset renv (backend_dir names b) r = (ENone, r1) \<and> lo_mLogFiles r1 = log_files renv (backend_dir names b)"
proof -
  let ?es = "ld_entries (backend_dir names b)"
  have "length (filter (\<lambda>(name, isDir). \<not> isDir \<and> lr_prefixed renv name) ?es) = length (bk_mLogFiles b)"
  proof -
    have "distinct (bk_mLogFiles b)" using assms(3) by (auto simp: logs_ok_def strict_sorted_iff distinct_map inj_on_def)
    then have "length (map (\<lambda>n. bc_cLogDir bc @ ''/'' @ n) names) = length (bk_mLogFiles b)"
      using listed_paths(2,3) [OF assms] by (metis distinct_card)
    with listed_paths(1) [OF assms] show ?thesis by (metis length_map)
  qed
  also have "\<dots> \<le> lr_cMaxLogFiles renv" using assms(1,3) by (simp add: logs_ok_def reader_of_def)
  finally obtain fs where "collect_logs renv ?es [] = (ENone, fs)" using collect_logs_fits [of "[]" renv ?es] by (cases "collect_logs renv ?es []") auto
  with collect_logs_ok [OF this] show ?thesis by (simp add: FSLogReader_Reset_def ReadLogFiles_def log_files_def)
qed

section \<open>Whole lines in the backend\<close>

text \<open>The files hold whole lines.\<close>

definition holds_lines :: "string \<Rightarrow> string list list \<Rightarrow> FSBackend \<Rightarrow> bool" where
  "holds_lines e parts b \<longleftrightarrow> log_text b = map (lines_text e) parts \<and> bk_mLogBuffer b = []"

lemma HandleLog_line:
  assumes "backend_ok bc" "log_inv bc b" "holds_lines e parts b" "line_end e" "length (l @ e) \<le> bc_cLogEntryLen bc"
  shows "\<exists>b' parts' k. HandleLog bc (l @ e) b = (length (l @ e), b') \<and> log_inv bc b' \<and> holds_lines e parts' b' \<and>
    concat parts' = drop k (concat parts) @ [l] \<and> length (bk_mLogFiles b) \<le> length (bk_mLogFiles b') \<and>
    (k = 0 \<or> length (bk_mLogFiles b') = bc_cMaxLogFiles bc)"
proof -
  let ?b = "b\<lparr>bk_mLogBuffer := l @ e\<rparr>"
  have fill: "FillLogBuffer bc (l @ e) b = (length (l @ e), ?b)"
    using assms(3,5) by (simp add: FillLogBuffer_def holds_lines_def Let_def)
  have b: "logs_ok bc ?b" "bk_mLogFiles ?b \<noteq> []" "bk_mFD ?b = Some (last (bk_mLogFiles ?b))"
    "bk_mFileSize ?b = length (file_text ?b (last (bk_mLogFiles ?b)))" "log_text ?b = log_text b" "length (bk_mLogBuffer ?b) \<le> bc_cLogEntryLen bc"
    using assms(2,5) by (simp_all add: log_inv_def logs_ok_def file_text_def log_text_def)
  from WriteToFile_shape [OF assms(1) b(1-4,6)] obtain b' k where w: "WriteToFile bc ?b = (ENone, b')" "log_inv bc b'" "bk_mLogBuffer b' = []"
      "k = 0 \<and> log_text b' = butlast (log_text b) @ [last (log_text b) @ l @ e] \<or> log_text b' = drop k (log_text b) @ [l @ e]"
      "length (bk_mLogFiles b) \<le> length (bk_mLogFiles b')" "k = 0 \<or> length (bk_mLogFiles b') = bc_cMaxLogFiles bc"
    unfolding b(5) by auto
  have "last (l @ e) = CHR 0x0A" "l @ e \<noteq> []" using assms(4) by (auto simp: line_end_def)
  then have h: "HandleLog bc (l @ e) b = (length (l @ e), b')" by (simp add: HandleLog_def fill Let_def w(1) del: length_append)
  have parts: "parts \<noteq> []" "log_text b = map (lines_text e) parts"
    using assms(3) b(2) by (auto simp: holds_lines_def log_text_def)
  from w(4) show ?thesis
  proof (elim disjE conjE)
    assume k: "k = 0" and t: "log_text b' = butlast (log_text b) @ [last (log_text b) @ l @ e]"
    let ?parts = "butlast parts @ [last parts @ [l]]"
    have "holds_lines e ?parts b'" using t parts w(3) by (simp add: holds_lines_def map_butlast last_map lines_text_def)
    moreover have "concat ?parts = drop 0 (concat parts) @ [l]" using concat_snoc_last [OF parts(1), of "[l]"] by (simp only: drop0)
    ultimately show ?thesis using h w(2,5) by blast
  next
    assume t: "log_text b' = drop k (log_text b) @ [l @ e]"
    let ?parts = "drop k parts @ [[l]]"
    obtain k' where k': "concat (drop k parts) = drop k' (concat parts)" "k = 0 \<longrightarrow> k' = 0"
      using concat_drop [of k parts] by (cases "k = 0") auto
    have "holds_lines e ?parts b'" using t parts w(3) by (simp add: holds_lines_def drop_map lines_text_def)
    moreover have "concat ?parts = drop k' (concat parts) @ [l]" using k'(1) by simp
    ultimately show ?thesis using h w(2,5,6) k'(2) by blast
  qed
qed

lemma HandleLogs_lines:
  assumes "backend_ok bc" "line_end e" "list_all (\<lambda>l. length (l @ e) \<le> bc_cLogEntryLen bc) ls" "log_inv bc b" "holds_lines e parts b"
  shows "\<exists>b' parts' lost. HandleLogs bc (map (\<lambda>l. l @ e) ls) b = (map (\<lambda>l. l @ e) ls, b') \<and> log_inv bc b' \<and> holds_lines e parts' b' \<and>
    lost @ concat parts' = concat parts @ ls \<and> length (bk_mLogFiles b) \<le> length (bk_mLogFiles b') \<and>
    (lost \<noteq> [] \<longrightarrow> length (bk_mLogFiles b') = bc_cMaxLogFiles bc)"
  using assms(3-5)
proof (induction ls arbitrary: b parts)
  case Nil
  then show ?case by (intro exI [of _ b] exI [of _ parts] exI [of _ "[]"]) simp
next
  case (Cons l ls)
  from HandleLog_line [OF assms(1) Cons.prems(2,3) assms(2), of l] Cons.prems(1) obtain b1 parts1 k where s:
      "HandleLog bc (l @ e) b = (length (l @ e), b1)" "log_inv bc b1" "holds_lines e parts1 b1" "concat parts1 = drop k (concat parts) @ [l]"
      "length (bk_mLogFiles b) \<le> length (bk_mLogFiles b1)" "k = 0 \<or> length (bk_mLogFiles b1) = bc_cMaxLogFiles bc" by auto
  from Cons.IH [OF _ s(2,3)] Cons.prems(1) obtain b2 parts2 lost where t: "HandleLogs bc (map (\<lambda>l. l @ e) ls) b1 = (map (\<lambda>l. l @ e) ls, b2)"
      "log_inv bc b2" "holds_lines e parts2 b2" "lost @ concat parts2 = concat parts1 @ ls" "length (bk_mLogFiles b1) \<le> length (bk_mLogFiles b2)"
      "lost \<noteq> [] \<longrightarrow> length (bk_mLogFiles b2) = bc_cMaxLogFiles bc" by auto
  have "HandleLogs bc (map (\<lambda>l. l @ e) (l # ls)) b = (map (\<lambda>l. l @ e) (l # ls), b2)"
    using s(1) t(1) by simp
  moreover have "(take k (concat parts) @ lost) @ concat parts2 = concat parts @ l # ls"
    using t(4) s(4) by (metis append.assoc append_Cons append_Nil append_take_drop_id)
  moreover have "length (bk_mLogFiles b2) \<le> bc_cMaxLogFiles bc" using t(2) by (simp add: log_inv_def logs_ok_def)
  then have "take k (concat parts) @ lost \<noteq> [] \<longrightarrow> length (bk_mLogFiles b2) = bc_cMaxLogFiles bc"
    using s(6) t(5,6) by auto
  ultimately show ?case using s(5) t(2,3,5) by (meson order_trans)
qed

section \<open>From the files to the server\<close>

lemma entries_lines:
  assumes "reader_of bc renv" "listing_ok bc names b" "log_inv bc b" "bk_mCurrentLogFileNumeral b \<le> 10" "holds_lines e parts b"
    and "line_end e" "list_all (log_line cap) (concat parts)"
  shows "filter (\<lambda>en. le_mContent en \<noteq> []) (all_entries renv cap (backend_dir names b)) = map (entry_of renv) (concat parts)"
proof -
  have inv: "logs_ok bc b" using assms(3) by (simp add: log_inv_def)
  have "filter (\<lambda>l. l \<noteq> []) (file_lines cap (backend_dir names b) p) = filter (\<lambda>l. l \<noteq> []) (lines_from cap (map byte_of (file_text b p)) 0)" for p
    by (simp add: file_lines_def backend_dir_def file_text_def lines_from.simps [of cap "[]" 0] split: option.splits)
  then have "filter (\<lambda>l. l \<noteq> []) (concat (map (file_lines cap (backend_dir names b)) ps)) =
      concat (map (\<lambda>t. filter (\<lambda>l. l \<noteq> []) (lines_from cap (map byte_of t) 0)) (map (file_text b) ps))" for ps
    by (induction ps) simp_all
  from this [of "bk_mLogFiles b"] have "filter (\<lambda>l. l \<noteq> []) (concat (map (file_lines cap (backend_dir names b)) (bk_mLogFiles b))) =
      concat (map (\<lambda>ls. filter (\<lambda>l. l \<noteq> []) (lines_from cap (map byte_of (lines_text e ls)) 0)) parts)"
    using assms(5) by (simp add: holds_lines_def flip: log_text_def) (simp add: comp_def)
  also have "\<dots> = concat parts" using assms(6,7) lines_from_lines [of cap _ e] by (induction parts) simp_all
  finally show ?thesis
    using log_files_backend [OF assms(1,2) inv assms(4)] by (simp add: all_entries_def filter_map comp_def entry_of_def)
qed

lemma kept_nonempty_only: "kept env rq es = kept env rq (filter (\<lambda>e. le_mContent e \<noteq> []) es)"
  by (induction es) (auto simp: kept_def keep_def FilterByDate_def)

lemma kept_lines:
  assumes "rq_mInstanceFilter rq = ln_InstanceFilter env" "list_all (\<lambda>l. length l < ln_cLogEntryLen env) ls"
    and "list_all (\<lambda>l. l \<noteq> []) ls"
  shows "concat (kept env rq (map (entry_of renv) ls)) =
    lines_text [CHR 0x0A] (filter (\<lambda>l. in_span (rq_mFrom rq) (rq_mTill rq) (lr_UTC renv l)) ls)"
  using assms
  by (induction ls) (auto simp: kept_def keep_def filter_span GetInstanceFilter_def line_def entry_of_def lines_text_def)

text \<open>The numbers of files never have two digits when the backend keeps at most five of them.\<close>

lemma few_files: "log_inv bc b \<Longrightarrow> bc_cMaxLogFiles bc \<le> 5 \<Longrightarrow> bk_mCurrentLogFileNumeral b \<le> 10"
  by (auto simp: log_inv_def logs_ok_def cMaxLogFileNumeral_def)


lemma listing_exists:
  assumes "logs_ok bc b"
  shows "\<exists>names. listing_ok bc names b"
proof -
  from assms obtain ns where ns: "bk_mLogFiles b = map (GetFileName bc) ns" "sorted_wrt (<) ns" "dom (bk_files b) = set (bk_mLogFiles b)"
    by (auto simp: logs_ok_def)
  then have "listing_ok bc (map (\<lambda>n. bc_cLogPrefix bc @ dec n) ns) b"
    by (auto simp: listing_ok_def GetFileName_def distinct_map inj_on_def dec_inj strict_sorted_iff)
  then show ?thesis by blast
qed

definition demo_renv :: reader_env where
  "demo_renv = \<lparr>lr_ReadLine = (\<lambda>bs pos. if pos < length bs \<and> length (line_of bs pos) \<le> 4 then Inr (line_of bs pos) else Inl (EEnum eFailed)),
     lr_UTC = (\<lambda>s. None), lr_prefixed = prefix ''log_'', lr_AppendPath = (\<lambda>s. ''/l/'' @ s), lr_cMaxLogFiles = 2\<rparr>"

lemma demo_renv_ok: "reader_ok demo_renv 4" "reader_of (demo_bc 2) demo_renv"
  by (simp_all add: reader_ok_def reader_of_def demo_renv_def demo_bc_def)

definition demo_logs :: "string list" where
  "demo_logs = [''ab'', ''cd'', ''ef'']"

lemma demo_run:
  "\<exists>b1 b2 names. FSBackend_Init (demo_bc 2) ENone [] demo_backend = (ENone, True, b1) \<and>
     HandleLogs (demo_bc 2) (map (\<lambda>l. l @ [CHR 0x0A]) demo_logs) b1 = (map (\<lambda>l. l @ [CHR 0x0A]) demo_logs, b2) \<and>
     listing_ok (demo_bc 2) names b2"
proof -
  have bc: "backend_ok (demo_bc 2)" and e: "line_end [CHR 0x0A]" by (simp_all add: backend_ok_def demo_bc_def line_end_def)
  obtain b1 where b1: "FSBackend_Init (demo_bc 2) ENone [] demo_backend = (ENone, True, b1)" "log_inv (demo_bc 2) b1"
      "log_text b1 = [[]]" "bk_mLogBuffer b1 = []"
    using Init_empty [OF bc, of demo_backend] by (auto simp: demo_backend_def)
  have "holds_lines [CHR 0x0A] [[]] b1" using b1(3,4) by (simp add: holds_lines_def lines_text_def)
  moreover have "list_all (\<lambda>l. length (l @ [CHR 0x0A]) \<le> bc_cLogEntryLen (demo_bc 2)) demo_logs" by (simp add: demo_bc_def demo_logs_def)
  ultimately obtain b2 where b2: "HandleLogs (demo_bc 2) (map (\<lambda>l. l @ [CHR 0x0A]) demo_logs) b1 = (map (\<lambda>l. l @ [CHR 0x0A]) demo_logs, b2)"
      "log_inv (demo_bc 2) b2"
    using HandleLogs_lines [OF bc e _ b1(2)] by blast
  then show ?thesis using b1(1) listing_exists [of "demo_bc 2" b2] by (auto simp: log_inv_def)
qed


section \<open>Numbers of two digits\<close>

lemma sorted_wrt_order:
  assumes "sorted_wrt P xs" "x \<in> set xs" "y \<in> set xs" "\<not> P y x" "x \<noteq> y"
  shows "\<exists>as bs cs. xs = as @ x # bs @ y # cs"
proof -
  obtain as rest where r: "xs = as @ x # rest" using assms(2) by (meson split_list)
  then have "y \<in> set rest" using assms(1,3,4,5) by (auto simp: sorted_wrt_append)
  then show ?thesis using r by (metis split_list)
qed

lemma GetFileName_late: "2 \<le> m \<Longrightarrow> m < 10 \<Longrightarrow> 10 \<le> n \<Longrightarrow> n < 20 \<Longrightarrow> GetFileName bc n < GetFileName bc m"
proof -
  assume mn: "2 \<le> m" "m < 10" "10 \<le> n" "n < 20"
  then have "n div 10 = 1" by linarith
  with mn show ?thesis by (simp add: GetFileName_def dec.simps [of m] dec.simps [of n] dec.simps [of "Suc 0"] digit_less)
qed

text \<open>C37. Once a file's number has two digits the order of the lines is lost: the reader sorts the files by name,
  and the names carry the numbers without leading zeros, so that after a reset \<open>Next\<close> and \<open>GetEntry\<close> deliver
  the lines of a file with a number from 10 to 19 before those of every older one with a
  number from 2 to 9, although the backend wrote it later.\<close>

theorem late_log_read_first:
  assumes "reader_of bc renv" "listing_ok bc names b" "logs_ok bc b" "reader_ok renv cap" "line_end e"
    and "GetFileName bc m \<in> set (bk_mLogFiles b)" "GetFileName bc n \<in> set (bk_mLogFiles b)" "2 \<le> m" "m < 10" "10 \<le> n" "n < 20"
    and "file_text b (GetFileName bc m) = lines_text e older" "file_text b (GetFileName bc n) = lines_text e newer"
    and "list_all (log_line cap) older" "list_all (log_line cap) newer"
  shows "\<exists>r1 N before mid after. FSLogReader_Reset renv (backend_dir names b) r = (ENone, r1) \<and>
    (\<exists>as bs cs. bk_mLogFiles b = as @ GetFileName bc m # bs @ GetFileName bc n # cs) \<and>
    (\<forall>k\<ge>N. filter (\<lambda>l. l \<noteq> []) (map le_mContent (deliver_entries (FSLogReader_Next renv (backend_dir names b)) FSLogReader_GetEntry k r1)) =
       before @ newer @ mid @ older @ after)"
proof -
  let ?dir = "backend_dir names b"
  from assms(3) obtain ns where ns: "bk_mLogFiles b = map (GetFileName bc) ns" "sorted_wrt (<) ns" by (auto simp: logs_ok_def)
  have "m \<in> set ns" "n \<in> set ns" using assms(6,7) ns(1) by auto
  then have "\<exists>as bs cs. ns = as @ m # bs @ n # cs" using sorted_wrt_order [OF ns(2)] assms(9,10) by simp
  then have written: "\<exists>as bs cs. bk_mLogFiles b = as @ GetFileName bc m # bs @ GetFileName bc n # cs"
    unfolding ns(1) by (metis (no_types, lifting) list.simps(9) map_append)
  obtain r1 where r1: "FSLogReader_Reset renv ?dir r = (ENone, r1)" "lo_mLogFiles r1 = log_files renv ?dir"
    using Reset_backend [OF assms(1-3)] by blast
  have set: "set (lo_mLogFiles r1) = set (bk_mLogFiles b)" "sorted (lo_mLogFiles r1)"
    unfolding r1(2) log_files_def listed_paths(1) [OF assms(1-3)] using listed_paths(3) [OF assms(1-3)] by simp_all
  have "\<exists>as bs cs. lo_mLogFiles r1 = as @ GetFileName bc n # bs @ GetFileName bc m # cs"
    using set(1) assms(6,7) GetFileName_late [OF assms(8-11), of bc]
    by (intro sorted_wrt_order [OF set(2)]) auto
  then obtain as bs cs where order: "log_files renv ?dir = as @ GetFileName bc n # bs @ GetFileName bc m # cs" unfolding r1(2) by blast
  let ?ne = "filter (\<lambda>l. l \<noteq> [])" and ?fl = "\<lambda>fs. concat (map (file_lines cap ?dir) fs)"
  have cut: "?ne (file_lines cap ?dir p) = ls" if "file_text b p = lines_text e ls" "list_all (log_line cap) ls" for p ls
    using lines_from_lines [OF that(2) assms(5)] that(1)
    by (auto simp: file_lines_def backend_dir_def file_text_def lines_from.simps [of cap "[]" 0] split: option.splits)
  have rem: "remaining renv cap ?dir r1 = map (entry_of renv) (?fl (log_files renv ?dir))"
    using Reset_remaining [OF r1(1)] .
  have "?ne (map le_mContent (deliver_entries (FSLogReader_Next renv ?dir) FSLogReader_GetEntry k r1)) =
      ?ne (?fl as) @ newer @ ?ne (?fl bs) @ older @ ?ne (?fl cs)" if "length (remaining renv cap ?dir r1) \<le> k" for k
    using that cut [OF assms(12,14)] cut [OF assms(13,15)]
    unfolding log_source.deliver_take [OF FSLogReader_source [OF assms(4)]] rem order
    by (simp add: entry_of_def comp_def)
  with r1(1) written show ?thesis by blast
qed

definition late_backend :: FSBackend where
  "late_backend = (let ns = [3, 4, 5, 6, 7, 8, 9, 10] in
     demo_backend\<lparr>bk_mLogFiles := map (GetFileName backend_kconfig) ns, bk_mCurrentLogFileNumeral := 11,
       bk_files := (map_of (map (\<lambda>n. (GetFileName backend_kconfig n, [])) ns))
         (GetFileName backend_kconfig 9 \<mapsto> ''old'' @ [CHR 0x0A], GetFileName backend_kconfig 10 \<mapsto> ''new'' @ [CHR 0x0A])\<rparr>)"

lemma late_log_read_first_witness:
  "\<exists>renv names r1 k before mid after. FSLogReader_Reset renv (backend_dir names late_backend) demo_reader = (ENone, r1) \<and>
     filter (\<lambda>l. l \<noteq> []) (map le_mContent (deliver_entries (FSLogReader_Next renv (backend_dir names late_backend)) FSLogReader_GetEntry k r1)) =
       before @ [''new''] @ mid @ [''old''] @ after"
proof -
  let ?ns = "[3, 4, 5, 6, 7, 8, 9, 10] :: nat list"
  let ?renv = "demo_renv\<lparr>lr_AppendPath := (\<lambda>n. bc_cLogDir backend_kconfig @ ''/'' @ n), lr_cMaxLogFiles := 8\<rparr>"
  have env: "reader_of backend_kconfig ?renv" by (simp add: reader_of_def demo_renv_def) (simp add: backend_kconfig_def)
  have rok: "reader_ok ?renv 4" using demo_renv_ok(1) by (simp add: reader_ok_def)
  have names: "GetFileName backend_kconfig 10 \<noteq> GetFileName backend_kconfig 9"
    using GetFileName_late [of 9 10 backend_kconfig] by auto
  have lines: "file_text late_backend (GetFileName backend_kconfig 9) = lines_text [CHR 0x0A] [''old'']"
    "file_text late_backend (GetFileName backend_kconfig 10) = lines_text [CHR 0x0A] [''new'']"
    using names by (simp_all add: file_text_def late_backend_def Let_def lines_text_def)
  have txts: "length (file_text late_backend p) \<le> 4" for p
    by (auto simp: file_text_def late_backend_def Let_def split: option.splits if_splits dest: map_of_SomeD)
  have "logs_ok backend_kconfig late_backend"
    unfolding logs_ok_def
  proof (intro conjI exI [of _ ?ns])
    show "dom (bk_files late_backend) = set (bk_mLogFiles late_backend)"
      by (auto simp: late_backend_def Let_def dom_map_of_conv_image_fst)
    show "\<forall>p\<in>set (bk_mLogFiles late_backend). length (file_text late_backend p) \<le> bc_cFileSizeLimit backend_kconfig"
      using txts by (fastforce simp: backend_kconfig_def intro: order_trans)
  qed (simp_all add: late_backend_def Let_def demo_backend_def backend_kconfig_def cMaxLogFileNumeral_def)
  moreover from this obtain names where "listing_ok backend_kconfig names late_backend" using listing_exists by blast
  moreover have "line_end [CHR 0x0A]" "list_all (log_line 4) [''old'']" "list_all (log_line 4) [''new'']"
    by (simp_all add: line_end_def log_line_def)
  moreover have "GetFileName backend_kconfig 9 \<in> set (bk_mLogFiles late_backend)" "GetFileName backend_kconfig 10 \<in> set (bk_mLogFiles late_backend)"
    by (simp_all add: late_backend_def Let_def)
  ultimately show ?thesis
    using late_log_read_first [OF env, of names late_backend 4 "[CHR 0x0A]" 9 10 "[''old'']" "[''new'']" demo_reader] rok lines by fastforce
qed

end
