(* ===== verification/Board.thy ===== *)
theory Board
  imports App Platform Domains LogBackend
begin

text \<open>
  The board's side of the program: the file systems' descriptors and the table of volumes (\<open>src/bsp/mount_fatfs.c\<close>,
  \<open>src/bsp/mount_littlefs.c\<close>), the timer that watches for a requested reboot (\<open>src/bsp/reboot.c\<close>),
  the images that are copied into the domains (\<open>src/domains/\<close>), and the whole of \<open>main\<close> with the calls before the application's.
\<close>

section \<open>Mounts\<close>

datatype fs_type = FS_FATFS | FS_LITTLEFS

datatype fs_data = fat_fs_aos | fat_fs_tmp | lfsfs

record fs_mount =
  fm_type :: fs_type
  fm_fs_data :: fs_data
  fm_mnt_point :: string
  fm_storage_dev :: "string option"
  fm_use_disk_access :: bool

text \<open>The argument is the build's \<open>CONFIG_AOS_DISK_MOUNT_POINT\<close>.\<close>

definition mp_aos :: "string \<Rightarrow> fs_mount" where
  "mp_aos point = \<lparr>fm_type = FS_FATFS, fm_fs_data = fat_fs_aos, fm_mnt_point = point, fm_storage_dev = None, fm_use_disk_access = False\<rparr>"

definition mp_tmp :: fs_mount where
  "mp_tmp = \<lparr>fm_type = FS_FATFS, fm_fs_data = fat_fs_tmp, fm_mnt_point = ''/2:'', fm_storage_dev = None, fm_use_disk_access = False\<rparr>"

text \<open>The descriptor of LittleFS as \<open>littlefs_mount\<close> completes it, with \<open>CONFIG_MMC_VOLUME_NAME\<close>.\<close>

definition mp_littlefs :: "string \<Rightarrow> string \<Rightarrow> fs_mount" where
  "mp_littlefs point volume = \<lparr>fm_type = FS_LITTLEFS, fm_fs_data = lfsfs, fm_mnt_point = point, fm_storage_dev = Some volume, fm_use_disk_access = True\<rparr>"

text \<open>The physical drive and the partition of each volume.\<close>

definition VolToPart :: "(nat \<times> int) list" where
  "VolToPart = [(3, 1), (3, 2), (0, 0), (0, - 1), (0, - 1), (0, - 1), (0, - 1), (0, - 1)]"

text \<open>Mounting with the descriptors: what the calls of the platform's model stand for.\<close>

definition mounted :: "FSChoice \<Rightarrow> string \<Rightarrow> string \<Rightarrow> BSPCall \<Rightarrow> fs_mount option" where
  "mounted choice point volume c =
     (case c of MountAos \<Rightarrow> (case choice of FatFS \<Rightarrow> Some (mp_aos point) | LittleFS \<Rightarrow> Some (mp_littlefs point volume) | NoFS \<Rightarrow> None)
      | MountTmp \<Rightarrow> Some mp_tmp | _ \<Rightarrow> None)"

text \<open>The volume that a mount point of FAT names.\<close>

definition volume_of :: "string \<Rightarrow> nat option" where
  "volume_of point = (case point of [s, d, c] \<Rightarrow>
       if s = CHR ''/'' \<and> c = CHR '':'' \<and> is_digit d \<and> nat (digits_value [d]) < length VolToPart then Some (nat (digits_value [d])) else None
     | _ \<Rightarrow> None)"

section \<open>The reboot watcher\<close>

text \<open>A timer of Zephyr: it expires after its duration and then every period; each expiry is a second since the start.\<close>

record k_timer =
  kt_duration :: nat
  kt_period :: nat

definition CONFIG_AOS_REBOOT_CHECKING_PERIOD_SEC :: nat where
  "CONFIG_AOS_REBOOT_CHECKING_PERIOD_SEC = 10"

definition reboot_watcher_init :: k_timer where
  "reboot_watcher_init = \<lparr>kt_duration = CONFIG_AOS_REBOOT_CHECKING_PERIOD_SEC, kt_period = CONFIG_AOS_REBOOT_CHECKING_PERIOD_SEC\<rparr>"

definition expires :: "k_timer \<Rightarrow> nat \<Rightarrow> bool" where
  "expires tm t \<longleftrightarrow> kt_duration tm \<le> t \<and> (t - kt_duration tm) mod kt_period tm = 0"

text \<open>Each expiry submits the work, which reads the request and may reset the system. The reading at a second is the parameter.\<close>

definition trigger_reboot_check :: "(nat \<Rightarrow> int \<times> int) \<Rightarrow> nat \<Rightarrow> bool" where
  "trigger_reboot_check xss t = (case xss t of (rc, val) \<Rightarrow> perform_system_reboot rc val)"

definition resets :: "(nat \<Rightarrow> int \<times> int) \<Rightarrow> nat \<Rightarrow> nat list" where
  "resets xss n = filter (\<lambda>t. expires reboot_watcher_init t \<and> trigger_reboot_check xss t) [0..<n]"

section \<open>Images of domains\<close>

text \<open>Copying a piece of an image, and its size.\<close>

definition load_ipl_image :: "byte list \<Rightarrow> byte list \<Rightarrow> nat \<Rightarrow> nat \<Rightarrow> int \<times> byte list" where
  "load_ipl_image img buf bufsize image_load_offset = (0, take bufsize (drop image_load_offset img) @ drop bufsize buf)"

definition get_ipl_image_size :: "byte list \<Rightarrow> int \<times> nat" where
  "get_ipl_image_size img = (0, length img)"

text \<open>The same for the user domain's image.\<close>

definition load_domu_image :: "byte list \<Rightarrow> byte list \<Rightarrow> nat \<Rightarrow> nat \<Rightarrow> int \<times> byte list" where
  "load_domu_image img buf bufsize image_load_offset = (0, take bufsize (drop image_load_offset img) @ drop bufsize buf)"

definition get_domu_image_size :: "byte list \<Rightarrow> int \<times> nat" where
  "get_domu_image_size img = (0, length img)"

text \<open>A loader that copies the image in pieces of \<open>n\<close> gets all of it.\<close>

fun load_pieces :: "byte list \<Rightarrow> nat list \<Rightarrow> nat \<Rightarrow> byte list" where
  "load_pieces img [] off = []"
| "load_pieces img (n # ns) off = snd (load_ipl_image img (replicate n 0) n off) @ load_pieces img ns (off + n)"

lemma load_pieces_image: "off + sum_list ns = snd (get_ipl_image_size img) \<Longrightarrow> load_pieces img ns off = drop off img"
proof (induction ns arbitrary: off)
  case (Cons n ns)
  then have "load_pieces img ns (off + n) = drop (off + n) img" by (simp add: add.assoc)
  then show ?case
    by (simp add: load_ipl_image_def) (metis add.commute append_take_drop_id drop_drop)
qed (simp add: get_ipl_image_size_def)

section \<open>The main function\<close>

datatype MainCall = CallSetCustomTimestamp | CallMountFS | CallTEESupplicant | CallRebootWatcher | CallCreateDomains | CallLoggerInit | CallBackendInit

text \<open>The calls before the application's, none of the board's in the native build. Each that returns a result is asserted to succeed.\<close>

definition board_calls :: "bool \<Rightarrow> MainCall list" where
  "board_calls native =
     CallSetCustomTimestamp # (if native then [] else [CallMountFS, CallTEESupplicant, CallRebootWatcher, CallCreateDomains]) @
     [CallLoggerInit, CallBackendInit]"

fun run_asserted :: "('w \<Rightarrow> MainCall \<Rightarrow> bool \<times> 'w) \<Rightarrow> MainCall list \<Rightarrow> 'w \<Rightarrow> bool \<times> 'w" where
  "run_asserted call [] w = (True, w)"
| "run_asserted call (c # cs) w = (case call w c of (ok, w) \<Rightarrow> if ok then run_asserted call cs w else (False, w))"

text \<open>Whether the application runs, and the world.\<close>

definition main :: "('w \<Rightarrow> MainCall \<Rightarrow> bool \<times> 'w) \<Rightarrow> ('w \<Rightarrow> AppCall \<Rightarrow> Error \<times> 'w) \<Rightarrow> bool \<Rightarrow> 'w \<Rightarrow> bool \<times> 'w" where
  "main board call native w =
     (case run_asserted board (board_calls native) w of (ok, w) \<Rightarrow> if \<not> ok then (False, w) else main_app call native w)"

text \<open>The function that \<open>main\<close> registers for the end of the process: the application's stop, and the exit code.\<close>

definition main_atexit :: "('w \<Rightarrow> AppCall \<Rightarrow> Error \<times> 'w) \<Rightarrow> 'w \<Rightarrow> int \<times> 'w" where
  "main_atexit call w = (case App_Stop call w of (err, w) \<Rightarrow> (if err \<noteq> ENone then 1 else 0, w))"

section \<open>Properties\<close>

text \<open>A requested reboot is performed within one period: when the request can be read from some second on, the system is reset
  at most ten seconds later, at the watcher's next expiry, and never without a request having been read.\<close>

theorem reboot_within_period:
  assumes "\<forall>t\<ge>t0. xss t = (0, 2)"
  shows "(\<exists>t. t0 \<le> t \<and> t \<le> t0 + 10 \<and> t \<in> set (resets xss (t0 + 11))) \<and> (\<forall>t\<in>set (resets xss n). xss t = (0, 2))"
proof
  let ?k = "if t0 = 0 then 1 else (t0 + 9) div 10"
  have k: "t0 \<le> 10 * ?k" "10 * ?k \<le> t0 + 10" "1 \<le> ?k" by (auto split: if_splits)
  then have "expires reboot_watcher_init (10 * ?k)"
    by (auto simp: expires_def reboot_watcher_init_def CONFIG_AOS_REBOOT_CHECKING_PERIOD_SEC_def simp flip: diff_mult_distrib2)
  moreover have "trigger_reboot_check xss (10 * ?k)" using assms k(1) by (simp add: trigger_reboot_check_def perform_system_reboot_def)
  ultimately show "\<exists>t. t0 \<le> t \<and> t \<le> t0 + 10 \<and> t \<in> set (resets xss (t0 + 11))"
    using k by (intro exI [of _ "10 * ?k"]) (simp add: resets_def)
  show "\<forall>t\<in>set (resets xss n). xss t = (0, 2)"
    by (auto simp: resets_def trigger_reboot_check_def perform_system_reboot_def split: prod.splits if_splits)
qed

lemma reboot_within_period_witness: "\<exists>t. 7 \<le> t \<and> t \<le> 17 \<and> t \<in> set (resets (\<lambda>t. if 7 \<le> t then (0, 2) else (- 2, 0)) 18)"
  using reboot_within_period [of 7 "\<lambda>t. if 7 \<le> t then (0, 2) else (- 2, 0)"] by simp

text \<open>The two FAT mounts use different places: the temporary one is the first volume of the RAM disk, and a disk mount point that names another
  volume of the table is a partition of the SD card.\<close>

lemma mounts_apart:
  assumes "mounted FatFS point dev MountAos = Some a" "mounted FatFS point dev MountTmp = Some b" "volume_of point \<in> {Some 0, Some 1}"
  shows "fm_mnt_point a \<noteq> fm_mnt_point b" "fm_fs_data a \<noteq> fm_fs_data b"
    "fst (VolToPart ! the (volume_of (fm_mnt_point a))) = 3" "VolToPart ! the (volume_of (fm_mnt_point b)) = (0, 0)"
proof -
  have v: "volume_of ''/2:'' = Some 2" by (simp add: volume_of_def VolToPart_def digits_value_def is_digit_def)
  show "fm_mnt_point a \<noteq> fm_mnt_point b" "fm_fs_data a \<noteq> fm_fs_data b"
    "fst (VolToPart ! the (volume_of (fm_mnt_point a))) = 3" "VolToPart ! the (volume_of (fm_mnt_point b)) = (0, 0)"
    using assms v by (auto simp: mounted_def mp_aos_def mp_tmp_def) (auto simp: VolToPart_def)
qed

text \<open>The process always reports a successful end, because stopping logs its errors and returns none of them.\<close>

lemma main_atexit_zero: "fst (main_atexit call w) = 0"
  by (simp add: main_atexit_def App_Stop_def)

section \<open>The boot\<close>

text \<open>
  The world of \<open>main\<close>: files and domains of the board, the watcher's timer, the logging with the
  timestamp function it was given, and the application's world.
\<close>

datatype timestamp_func = PrintUTC

record ('f, 'd, 'z, 'a) boot_world =
  bw_timestamp :: "timestamp_func option"
  bw_fs :: 'f
  bw_domains :: 'd
  bw_timer :: "k_timer option"
  bw_callbacks :: log_callbacks
  bw_log_ctrl :: 'z
  bw_glue :: log_glue
  bw_app :: 'a

text \<open>What the calls of the board depend on: the build's choices, the libraries' results, and the directory of the logs.\<close>

record ('f, 'b, 'd, 'z) boot_env =
  be_custom_timestamp :: bool
  be_fs_choice :: FSChoice
  be_bsp :: "'f \<Rightarrow> BSPCall \<Rightarrow> int \<times> 'f"
  be_TEE_SupplicantInit :: int
  be_domains :: "('b, 'd) domains_env"
  be_domd :: "'b xen_domain_cfg option"
  be_domu :: bool
  be_gic_v3 :: bool
  be_back_cfg :: 'b
  be_log_ctrl :: "'z log_ctrl"
  be_filtering :: "nat option"
  be_backend :: backend_config
  be_MakeDirAll :: Error
  be_listing :: "(string \<times> bool) list"

definition board_call :: "('f, 'b, 'd, 'z) boot_env \<Rightarrow> ('f, 'd, 'z, 'a) boot_world \<Rightarrow> MainCall \<Rightarrow> bool \<times> ('f, 'd, 'z, 'a) boot_world" where
  "board_call env w c =
     (case c of
        CallSetCustomTimestamp \<Rightarrow> (True, w\<lparr>bw_timestamp := SetCustomTimestamp (be_custom_timestamp env) PrintUTC (bw_timestamp w)\<rparr>)
      | CallMountFS \<Rightarrow> (case mount_fs (be_fs_choice env) (be_bsp env) (bw_fs w) of (ret, f) \<Rightarrow> (ret = 0, w\<lparr>bw_fs := f\<rparr>))
      | CallTEESupplicant \<Rightarrow> (be_TEE_SupplicantInit env = 0, w)
      | CallRebootWatcher \<Rightarrow> (True, w\<lparr>bw_timer := Some reboot_watcher_init\<rparr>)
      | CallCreateDomains \<Rightarrow>
          (case create_domains (be_domains env) (be_domd env) (be_domu env) (be_gic_v3 env) (be_back_cfg env) (bw_domains w) of
             (ret, d) \<Rightarrow> (ret = 0, w\<lparr>bw_domains := d\<rparr>))
      | CallLoggerInit \<Rightarrow>
          (case Logger_Init (be_log_ctrl env) (be_filtering env) (bw_log_ctrl w) of
             (err, cbs, z) \<Rightarrow> (err = ENone, w\<lparr>bw_callbacks := cbs, bw_log_ctrl := z\<rparr>))
      | CallBackendInit \<Rightarrow>
          (case Glue_Init (be_backend env) (be_MakeDirAll env) (be_listing env) (bw_glue w) of
             (err, g) \<Rightarrow> (err = ENone, w\<lparr>bw_glue := g\<rparr>)))"

definition app_call :: "('a \<Rightarrow> AppCall \<Rightarrow> Error \<times> 'a) \<Rightarrow> ('f, 'd, 'z, 'a) boot_world \<Rightarrow> AppCall \<Rightarrow> Error \<times> ('f, 'd, 'z, 'a) boot_world" where
  "app_call call w c = (case call (bw_app w) c of (err, a) \<Rightarrow> (err, w\<lparr>bw_app := a\<rparr>))"

lemma run_calls_app: "run_calls (app_call call) cs w = (case run_calls call cs (bw_app w) of (err, a) \<Rightarrow> (err, w\<lparr>bw_app := a\<rparr>))"
proof (induction cs arbitrary: w)
  case (Cons c cs)
  obtain err a where c: "call (bw_app w) c = (err, a)" by fastforce
  then have "app_call call w c = (err, w\<lparr>bw_app := a\<rparr>)" by (simp add: app_call_def)
  with c Cons.IH [of "w\<lparr>bw_app := a\<rparr>"] show ?case by (cases "run_calls call cs a") simp
qed simp

lemma App_Start_calls: "App_Start call = run_calls call start_calls"
  by (simp only: App_Start_def start_calls_def list.map)

lemma main_app_lift:
  "main_app (app_call call) native w = (case main_app call native (bw_app w) of (ok, a) \<Rightarrow> (ok, w\<lparr>bw_app := a\<rparr>))"
proof -
  obtain err a where i: "run_calls call (init_calls native) (bw_app w) = (err, a)" by fastforce
  obtain err2 a2 where s: "run_calls call start_calls a = (err2, a2)" by fastforce
  show ?thesis
    using i s by (cases "err = ENone") (simp_all only: main_app_def App_Init_calls App_Start_calls run_calls_app prod.case,
      simp_all)
qed

text \<open>The calls of the board one by one.\<close>

definition first_calls :: "bool \<Rightarrow> MainCall list" where
  "first_calls native = CallSetCustomTimestamp # (if native then [] else [CallMountFS, CallTEESupplicant, CallRebootWatcher, CallCreateDomains])"

lemma board_calls_first: "board_calls native = first_calls native @ [CallLoggerInit, CallBackendInit]"
  by (simp add: board_calls_def first_calls_def)

lemma board_run:
  "run_asserted (board_call env) (board_calls native) w = (True, w1) \<Longrightarrow>
   \<exists>w0. run_asserted (board_call env) (first_calls native) w = (True, w0) \<and>
     run_asserted (board_call env) [CallLoggerInit, CallBackendInit] w0 = (True, w1)"
proof -
  have append: "run_asserted f (xs @ ys) w = (case run_asserted f xs w of (ok, w) \<Rightarrow> if ok then run_asserted f ys w else (False, w))" for f xs ys w
    by (induction xs arbitrary: w) (auto split: prod.splits)
  let ?cs = "first_calls native"
  assume run: "run_asserted (board_call env) (board_calls native) w = (True, w1)"
  obtain ok w0 where first: "run_asserted (board_call env) ?cs w = (ok, w0)" by fastforce
  have "(if ok then run_asserted (board_call env) [CallLoggerInit, CallBackendInit] w0 else (False, w0)) = (True, w1)"
    using run by (simp only: board_calls_first append first prod.case)
  then have "ok" "run_asserted (board_call env) [CallLoggerInit, CallBackendInit] w0 = (True, w1)" by (simp_all only: prod.inject simp_thms split: if_splits)
  then show ?thesis using first by (metis (full_types))
qed

lemma board_first:
  assumes "run_asserted (board_call env) (first_calls False) w = (True, w0)"
  shows "fst (mount_fs (be_fs_choice env) (be_bsp env) (bw_fs w)) = 0" "be_TEE_SupplicantInit env = 0"
    "fst (create_domains (be_domains env) (be_domd env) (be_domu env) (be_gic_v3 env) (be_back_cfg env) (bw_domains w)) = 0"
    "bw_timer w0 = Some reboot_watcher_init" "bw_glue w0 = bw_glue w" "bw_app w0 = bw_app w"
proof -
  obtain r1 f where m: "mount_fs (be_fs_choice env) (be_bsp env) (bw_fs w) = (r1, f)" by fastforce
  obtain r2 d where c: "create_domains (be_domains env) (be_domd env) (be_domu env) (be_gic_v3 env) (be_back_cfg env) (bw_domains w) = (r2, d)" by fastforce
  have "r1 = 0 \<and> be_TEE_SupplicantInit env = 0 \<and> r2 = 0 \<and>
      w0 = w\<lparr>bw_timestamp := SetCustomTimestamp (be_custom_timestamp env) PrintUTC (bw_timestamp w), bw_fs := f, bw_timer := Some reboot_watcher_init, bw_domains := d\<rparr>"
    using assms by (simp add: first_calls_def board_call_def m c split: if_splits)
  then show "fst (mount_fs (be_fs_choice env) (be_bsp env) (bw_fs w)) = 0" "be_TEE_SupplicantInit env = 0"
    "fst (create_domains (be_domains env) (be_domd env) (be_domu env) (be_gic_v3 env) (be_back_cfg env) (bw_domains w)) = 0"
    "bw_timer w0 = Some reboot_watcher_init" "bw_glue w0 = bw_glue w" "bw_app w0 = bw_app w"
    by (simp_all add: m c)
qed

lemma board_logging:
  assumes "run_asserted (board_call env) [CallLoggerInit, CallBackendInit] w0 = (True, w1)"
  shows "map fst (bw_callbacks w1) = callback_names" "bw_timer w1 = bw_timer w0" "bw_app w1 = bw_app w0"
    "Glue_Init (be_backend env) (be_MakeDirAll env) (be_listing env) (bw_glue w0) = (ENone, bw_glue w1)"
proof -
  obtain err cbs z where l: "Logger_Init (be_log_ctrl env) (be_filtering env) (bw_log_ctrl w0) = (err, cbs, z)" by (metis prod_cases3)
  obtain err2 g where g: "Glue_Init (be_backend env) (be_MakeDirAll env) (be_listing env) (bw_glue w0) = (err2, g)" by fastforce
  have w1: "err2 = ENone" "w1 = w0\<lparr>bw_callbacks := cbs, bw_log_ctrl := z, bw_glue := g\<rparr>"
    using assms by (simp_all add: board_call_def l g split: if_splits)
  have "cbs = set_callbacks" using l by (auto simp: Logger_Init_def Let_def split: option.splits prod.splits)
  then have "map fst cbs = callback_names" by (simp add: set_callbacks_table comp_def)
  then show "map fst (bw_callbacks w1) = callback_names" "bw_timer w1 = bw_timer w0" "bw_app w1 = bw_app w0"
    "Glue_Init (be_backend env) (be_MakeDirAll env) (be_listing env) (bw_glue w0) = (ENone, bw_glue w1)"
    using w1 g by simp_all
qed

lemma Glue_active:
  "Glue_Init bc mkdir listing g = (ENone, g') \<Longrightarrow> \<not> lg_active g \<Longrightarrow>
   lg_active g' \<longleftrightarrow> fst (RestoreLogFiles bc listing (lg_sLogBackend g)) = ENone"
  using activation_by_restore [of g bc mkdir listing] by (auto simp: Glue_Init_def FSBackend_Init_def split: if_splits)

text \<open>What holds when the application runs.\<close>

lemma main_ran:
  assumes "main (board_call env) (app_call call) native w = (True, w')" "\<not> lg_active (bw_glue w)"
  shows "(\<not> native \<longrightarrow> fst (mount_fs (be_fs_choice env) (be_bsp env) (bw_fs w)) = 0 \<and> be_TEE_SupplicantInit env = 0 \<and>
      fst (create_domains (be_domains env) (be_domd env) (be_domu env) (be_gic_v3 env) (be_back_cfg env) (bw_domains w)) = 0 \<and>
      bw_timer w' = Some reboot_watcher_init) \<and>
    map fst (bw_callbacks w') = callback_names \<and>
    fst (Glue_Init (be_backend env) (be_MakeDirAll env) (be_listing env) (bw_glue w)) = ENone \<and>
    (lg_active (bw_glue w') \<longleftrightarrow> fst (RestoreLogFiles (be_backend env) (be_listing env) (lg_sLogBackend (bw_glue w))) = ENone) \<and>
    main_app call native (bw_app w) = (True, bw_app w')"
proof -
  obtain ok w1 where b: "run_asserted (board_call env) (board_calls native) w = (ok, w1)" by fastforce
  then have ok: "ok" and run: "main_app (app_call call) native w1 = (True, w')" using assms(1) by (simp_all add: main_def split: if_splits)
  have "run_asserted (board_call env) (board_calls native) w = (True, w1)" using b ok by simp
  from board_run [OF this] obtain w0 where w0: "run_asserted (board_call env) (first_calls native) w = (True, w0)"
      "run_asserted (board_call env) [CallLoggerInit, CallBackendInit] w0 = (True, w1)" by (elim exE conjE)
  note l = board_logging [OF w0(2)]
  obtain a where a: "main_app call native (bw_app w1) = (True, a)" "w' = w1\<lparr>bw_app := a\<rparr>"
    using run by (cases "main_app call native (bw_app w1)") (simp add: main_app_lift)
  have kept: "bw_glue w0 = bw_glue w" "bw_app w0 = bw_app w"
  proof -
    have "w0 = w\<lparr>bw_timestamp := SetCustomTimestamp (be_custom_timestamp env) PrintUTC (bw_timestamp w)\<rparr> \<or> run_asserted (board_call env) (first_calls False) w = (True, w0)"
      using w0(1) by (cases native) (simp_all add: first_calls_def board_call_def)
    then show "bw_glue w0 = bw_glue w" "bw_app w0 = bw_app w" using board_first(5,6) [of env w w0] by (elim disjE; simp)+
  qed
  have act: "lg_active (bw_glue w') \<longleftrightarrow> fst (RestoreLogFiles (be_backend env) (be_listing env) (lg_sLogBackend (bw_glue w))) = ENone"
  proof -
    have "bw_glue w' = bw_glue w1" by (simp add: a(2))
    then show ?thesis using Glue_active [OF l(4)] assms(2) unfolding kept(1) by (simp only: simp_thms)
  qed
  have timer: "bw_timer w' = bw_timer w0" "map fst (bw_callbacks w') = callback_names" using a(2) l(1,2) by simp_all
  have app: "main_app call native (bw_app w) = (True, bw_app w')" using a l(3) kept(2) by simp
  have glue: "fst (Glue_Init (be_backend env) (be_MakeDirAll env) (be_listing env) (bw_glue w)) = ENone" using l(4) kept(1) by simp
  show ?thesis
  proof (cases native)
    case True
    with timer(2) app glue act show ?thesis by simp
  next
    case False
    then have "run_asserted (board_call env) (first_calls False) w = (True, w0)"
      using w0(1) by simp
    from board_first(1-4) [OF this] timer app glue act show ?thesis by simp
  qed
qed

text \<open>Every call of \<open>main\<close> with whether it succeeded, in the order made: the board's calls and the application's.\<close>

definition logged_board :: "('w \<Rightarrow> MainCall \<Rightarrow> bool \<times> 'w) \<Rightarrow> 'w \<times> ((MainCall + AppCall) \<times> bool) list \<Rightarrow> MainCall \<Rightarrow> bool \<times> 'w \<times> ((MainCall + AppCall) \<times> bool) list" where
  "logged_board board wt c = (case board (fst wt) c of (ok, w) \<Rightarrow> (ok, w, snd wt @ [(Inl c, ok)]))"

definition logged_app :: "('w \<Rightarrow> AppCall \<Rightarrow> Error \<times> 'w) \<Rightarrow> 'w \<times> ((MainCall + AppCall) \<times> bool) list \<Rightarrow> AppCall \<Rightarrow> Error \<times> 'w \<times> ((MainCall + AppCall) \<times> bool) list" where
  "logged_app call wt c = (case call (fst wt) c of (err, w) \<Rightarrow> (err, w, snd wt @ [(Inr c, err = ENone)]))"

lemma logged_step:
  "logged_board board (w, tr) d = (case board w d of (ok, w) \<Rightarrow> (ok, w, tr @ [(Inl d, ok)]))"
  "logged_app call (w, tr) c = (case call w c of (err, w) \<Rightarrow> (err, w, tr @ [(Inr c, err = ENone)]))"
  by (simp_all add: logged_board_def logged_app_def)

text \<open>The first calls of a list, all but the last succeeded; the result tells whether all were made and succeeded.\<close>

definition first_of :: "'c list \<Rightarrow> bool \<Rightarrow> ('c \<times> bool) list \<Rightarrow> bool" where
  "first_of cs ok t \<longleftrightarrow> map fst t = take (length t) cs \<and> (\<forall>x\<in>set (butlast t). snd x) \<and>
     (ok \<longleftrightarrow> map fst t = cs \<and> (\<forall>x\<in>set t. snd x))"

lemma first_of_Nil: "first_of [] True []"
  by (simp add: first_of_def)

lemma first_of_stop: "first_of (c # cs) False [(c, False)]"
  by (simp add: first_of_def)

lemma first_of_Cons: "first_of cs ok t \<Longrightarrow> first_of (c # cs) ok ((c, True) # t)"
  by (auto simp: first_of_def)

lemma first_of_append: "first_of cs True t \<Longrightarrow> first_of ds ok u \<Longrightarrow> first_of (cs @ ds) ok (t @ u)"
  by (auto simp: first_of_def butlast_append dest: in_set_butlastD)

lemma first_of_failed:
  assumes "first_of cs False t"
  shows "first_of (cs @ ds) False t"
proof -
  have t: "map fst t = take (length t) cs" "\<not> (map fst t = cs \<and> (\<forall>x\<in>set t. snd x))" using assms by (simp_all add: first_of_def)
  have len: "length t \<le> length cs" using arg_cong [OF t(1), of length] by simp
  have "\<not> (map fst t = cs @ ds \<and> (\<forall>x\<in>set t. snd x))"
  proof
    assume all: "map fst t = cs @ ds \<and> (\<forall>x\<in>set t. snd x)"
    then have "length t = length cs + length ds" by (metis length_append length_map)
    then have "ds = []" using len by simp
    then show False using all t(2) by simp
  qed
  with assms len show ?thesis by (simp add: first_of_def)
qed

lemma run_asserted_logged:
  "run_asserted (logged_board board) cs (w, tr) = (ok, w', tr') \<Longrightarrow>
   run_asserted board cs w = (ok, w') \<and> (\<exists>t. tr' = tr @ t \<and> first_of (map Inl cs) ok t)"
proof (induction cs arbitrary: w tr)
  case Nil
  then show ?case using first_of_Nil by auto
next
  case (Cons c cs)
  obtain k w1 where c: "board w c = (k, w1)" by fastforce
  show ?case
  proof (cases k)
    case False
    then show ?thesis using Cons.prems c first_of_stop [of "Inl c" "map Inl cs"] by (auto simp: logged_step)
  next
    case True
    then have "run_asserted (logged_board board) cs (w1, tr @ [(Inl c, True)]) = (ok, w', tr')"
      using Cons.prems c by (simp add: logged_step)
    from Cons.IH [OF this] obtain t where "run_asserted board cs w1 = (ok, w')" "tr' = tr @ (Inl c, True) # t" "first_of (map Inl cs) ok t" by auto
    then show ?thesis using c True first_of_Cons [of "map Inl cs" ok t "Inl c"] by auto
  qed
qed

lemma run_calls_logged:
  "run_calls (logged_app call) cs (w, tr) = (err, w', tr') \<Longrightarrow>
   run_calls call cs w = (err, w') \<and> (\<exists>t. tr' = tr @ t \<and> first_of (map Inr cs) (err = ENone) t)"
proof (induction cs arbitrary: w tr)
  case Nil
  then show ?case using first_of_Nil by auto
next
  case (Cons c cs)
  obtain e w1 where c: "call w c = (e, w1)" by fastforce
  show ?case
  proof (cases "e = ENone")
    case False
    then show ?thesis using Cons.prems c first_of_stop [of "Inr c" "map Inr cs"] by (auto simp: logged_step)
  next
    case True
    then have "run_calls (logged_app call) cs (w1, tr @ [(Inr c, True)]) = (err, w', tr')"
      using Cons.prems c by (simp add: logged_step)
    from Cons.IH [OF this] obtain t where "run_calls call cs w1 = (err, w')" "tr' = tr @ (Inr c, True) # t"
      "first_of (map Inr cs) (err = ENone) t" by auto
    then show ?thesis using c True first_of_Cons [of "map Inr cs" "err = ENone" t "Inr c"] by auto
  qed
qed

lemma main_app_logged:
  assumes "main_app (logged_app call) native (w, tr) = (ok, w', tr')"
  shows "main_app call native w = (ok, w') \<and> (\<exists>t. tr' = tr @ t \<and> first_of (map Inr (init_calls native @ start_calls)) ok t)"
proof -
  obtain err w1 tr1 where i: "run_calls (logged_app call) (init_calls native) (w, tr) = (err, w1, tr1)" by (metis prod_cases3)
  from run_calls_logged [OF i] obtain t1 where t1: "run_calls call (init_calls native) w = (err, w1)" "tr1 = tr @ t1"
    "first_of (map Inr (init_calls native)) (err = ENone) t1" by blast
  show ?thesis
  proof (cases "err = ENone")
    case False
    then have "ok = False" "w' = w1" "tr' = tr1" using assms i by (simp_all add: main_app_def App_Init_calls)
    with False t1 first_of_failed show ?thesis by (auto simp: main_app_def App_Init_calls)
  next
    case True
    obtain err2 w2 tr2 where s: "run_calls (logged_app call) start_calls (w1, tr1) = (err2, w2, tr2)" by (metis prod_cases3)
    from run_calls_logged [OF s] obtain t2 where t2: "run_calls call start_calls w1 = (err2, w2)" "tr2 = tr1 @ t2"
      "first_of (map Inr start_calls) (err2 = ENone) t2" by blast
    have "ok = (err2 = ENone)" "w' = w2" "tr' = tr2"
      using assms i s True by (simp_all only: main_app_def App_Init_calls App_Start_calls prod.case prod.inject simp_thms if_False)
    with True t1 t2 first_of_append [of "map Inr (init_calls native)" t1 "map Inr start_calls" "err2 = ENone" t2] show ?thesis
      by (simp only: main_app_def App_Init_calls App_Start_calls prod.case map_append append_assoc simp_thms if_False) blast
  qed
qed

text \<open>The calls of \<open>main\<close> come in one order, and each only after all before it have succeeded.\<close>

lemma main_logged:
  assumes "main (logged_board board) (logged_app call) native (w, []) = (ok, w', tr)"
  shows "main board call native w = (ok, w') \<and> first_of (map Inl (board_calls native) @ map Inr (init_calls native @ start_calls)) ok tr"
proof -
  obtain k w1 tr1 where b: "run_asserted (logged_board board) (board_calls native) (w, []) = (k, w1, tr1)" by (metis prod_cases3)
  from run_asserted_logged [OF b] have r: "run_asserted board (board_calls native) w = (k, w1)" "first_of (map Inl (board_calls native)) k tr1" by auto
  show ?thesis
  proof (cases k)
    case False
    then have "ok = False" "w' = w1" "tr = tr1" using assms b by (simp_all add: main_def)
    with False r first_of_failed show ?thesis by (simp add: main_def)
  next
    case True
    then have "main_app (logged_app call) native (w1, tr1) = (ok, w', tr)" using assms b by (simp add: main_def)
    from main_app_logged [OF this] obtain t where "main_app call native w1 = (ok, w')" "tr = tr1 @ t"
      "first_of (map Inr (init_calls native @ start_calls)) ok t" by blast
    with True r first_of_append [of "map Inl (board_calls native)" tr1] show ?thesis
      by (simp only: main_def prod.case simp_thms if_False)
  qed
qed

text \<open>C22. \<open>main\<close> makes its calls in one order, each only after every call before it has succeeded: on the board
  the timestamp function, the file systems, the supplicant, the reboot watcher and the domains, then the
  logger and its backend, and only then those of the application, initialisation before start. The application runs just when all of
  them were made and succeeded; then the file systems are mounted, the supplicant
  and the domains' creation reported success and the watcher's timer runs; the logger knows every module, its
  backend was initialised without error, and the application is what its own calls make of it. Messages
  reach the log files only if the files found at the start could be restored.\<close>

theorem main_running:
  assumes "main (logged_board (board_call env)) (logged_app (app_call call)) native (w, []) = (ok, w', tr)" "\<not> lg_active (bw_glue w)"
  shows "first_of (map Inl (CallSetCustomTimestamp #
        (if native then [] else [CallMountFS, CallTEESupplicant, CallRebootWatcher, CallCreateDomains]) @ [CallLoggerInit, CallBackendInit]) @
      map Inr (init_calls native @ start_calls)) ok tr \<and>
    (ok \<longrightarrow> (\<not> native \<longrightarrow> fst (mount_fs (be_fs_choice env) (be_bsp env) (bw_fs w)) = 0 \<and> be_TEE_SupplicantInit env = 0 \<and>
      fst (create_domains (be_domains env) (be_domd env) (be_domu env) (be_gic_v3 env) (be_back_cfg env) (bw_domains w)) = 0 \<and>
      bw_timer w' = Some reboot_watcher_init) \<and>
    map fst (bw_callbacks w') = callback_names \<and>
    fst (Glue_Init (be_backend env) (be_MakeDirAll env) (be_listing env) (bw_glue w)) = ENone \<and>
    (lg_active (bw_glue w') \<longleftrightarrow> fst (RestoreLogFiles (be_backend env) (be_listing env) (lg_sLogBackend (bw_glue w))) = ENone) \<and>
    main_app call native (bw_app w) = (True, bw_app w'))"
proof -
  from main_logged [OF assms(1)] have m: "main (board_call env) (app_call call) native w = (ok, w')"
    "first_of (map Inl (board_calls native) @ map Inr (init_calls native @ start_calls)) ok tr" by simp_all
  show ?thesis
    using m(2) main_ran [OF _ assms(2), of env call native w'] m(1) unfolding board_calls_def by (intro conjI impI) simp_all
qed

text \<open>A board without file system and domains, with an empty directory of logs.\<close>

definition demo_boot_env :: "(unit, unit, unit, unit) boot_env" where
  "demo_boot_env = \<lparr>be_custom_timestamp = True, be_fs_choice = NoFS, be_bsp = (\<lambda>f c. (0, f)), be_TEE_SupplicantInit = 0,
     be_domains = \<lparr>de_parse = (\<lambda>s b. (0, b)), de_create = (\<lambda>w c n. (1, w)), de_post_create = (\<lambda>w c n. (0, w))\<rparr>,
     be_domd = None, be_domu = False, be_gic_v3 = False, be_back_cfg = (),
     be_log_ctrl = \<lparr>lc_source_id_get = (\<lambda>m. 1), lc_backend_is_active = [], lc_filter_set = (\<lambda>z i s l. (0, z))\<rparr>, be_filtering = None,
     be_backend = demo_bc 2, be_MakeDirAll = ENone, be_listing = []\<rparr>"

definition demo_boot_world :: "(unit, unit, unit, nat) boot_world" where
  "demo_boot_world = \<lparr>bw_timestamp = None, bw_fs = (), bw_domains = (), bw_timer = None, bw_callbacks = [], bw_log_ctrl = (),
     bw_glue = \<lparr>lg_active = False, lg_sCurrentLogFormat = 0, lg_sLogBackend = demo_backend\<rparr>, bw_app = 0\<rparr>"

lemma run_calls_ok: "run_calls (\<lambda>w c. (ENone, w)) cs w = (ENone, w)"
  by (induction cs) simp_all

lemma main_running_witness:
  "\<exists>w' tr. main (logged_board (board_call demo_boot_env)) (logged_app (app_call (\<lambda>w c. (ENone, w)))) False (demo_boot_world, []) = (True, w', tr) \<and>
     take 7 (map fst tr) = map Inl [CallSetCustomTimestamp, CallMountFS, CallTEESupplicant, CallRebootWatcher, CallCreateDomains, CallLoggerInit,
       CallBackendInit] \<and>
     bw_timer w' = Some reboot_watcher_init \<and> map fst (bw_callbacks w') = callback_names"
proof -
  have "backend_ok (demo_bc 2)" by (simp add: backend_ok_def demo_bc_def)
  from Init_empty [OF this, of demo_backend] obtain b where b: "FSBackend_Init (demo_bc 2) ENone [] demo_backend = (ENone, True, b)"
    by (auto simp: demo_backend_def)
  let ?g = "\<lparr>lg_active = False, lg_sCurrentLogFormat = 0, lg_sLogBackend = demo_backend\<rparr>"
  have g: "Glue_Init (demo_bc 2) ENone [] ?g = (ENone, ?g\<lparr>lg_active := True, lg_sLogBackend := b\<rparr>)"
    by (simp add: Glue_Init_def b ActivateBackend_def)
  obtain w1 where "run_asserted (board_call demo_boot_env) (board_calls False) demo_boot_world = (True, w1)"
    by (simp add: board_calls_def board_call_def demo_boot_env_def demo_boot_world_def mount_fs_def create_domains_def Logger_Init_def g)
  moreover have "main_app (\<lambda>w c. (ENone, w)) False (bw_app w1) = (True, bw_app w1)"
    by (simp add: main_app_def App_Init_calls App_Start_calls run_calls_ok)
  ultimately obtain w2 where w2: "main (board_call demo_boot_env) (app_call (\<lambda>w c. (ENone, w))) False demo_boot_world = (True, w2)"
    by (simp add: main_def main_app_lift)
  obtain ok w' tr where l: "main (logged_board (board_call demo_boot_env)) (logged_app (app_call (\<lambda>w c. (ENone, w)))) False (demo_boot_world, []) = (ok, w', tr)"
    by (metis prod_cases3)
  with main_logged [OF l] w2 have ok: "ok" by simp
  have "\<not> lg_active (bw_glue demo_boot_world)" by (simp add: demo_boot_world_def)
  note r = main_running [OF l this]
  have "map fst tr = map Inl (CallSetCustomTimestamp # (if False then [] else [CallMountFS, CallTEESupplicant, CallRebootWatcher, CallCreateDomains]) @
      [CallLoggerInit, CallBackendInit]) @ map Inr (init_calls False @ start_calls)"
    using conjunct1 [OF r] ok unfolding first_of_def by blast
  from arg_cong [OF this, of "take 7"] have "take 7 (map fst tr) = map Inl [CallSetCustomTimestamp, CallMountFS, CallTEESupplicant,
      CallRebootWatcher, CallCreateDomains, CallLoggerInit, CallBackendInit]" by (simp only:) simp
  moreover have "bw_timer w' = Some reboot_watcher_init" "map fst (bw_callbacks w') = callback_names"
    using mp [OF conjunct2 [OF r] ok] by (simp_all only: simp_thms)
  ultimately show ?thesis using l ok by (intro exI [of _ w'] exI [of _ tr]) (simp only: simp_thms)
qed

end
